(* ===== verification/Prelude.thy ===== *)
theory Prelude
  imports Main "HOL-Library.Word" "HOL-Library.Multiset" "HOL-Library.Signed_Division"
begin

text \<open>
  Shared vocabulary of the eIPC development: bytes and Go strings, the error values of
  the Go code, big-endian integers (\<^verbatim>\<open>encoding/binary\<close>), instants and durations of the
  \<^verbatim>\<open>time\<close> package, and generic lemmas on lists, options and words.
\<close>

unbundle bit_operations_syntax

named_theorems wire_simps \<open>equations that evaluate encoders and decoders\<close>

section \<open>Bytes and strings\<close>

text \<open>
  A Go \<^verbatim>\<open>[]byte\<close> is a list of 8-bit words; \<^verbatim>\<open>nil\<close> and the empty slice are not
  distinguished (no operation of the program does). A Go string is a sequence of bytes;
  an Isabelle \<open>char\<close> is exactly a byte, so strings are \<open>string\<close>.
\<close>

type_synonym byte = "8 word"
type_synonym bytes = "byte list"

definition bytes_of_string :: "string \<Rightarrow> bytes" where
  "bytes_of_string s = map of_char s"

definition string_of_bytes :: "bytes \<Rightarrow> string" where
  "string_of_bytes bs = map (\<lambda>b. char_of (unat b)) bs"

section \<open>Errors\<close>

text \<open>
  The package-level error variables of the program (\<^verbatim>\<open>core/errors.go\<close>,
  \<^verbatim>\<open>protocol/frame.go\<close>, \<^verbatim>\<open>protocol/tensor.go\<close>, \<^verbatim>\<open>protocol/tensor_message.go\<close>,
  \<^verbatim>\<open>core/tensor_message.go\<close>, \<^verbatim>\<open>security/replay\<close>, \<^verbatim>\<open>security/encryption\<close>) and the two
  end-of-input errors of package \<^verbatim>\<open>io\<close>. An error built by
  \<^verbatim>\<open>fmt.Errorf(format, args...)\<close> is kept as its format and arguments.
\<close>

datatype sentinel =
    ErrAuth | ErrCapability | ErrIntegrity | ErrReplay | ErrTimeout | ErrBackpressure
  | ErrBadMagic | ErrBadVersion | ErrFrameTooLarge
  | ErrTensorDtype | ErrTensorDims | ErrTensorStrides | ErrTensorShmName | ErrTensorDigest
  | ErrTensorCaps | ErrTensorTooLarge | ErrTensorAlign | ErrTensorOverlap
  | ErrTensorNoCapability | ErrTensorCapabilityMismatch | ErrNilMessage
  | ReplayErrReplay
  | ErrInvalidKeySize | ErrCiphertextTooShort
  | EOF | ErrUnexpectedEOF

datatype error = Sentinel sentinel | Errorf string "farg list"
     and farg = AErr error | AStr string | AInt int | AStrs "string list"

text \<open>
  \<^verbatim>\<open>errors.Is(err, target)\<close>: every error operand the program formats is a \<^verbatim>\<open>%w\<close>
  operand, so the chain of an error follows its \<open>AErr\<close> arguments.
\<close>

fun errors_Is :: "error \<Rightarrow> sentinel \<Rightarrow> bool"
  and fargs_Is :: "farg list \<Rightarrow> sentinel \<Rightarrow> bool" where
  "errors_Is (Sentinel s) t = (s = t)"
| "errors_Is (Errorf fmt args) t = fargs_Is args t"
| "fargs_Is [] t = False"
| "fargs_Is (AErr e # as) t = (errors_Is e t \<or> fargs_Is as t)"
| "fargs_Is (AStr v # as) t = fargs_Is as t"
| "fargs_Is (AInt v # as) t = fargs_Is as t"
| "fargs_Is (AStrs v # as) t = fargs_Is as t"

type_synonym 'a result = "error + 'a"

definition rbind :: "'a result \<Rightarrow> ('a \<Rightarrow> 'b result) \<Rightarrow> 'b result" where
  "rbind r f = (case r of Inl e \<Rightarrow> Inl e | Inr x \<Rightarrow> f x)"

definition wrap_err :: "string \<Rightarrow> error \<Rightarrow> error" where
  "wrap_err fmt e = Errorf fmt [AErr e]"

text \<open>
  A string built by \<^verbatim>\<open>fmt.Sprintf\<close> is kept as its format and operands, and the text of
  an error, \<^verbatim>\<open>err.Error()\<close>, as the error.
\<close>

datatype gotext = Sprintf string "farg list" | ErrorText error

section \<open>Iteration over maps\<close>

text \<open>
  Go iterates over a map in an unspecified order. An operation that does so takes the
  order \<open>ks\<close> in which the runtime visits the keys as an argument; \<open>map_order\<close> says
  that it visits every key once, and \<open>map_values\<close> lists the values visited.
\<close>

definition map_order :: "('k \<rightharpoonup> 'v) \<Rightarrow> 'k list \<Rightarrow> bool" where
  "map_order m ks \<longleftrightarrow> distinct ks \<and> set ks = dom m"

definition map_values :: "('k \<rightharpoonup> 'v) \<Rightarrow> 'k list \<Rightarrow> 'v list" where
  "map_values m ks = List.map_filter m ks"

section \<open>Big-endian integers\<close>

definition PutUint16 :: "16 word \<Rightarrow> bytes" where
  "PutUint16 v = [ucast (drop_bit 8 v), ucast v]"

definition PutUint32 :: "32 word \<Rightarrow> bytes" where
  "PutUint32 v = [ucast (drop_bit 24 v), ucast (drop_bit 16 v), ucast (drop_bit 8 v), ucast v]"

definition PutUint64 :: "64 word \<Rightarrow> bytes" where
  "PutUint64 v =
     [ucast (drop_bit 56 v), ucast (drop_bit 48 v), ucast (drop_bit 40 v), ucast (drop_bit 32 v),
      ucast (drop_bit 24 v), ucast (drop_bit 16 v), ucast (drop_bit 8 v), ucast v]"

definition Uint16 :: "bytes \<Rightarrow> 16 word" where
  "Uint16 b = ucast (b ! 1) OR push_bit 8 (ucast (b ! 0))"

definition Uint32 :: "bytes \<Rightarrow> 32 word" where
  "Uint32 b = ucast (b ! 3) OR push_bit 8 (ucast (b ! 2)) OR push_bit 16 (ucast (b ! 1))
     OR push_bit 24 (ucast (b ! 0))"

definition Uint64 :: "bytes \<Rightarrow> 64 word" where
  "Uint64 b = ucast (b ! 7) OR push_bit 8 (ucast (b ! 6)) OR push_bit 16 (ucast (b ! 5))
     OR push_bit 24 (ucast (b ! 4)) OR push_bit 32 (ucast (b ! 3)) OR push_bit 40 (ucast (b ! 2))
     OR push_bit 48 (ucast (b ! 1)) OR push_bit 56 (ucast (b ! 0))"

section \<open>Signed 64-bit integers\<close>

text \<open>
  An \<^verbatim>\<open>int64\<close> is a 64-bit word read by \<open>sint\<close>; \<open>+\<close>, \<open>-\<close> and \<open>*\<close> wrap, comparisons
  are the signed ones, and Go's division truncates towards zero.
\<close>

definition int64_div :: "64 word \<Rightarrow> 64 word \<Rightarrow> 64 word" where
  "int64_div a b = word_of_int (sint a sdiv sint b)"

section \<open>Instants and durations\<close>

text \<open>
  An instant is the number of nanoseconds since Go's zero time, so \<^verbatim>\<open>IsZero\<close> is equality
  with 0; a duration is a signed 64-bit number of nanoseconds, and \<^verbatim>\<open>Time.Sub\<close>
  saturates at its bounds.
\<close>

type_synonym time = int
type_synonym duration = int

definition maxDuration :: duration where "maxDuration = 2 ^ 63 - 1"
definition minDuration :: duration where "minDuration = - (2 ^ 63)"

definition Millisecond :: duration where "Millisecond = 1000000"
definition Second :: duration where "Second = 1000000000"
definition Minute :: duration where "Minute = 60 * Second"
definition Hour :: duration where "Hour = 60 * Minute"

definition time_Sub :: "time \<Rightarrow> time \<Rightarrow> duration" where
  "time_Sub t u = max minDuration (min maxDuration (t - u))"

section \<open>Generic lemmas\<close>

lemma unat_of_char: "unat (of_char c :: byte) = of_char c"
proof -
  have "(of_char c :: byte) = of_nat (of_char c)" by (simp add: of_nat_of_char)
  then show ?thesis by (simp add: unat_of_nat)
qed

lemma char_of_of_char_byte [simp]: "char_of (unat (of_char c :: byte)) = c"
  by (simp add: unat_of_char)

lemma of_char_char_of_byte [simp]: "of_char (char_of (unat b)) = (b :: byte)"
proof -
  have "unat b < 256"
    using unsigned_less [of b] by simp
  then have "of_char (char_of (unat b)) = (of_nat (unat b) :: byte)"
    by (metis mod_less of_char_of of_nat_of_char)
  then show ?thesis by simp
qed

lemma string_of_bytes_of_string [simp]: "string_of_bytes (bytes_of_string s) = s"
  by (induction s) (simp_all add: bytes_of_string_def string_of_bytes_def)

lemma bytes_of_string_of_bytes [simp]: "bytes_of_string (string_of_bytes bs) = bs"
  by (induction bs) (simp_all add: bytes_of_string_def string_of_bytes_def)

lemma length_bytes_of_string [simp]: "length (bytes_of_string s) = length s"
  by (simp add: bytes_of_string_def)

lemma length_string_of_bytes [simp]: "length (string_of_bytes s) = length s"
  by (simp add: string_of_bytes_def)

lemma bytes_of_string_inject [simp]: "bytes_of_string s = bytes_of_string t \<longleftrightarrow> s = t"
  by (metis string_of_bytes_of_string)

lemma string_of_bytes_Nil [simp]: "string_of_bytes [] = []" "bytes_of_string [] = []"
  by (simp_all add: string_of_bytes_def bytes_of_string_def)

lemma length_Put [simp]:
  "length (PutUint16 v) = 2" "length (PutUint32 w) = 4" "length (PutUint64 x) = 8"
  by (simp_all add: PutUint16_def PutUint32_def PutUint64_def)

lemma rbind_simps [simp]: "rbind (Inl e) f = Inl e" "rbind (Inr x) f = f x"
  by (simp_all add: rbind_def)

lemma rbind_Inr_iff: "rbind r f = Inr y \<longleftrightarrow> (\<exists>x. r = Inr x \<and> f x = Inr y)"
  by (cases r) simp_all

subsection \<open>Byte lanes of a word\<close>

text \<open>
  A multi-byte integer is read and written one byte lane at a time; the two directions
  of \<^verbatim>\<open>encoding/binary\<close> are inverse to each other.
\<close>

lemma bit_byte_lane:
  fixes v :: "'a::len word"
  shows "bit (push_bit k (ucast (ucast (drop_bit k v) :: byte)) :: 'a word) n
     \<longleftrightarrow> k \<le> n \<and> n < k + 8 \<and> n < LENGTH('a) \<and> bit v n"
  by (auto simp: bit_simps)

lemma bit_byte_lane0:
  fixes v :: "'a::len word"
  shows "bit (ucast (ucast v :: byte) :: 'a word) n \<longleftrightarrow> n < 8 \<and> n < LENGTH('a) \<and> bit v n"
  by (auto simp: bit_simps)

lemma Uint16_Put [simp]: "Uint16 (PutUint16 v) = v"
proof (rule bit_word_eqI)
  fix n assume "n < LENGTH(16)"
  then show "bit (Uint16 (PutUint16 v)) n = bit v n"
    by (cases "bit v n")
      (simp_all add: Uint16_def PutUint16_def bit_or_iff bit_byte_lane bit_byte_lane0, linarith)
qed

lemma Uint32_Put [simp]: "Uint32 (PutUint32 v) = v"
proof (rule bit_word_eqI)
  fix n assume "n < LENGTH(32)"
  then show "bit (Uint32 (PutUint32 v)) n = bit v n"
    by (cases "bit v n")
      (simp_all add: Uint32_def PutUint32_def bit_or_iff bit_byte_lane bit_byte_lane0, linarith)
qed

lemma Uint64_Put [simp]: "Uint64 (PutUint64 v) = v"
proof (rule bit_word_eqI)
  fix n assume "n < LENGTH(64)"
  then show "bit (Uint64 (PutUint64 v)) n = bit v n"
    by (cases "bit v n")
      (simp_all add: Uint64_def PutUint64_def bit_or_iff bit_byte_lane bit_byte_lane0, linarith)
qed

lemma byte_lane_or:
  "ucast (drop_bit k (x OR y) :: 'a::len word) = (ucast (drop_bit k x) OR ucast (drop_bit k y) :: byte)"
  by (rule bit_word_eqI) (auto simp: bit_simps)

lemma byte_lane_push:
  fixes b :: byte
  assumes "k + 8 \<le> LENGTH('a::len)" "k mod 8 = 0" "j mod 8 = 0"
  shows "ucast (drop_bit k (push_bit j (ucast b) :: 'a word)) = (if j = k then b else 0)"
proof (rule bit_word_eqI)
  fix n assume n: "n < LENGTH(8)"
  have "\<not> bit b (k + n - j)" if "j < k"
  proof -
    from that assms have "j + 8 \<le> k" by presburger
    then show ?thesis using bit_imp_le_length [of b "k + n - j"] by auto
  qed
  moreover have "\<not> j \<le> k + n" if "k < j"
  proof -
    from that assms have "k + 8 \<le> j" by presburger
    then show ?thesis using n by auto
  qed
  ultimately show "bit (ucast (drop_bit k (push_bit j (ucast b) :: 'a word)) :: byte) n
      = bit (if j = k then b else 0) n"
    using n assms by (cases j k rule: linorder_cases) (auto simp: bit_simps)
qed

lemma byte_lane_zero:
  fixes b :: byte
  assumes "k + 8 \<le> LENGTH('a::len)" "k mod 8 = 0"
  shows "ucast (drop_bit k (ucast b :: 'a word)) = (if k = 0 then b else 0)"
  using byte_lane_push [of k 0 b, where 'a = 'a] assms by simp

lemmas byte_lanes = byte_lane_or byte_lane_or [of 0, simplified] byte_lane_push
  byte_lane_push [of 0, simplified] byte_lane_zero byte_lane_zero [of 0, simplified]

lemma list_of_length:
  "length b = 2 \<Longrightarrow> b = [b ! 0, b ! 1]"
  "length b = 4 \<Longrightarrow> b = [b ! 0, b ! 1, b ! 2, b ! 3]"
  "length b = 8 \<Longrightarrow> b = [b ! 0, b ! 1, b ! 2, b ! 3, b ! 4, b ! 5, b ! 6, b ! 7]"
  by (auto simp: numeral_eq_Suc length_Suc_conv)

lemma Put_Uint16: "length b = 2 \<Longrightarrow> PutUint16 (Uint16 b) = b"
  using list_of_length(1) [of b] by (simp add: PutUint16_def Uint16_def byte_lanes)

lemma Put_Uint32: "length b = 4 \<Longrightarrow> PutUint32 (Uint32 b) = b"
  using list_of_length(2) [of b] by (simp add: PutUint32_def Uint32_def byte_lanes)

lemma Put_Uint64: "length b = 8 \<Longrightarrow> PutUint64 (Uint64 b) = b"
  using list_of_length(3) [of b] by (simp add: PutUint64_def Uint64_def byte_lanes)

lemma Put_inject [simp]:
  "PutUint16 v = PutUint16 v' \<longleftrightarrow> v = v'"
  "PutUint32 w = PutUint32 w' \<longleftrightarrow> w = w'"
  "PutUint64 x = PutUint64 x' \<longleftrightarrow> x = x'"
  by (metis Uint16_Put, metis Uint32_Put, metis Uint64_Put)

lemma unat_of_nat_small:
  "n < 2 ^ LENGTH('a::len) \<Longrightarrow> unat (of_nat n :: 'a word) = n"
  by (simp add: unat_of_nat)

subsection \<open>Signed arithmetic within range\<close>

lemma int_div_less_iff:
  fixes a b q :: int
  assumes "0 < q"
  shows "a div q < b \<longleftrightarrow> a < b * q"
proof
  assume "a div q < b"
  then have "(a div q + 1) * q \<le> b * q"
    using assms by (intro mult_right_mono) simp_all
  moreover have "a < (a div q + 1) * q"
    using pos_mod_bound [OF assms, of a] div_mult_mod_eq [of a q] by (simp only: distrib_right)
  ultimately show "a < b * q" by simp
next
  assume "a < b * q"
  show "a div q < b"
  proof (rule ccontr)
    assume "\<not> a div q < b"
    then have "b * q \<le> (a div q) * q"
      using assms by (intro mult_right_mono) simp_all
    also have "\<dots> \<le> a"
      using assms div_mult_mod_eq [of a q] pos_mod_sign [of q a] by linarith
    finally show False using \<open>a < b * q\<close> by simp
  qed
qed

lemma sint64_range: "- (2 ^ 63) \<le> sint (x :: 64 word)" "sint (x :: 64 word) < 2 ^ 63"
  using sint_ge [of x] sint_lt [of x] by simp_all

lemma sint64_fits:
  assumes "- (2 ^ 63) \<le> i" "i < 2 ^ 63"
  shows "signed_take_bit 63 i = (i :: int)"
  using assms by (intro signed_take_bit_int_eq_self) simp_all

lemma sint64_add:
  "- (2 ^ 63) \<le> sint a + sint b \<Longrightarrow> sint a + sint b < 2 ^ 63 \<Longrightarrow> sint (a + b :: 64 word) = sint a + sint b"
  by (simp add: sint_word_add sint64_fits)

lemma sint64_diff:
  "- (2 ^ 63) \<le> sint a - sint b \<Longrightarrow> sint a - sint b < 2 ^ 63 \<Longrightarrow> sint (a - b :: 64 word) = sint a - sint b"
  by (simp add: sint_word_diff sint64_fits)

lemma sint64_mult:
  "- (2 ^ 63) \<le> sint a * sint b \<Longrightarrow> sint a * sint b < 2 ^ 63 \<Longrightarrow> sint (a * b :: 64 word) = sint a * sint b"
  by (simp add: sint_word_mult sint64_fits)

lemma sint64_div:
  assumes "0 \<le> sint a" "0 < sint b"
  shows "sint (int64_div a b) = sint a div sint b"
proof -
  have "sint a div sint b \<le> sint a"
    using zdiv_mono2 [of "sint a" 1 "sint b"] assms by simp
  moreover have "0 \<le> sint a div sint b"
    using assms by (simp add: pos_imp_zdiv_nonneg_iff)
  moreover have "sint a sdiv sint b = sint a div sint b"
    using assms by (cases "sint a = 0") (simp_all add: signed_divide_int_def sgn_if)
  ultimately show ?thesis
    using sint64_range(2) [of a] by (simp add: int64_div_def sint_sbintrunc' sint64_fits)
qed

text \<open>Maps visited in some order.\<close>

lemma set_map_values: "map_order m ks \<Longrightarrow> set (map_values m ks) = ran m"
  by (auto simp: map_order_def map_values_def List.map_filter_def ran_def dom_def image_def)

lemma map_values_in: "map_order m ks \<Longrightarrow> m k = Some v \<Longrightarrow> v \<in> set (map_values m ks)"
  using set_map_values [of m ks] by (auto simp: ran_def)

lemma in_map_values_iff: "map_order m ks \<Longrightarrow> v \<in> set (map_values m ks) \<longleftrightarrow> (\<exists>k. m k = Some v)"
  by (simp add: set_map_values ran_def)

lemma map_values_eq: "map_order m ks \<Longrightarrow> map_values m ks = map (the \<circ> m) ks"
  by (auto simp: map_order_def map_values_def List.map_filter_def dom_def intro!: filter_True)

lemma length_map_values: "map_order m ks \<Longrightarrow> length (map_values m ks) = card (dom m)"
  by (simp add: map_values_eq map_order_def distinct_card [symmetric])

lemma distinct_map_values:
  assumes "inj_on m (dom m)" and "map_order m ks"
  shows "distinct (map_values m ks)"
proof -
  have "inj_on (the \<circ> m) (set ks)"
    using assms by (auto simp: map_order_def inj_on_def dom_def)
  then show ?thesis using assms(2) by (simp add: map_values_eq distinct_map map_order_def)
qed

end
