(* ===== verification/ByteIO.thy ===== *)
theory ByteIO
  imports Prelude
begin

text \<open>
  Byte readers and writers. \<open>io.Reader\<close> and \<open>io.Writer\<close> values are state-passing
  functions; \<open>io.ReadFull\<close> is the loop of package \<^verbatim>\<open>io\<close> over \<open>Read\<close>. The concrete
  readers and writers are those of \<^verbatim>\<open>transport/transport.go\<close> (\<open>limitedBuffer\<close>,
  \<open>bytesReader\<close>), the in-memory reader of package \<^verbatim>\<open>bytes\<close> and a stream connection
  whose input arrives in segments of any size. The locales \<open>io_reader\<close>,
  \<open>full_reader\<close> and \<open>io_writer\<close> are the contracts the decoders and encoders use.
\<close>

section \<open>Readers and writers\<close>

type_synonym 'w writer = "'w \<Rightarrow> bytes \<Rightarrow> error option \<times> 'w"

text \<open>\<open>Read\<close> with a buffer of \<open>n\<close> bytes: the bytes read, the error, the new state.\<close>

type_synonym 'r reader = "'r \<Rightarrow> nat \<Rightarrow> (bytes \<times> error option) \<times> 'r"

text \<open>\<open>io.ReadFull\<close> with a buffer of \<open>n\<close> bytes.\<close>

type_synonym 'r full_read = "'r \<Rightarrow> nat \<Rightarrow> bytes result \<times> 'r"

text \<open>
  The loop of \<open>io.ReadFull\<close>: read until \<open>need\<close> bytes are there or \<open>Read\<close> fails; an
  \<open>EOF\<close> after some bytes becomes \<open>ErrUnexpectedEOF\<close>. The loop spends one unit of fuel
  per \<open>Read\<close>; \<open>None\<close> is "has not returned yet".
\<close>

fun ReadFull_loop :: "nat \<Rightarrow> 'r reader \<Rightarrow> nat \<Rightarrow> bytes \<Rightarrow> 'r \<Rightarrow> (bytes result \<times> 'r) option" where
  "ReadFull_loop 0 rd need acc r = (if need \<le> length acc then Some (Inr acc, r) else None)"
| "ReadFull_loop (Suc fuel) rd need acc r =
     (if need \<le> length acc then Some (Inr acc, r)
      else case rd r (need - length acc) of ((bs, err), r') \<Rightarrow>
        (let acc' = acc @ bs in
         if need \<le> length acc' then Some (Inr acc', r')
         else case err of
             None \<Rightarrow> ReadFull_loop fuel rd need acc' r'
           | Some e \<Rightarrow>
               Some (Inl (if acc' \<noteq> [] \<and> e = Sentinel EOF then Sentinel ErrUnexpectedEOF else e), r')))"

text \<open>
  \<open>n\<close> units of fuel are enough for a reader that makes progress (lemma
  \<open>ReadFull_loop_enough\<close> below), so the last branch is never taken by such a reader.
\<close>

definition io_ReadFull :: "'r reader \<Rightarrow> 'r full_read" where
  "io_ReadFull rd r n =
     (case ReadFull_loop n rd n [] r of Some x \<Rightarrow> x | None \<Rightarrow> (Inl (Sentinel EOF), r))"

text \<open>Reading from the bytes themselves (\<open>bytes.NewReader\<close>): the reference behaviour.\<close>

definition stream_ReadFull :: "bytes full_read" where
  "stream_ReadFull r n =
     (if n \<le> length r then (Inr (take n r), drop n r)
      else (Inl (Sentinel (if r = [] then EOF else ErrUnexpectedEOF)), []))"

subsection \<open>limitedBuffer and bytesReader\<close>

record limitedBuffer =
  lb_data :: bytes

definition limitedBuffer_Write :: "limitedBuffer writer" where
  "limitedBuffer_Write b p = (None, b\<lparr>lb_data := lb_data b @ p\<rparr>)"

definition limitedBuffer_Bytes :: "limitedBuffer \<Rightarrow> bytes" where
  "limitedBuffer_Bytes b = lb_data b"

record bytesReader =
  br_data :: bytes
  br_pos :: nat

definition newBytesReader :: "bytes \<Rightarrow> bytesReader" where
  "newBytesReader data = \<lparr>br_data = data, br_pos = 0\<rparr>"

definition bytesReader_Read :: "bytesReader reader" where
  "bytesReader_Read r n =
     (if br_pos r \<ge> length (br_data r) then (([], Some (Sentinel EOF)), r)
      else let bs = take n (drop (br_pos r) (br_data r))
           in ((bs, None), r\<lparr>br_pos := br_pos r + length bs\<rparr>))"

text \<open>The \<open>bytes.Buffer\<close> a tensor descriptor is encoded into.\<close>

definition buffer_Write :: "bytes writer" where
  "buffer_Write b p = (None, b @ p)"

subsection \<open>A stream connection\<close>

text \<open>
  The \<open>net.Conn\<close> below a transport: the segments still to arrive (the peer closes after
  them), the bytes written so far, whether it has been closed, the error that every
  further write reports once the peer is gone, and the peer's address.
\<close>

record netconn =
  nc_in :: "bytes list"
  nc_out :: bytes
  nc_closed :: bool
  nc_broken :: "error option"
  nc_remote :: string

fun segs_Read :: "bytes list reader" where
  "segs_Read [] n = (([], Some (Sentinel EOF)), [])"
| "segs_Read ([] # cs) n = segs_Read cs n"
| "segs_Read (c # cs) n = ((take n c, None), drop n c # cs)"

definition errClosed :: error where
  "errClosed = Errorf ''use of closed network connection'' []"

definition netconn_Read :: "netconn reader" where
  "netconn_Read c n =
     (if nc_closed c then (([], Some errClosed), c)
      else case segs_Read (nc_in c) n of (res, cs) \<Rightarrow> (res, c\<lparr>nc_in := cs\<rparr>))"

definition netconn_Write :: "netconn writer" where
  "netconn_Write c p =
     (if nc_closed c then (Some errClosed, c)
      else case nc_broken c of
          Some e \<Rightarrow> (Some e, c)
        | None \<Rightarrow> (None, c\<lparr>nc_out := nc_out c @ p\<rparr>))"

definition netconn_Close :: "netconn \<Rightarrow> error option \<times> netconn" where
  "netconn_Close c = (if nc_closed c then (Some errClosed, c) else (None, c\<lparr>nc_closed := True\<rparr>))"

section \<open>Contracts\<close>

text \<open>A writer whose successful writes append to its contents.\<close>

locale io_writer =
  fixes wr :: "'w writer"
    and contents :: "'w \<Rightarrow> bytes"
  assumes write_appends: "wr w p = (None, w') \<Longrightarrow> contents w' = contents w @ p"

text \<open>A reader that has \<open>stream r\<close> left and fails or makes progress on every \<open>Read\<close>.\<close>

locale io_reader =
  fixes rd :: "'r reader"
    and stream :: "'r \<Rightarrow> bytes"
    and inv :: "'r \<Rightarrow> bool"
  assumes read_eof: "inv r \<Longrightarrow> stream r = [] \<Longrightarrow>
      \<exists>r'. rd r n = (([], Some (Sentinel EOF)), r') \<and> inv r' \<and> stream r' = []"
    and read_some: "inv r \<Longrightarrow> stream r \<noteq> [] \<Longrightarrow> 0 < n \<Longrightarrow>
      \<exists>bs r'. rd r n = ((bs, None), r') \<and> bs \<noteq> [] \<and> length bs \<le> n
        \<and> stream r = bs @ stream r' \<and> inv r'"

text \<open>A \<open>ReadFull\<close> that behaves as the one on the bytes themselves.\<close>

locale full_reader =
  fixes rf :: "'r full_read"
    and stream :: "'r \<Rightarrow> bytes"
    and inv :: "'r \<Rightarrow> bool"
  assumes rf_stream: "inv r \<Longrightarrow> \<exists>r'. rf r n = (fst (stream_ReadFull (stream r) n), r')
      \<and> stream r' = snd (stream_ReadFull (stream r) n) \<and> inv r'"

context full_reader
begin

lemma rf_cases:
  assumes "inv r"
  obtains (ok) r' where "n \<le> length (stream r)" "rf r n = (Inr (take n (stream r)), r')"
      "stream r' = drop n (stream r)" "inv r'"
  | (short) r' where "length (stream r) < n"
      "rf r n = (Inl (Sentinel (if stream r = [] then EOF else ErrUnexpectedEOF)), r')"
      "stream r' = []" "inv r'"
  using rf_stream [OF assms, of n]
  by (auto simp: stream_ReadFull_def not_le split: if_splits)

end

context io_reader
begin

text \<open>Enough fuel: one unit per missing byte.\<close>

lemma ReadFull_loop_enough:
  assumes "inv r" "need \<le> length acc + fuel" "length acc \<le> need"
  shows "\<exists>r'. ReadFull_loop fuel rd need acc r =
     Some (if need \<le> length acc + length (stream r)
           then Inr (acc @ take (need - length acc) (stream r))
           else Inl (Sentinel (if acc @ stream r = [] then EOF else ErrUnexpectedEOF)), r')
     \<and> stream r' = drop (need - length acc) (stream r) \<and> inv r'"
  using assms
proof (induction fuel arbitrary: acc r)
  case 0
  then show ?case by auto
next
  case (Suc fuel)
  show ?case
  proof (cases "need \<le> length acc")
    case True
    with Suc.prems show ?thesis by auto
  next
    case more: False
    show ?thesis
    proof (cases "stream r = []")
      case True
      with Suc.prems obtain r' where
        "rd r (need - length acc) = (([], Some (Sentinel EOF)), r')" "inv r'" "stream r' = []"
        using read_eof by blast
      with more True show ?thesis by auto
    next
      case False
      with Suc.prems more obtain bs r' where
        rd: "rd r (need - length acc) = ((bs, None), r')" and bs: "bs \<noteq> []"
          "length bs \<le> need - length acc" and st: "stream r = bs @ stream r'" and inv: "inv r'"
        using read_some [of r "need - length acc"] by (metis not_le zero_less_diff)
      show ?thesis
      proof (cases "need \<le> length (acc @ bs)")
        case True
        with rd more have "ReadFull_loop (Suc fuel) rd need acc r = Some (Inr (acc @ bs), r')"
          by simp
        moreover from True bs more have "need - length acc = length bs" by simp
        ultimately show ?thesis using inv more by (simp add: st)
      next
        case not_yet: False
        with rd more have step: "ReadFull_loop (Suc fuel) rd need acc r = ReadFull_loop fuel rd need (acc @ bs) r'"
          by simp
        have "need \<le> length (acc @ bs) + fuel" "length (acc @ bs) \<le> need"
          using Suc.prems bs not_yet by (cases bs; simp)+
        then obtain r'' where loop: "ReadFull_loop fuel rd need (acc @ bs) r' =
           Some (if need \<le> length (acc @ bs) + length (stream r')
             then Inr ((acc @ bs) @ take (need - length (acc @ bs)) (stream r'))
             else Inl (Sentinel (if (acc @ bs) @ stream r' = [] then EOF else ErrUnexpectedEOF)), r'')"
          and "stream r'' = drop (need - length (acc @ bs)) (stream r')" "inv r''"
          using Suc.IH [OF inv, of "acc @ bs"] by blast
        then show ?thesis
          unfolding step loop by (intro exI [of _ r'']) (use bs in \<open>simp add: st add.assoc\<close>)
      qed
    qed
  qed
qed

end

sublocale io_reader \<subseteq> full_reader "io_ReadFull rd" stream inv
proof
  fix r n assume "inv r"
  then obtain r' where "ReadFull_loop n rd n [] r =
     Some (if n \<le> length (stream r) then Inr (take n (stream r))
           else Inl (Sentinel (if stream r = [] then EOF else ErrUnexpectedEOF)), r')"
    "stream r' = drop n (stream r)" "inv r'"
    using ReadFull_loop_enough [of r n "[]" n] by auto
  then show "\<exists>r'. io_ReadFull rd r n = (fst (stream_ReadFull (stream r) n), r')
      \<and> stream r' = snd (stream_ReadFull (stream r) n) \<and> inv r'"
    by (auto simp: io_ReadFull_def stream_ReadFull_def)
qed

section \<open>Successful reads\<close>

lemma stream_ReadFull_append: "length a = n \<Longrightarrow> stream_ReadFull (a @ b) n = (Inr a, b)"
  by (simp add: stream_ReadFull_def)

lemma stream_ReadFull_Inr:
  "stream_ReadFull r n = (Inr a, b) \<longleftrightarrow> r = a @ b \<and> length a = n"
  by (auto simp: stream_ReadFull_def split: if_splits)

lemma case_read_Inr:
  "(case m of (Inl e, r) \<Rightarrow> (Inl (g e r), h e r) | (Inr x, r) \<Rightarrow> f x r) = (Inr y, r')
     \<longleftrightarrow> (\<exists>x r1. m = (Inr x, r1) \<and> f x r1 = (Inr y, r'))"
  by (cases m; cases "fst m") auto

lemma if_read_Inr: "(if c then (Inl e, r) else m) = (Inr y, r') \<longleftrightarrow> \<not> c \<and> m = (Inr y, r')"
  by simp

section \<open>The contracts hold of the model's readers and writers\<close>

definition bytesReader_stream :: "bytesReader \<Rightarrow> bytes" where
  "bytesReader_stream r = drop (br_pos r) (br_data r)"

interpretation byte_stream: full_reader stream_ReadFull "\<lambda>r. r" "\<lambda>_. True"
  by (unfold_locales, metis prod.collapse)

interpretation bytesrd: io_reader bytesReader_Read bytesReader_stream "\<lambda>_. True"
proof
  fix r :: bytesReader and n
  show "\<exists>r'. bytesReader_Read r n = (([], Some (Sentinel EOF)), r') \<and> True \<and> bytesReader_stream r' = []"
    if "bytesReader_stream r = []"
    using that by (auto simp: bytesReader_Read_def bytesReader_stream_def)
  show "\<exists>bs r'. bytesReader_Read r n = ((bs, None), r') \<and> bs \<noteq> [] \<and> length bs \<le> n
        \<and> bytesReader_stream r = bs @ bytesReader_stream r' \<and> True"
    if "bytesReader_stream r \<noteq> []" "0 < n"
  proof (intro exI conjI)
    let ?bs = "take n (drop (br_pos r) (br_data r))"
    show "bytesReader_Read r n = ((?bs, None), r\<lparr>br_pos := br_pos r + length ?bs\<rparr>)"
      using that by (simp add: bytesReader_Read_def bytesReader_stream_def Let_def)
    show "?bs \<noteq> []"
      using that by (simp add: bytesReader_stream_def)
    show "bytesReader_stream r = ?bs @ bytesReader_stream (r\<lparr>br_pos := br_pos r + length ?bs\<rparr>)"
      by (cases "n \<le> length (br_data r) - br_pos r")
        (simp_all add: bytesReader_stream_def add.commute min_def
          append_take_drop_id [of n "drop (br_pos r) (br_data r)", simplified])
  qed simp_all
qed

lemma segs_Read_concat:
  "0 < n \<Longrightarrow> concat cs \<noteq> [] \<Longrightarrow> \<exists>bs cs'. segs_Read cs n = ((bs, None), cs') \<and> bs \<noteq> []
     \<and> length bs \<le> n \<and> concat cs = bs @ concat cs'"
  by (induction cs n rule: segs_Read.induct) auto

lemma segs_Read_eof:
  "concat cs = [] \<Longrightarrow> segs_Read cs n = (([], Some (Sentinel EOF)), [])"
  by (induction cs n rule: segs_Read.induct) auto

interpretation netrd: io_reader netconn_Read "\<lambda>c. concat (nc_in c)" "\<lambda>c. \<not> nc_closed c"
proof
  fix c :: netconn and n
  show "\<exists>r'. netconn_Read c n = (([], Some (Sentinel EOF)), r') \<and> \<not> nc_closed r' \<and> concat (nc_in r') = []"
    if "\<not> nc_closed c" "concat (nc_in c) = []"
    using that segs_Read_eof [of "nc_in c" n] by (auto simp: netconn_Read_def)
  show "\<exists>bs r'. netconn_Read c n = ((bs, None), r') \<and> bs \<noteq> [] \<and> length bs \<le> n
        \<and> concat (nc_in c) = bs @ concat (nc_in r') \<and> \<not> nc_closed r'"
    if "\<not> nc_closed c" "concat (nc_in c) \<noteq> []" "0 < n"
    using that segs_Read_concat [of n "nc_in c"] by (fastforce simp: netconn_Read_def)
qed

interpretation lbuf: io_writer limitedBuffer_Write lb_data
  by unfold_locales (auto simp: limitedBuffer_Write_def)

interpretation membuf: io_writer buffer_Write "\<lambda>b. b"
  by unfold_locales (auto simp: buffer_Write_def)

interpretation netwr: io_writer netconn_Write nc_out
  by unfold_locales (auto simp: netconn_Write_def split: if_splits option.splits)

end
