(* ===== verification/Frame.thy ===== *)
theory Frame
  imports ByteIO
begin

text \<open>
  The wire format, \<^verbatim>\<open>protocol/frame.go\<close>: the frame, \<open>Encode\<close>, \<open>Decode\<close> and
  \<open>SignableBytes\<close>. \<open>Decode\<close> and \<open>Encode\<close> work over any reader and writer, as in the
  code; the lemmas show that \<open>Decode\<close> accepts exactly the encodings of well-formed
  frames, and that the bytes under the MAC determine every other field.
\<close>

section \<open>Constants and the frame\<close>

definition MagicBytes :: "32 word" where "MagicBytes = 0x45495043"
definition MaxFrameSize :: "32 word" where "MaxFrameSize = push_bit 20 1"
definition MACSize :: nat where "MACSize = 32"
definition ProtocolVersion :: "16 word" where "ProtocolVersion = 1"

definition FlagHMAC :: byte where "FlagHMAC = push_bit 0 1"
definition FlagCompress :: byte where "FlagCompress = push_bit 1 1"
definition FlagEncrypted :: byte where "FlagEncrypted = push_bit 2 1"

definition FrameFixedSize :: nat where "FrameFixedSize = 4 + 2 + 1 + 1 + 4 + 4"

record frame =
  f_Version :: "16 word"
  f_MsgType :: byte
  f_Flags :: byte
  f_Header :: bytes
  f_Payload :: bytes
  f_MAC :: bytes

section \<open>Operations\<close>

text \<open>Go's gslice expression \<open>b[i:j]\<close> (used within bounds).\<close>

definition gslice :: "nat \<Rightarrow> nat \<Rightarrow> 'a list \<Rightarrow> 'a list" where
  "gslice i j b = take (j - i) (drop i b)"

definition has_flag :: "byte \<Rightarrow> byte \<Rightarrow> bool" where
  "has_flag flags flag \<longleftrightarrow> flags AND flag \<noteq> 0"

text \<open>The fixed-width preamble both \<open>Encode\<close> and \<open>SignableBytes\<close> fill in.\<close>

definition preamble :: "frame \<Rightarrow> bytes" where
  "preamble f = PutUint32 MagicBytes @ PutUint16 (f_Version f) @ [f_MsgType f, f_Flags f]
     @ PutUint32 (of_nat (length (f_Header f))) @ PutUint32 (of_nat (length (f_Payload f)))"

definition Encode :: "'w writer \<Rightarrow> frame \<Rightarrow> 'w \<Rightarrow> error option \<times> 'w" where
  "Encode wr f w =
     (if length (f_Header f) + length (f_Payload f) > unat MaxFrameSize
      then (Some (Sentinel ErrFrameTooLarge), w)
      else case wr w (preamble f) of
        (Some e, w1) \<Rightarrow> (Some (wrap_err ''write preamble: %w'' e), w1)
      | (None, w1) \<Rightarrow> (case wr w1 (f_Header f) of
          (Some e, w2) \<Rightarrow> (Some (wrap_err ''write header: %w'' e), w2)
        | (None, w2) \<Rightarrow> (case wr w2 (f_Payload f) of
            (Some e, w3) \<Rightarrow> (Some (wrap_err ''write payload: %w'' e), w3)
          | (None, w3) \<Rightarrow>
              (if has_flag (f_Flags f) FlagHMAC \<and> length (f_MAC f) = MACSize
               then case wr w3 (f_MAC f) of
                   (Some e, w4) \<Rightarrow> (Some (wrap_err ''write mac: %w'' e), w4)
                 | (None, w4) \<Rightarrow> (None, w4)
               else (None, w3)))))"

text \<open>A variable-length field is only read when its length is positive.\<close>

definition read_field :: "'r full_read \<Rightarrow> 'r \<Rightarrow> nat \<Rightarrow> bytes result \<times> 'r" where
  "read_field rf r n = (if n > 0 then rf r n else (Inr [], r))"

definition Decode :: "'r full_read \<Rightarrow> 'r \<Rightarrow> frame result \<times> 'r" where
  "Decode rf r =
     (case rf r FrameFixedSize of
       (Inl e, r1) \<Rightarrow> (Inl (wrap_err ''read preamble: %w'' e), r1)
     | (Inr pre, r1) \<Rightarrow>
        (if Uint32 (gslice 0 4 pre) \<noteq> MagicBytes then (Inl (Sentinel ErrBadMagic), r1)
         else let version = Uint16 (gslice 4 6 pre) in
         if version \<noteq> ProtocolVersion then (Inl (Sentinel ErrBadVersion), r1)
         else let headerLen = Uint32 (gslice 8 12 pre); payloadLen = Uint32 (gslice 12 16 pre) in
         if unat headerLen + unat payloadLen > unat MaxFrameSize
         then (Inl (Sentinel ErrFrameTooLarge), r1)
         else case read_field rf r1 (unat headerLen) of
           (Inl e, r2) \<Rightarrow> (Inl (wrap_err ''read header: %w'' e), r2)
         | (Inr hdr, r2) \<Rightarrow> (case read_field rf r2 (unat payloadLen) of
             (Inl e, r3) \<Rightarrow> (Inl (wrap_err ''read payload: %w'' e), r3)
           | (Inr pl, r3) \<Rightarrow>
              (let f = \<lparr>f_Version = version, f_MsgType = pre ! 6, f_Flags = pre ! 7,
                        f_Header = hdr, f_Payload = pl, f_MAC = []\<rparr> in
               if has_flag (f_Flags f) FlagHMAC
               then case rf r3 MACSize of
                   (Inl e, r4) \<Rightarrow> (Inl (wrap_err ''read mac: %w'' e), r4)
                 | (Inr mac, r4) \<Rightarrow> (Inr (f\<lparr>f_MAC := mac\<rparr>), r4)
               else (Inr f, r3)))))"

definition SignableBytes :: "frame \<Rightarrow> bytes" where
  "SignableBytes f =
     (if length (f_Header f) + length (f_Payload f) > unat MaxFrameSize then []
      else preamble f @ f_Header f @ f_Payload f)"

section \<open>The wire format as a specification\<close>

definition frame_fits :: "frame \<Rightarrow> bool" where
  "frame_fits f \<longleftrightarrow> length (f_Header f) + length (f_Payload f) \<le> unat MaxFrameSize"

definition frame_wf :: "frame \<Rightarrow> bool" where
  "frame_wf f \<longleftrightarrow> f_Version f = ProtocolVersion \<and> frame_fits f
     \<and> (if has_flag (f_Flags f) FlagHMAC then length (f_MAC f) = MACSize else f_MAC f = [])"

definition mac_part :: "frame \<Rightarrow> bytes" where
  "mac_part f = (if has_flag (f_Flags f) FlagHMAC \<and> length (f_MAC f) = MACSize then f_MAC f else [])"

definition wire :: "frame \<Rightarrow> bytes" where
  "wire f = preamble f @ f_Header f @ f_Payload f @ mac_part f"

section \<open>Lemmas\<close>

lemma unat_MaxFrameSize [simp]: "unat MaxFrameSize = 1048576"
  by (simp add: MaxFrameSize_def)

lemma length_gslice [simp]: "length (gslice i j b) = min (j - i) (length b - i)"
  by (simp add: gslice_def min.commute)

lemma gslice_append_left: "j \<le> length b \<Longrightarrow> gslice i j (b @ c) = gslice i j b"
  by (simp add: gslice_def)

lemma length_preamble [simp]: "length (preamble f) = 16"
  by (simp add: preamble_def)

lemma FrameFixedSize_eq [simp]: "FrameFixedSize = 16"
  by (simp add: FrameFixedSize_def)

lemma preamble_fields [simp]:
  "gslice 0 4 (preamble f) = PutUint32 MagicBytes"
  "gslice 4 6 (preamble f) = PutUint16 (f_Version f)"
  "preamble f ! 6 = f_MsgType f" "preamble f ! 7 = f_Flags f"
  "gslice 8 12 (preamble f) = PutUint32 (of_nat (length (f_Header f)))"
  "gslice 12 16 (preamble f) = PutUint32 (of_nat (length (f_Payload f)))"
  by (simp_all add: preamble_def gslice_def nth_append)

lemma frame_fits_lengths:
  "frame_fits f \<Longrightarrow> unat (of_nat (length (f_Header f)) :: 32 word) = length (f_Header f)"
  "frame_fits f \<Longrightarrow> unat (of_nat (length (f_Payload f)) :: 32 word) = length (f_Payload f)"
  by (auto simp: frame_fits_def intro!: unat_of_nat_small)

lemma preamble_split:
  "length (b :: bytes) = 16 \<Longrightarrow> b = gslice 0 4 b @ gslice 4 6 b @ [b ! 6, b ! 7] @ gslice 8 12 b @ gslice 12 16 b"
  by (auto simp: numeral_eq_Suc length_Suc_conv gslice_def)

lemma read_field_stream:
  "read_field stream_ReadFull r n =
     (if n \<le> length r then (Inr (take n r), drop n r)
      else (Inl (Sentinel (if r = [] then EOF else ErrUnexpectedEOF)), []))"
  by (simp add: read_field_def stream_ReadFull_def)

lemma Decode_stream_unfold:
  "Decode stream_ReadFull bs =
     (if length bs < 16
      then (Inl (wrap_err ''read preamble: %w'' (Sentinel (if bs = [] then EOF else ErrUnexpectedEOF))), [])
      else let pre = take 16 bs; r1 = drop 16 bs;
           hl = unat (Uint32 (gslice 8 12 pre)); pl = unat (Uint32 (gslice 12 16 pre));
           fl = has_flag (pre ! 7) FlagHMAC in
       if Uint32 (gslice 0 4 pre) \<noteq> MagicBytes then (Inl (Sentinel ErrBadMagic), r1)
       else if Uint16 (gslice 4 6 pre) \<noteq> ProtocolVersion then (Inl (Sentinel ErrBadVersion), r1)
       else if hl + pl > 1048576 then (Inl (Sentinel ErrFrameTooLarge), r1)
       else if length r1 < hl
       then (Inl (wrap_err ''read header: %w'' (Sentinel (if r1 = [] then EOF else ErrUnexpectedEOF))), [])
       else let r2 = drop hl r1 in
       if length r2 < pl
       then (Inl (wrap_err ''read payload: %w'' (Sentinel (if r2 = [] then EOF else ErrUnexpectedEOF))), [])
       else let r3 = drop pl r2 in
       if fl \<and> length r3 < MACSize
       then (Inl (wrap_err ''read mac: %w'' (Sentinel (if r3 = [] then EOF else ErrUnexpectedEOF))), [])
       else (Inr \<lparr>f_Version = ProtocolVersion, f_MsgType = pre ! 6, f_Flags = pre ! 7,
               f_Header = take hl r1, f_Payload = take pl r2,
               f_MAC = (if fl then take MACSize r3 else [])\<rparr>,
             if fl then drop MACSize r3 else r3))"
  by (simp add: Decode_def read_field_stream stream_ReadFull_def Let_def not_le)

lemma Decode_wire: 
  assumes "frame_wf f"
  shows "Decode stream_ReadFull (wire f @ rest) = (Inr f, rest)"
proof -
  have "frame_fits f" using assms by (simp add: frame_wf_def)
  note lens = frame_fits_lengths [OF this]
  have fits: "\<not> 1048576 < length (f_Header f) + length (f_Payload f)"
    and v: "f_Version f = ProtocolVersion"
    using assms by (simp_all add: frame_wf_def frame_fits_def)
  have pre: "take 16 (wire f @ rest) = preamble f"
    and body: "drop 16 (wire f @ rest) = f_Header f @ f_Payload f @ mac_part f @ rest"
    by (simp_all add: wire_def)
  have len: "\<not> length (wire f @ rest) < 16"
    by (simp add: wire_def)
  have mac: "has_flag (f_Flags f) FlagHMAC \<Longrightarrow> mac_part f = f_MAC f \<and> length (f_MAC f) = MACSize"
    "\<not> has_flag (f_Flags f) FlagHMAC \<Longrightarrow> mac_part f = [] \<and> f_MAC f = []"
    using assms by (simp_all add: frame_wf_def mac_part_def)
  show ?thesis
    unfolding Decode_stream_unfold Let_def pre body if_not_P [OF len] preamble_fields
    by (cases "has_flag (f_Flags f) FlagHMAC") (simp_all add: lens fits v [symmetric] mac)
qed

lemma Decode_canonical:
  assumes "Decode stream_ReadFull bs = (Inr f, rest)"
  shows "frame_wf f \<and> bs = wire f @ rest"
proof -
  define pre where "pre = take 16 bs"
  define r1 where "r1 = drop 16 bs"
  define hl where "hl = Uint32 (gslice 8 12 pre)"
  define pl where "pl = Uint32 (gslice 12 16 pre)"
  let ?r2 = "drop (unat hl) r1"
  let ?r3 = "drop (unat pl) ?r2"
  let ?fl = "has_flag (pre ! 7) FlagHMAC"
  have len: "16 \<le> length bs" and magic: "Uint32 (gslice 0 4 pre) = MagicBytes"
    and version: "Uint16 (gslice 4 6 pre) = ProtocolVersion"
    and fits: "unat hl + unat pl \<le> 1048576" "unat hl \<le> length r1" "unat pl \<le> length ?r2"
    and mac: "?fl \<longrightarrow> MACSize \<le> length ?r3"
    and f: "f = \<lparr>f_Version = ProtocolVersion, f_MsgType = pre ! 6, f_Flags = pre ! 7,
               f_Header = take (unat hl) r1, f_Payload = take (unat pl) ?r2,
               f_MAC = (if ?fl then take MACSize ?r3 else [])\<rparr>"
    and rest: "rest = (if ?fl then drop MACSize ?r3 else ?r3)"
    using assms unfolding Decode_stream_unfold
    by (simp_all add: Let_def pre_def r1_def hl_def pl_def not_less split: if_splits)
  have "length pre = 16" using len by (simp add: pre_def)
  then have "pre = gslice 0 4 pre @ gslice 4 6 pre @ [pre ! 6, pre ! 7] @ gslice 8 12 pre @ gslice 12 16 pre"
    by (rule preamble_split)
  moreover have "gslice 0 4 pre = PutUint32 MagicBytes"
    using Put_Uint32 [of "gslice 0 4 pre"] \<open>length pre = 16\<close> magic by simp
  moreover have "gslice 4 6 pre = PutUint16 ProtocolVersion"
    using Put_Uint16 [of "gslice 4 6 pre"] \<open>length pre = 16\<close> version by simp
  moreover have "gslice 8 12 pre = PutUint32 hl" "gslice 12 16 pre = PutUint32 pl"
    using Put_Uint32 [of "gslice 8 12 pre"] Put_Uint32 [of "gslice 12 16 pre"] \<open>length pre = 16\<close>
    by (simp_all add: hl_def pl_def)
  ultimately have "preamble f = pre"
    using fits by (simp add: f preamble_def)
  moreover have "mac_part f @ rest = ?r3"
    using mac by (cases ?fl) (simp_all add: mac_part_def f rest del: drop_drop)
  moreover have "bs = pre @ take (unat hl) r1 @ take (unat pl) ?r2 @ ?r3"
    by (simp only: append_take_drop_id pre_def r1_def)
  ultimately have "bs = wire f @ rest"
    by (simp add: wire_def f)
  moreover have "frame_wf f"
    using fits mac by (simp add: f frame_wf_def frame_fits_def)
  ultimately show ?thesis by simp
qed

lemma SignableBytes_MAC [simp]: "SignableBytes (f\<lparr>f_MAC := m\<rparr>) = SignableBytes f"
  by (simp add: SignableBytes_def preamble_def)

lemma preamble_SignableBytes: "frame_fits f \<Longrightarrow> SignableBytes f = preamble f @ f_Header f @ f_Payload f"
  by (simp add: SignableBytes_def frame_fits_def)

lemma SignableBytes_inject:
  assumes "frame_fits f" "frame_fits g" "SignableBytes f = SignableBytes g"
  shows "f_Version f = f_Version g \<and> f_MsgType f = f_MsgType g \<and> f_Flags f = f_Flags g
    \<and> f_Header f = f_Header g \<and> f_Payload f = f_Payload g"
proof -
  have eq: "preamble f @ f_Header f @ f_Payload f = preamble g @ f_Header g @ f_Payload g"
    using assms by (simp add: preamble_SignableBytes)
  then have pre: "preamble f = preamble g" and body: "f_Header f @ f_Payload f = f_Header g @ f_Payload g"
    by (simp_all add: append_eq_append_conv)
  from pre have "gslice 8 12 (preamble f) = gslice 8 12 (preamble g)" by simp
  then have "length (f_Header f) = length (f_Header g)"
    using frame_fits_lengths assms(1,2) by (metis Put_inject(2) preamble_fields(5))
  with body have "f_Header f = f_Header g" "f_Payload f = f_Payload g" by simp_all
  moreover have "f_Version f = f_Version g" "f_MsgType f = f_MsgType g" "f_Flags f = f_Flags g"
    using pre by (metis preamble_fields(2) Put_inject(1), metis preamble_fields(3), metis preamble_fields(4))
  ultimately show ?thesis by simp
qed

text \<open>Any reader that meets the contract decodes as the bytes it stands for.\<close>

context full_reader
begin

lemma rf_field:
  assumes "inv r"
  shows "\<exists>r'. read_field rf r n = (fst (read_field stream_ReadFull (stream r) n), r')
     \<and> stream r' = snd (read_field stream_ReadFull (stream r) n) \<and> inv r'"
  using rf_stream [OF assms, of n] assms by (cases "n > 0") (auto simp: read_field_def)

lemma Decode_reader:
  assumes "inv r"
  shows "\<exists>r'. Decode rf r = (fst (Decode stream_ReadFull (stream r)), r')
     \<and> stream r' = snd (Decode stream_ReadFull (stream r)) \<and> inv r'"
proof -
  obtain r1 where r1: "rf r FrameFixedSize = (fst (stream_ReadFull (stream r) FrameFixedSize), r1)"
    "stream r1 = snd (stream_ReadFull (stream r) FrameFixedSize)" "inv r1"
    using rf_stream [OF assms] by blast
  obtain res1 s1 where s1: "stream_ReadFull (stream r) FrameFixedSize = (res1, s1)" by fastforce
  show ?thesis
  proof (cases res1)
    case (Inl e)
    with r1 s1 show ?thesis by (simp add: Decode_def)
  next
    case (Inr pre)
    define hl where "hl = unat (Uint32 (gslice 8 12 pre))"
    define pl where "pl = unat (Uint32 (gslice 12 16 pre))"
    obtain r2 where r2: "read_field rf r1 hl = (fst (read_field stream_ReadFull s1 hl), r2)"
      "stream r2 = snd (read_field stream_ReadFull s1 hl)" "inv r2"
      using rf_field [OF r1(3)] r1(2) s1 by auto
    obtain res2 s2 where s2: "read_field stream_ReadFull s1 hl = (res2, s2)" by fastforce
    obtain r3 where r3: "read_field rf r2 pl = (fst (read_field stream_ReadFull s2 pl), r3)"
      "stream r3 = snd (read_field stream_ReadFull s2 pl)" "inv r3"
      using rf_field [OF r2(3)] r2(2) s2 by auto
    obtain res3 s3 where s3: "read_field stream_ReadFull s2 pl = (res3, s3)" by fastforce
    obtain r4 where r4: "rf r3 MACSize = (fst (stream_ReadFull s3 MACSize), r4)"
      "stream r4 = snd (stream_ReadFull s3 MACSize)" "inv r4"
      using rf_stream [OF r3(3)] r3(2) s3 by auto
    obtain res4 s4 where s4: "stream_ReadFull s3 MACSize = (res4, s4)" by fastforce
    show ?thesis
      using r1 r2 r3 r4 s1 s2 s3 s4 Inr
      by (cases res2; cases res3; cases res4) (simp_all add: Decode_def Let_def hl_def pl_def)
  qed
qed

end

text \<open>Any writer that meets the contract receives exactly the wire bytes.\<close>

context io_writer
begin

lemma Encode_writer:
  assumes "Encode wr f w = (None, w')"
  shows "frame_fits f \<and> contents w' = contents w @ wire f"
  using assms write_appends
  by (fastforce simp: Encode_def frame_fits_def wire_def mac_part_def split: if_splits prod.splits option.splits)

end

lemma Encode_limitedBuffer:
  "Encode limitedBuffer_Write f b =
     (if frame_fits f then (None, b\<lparr>lb_data := lb_data b @ wire f\<rparr>)
      else (Some (Sentinel ErrFrameTooLarge), b))"
  by (simp add: Encode_def limitedBuffer_Write_def frame_fits_def wire_def mac_part_def)

text \<open>A signed frame of the default version used in the examples below.\<close>

definition example_frame :: frame where
  "example_frame = \<lparr>f_Version = 1, f_MsgType = 0x69, f_Flags = 1, f_Header = [0x7B, 0x7D],
     f_Payload = [1, 2, 3], f_MAC = replicate 32 0xAB\<rparr>"

lemma example_frame_wf: "frame_wf example_frame"
  by (simp add: example_frame_def frame_wf_def frame_fits_def ProtocolVersion_def has_flag_def FlagHMAC_def MACSize_def)

section \<open>Properties\<close>

text \<open>
  A well-formed frame survives the wire: \<open>Encode\<close> succeeds, and \<open>Decode\<close> run on any
  open connection whose incoming segments add up to those bytes and some more returns the
  same frame and leaves exactly the rest unread, however the segments are cut.
\<close>

theorem frame_round_trip:
  assumes "frame_wf f" and "\<not> nc_closed c"
    and "concat (nc_in c) = lb_data (snd (Encode limitedBuffer_Write f \<lparr>lb_data = []\<rparr>)) @ rest"
  shows "fst (Encode limitedBuffer_Write f \<lparr>lb_data = []\<rparr>) = None
    \<and> (\<exists>c'. Decode (io_ReadFull netconn_Read) c = (Inr f, c') \<and> concat (nc_in c') = rest)"
proof -
  have "frame_fits f" using assms(1) by (simp add: frame_wf_def)
  then show ?thesis
    using netrd.Decode_reader [OF assms(2)] Decode_wire [OF assms(1), of rest] assms(3)
    by (auto simp: Encode_limitedBuffer)
qed

theorem frame_round_trip_witness:
  "\<exists>c'. Decode (io_ReadFull netconn_Read)
      \<lparr>nc_in = [take 7 (wire example_frame), drop 7 (wire example_frame), [9]], nc_out = [],
       nc_closed = False, nc_broken = None, nc_remote = []\<rparr> = (Inr example_frame, c')
     \<and> concat (nc_in c') = [9]"
  using frame_round_trip [of example_frame "\<lparr>nc_in = [take 7 (wire example_frame), drop 7 (wire example_frame), [9]],
       nc_out = [], nc_closed = False, nc_broken = None, nc_remote = []\<rparr>" "[9]"]
    example_frame_wf
  by (simp add: Encode_limitedBuffer frame_wf_def)

text \<open>
  C24: The encoding is canonical: on any byte stream, \<open>Decode\<close> succeeds with a frame
  and a remaining stream exactly when the frame is well formed and the bytes it consumed are
  the frame's encoding. No two byte strings decode to the same frame.
\<close>

theorem frame_Decode_canonical:
  "Decode stream_ReadFull bs = (Inr f, rest) \<longleftrightarrow>
     frame_wf f \<and> (\<exists>b. Encode limitedBuffer_Write f \<lparr>lb_data = []\<rparr> = (None, \<lparr>lb_data = b\<rparr>) \<and> bs = b @ rest)"
  using Decode_canonical [of bs f rest] Decode_wire [of f rest]
  by (auto simp: Encode_limitedBuffer frame_wf_def)

text \<open>
  The MAC covers everything but itself: two frames within the size limit have the
  same \<open>SignableBytes\<close> only when version, type, flags, header and payload all agree, so
  no two messages share a signature by shifting bytes between header and payload.
\<close>

theorem frame_SignableBytes_injective:
  assumes "frame_fits f" and "frame_fits g"
  shows "SignableBytes f = SignableBytes g \<longleftrightarrow> f\<lparr>f_MAC := []\<rparr> = g\<lparr>f_MAC := []\<rparr>"
proof
  assume "SignableBytes f = SignableBytes g"
  with SignableBytes_inject [OF assms] show "f\<lparr>f_MAC := []\<rparr> = g\<lparr>f_MAC := []\<rparr>" by simp
next
  assume "f\<lparr>f_MAC := []\<rparr> = g\<lparr>f_MAC := []\<rparr>"
  then have "SignableBytes (f\<lparr>f_MAC := []\<rparr>) = SignableBytes (g\<lparr>f_MAC := []\<rparr>)" by simp
  then show "SignableBytes f = SignableBytes g"
    by simp
qed

theorem frame_SignableBytes_injective_witness:
  "SignableBytes example_frame \<noteq> SignableBytes (example_frame\<lparr>f_Header := [0x7B], f_Payload := [0x7D, 1, 2, 3]\<rparr>)"
  using frame_SignableBytes_injective [of example_frame "example_frame\<lparr>f_Header := [0x7B], f_Payload := [0x7D, 1, 2, 3]\<rparr>"]
  by (simp add: example_frame_def frame_fits_def)

end
