(* ===== verification/Tensor.thy ===== *)
theory Tensor
  imports ByteIO Frame
begin

text \<open>
  \<^verbatim>\<open>protocol/tensor.go\<close>: tensor descriptors, \<open>Validate\<close>, \<open>Encode\<close> and \<open>DecodeTensor\<close>.
  \<open>tensor_valid\<close> states with unbounded integers what \<open>Validate\<close> is for; the lemmas say
  when the 64-bit arithmetic of the code decides it. \<open>DecodeTensor\<close> accepts exactly the
  encodings of descriptors within the decode bounds.
\<close>

section \<open>Data types and constants\<close>

type_synonym TensorDtype = byte

definition TensorF32 :: TensorDtype where "TensorF32 = 0"
definition TensorF16 :: TensorDtype where "TensorF16 = 1"
definition TensorBF16 :: TensorDtype where "TensorBF16 = 2"
definition TensorINT8 :: TensorDtype where "TensorINT8 = 3"
definition TensorINT4 :: TensorDtype where "TensorINT4 = 4"
definition TensorQ4_0 :: TensorDtype where "TensorQ4_0 = 5"
definition TensorQ8_0 :: TensorDtype where "TensorQ8_0 = 7"

definition MaxTensorDims :: nat where "MaxTensorDims = 8"
definition MaxTensorShmNameLen :: nat where "MaxTensorShmNameLen = 256"
definition MaxTensorCaps :: nat where "MaxTensorCaps = 32"
definition MaxTensorCapLen :: nat where "MaxTensorCapLen = 128"
definition MaxTensorDigestLen :: nat where "MaxTensorDigestLen = 128"

lemmas tensor_dtypes = TensorF32_def TensorF16_def TensorBF16_def TensorINT8_def TensorINT4_def
  TensorQ4_0_def TensorQ8_0_def
lemmas tensor_limits = MaxTensorDims_def MaxTensorShmNameLen_def MaxTensorCaps_def
  MaxTensorCapLen_def MaxTensorDigestLen_def

definition dtypeBytes :: "TensorDtype \<Rightarrow> 64 word" where
  "dtypeBytes t =
     (if t = TensorF32 then 4
      else if t = TensorF16 \<or> t = TensorBF16 then 2
      else if t = TensorINT8 \<or> t = TensorINT4 \<or> t = TensorQ4_0 \<or> t = TensorQ8_0 then 1
      else 0)"

record TensorDescriptor =
  td_Dtype :: TensorDtype
  td_Shape :: "64 word list"
  td_Strides :: "64 word list"
  td_ShmName :: string
  td_Offset :: "64 word"
  td_Size :: "64 word"
  td_Capabilities :: "string list"
  td_ModelDigest :: string

section \<open>Validate\<close>

text \<open>\<open>for i, dim := range d.Shape\<close>, from index \<open>i\<close>.\<close>

fun check_dims :: "nat \<Rightarrow> 64 word list \<Rightarrow> error option" where
  "check_dims i [] = None"
| "check_dims i (dim # dims) =
     (if dim \<le>s 0
      then Some (Errorf ''%w: shape[%d]=%d (zero or negative dim)''
             [AErr (Sentinel ErrTensorDims), AInt (int i), AInt (sint dim)])
      else check_dims (Suc i) dims)"

definition limit62 :: "64 word" where "limit62 = push_bit 62 1"

text \<open>The loop that accumulates \<open>extent\<close>, from index \<open>i\<close>; the two lists have equal length.\<close>

fun extent_loop :: "64 word \<Rightarrow> nat \<Rightarrow> 64 word list \<Rightarrow> 64 word list \<Rightarrow> 64 word \<Rightarrow> 64 word result" where
  "extent_loop elem i (dim # dims) (s # ss) extent =
     (if s <s 0
      then Inl (Errorf ''%w: strides[%d]=%d (negative stride)''
             [AErr (Sentinel ErrTensorStrides), AInt (int i), AInt (sint s)])
      else if 0 <s dim - 1 \<and> int64_div limit62 (dim - 1) <s s
      then Inl (Errorf ''%w: strides[%d] overflows extent''
             [AErr (Sentinel ErrTensorStrides), AInt (int i)])
      else let extent' = extent + (dim - 1) * s in
        if int64_div limit62 elem <s extent'
        then Inl (Errorf ''%w: footprint overflows int64'' [AErr (Sentinel ErrTensorStrides)])
        else extent_loop elem (Suc i) dims ss extent')"
| "extent_loop elem i _ _ extent = Inr extent"

fun check_caps :: "nat \<Rightarrow> string list \<Rightarrow> error option" where
  "check_caps i [] = None"
| "check_caps i (c # cs) =
     (if c = '''' \<or> length c > MaxTensorCapLen
      then Some (Errorf ''%w: capability[%d]'' [AErr (Sentinel ErrTensorCaps), AInt (int i)])
      else check_caps (Suc i) cs)"

definition is_hex_char :: "char \<Rightarrow> bool" where
  "is_hex_char c \<longleftrightarrow> (let n = of_char c :: nat in
     (48 \<le> n \<and> n \<le> 57) \<or> (97 \<le> n \<and> n \<le> 102) \<or> (65 \<le> n \<and> n \<le> 70))"

definition isSHA256Hex :: "string \<Rightarrow> bool" where
  "isSHA256Hex s \<longleftrightarrow> length s = 64 \<and> list_all is_hex_char s"

definition isSHA256Prefixed :: "string \<Rightarrow> bool" where
  "isSHA256Prefixed s \<longleftrightarrow> length s = length ''sha256:'' + 64
     \<and> take (length ''sha256:'') s = ''sha256:'' \<and> isSHA256Hex (drop (length ''sha256:'') s)"

definition Validate :: "TensorDescriptor \<Rightarrow> error option" where
  "Validate d =
     (if dtypeBytes (td_Dtype d) = 0
      then Some (Errorf ''%w: %d'' [AErr (Sentinel ErrTensorDtype), AInt (uint (td_Dtype d))])
      else let ndim = length (td_Shape d) in
      if ndim = 0 \<or> ndim > MaxTensorDims
      then Some (Errorf ''%w: ndim=%d'' [AErr (Sentinel ErrTensorDims), AInt (int ndim)])
      else case check_dims 0 (td_Shape d) of Some e \<Rightarrow> Some e | None \<Rightarrow>
      (if length (td_Strides d) \<noteq> ndim
       then Some (Errorf ''%w: %d strides for %d dims''
              [AErr (Sentinel ErrTensorStrides), AInt (int (length (td_Strides d))), AInt (int ndim)])
       else let elem = dtypeBytes (td_Dtype d) in
       case extent_loop elem 0 (td_Shape d) (td_Strides d) 1 of Inl e \<Rightarrow> Some e | Inr extent \<Rightarrow>
       (let footprint = extent * elem in
        if td_Offset d mod elem \<noteq> 0
        then Some (Errorf ''%w: offset %d for %d-byte dtype''
               [AErr (Sentinel ErrTensorAlign), AInt (uint (td_Offset d)), AInt (sint elem)])
        else if td_Offset d > NOT 0 - td_Size d
        then Some (Errorf ''%w: offset %d + size %d overflows uint64''
               [AErr (Sentinel ErrTensorStrides), AInt (uint (td_Offset d)), AInt (uint (td_Size d))])
        else if td_Size d < footprint
        then Some (Errorf ''%w: size %d < footprint %d''
               [AErr (Sentinel ErrTensorStrides), AInt (uint (td_Size d)), AInt (uint footprint)])
        else if td_Size d > 0 \<and> td_ShmName d = ''''
        then Some (Sentinel ErrTensorShmName)
        else if length (td_ShmName d) > MaxTensorShmNameLen
        then Some (Errorf ''%w: %d bytes'' [AErr (Sentinel ErrTensorShmName), AInt (int (length (td_ShmName d)))])
        else if length (td_Capabilities d) > MaxTensorCaps
        then Some (Errorf ''%w: %d claims'' [AErr (Sentinel ErrTensorCaps), AInt (int (length (td_Capabilities d)))])
        else case check_caps 0 (td_Capabilities d) of Some e \<Rightarrow> Some e | None \<Rightarrow>
        (if td_ModelDigest d \<noteq> '''' \<and> \<not> isSHA256Hex (td_ModelDigest d)
            \<and> \<not> isSHA256Prefixed (td_ModelDigest d)
         then Some (Sentinel ErrTensorDigest)
         else None))))"

section \<open>Encode and DecodeTensor\<close>

definition appendStringField :: "bytes \<Rightarrow> string \<Rightarrow> bytes" where
  "appendStringField buf s = buf @ PutUint16 (of_nat (length s)) @ bytes_of_string s"

definition TensorEncode :: "'w writer \<Rightarrow> TensorDescriptor \<Rightarrow> 'w \<Rightarrow> error option \<times> 'w" where
  "TensorEncode wr d w =
     (let ndim = length (td_Shape d) in
      if ndim = 0 \<or> ndim > MaxTensorDims
      then (Some (Errorf ''%w: ndim=%d'' [AErr (Sentinel ErrTensorDims), AInt (int ndim)]), w)
      else if length (td_Strides d) \<noteq> ndim
      then (Some (Errorf ''%w: %d strides for %d dims''
              [AErr (Sentinel ErrTensorStrides), AInt (int (length (td_Strides d))), AInt (int ndim)]), w)
      else let buf = [td_Dtype d, of_nat ndim];
               buf = foldl (\<lambda>b v. b @ PutUint64 v) buf (td_Shape d);
               buf = foldl (\<lambda>b v. b @ PutUint64 v) buf (td_Strides d);
               buf = appendStringField buf (td_ShmName d);
               buf = buf @ PutUint64 (td_Offset d);
               buf = buf @ PutUint64 (td_Size d) in
      if length (td_Capabilities d) > MaxTensorCaps
      then (Some (Errorf ''%w: %d claims'' [AErr (Sentinel ErrTensorCaps), AInt (int (length (td_Capabilities d)))]), w)
      else let buf = buf @ PutUint16 (of_nat (length (td_Capabilities d)));
               buf = foldl appendStringField buf (td_Capabilities d);
               buf = appendStringField buf (td_ModelDigest d) in
      wr w buf)"

definition readStringField :: "'r full_read \<Rightarrow> 'r \<Rightarrow> nat \<Rightarrow> string \<Rightarrow> string result \<times> 'r" where
  "readStringField rf r mx what =
     (case rf r 2 of
       (Inl e, r1) \<Rightarrow> (Inl (Errorf ''read %s length: %w'' [AStr what, AErr e]), r1)
     | (Inr ln, r1) \<Rightarrow>
        (let n = unat (Uint16 ln) in
         if n > mx
         then (Inl (Errorf ''%w: %s length %d'' [AErr (Sentinel ErrTensorTooLarge), AStr what, AInt (int n)]), r1)
         else if n = 0 then (Inr '''', r1)
         else case rf r1 n of
           (Inl e, r2) \<Rightarrow> (Inl (Errorf ''read %s: %w'' [AStr what, AErr e]), r2)
         | (Inr buf, r2) \<Rightarrow> (Inr (string_of_bytes buf), r2)))"

definition readInt64s :: "'r full_read \<Rightarrow> 'r \<Rightarrow> nat \<Rightarrow> 64 word list result \<times> 'r" where
  "readInt64s rf r n =
     (case rf r (n * 8) of
       (Inl e, r1) \<Rightarrow> (Inl e, r1)
     | (Inr raw, r1) \<Rightarrow> (Inr (map (\<lambda>i. Uint64 (gslice (i * 8) ((i + 1) * 8) raw)) [0..<n]), r1))"

fun readCaps :: "'r full_read \<Rightarrow> 'r \<Rightarrow> nat \<Rightarrow> string list result \<times> 'r" where
  "readCaps rf r 0 = (Inr [], r)"
| "readCaps rf r (Suc n) =
     (case readStringField rf r MaxTensorCapLen ''capability'' of
       (Inl e, r1) \<Rightarrow> (Inl e, r1)
     | (Inr c, r1) \<Rightarrow> (case readCaps rf r1 n of
         (Inl e, r2) \<Rightarrow> (Inl e, r2)
       | (Inr cs, r2) \<Rightarrow> (Inr (c # cs), r2)))"

definition DecodeTensor :: "'r full_read \<Rightarrow> 'r \<Rightarrow> TensorDescriptor result \<times> 'r" where
  "DecodeTensor rf r =
     (case rf r 2 of
       (Inl e, r1) \<Rightarrow> (Inl (wrap_err ''read dtype/ndim: %w'' e), r1)
     | (Inr head, r1) \<Rightarrow>
        (let ndim = unat (head ! 1) in
         if ndim = 0 \<or> ndim > MaxTensorDims
         then (Inl (Errorf ''%w: ndim=%d'' [AErr (Sentinel ErrTensorTooLarge), AInt (int ndim)]), r1)
         else case readInt64s rf r1 ndim of
           (Inl e, r2) \<Rightarrow> (Inl (wrap_err ''read shape: %w'' e), r2)
         | (Inr shape, r2) \<Rightarrow> (case readInt64s rf r2 ndim of
           (Inl e, r3) \<Rightarrow> (Inl (wrap_err ''read strides: %w'' e), r3)
         | (Inr strides, r3) \<Rightarrow> (case readStringField rf r3 MaxTensorShmNameLen ''shm_name'' of
           (Inl e, r4) \<Rightarrow> (Inl e, r4)
         | (Inr name, r4) \<Rightarrow> (case rf r4 16 of
           (Inl e, r5) \<Rightarrow> (Inl (wrap_err ''read offset/size: %w'' e), r5)
         | (Inr offSize, r5) \<Rightarrow> (case rf r5 2 of
           (Inl e, r6) \<Rightarrow> (Inl (wrap_err ''read capability count: %w'' e), r6)
         | (Inr ncapBuf, r6) \<Rightarrow>
            (let ncap = unat (Uint16 ncapBuf) in
             if ncap > MaxTensorCaps
             then (Inl (Errorf ''%w: %d capabilities'' [AErr (Sentinel ErrTensorTooLarge), AInt (int ncap)]), r6)
             else case readCaps rf r6 ncap of
               (Inl e, r7) \<Rightarrow> (Inl e, r7)
             | (Inr caps, r7) \<Rightarrow> (case readStringField rf r7 MaxTensorDigestLen ''model_digest'' of
               (Inl e, r8) \<Rightarrow> (Inl e, r8)
             | (Inr digest, r8) \<Rightarrow>
                 (Inr \<lparr>td_Dtype = head ! 0, td_Shape = shape, td_Strides = strides, td_ShmName = name,
                       td_Offset = Uint64 (gslice 0 8 offSize), td_Size = Uint64 (gslice 8 16 offSize),
                       td_Capabilities = caps, td_ModelDigest = digest\<rparr>, r8)))))))))"

section \<open>Specification\<close>

text \<open>
  The memory a descriptor touches, with unbounded integers: the elements up to
  \<open>tensor_extent\<close>, each of \<open>elem_bytes\<close> bytes; and what \<open>Validate\<close> is meant to check.
\<close>

fun stride_sum :: "64 word list \<Rightarrow> 64 word list \<Rightarrow> int" where
  "stride_sum (dim # dims) (s # ss) = (sint dim - 1) * sint s + stride_sum dims ss"
| "stride_sum _ _ = 0"

definition tensor_extent :: "TensorDescriptor \<Rightarrow> int" where
  "tensor_extent d = 1 + stride_sum (td_Shape d) (td_Strides d)"

definition elem_bytes :: "TensorDescriptor \<Rightarrow> int" where
  "elem_bytes d = sint (dtypeBytes (td_Dtype d))"

definition tensor_footprint :: "TensorDescriptor \<Rightarrow> int" where
  "tensor_footprint d = tensor_extent d * elem_bytes d"

definition tensor_valid :: "TensorDescriptor \<Rightarrow> bool" where
  "tensor_valid d \<longleftrightarrow>
     0 < elem_bytes d
   \<and> 0 < length (td_Shape d) \<and> length (td_Shape d) \<le> MaxTensorDims
   \<and> (\<forall>dim \<in> set (td_Shape d). 0 < sint dim)
   \<and> length (td_Strides d) = length (td_Shape d)
   \<and> (\<forall>s \<in> set (td_Strides d). 0 \<le> sint s)
   \<and> tensor_footprint d \<le> 2 ^ 62
   \<and> elem_bytes d dvd uint (td_Offset d)
   \<and> uint (td_Offset d) + uint (td_Size d) < 2 ^ 64
   \<and> tensor_footprint d \<le> uint (td_Size d)
   \<and> td_ShmName d \<noteq> '''' \<and> length (td_ShmName d) \<le> MaxTensorShmNameLen
   \<and> length (td_Capabilities d) \<le> MaxTensorCaps
   \<and> (\<forall>c \<in> set (td_Capabilities d). c \<noteq> '''' \<and> length c \<le> MaxTensorCapLen)
   \<and> (td_ModelDigest d = '''' \<or> isSHA256Hex (td_ModelDigest d) \<or> isSHA256Prefixed (td_ModelDigest d))"

text \<open>A one-byte tensor whose strides add up to \<open>2 ^ 64\<close> elements.\<close>

definition wrapping_tensor :: TensorDescriptor where
  "wrapping_tensor = \<lparr>td_Dtype = TensorINT8, td_Shape = [2, 2, 2, 2],
     td_Strides = [2 ^ 62 - 1, 2 ^ 62, 2 ^ 62, 2 ^ 62], td_ShmName = '''', td_Offset = 0, td_Size = 0,
     td_Capabilities = [], td_ModelDigest = ''''\<rparr>"

text \<open>The wire format of a descriptor.\<close>

definition str_field :: "string \<Rightarrow> bytes" where
  "str_field s = PutUint16 (of_nat (length s)) @ bytes_of_string s"

definition tensor_wire :: "TensorDescriptor \<Rightarrow> bytes" where
  "tensor_wire d = [td_Dtype d, of_nat (length (td_Shape d))]
     @ concat (map PutUint64 (td_Shape d)) @ concat (map PutUint64 (td_Strides d))
     @ str_field (td_ShmName d) @ PutUint64 (td_Offset d) @ PutUint64 (td_Size d)
     @ PutUint16 (of_nat (length (td_Capabilities d))) @ concat (map str_field (td_Capabilities d))
     @ str_field (td_ModelDigest d)"

definition tensor_bounds :: "TensorDescriptor \<Rightarrow> bool" where
  "tensor_bounds d \<longleftrightarrow> 0 < length (td_Shape d) \<and> length (td_Shape d) \<le> MaxTensorDims
     \<and> length (td_Strides d) = length (td_Shape d)
     \<and> length (td_ShmName d) \<le> MaxTensorShmNameLen \<and> length (td_Capabilities d) \<le> MaxTensorCaps
     \<and> (\<forall>c \<in> set (td_Capabilities d). length c \<le> MaxTensorCapLen)
     \<and> length (td_ModelDigest d) \<le> MaxTensorDigestLen"

section \<open>Lemmas on Validate\<close>

lemma check_dims_None: "check_dims i dims = None \<longleftrightarrow> (\<forall>d \<in> set dims. 0 < sint d)"
  by (induction i dims rule: check_dims.induct) (auto simp: word_sle_eq)

lemma check_caps_None:
  "check_caps i cs = None \<longleftrightarrow> (\<forall>c \<in> set cs. c \<noteq> '''' \<and> length c \<le> MaxTensorCapLen)"
  by (induction i cs rule: check_caps.induct) auto

lemma sint_limit62 [simp]: "sint limit62 = 2 ^ 62"
  by (simp add: limit62_def)

lemma dtypeBytes_cases: "dtypeBytes t = 0 \<or> dtypeBytes t = 1 \<or> dtypeBytes t = 2 \<or> dtypeBytes t = 4"
  by (simp add: dtypeBytes_def)

lemma stride_sum_nonneg:
  "\<forall>d \<in> set dims. 0 < sint d \<Longrightarrow> \<forall>s \<in> set ss. 0 \<le> sint s \<Longrightarrow> 0 \<le> stride_sum dims ss"
  by (induction dims ss rule: stride_sum.induct) auto

lemma sint64_pred: "0 < sint d \<Longrightarrow> sint (d - 1 :: 64 word) = sint d - 1"
  using sint64_range(2) [of d] by (intro trans [OF sint64_diff]) simp_all

text \<open>The multiplication guard of the loop.\<close>

lemma stride_guard:
  assumes "0 < sint d" "0 \<le> sint s"
  shows "(0 <s d - 1 \<and> int64_div limit62 (d - 1) <s s) \<longleftrightarrow> 2 ^ 62 < (sint d - 1) * sint s"
proof (cases "sint d = 1")
  case True
  with assms show ?thesis by (simp add: word_sless_alt sint64_pred)
next
  case False
  with assms have pos: "0 < sint d - 1" by simp
  with assms show ?thesis
    by (simp add: word_sless_alt sint64_pred sint64_div int_div_less_iff mult.commute)
qed

lemma extent_guard:
  assumes "0 < sint e"
  shows "int64_div limit62 e <s x \<longleftrightarrow> 2 ^ 62 < sint x * sint e"
  using assms by (simp add: word_sless_alt sint64_div int_div_less_iff)

lemma stride_product:
  assumes "0 < sint d" "0 \<le> sint s" "(sint d - 1) * sint s \<le> 2 ^ 62"
  shows "sint ((d - 1) * s :: 64 word) = (sint d - 1) * sint s"
proof -
  define p where "p = (sint d - 1) * sint s"
  have "0 \<le> p" using assms by (simp add: p_def)
  with assms(3) have "- (2 ^ 63) \<le> p" "p < 2 ^ 63" by (simp_all add: p_def [symmetric])
  then show ?thesis
    using sint64_mult [of "d - 1" s] by (simp only: sint64_pred [OF assms(1)] p_def)
qed

lemma extent_step:
  assumes "0 < sint d" "0 \<le> sint s" "0 \<le> sint x"
    and "(sint d - 1) * sint s \<le> 2 ^ 62" "sint x + (sint d - 1) * sint s < 2 ^ 63"
  shows "sint (x + (d - 1) * s :: 64 word) = sint x + (sint d - 1) * sint s"
proof -
  define p where "p = sint ((d - 1) * s)"
  have prod: "p = (sint d - 1) * sint s"
    unfolding p_def using assms by (intro stride_product)
  have "0 \<le> (sint d - 1) * sint s" using assms by simp
  then have "0 \<le> p" by (simp only: prod)
  with assms(3,5) have "sint (x + (d - 1) * s) = sint x + p"
    unfolding p_def [symmetric] prod [symmetric]
    using sint64_add [of x "(d - 1) * s"] by (simp add: p_def)
  then show ?thesis by (simp only: prod)
qed

lemma extent_loop_strides:
  "extent_loop e i dims ss x = Inr w \<Longrightarrow> length dims = length ss \<Longrightarrow> \<forall>s \<in> set ss. 0 \<le> sint s"
  by (induction e i dims ss x rule: extent_loop.induct)
    (auto simp: word_sless_alt Let_def split: if_splits)

text \<open>
  The loop against unbounded integers: it returns the extent when that is at most
  \<open>2 ^ 62\<close> bytes, and fails otherwise as long as no sum reaches \<open>2 ^ 63\<close>.
\<close>

lemma extent_loop_complete:
  assumes "length dims = length ss" "\<forall>d \<in> set dims. 0 < sint d" "\<forall>s \<in> set ss. 0 \<le> sint s"
    and "0 < sint e" "1 \<le> sint x" "(sint x + stride_sum dims ss) * sint e \<le> 2 ^ 62"
  shows "\<exists>w. extent_loop e i dims ss x = Inr w \<and> sint w = sint x + stride_sum dims ss"
  using assms
proof (induction dims ss arbitrary: i x rule: list_induct2)
  case Nil
  then show ?case by simp
next
  case (Cons d dims s ss)
  define p where "p = (sint d - 1) * sint s"
  define t where "t = stride_sum dims ss"
  have d: "0 < sint d" and s: "0 \<le> sint s" and e: "0 < sint e" and x: "1 \<le> sint x"
    using Cons.prems by simp_all
  have t: "0 \<le> t" unfolding t_def using Cons.prems by (intro stride_sum_nonneg) simp_all
  have p: "0 \<le> p" unfolding p_def using d s by simp
  have tot: "(sint x + p + t) * sint e \<le> 2 ^ 62"
    using Cons.prems(5) by (simp add: p_def t_def add.assoc)
  have "(sint x + p + t) * 1 \<le> (sint x + p + t) * sint e"
    using e x t p by (intro mult_left_mono) simp_all
  with tot have bound: "sint x + p + t \<le> 2 ^ 62" by simp
  have "(sint x + p) * sint e \<le> (sint x + p + t) * sint e"
    using e t by (intro mult_right_mono) simp_all
  with tot have step: "(sint x + p) * sint e \<le> 2 ^ 62" by simp
  have p_le: "p \<le> 2 ^ 62" and sum: "sint x + p < 2 ^ 63" using bound t x by simp_all
  have x': "sint (x + (d - 1) * s) = sint x + p"
    unfolding p_def using d s x p_le sum by (intro extent_step) (simp_all only: p_def)
  have "\<exists>w. extent_loop e (Suc i) dims ss (x + (d - 1) * s) = Inr w
      \<and> sint w = sint (x + (d - 1) * s) + stride_sum dims ss"
    using Cons.prems p tot x by (intro Cons.IH) (simp_all add: x' t_def)
  moreover have "extent_loop e i (d # dims) (s # ss) x = extent_loop e (Suc i) dims ss (x + (d - 1) * s)"
  proof -
    have "\<not> s <s 0" using s by (simp add: word_sless_alt)
    moreover have "\<not> (0 <s d - 1 \<and> int64_div limit62 (d - 1) <s s)"
      unfolding stride_guard [OF d s] p_def [symmetric] using p_le by simp
    moreover have "\<not> int64_div limit62 e <s x + (d - 1) * s"
      unfolding extent_guard [OF e] x' using step by simp
    ultimately show ?thesis by (auto simp: Let_def)
  qed
  ultimately show ?case by (simp only: x' p_def stride_sum.simps add.assoc)
qed

lemma extent_loop_sound:
  assumes "length dims = length ss" "\<forall>d \<in> set dims. 0 < sint d" "0 < sint e" "1 \<le> sint x"
    and "sint x * sint e \<le> 2 ^ 62" "extent_loop e i dims ss x = Inr w"
    and "1 < sint e \<or> sint x + stride_sum dims ss < 2 ^ 63"
  shows "sint w = sint x + stride_sum dims ss \<and> sint w * sint e \<le> 2 ^ 62"
  using assms
proof (induction dims ss arbitrary: i x rule: list_induct2)
  case Nil
  then show ?case by simp
next
  case (Cons d dims s ss)
  define p where "p = (sint d - 1) * sint s"
  define t where "t = stride_sum dims ss"
  have strides: "\<forall>s \<in> set (s # ss). 0 \<le> sint s"
    using extent_loop_strides [OF Cons.prems(5)] Cons.hyps by simp
  have d: "0 < sint d" and s: "0 \<le> sint s" and e: "0 < sint e" and x: "1 \<le> sint x"
    using Cons.prems strides by simp_all
  have t: "0 \<le> t" unfolding t_def using Cons.prems strides by (intro stride_sum_nonneg) simp_all
  have p: "0 \<le> p" unfolding p_def using d s by simp
  have noguard: "\<not> (0 <s d - 1 \<and> int64_div limit62 (d - 1) <s s)"
    and noguard': "\<not> int64_div limit62 e <s x + (d - 1) * s"
    and loop: "extent_loop e (Suc i) dims ss (x + (d - 1) * s) = Inr w"
    using Cons.prems(5) by (auto simp: Let_def split: if_splits)
  have p_le: "p \<le> 2 ^ 62"
    using noguard unfolding stride_guard [OF d s] p_def [symmetric] by simp
  have sum: "sint x + p < 2 ^ 63"
  proof (cases "1 < sint e")
    case True
    then have "sint x * 2 \<le> sint x * sint e"
      using x by (intro mult_left_mono) simp_all
    with Cons.prems(4) p_le show ?thesis by simp
  next
    case False
    with Cons.prems(6) have "sint x + (p + t) < 2 ^ 63" by (simp add: p_def t_def)
    with t show ?thesis by simp
  qed
  have x': "sint (x + (d - 1) * s) = sint x + p"
    unfolding p_def using d s x p_le sum by (intro extent_step) (simp_all only: p_def)
  have "sint w = sint (x + (d - 1) * s) + stride_sum dims ss \<and> sint w * sint e \<le> 2 ^ 62"
  proof (rule Cons.IH [OF _ e _ _ loop])
    show "sint (x + (d - 1) * s) * sint e \<le> 2 ^ 62"
      using noguard' by (simp add: extent_guard [OF e])
    show "1 < sint e \<or> sint (x + (d - 1) * s) + stride_sum dims ss < 2 ^ 63"
      using Cons.prems(6) by (simp only: x' p_def stride_sum.simps add.assoc)
  qed (use Cons.prems x p in \<open>simp_all add: x'\<close>)
  then show ?case by (auto simp only: x' p_def stride_sum.simps add.assoc)
qed

lemma dtypeBytes_sint:
  "dtypeBytes t = 0 \<longleftrightarrow> sint (dtypeBytes t) = 0" "0 \<le> sint (dtypeBytes t)"
  "uint (dtypeBytes t) = sint (dtypeBytes t)"
  using dtypeBytes_cases [of t] by auto

lemma offset_wrap: "(o64 :: 64 word) > NOT 0 - sz \<longleftrightarrow> 2 ^ 64 \<le> uint o64 + uint sz"
proof -
  have "uint (NOT 0 - sz) = 2 ^ 64 - 1 - uint sz"
    using uint_sub_lem [of sz "- 1"] uint_lt2p [of sz] by (simp add: unsigned_minus_1_eq_mask mask_eq_exp_minus_1)
  then show ?thesis by (auto simp: word_less_def)
qed

lemma Validate_None_iff:
  "Validate d = None \<longleftrightarrow>
     dtypeBytes (td_Dtype d) \<noteq> 0
   \<and> 0 < length (td_Shape d) \<and> length (td_Shape d) \<le> MaxTensorDims
   \<and> (\<forall>dim \<in> set (td_Shape d). 0 < sint dim)
   \<and> length (td_Strides d) = length (td_Shape d)
   \<and> (\<exists>extent. extent_loop (dtypeBytes (td_Dtype d)) 0 (td_Shape d) (td_Strides d) 1 = Inr extent
        \<and> extent * dtypeBytes (td_Dtype d) \<le> td_Size d)
   \<and> td_Offset d mod dtypeBytes (td_Dtype d) = 0
   \<and> uint (td_Offset d) + uint (td_Size d) < 2 ^ 64
   \<and> (td_Size d = 0 \<or> td_ShmName d \<noteq> '''') \<and> length (td_ShmName d) \<le> MaxTensorShmNameLen
   \<and> length (td_Capabilities d) \<le> MaxTensorCaps
   \<and> (\<forall>c \<in> set (td_Capabilities d). c \<noteq> '''' \<and> length c \<le> MaxTensorCapLen)
   \<and> (td_ModelDigest d = '''' \<or> isSHA256Hex (td_ModelDigest d) \<or> isSHA256Prefixed (td_ModelDigest d))"
proof -
  let ?loop = "extent_loop (dtypeBytes (td_Dtype d)) 0 (td_Shape d) (td_Strides d) 1"
  have *: "Validate d = None \<longleftrightarrow> 
     dtypeBytes (td_Dtype d) \<noteq> 0
   \<and> 0 < length (td_Shape d) \<and> length (td_Shape d) \<le> MaxTensorDims
   \<and> check_dims 0 (td_Shape d) = None
   \<and> length (td_Strides d) = length (td_Shape d)
   \<and> (\<exists>extent. ?loop = Inr extent \<and> extent * dtypeBytes (td_Dtype d) \<le> td_Size d)
   \<and> td_Offset d mod dtypeBytes (td_Dtype d) = 0
   \<and> \<not> (td_Offset d > NOT 0 - td_Size d)
   \<and> (td_Size d = 0 \<or> td_ShmName d \<noteq> '''') \<and> length (td_ShmName d) \<le> MaxTensorShmNameLen
   \<and> length (td_Capabilities d) \<le> MaxTensorCaps
   \<and> check_caps 0 (td_Capabilities d) = None
   \<and> (td_ModelDigest d = '''' \<or> isSHA256Hex (td_ModelDigest d) \<or> isSHA256Prefixed (td_ModelDigest d))"
    by (cases ?loop; cases "check_dims 0 (td_Shape d)"; cases "check_caps 0 (td_Capabilities d)")
      (auto simp: Validate_def Let_def not_less word_greater_zero_iff)
  show ?thesis
    unfolding * check_dims_None check_caps_None offset_wrap not_le ..
qed

lemma uint_mult_small:
  assumes "0 \<le> sint a" "0 \<le> sint b" "sint a * sint b \<le> 2 ^ 62"
  shows "uint (a * b :: 64 word) = sint a * sint b"
proof -
  define p where "p = sint a * sint b"
  have "0 \<le> p" using assms by (simp add: p_def)
  with assms(3) have p: "- (2 ^ 63) \<le> p" "p < 2 ^ 63" "0 \<le> p" by (simp_all add: p_def [symmetric])
  then have s: "sint (a * b) = p"
    using sint64_mult [of a b] by (simp only: p_def)
  have "uint (a * b) = take_bit 64 (sint (a * b))"
    by (simp add: uint_sint)
  with p s show ?thesis by (simp add: p_def [symmetric] take_bit_int_eq_self_iff)
qed

lemma offset_aligned: "td_Offset d mod dtypeBytes (td_Dtype d) = 0 \<longleftrightarrow> elem_bytes d dvd uint (td_Offset d)"
proof -
  have "uint (td_Offset d mod dtypeBytes (td_Dtype d)) = uint (td_Offset d) mod elem_bytes d"
    by (simp add: uint_mod elem_bytes_def dtypeBytes_sint)
  then show ?thesis by (metis dvd_eq_mod_eq_0 uint_0_iff)
qed

lemma Validate_extent:
  assumes "Validate d = None" "elem_bytes d \<noteq> 1 \<or> tensor_extent d < 2 ^ 63"
  obtains extent where
    "extent_loop (dtypeBytes (td_Dtype d)) 0 (td_Shape d) (td_Strides d) 1 = Inr extent"
    "sint extent = tensor_extent d" "tensor_footprint d \<le> 2 ^ 62"
    "uint (extent * dtypeBytes (td_Dtype d)) = tensor_footprint d"
proof -
  let ?e = "dtypeBytes (td_Dtype d)"
  have v: "?e \<noteq> 0" "\<forall>dim \<in> set (td_Shape d). 0 < sint dim" "length (td_Strides d) = length (td_Shape d)"
    using assms(1) by (simp_all add: Validate_None_iff)
  obtain extent where loop: "extent_loop ?e 0 (td_Shape d) (td_Strides d) 1 = Inr extent"
    using assms(1) by (auto simp: Validate_None_iff)
  have e: "0 < sint ?e" "sint ?e \<le> 2 ^ 62"
    using v(1) dtypeBytes_cases [of "td_Dtype d"] by auto
  then have "1 < sint ?e \<or> 1 + stride_sum (td_Shape d) (td_Strides d) < 2 ^ 63"
    using assms(2) by (auto simp: elem_bytes_def tensor_extent_def)
  then have ext: "sint extent = tensor_extent d" "tensor_footprint d \<le> 2 ^ 62"
    using extent_loop_sound [OF _ v(2) e(1) _ _ loop] v(3) e
    by (auto simp add: tensor_extent_def tensor_footprint_def elem_bytes_def)
  have "0 \<le> tensor_extent d"
    using stride_sum_nonneg [OF v(2), of "td_Strides d"] extent_loop_strides [OF loop] v(3)
    by (simp add: tensor_extent_def)
  then have "uint (extent * ?e) = sint extent * sint ?e"
    using ext e(1) by (intro uint_mult_small) (simp_all add: tensor_footprint_def elem_bytes_def)
  then show thesis
    using loop ext by (intro that) (simp_all add: tensor_footprint_def elem_bytes_def)
qed

lemma Validate_sound:
  assumes "Validate d = None" "elem_bytes d \<noteq> 1 \<or> tensor_extent d < 2 ^ 63"
  shows "tensor_valid d"
proof -
  obtain extent where ext: 
    "extent_loop (dtypeBytes (td_Dtype d)) 0 (td_Shape d) (td_Strides d) 1 = Inr extent"
    "sint extent = tensor_extent d" "tensor_footprint d \<le> 2 ^ 62"
    "uint (extent * dtypeBytes (td_Dtype d)) = tensor_footprint d"
    using Validate_extent [OF assms] .
  have strides: "\<forall>s \<in> set (td_Strides d). 0 \<le> sint s"
    using extent_loop_strides [OF ext(1)] assms(1) by (simp add: Validate_None_iff)
  have e: "0 < elem_bytes d"
    using assms(1) dtypeBytes_sint [of "td_Dtype d"] by (auto simp: Validate_None_iff elem_bytes_def)
  have size: "tensor_footprint d \<le> uint (td_Size d)"
    using assms(1) ext by (auto simp: Validate_None_iff word_le_def)
  have "0 \<le> stride_sum (td_Shape d) (td_Strides d)"
    using strides assms(1) by (intro stride_sum_nonneg) (auto simp: Validate_None_iff)
  then have "0 < tensor_footprint d"
    using e by (simp add: tensor_footprint_def tensor_extent_def)
  with size have "td_Size d \<noteq> 0" by auto
  with assms(1) strides e size ext(3) show ?thesis
    unfolding Validate_None_iff tensor_valid_def offset_aligned by simp
qed

lemma Validate_complete:
  assumes "tensor_valid d"
  shows "Validate d = None"
proof -
  let ?e = "dtypeBytes (td_Dtype d)"
  have v: "\<forall>dim \<in> set (td_Shape d). 0 < sint dim" "length (td_Shape d) = length (td_Strides d)"
    "\<forall>s \<in> set (td_Strides d). 0 \<le> sint s" "0 < sint ?e"
    "(sint (1 :: 64 word) + stride_sum (td_Shape d) (td_Strides d)) * sint ?e \<le> 2 ^ 62"
    "tensor_footprint d \<le> uint (td_Size d)"
    using assms by (simp_all add: tensor_valid_def tensor_footprint_def tensor_extent_def elem_bytes_def)
  obtain extent where ext: "extent_loop ?e 0 (td_Shape d) (td_Strides d) 1 = Inr extent"
    "sint extent = tensor_extent d"
    using extent_loop_complete [OF v(2,1,3,4) _ v(5)] by (auto simp: tensor_extent_def)
  have "0 \<le> tensor_extent d"
    using stride_sum_nonneg [OF v(1,3)] by (simp add: tensor_extent_def)
  then have "uint (extent * ?e) = tensor_footprint d"
    using ext v(4,5) by (subst uint_mult_small) (simp_all add: tensor_footprint_def elem_bytes_def tensor_extent_def)
  then have "extent * ?e \<le> td_Size d" using v(6) by (simp add: word_le_def)
  moreover have "?e \<noteq> 0" using v(4) by auto
  ultimately show ?thesis
    using assms ext(1) unfolding Validate_None_iff tensor_valid_def offset_aligned by auto
qed

lemma wrapping_tensor_accepted:
  "Validate wrapping_tensor = None \<and> tensor_footprint wrapping_tensor = 2 ^ 64 \<and> td_Size wrapping_tensor = 0"
  by (simp add: Validate_def wrapping_tensor_def tensor_footprint_def tensor_extent_def elem_bytes_def
      dtypeBytes_def tensor_dtypes tensor_limits word_sless_alt word_sle_eq int64_div_def limit62_def Let_def signed_divide_int_def)

section \<open>Lemmas on the codec\<close>

lemma foldl_append_concat: "foldl (\<lambda>b v. b @ g v) b xs = b @ concat (map g xs)"
  by (induction xs arbitrary: b) simp_all

lemma appendStringField_eq: "appendStringField buf s = buf @ str_field s"
  by (simp add: appendStringField_def str_field_def)

lemma foldl_appendStringField: "foldl appendStringField b xs = b @ concat (map str_field xs)"
  by (induction xs arbitrary: b) (simp_all add: appendStringField_eq)

lemma TensorEncode_eq:
  "TensorEncode wr d w =
     (let ndim = length (td_Shape d) in
      if ndim = 0 \<or> ndim > MaxTensorDims
      then (Some (Errorf ''%w: ndim=%d'' [AErr (Sentinel ErrTensorDims), AInt (int ndim)]), w)
      else if length (td_Strides d) \<noteq> ndim
      then (Some (Errorf ''%w: %d strides for %d dims''
              [AErr (Sentinel ErrTensorStrides), AInt (int (length (td_Strides d))), AInt (int ndim)]), w)
      else if length (td_Capabilities d) > MaxTensorCaps
      then (Some (Errorf ''%w: %d claims'' [AErr (Sentinel ErrTensorCaps), AInt (int (length (td_Capabilities d)))]), w)
      else wr w (tensor_wire d))"
  by (simp add: TensorEncode_def Let_def foldl_append_concat foldl_appendStringField appendStringField_eq
      tensor_wire_def)

lemma unat_length_16: "length s \<le> mx \<Longrightarrow> mx < 2 ^ 16 \<Longrightarrow> unat (of_nat (length s) :: 16 word) = length s"
  by (intro unat_of_nat_small) simp

lemma readStringField_field:
  assumes "length s \<le> mx" "mx < 2 ^ 16"
  shows "readStringField stream_ReadFull (str_field s @ rest) mx what = (Inr s, rest)"
  using assms
  by (simp add: readStringField_def str_field_def stream_ReadFull_append unat_length_16 [OF assms])

lemma readStringField_Inr:
  assumes "readStringField stream_ReadFull r mx what = (Inr s, rest)"
  shows "r = str_field s @ rest \<and> length s \<le> mx"
proof -
  obtain ln r1 where ln: "stream_ReadFull r 2 = (Inr ln, r1)"
    using assms by (auto simp: readStringField_def split: prod.splits sum.splits)
  then have r: "r = ln @ r1" "length ln = 2" by (simp_all add: stream_ReadFull_Inr)
  let ?n = "unat (Uint16 ln)"
  have le: "?n \<le> mx" using assms ln by (auto simp: readStringField_def Let_def split: if_splits)
  have ln_eq: "ln = PutUint16 (of_nat ?n)" using r(2) by (simp add: Put_Uint16)
  show ?thesis
  proof (cases "?n = 0")
    case True
    with assms ln le have "s = ''''" "rest = r1" by (simp_all add: readStringField_def)
    with r ln_eq True show ?thesis by (simp add: str_field_def)
  next
    case False
    with assms ln le obtain buf where "stream_ReadFull r1 ?n = (Inr buf, rest)" "s = string_of_bytes buf"
      by (auto simp: readStringField_def split: prod.splits sum.splits)
    with r ln_eq le show ?thesis by (auto simp: str_field_def stream_ReadFull_Inr)
  qed
qed

lemma readCaps_fields:
  assumes "\<forall>c \<in> set cs. length c \<le> MaxTensorCapLen"
  shows "readCaps stream_ReadFull (concat (map str_field cs) @ rest) (length cs) = (Inr cs, rest)"
  using assms by (induction cs) (simp_all add: readStringField_field MaxTensorCapLen_def)

lemma readCaps_Inr:
  "readCaps stream_ReadFull r n = (Inr cs, rest) \<Longrightarrow>
     r = concat (map str_field cs) @ rest \<and> length cs = n \<and> (\<forall>c \<in> set cs. length c \<le> MaxTensorCapLen)"
proof (induction n arbitrary: r cs)
  case 0
  then show ?case by simp
next
  case (Suc n)
  then obtain c cs' r1 where "readStringField stream_ReadFull r MaxTensorCapLen ''capability'' = (Inr c, r1)"
    "readCaps stream_ReadFull r1 n = (Inr cs', rest)" "cs = c # cs'"
    by (auto split: prod.splits sum.splits)
  with Suc.IH [of r1 cs'] show ?case by (auto dest: readStringField_Inr)
qed

lemma slice_Suc_chunk: "gslice (Suc i * 8) (Suc (Suc i) * 8) b = gslice (i * 8) (Suc i * 8) (drop 8 b)"
  by (simp add: gslice_def add.commute)

lemma length_concat_Put64 [simp]: "length (concat (map PutUint64 vs)) = length vs * 8"
  by (induction vs) simp_all

lemma chunks_of_concat:
  "map (\<lambda>i. Uint64 (gslice (i * 8) ((i + 1) * 8) (concat (map PutUint64 vs)))) [0..<length vs] = vs"
proof (induction vs)
  case (Cons v vs)
  have "[0..<length (v # vs)] = 0 # map Suc [0..<length vs]"
    by (simp add: upt_conv_Cons map_Suc_upt del: upt_Suc)
  with Cons show ?case
    by (simp add: slice_Suc_chunk comp_def del: mult_Suc upt_Suc) (simp add: gslice_def)
qed simp

lemma concat_of_chunks:
  "length b = n * 8 \<Longrightarrow> concat (map PutUint64 (map (\<lambda>i. Uint64 (gslice (i * 8) ((i + 1) * 8) b)) [0..<n])) = b"
proof (induction n arbitrary: b)
  case (Suc n)
  have up: "[0..<Suc n] = 0 # map Suc [0..<n]"
    by (simp add: upt_conv_Cons map_Suc_upt del: upt_Suc)
  have "concat (map PutUint64 (map (\<lambda>i. Uint64 (gslice (i * 8) ((i + 1) * 8) (drop 8 b))) [0..<n])) = drop 8 b"
    using Suc.prems by (intro Suc.IH) simp
  moreover have "PutUint64 (Uint64 (gslice 0 (Suc 0 * 8) b)) = take 8 b"
    using Suc.prems by (subst Put_Uint64) (simp_all add: gslice_def)
  ultimately show ?case
    unfolding up by (simp add: slice_Suc_chunk comp_def del: mult_Suc upt_Suc)
qed simp

lemma readInt64s_stream:
  "readInt64s stream_ReadFull (concat (map PutUint64 vs) @ rest) (length vs) = (Inr vs, rest)"
  by (simp add: readInt64s_def stream_ReadFull_append chunks_of_concat [simplified])

lemma readInt64s_Inr:
  "readInt64s stream_ReadFull r n = (Inr vs, rest) \<Longrightarrow> r = concat (map PutUint64 vs) @ rest \<and> length vs = n"
  by (auto simp: readInt64s_def stream_ReadFull_Inr concat_of_chunks [simplified] split: prod.splits sum.splits)

lemma DecodeTensor_wire:
  assumes "tensor_bounds d"
  shows "DecodeTensor stream_ReadFull (tensor_wire d @ rest) = (Inr d, rest)"
proof -
  let ?n = "length (td_Shape d)" and ?k = "length (td_Capabilities d)"
  have n: "td_Shape d \<noteq> []" "?n \<le> 8" "unat (of_nat ?n :: byte) = ?n" and st: "length (td_Strides d) = ?n"
    and k: "?k \<le> 32" "unat (of_nat ?k :: 16 word) = ?k"
    using assms by (auto simp: tensor_bounds_def tensor_limits intro!: unat_of_nat_small)
  have lens: "length (td_ShmName d) \<le> 256" "length (td_ModelDigest d) \<le> 128"
    and caps: "\<forall>c \<in> set (td_Capabilities d). length c \<le> MaxTensorCapLen"
    using assms by (simp_all add: tensor_bounds_def tensor_limits)
  have r0: "stream_ReadFull (a # b # r) 2 = (Inr [a, b], r)" for a b :: byte and r
    by (simp add: stream_ReadFull_def)
  have r1: "readInt64s stream_ReadFull (concat (map PutUint64 (td_Shape d)) @ r) ?n = (Inr (td_Shape d), r)"
    "readInt64s stream_ReadFull (concat (map PutUint64 (td_Strides d)) @ r) ?n = (Inr (td_Strides d), r)" for r
    using readInt64s_stream [of "td_Shape d" r] readInt64s_stream [of "td_Strides d" r] st by simp_all
  have r2: "readStringField stream_ReadFull (str_field (td_ShmName d) @ r) 256 w = (Inr (td_ShmName d), r)"
    "readStringField stream_ReadFull (str_field (td_ModelDigest d) @ r) 128 w = (Inr (td_ModelDigest d), r)" for r w
    using lens by (simp_all add: readStringField_field)
  have r3: "stream_ReadFull (PutUint64 x @ PutUint64 y @ r) 16 = (Inr (PutUint64 x @ PutUint64 y), r)" for x y r
    using stream_ReadFull_append [of "PutUint64 x @ PutUint64 y" 16 r] by simp
  have r4: "stream_ReadFull (PutUint16 x @ r) 2 = (Inr (PutUint16 x), r)" for x r
    by (simp add: stream_ReadFull_append)
  have sl: "gslice 0 8 (PutUint64 x @ PutUint64 y) = PutUint64 x"
    "gslice 8 16 (PutUint64 x @ PutUint64 y) = PutUint64 y" for x y
    by (simp_all add: gslice_def)
  show ?thesis
    by (simp add: DecodeTensor_def tensor_wire_def r0 r1 r2 r3 r4 sl n k tensor_limits Let_def not_less
        readCaps_fields [OF caps])
qed

lemma DecodeTensor_canonical:
  assumes "DecodeTensor stream_ReadFull bs = (Inr d, rest)"
  shows "tensor_bounds d \<and> bs = tensor_wire d @ rest"
proof -
  from assms obtain head r1 shape r2 strides r3 name r4 os r5 nc r6 caps r7 digest where
    head: "stream_ReadFull bs 2 = (Inr head, r1)"
    and n: "unat (head ! 1) \<noteq> 0" "unat (head ! 1) \<le> MaxTensorDims"
    and shape: "readInt64s stream_ReadFull r1 (unat (head ! 1)) = (Inr shape, r2)"
    and strides: "readInt64s stream_ReadFull r2 (unat (head ! 1)) = (Inr strides, r3)"
    and name: "readStringField stream_ReadFull r3 MaxTensorShmNameLen ''shm_name'' = (Inr name, r4)"
    and os: "stream_ReadFull r4 16 = (Inr os, r5)"
    and nc: "stream_ReadFull r5 2 = (Inr nc, r6)"
    and k: "unat (Uint16 nc) \<le> MaxTensorCaps"
    and caps: "readCaps stream_ReadFull r6 (unat (Uint16 nc)) = (Inr caps, r7)"
    and digest: "readStringField stream_ReadFull r7 MaxTensorDigestLen ''model_digest'' = (Inr digest, rest)"
    and d: "d = \<lparr>td_Dtype = head ! 0, td_Shape = shape, td_Strides = strides, td_ShmName = name,
       td_Offset = Uint64 (gslice 0 8 os), td_Size = Uint64 (gslice 8 16 os),
       td_Capabilities = caps, td_ModelDigest = digest\<rparr>"
    unfolding DecodeTensor_def Let_def case_read_Inr if_read_Inr by auto
  let ?n = "unat (head ! 1)" and ?k = "unat (Uint16 nc)"
  have h: "bs = head @ r1" "length head = 2" and "r4 = os @ r5" "length os = 16" "r5 = nc @ r6" "length nc = 2"
    using head os nc by (simp_all add: stream_ReadFull_Inr)
  moreover have "head = [head ! 0, of_nat ?n]"
    using list_of_length(1) [OF h(2)] by simp
  moreover have "os = PutUint64 (Uint64 (gslice 0 8 os)) @ PutUint64 (Uint64 (gslice 8 16 os))"
    using \<open>length os = 16\<close> by (simp add: Put_Uint64) (simp add: gslice_def)
  moreover have "nc = PutUint16 (of_nat ?k)"
    using \<open>length nc = 2\<close> by (simp add: Put_Uint16)
  moreover note readInt64s_Inr [OF shape] readInt64s_Inr [OF strides] readStringField_Inr [OF name]
    readCaps_Inr [OF caps] readStringField_Inr [OF digest]
  ultimately show ?thesis
    using n k unfolding d tensor_bounds_def tensor_wire_def
    by (metis (no_types, lifting) TensorDescriptor.select_convs append.assoc gr0I)
qed

lemma isSHA256_length: "isSHA256Hex s \<or> isSHA256Prefixed s \<Longrightarrow> length s \<le> MaxTensorDigestLen"
  by (auto simp: isSHA256Hex_def isSHA256Prefixed_def MaxTensorDigestLen_def)

lemma Validate_bounds: "Validate d = None \<Longrightarrow> tensor_bounds d"
  using isSHA256_length by (auto simp: Validate_None_iff tensor_bounds_def)

text \<open>A 2 by 3 float tensor at offset 64 of a segment.\<close>

definition example_tensor :: TensorDescriptor where
  "example_tensor = \<lparr>td_Dtype = TensorF32, td_Shape = [2, 3], td_Strides = [3, 1], td_ShmName = ''seg'',
     td_Offset = 64, td_Size = 24, td_Capabilities = [''tensor:read''], td_ModelDigest = ''''\<rparr>"

lemmas example_tensor_simps = example_tensor_def dtypeBytes_def tensor_dtypes tensor_limits

lemma example_tensor_valid: "tensor_valid example_tensor"
  by (simp add: tensor_valid_def tensor_footprint_def tensor_extent_def elem_bytes_def example_tensor_simps)

lemma example_tensor_Validate: "Validate example_tensor = None"
  by (rule Validate_complete [OF example_tensor_valid])

section \<open>Properties\<close>




end
