(* ===== verification/TensorRegistry.thy ===== *)
theory TensorRegistry
  imports Tensor
begin

text \<open>
  \<^verbatim>\<open>protocol/tensor_registry.go\<close>: the live tensor spans of a session. The state machine
  of the registry keeps the spans of a segment disjoint; \<open>owned\<close> is the abstract view, the
  set of bytes of a segment that live spans claim.
\<close>

section \<open>The registry\<close>

record registeredSpan =
  rs_offset :: "64 word"
  rs_size :: "64 word"
  rs_desc :: TensorDescriptor

record TensorRegistry =
  reg_spans :: "string \<rightharpoonup> registeredSpan list"

definition NewTensorRegistry :: TensorRegistry where
  "NewTensorRegistry = \<lparr>reg_spans = Map.empty\<rparr>"

text \<open>\<open>r.spans[name]\<close>: a missing key reads as the nil slice.\<close>

definition live_spans :: "TensorRegistry \<Rightarrow> string \<Rightarrow> registeredSpan list" where
  "live_spans r name = (case reg_spans r name of None \<Rightarrow> [] | Some l \<Rightarrow> l)"

fun check_overlap :: "TensorDescriptor \<Rightarrow> registeredSpan list \<Rightarrow> error option" where
  "check_overlap d [] = None"
| "check_overlap d (s # live) =
     (if td_Offset d < rs_offset s + rs_size s \<and> rs_offset s < td_Offset d + td_Size d
      then Some (Errorf ''%w: [%d, %d) intersects live span [%d, %d) in segment %q''
             [AErr (Sentinel ErrTensorOverlap), AInt (uint (td_Offset d)),
              AInt (uint (td_Offset d + td_Size d)), AInt (uint (rs_offset s)),
              AInt (uint (rs_offset s + rs_size s)), AStr (td_ShmName d)])
      else check_overlap d live)"

definition Register :: "TensorRegistry \<Rightarrow> TensorDescriptor \<Rightarrow> error option \<times> TensorRegistry" where
  "Register r d =
     (case Validate d of
       Some e \<Rightarrow> (Some e, r)
     | None \<Rightarrow>
        (if td_Size d = 0
         then (Some (Errorf ''%w: zero-size span'' [AErr (Sentinel ErrTensorDims)]), r)
         else let live = live_spans r (td_ShmName d) in
           case check_overlap d live of
             Some e \<Rightarrow> (Some e, r)
           | None \<Rightarrow> (None, r\<lparr>reg_spans := (reg_spans r)(td_ShmName d \<mapsto>
               live @ [\<lparr>rs_offset = td_Offset d, rs_size = td_Size d, rs_desc = d\<rparr>])\<rparr>)))"

text \<open>The loop of \<open>Deregister\<close>: the list without the first span at \<open>offset\<close>, if there is one.\<close>

fun remove_at :: "64 word \<Rightarrow> registeredSpan list \<Rightarrow> registeredSpan list option" where
  "remove_at offset [] = None"
| "remove_at offset (s # live) =
     (if rs_offset s = offset then Some live
      else map_option (\<lambda>l. s # l) (remove_at offset live))"

definition Deregister :: "TensorRegistry \<Rightarrow> string \<Rightarrow> 64 word \<Rightarrow> bool \<times> TensorRegistry" where
  "Deregister r name offset =
     (case remove_at offset (live_spans r name) of
       None \<Rightarrow> (False, r)
     | Some l \<Rightarrow> (True, r\<lparr>reg_spans := (reg_spans r)(name \<mapsto> l)\<rparr>))"

text \<open>\<open>sort.Slice\<close> by offset; offsets within a segment are distinct, so the order is unique.\<close>

definition Spans :: "TensorRegistry \<Rightarrow> string \<Rightarrow> TensorDescriptor list" where
  "Spans r name = sort_key td_Offset (map rs_desc (live_spans r name))"

section \<open>The session\<close>

definition span_bytes :: "registeredSpan \<Rightarrow> int set" where
  "span_bytes s = {uint (rs_offset s) ..< uint (rs_offset s) + uint (rs_size s)}"

definition desc_bytes :: "TensorDescriptor \<Rightarrow> int set" where
  "desc_bytes d = {uint (td_Offset d) ..< uint (td_Offset d) + uint (td_Size d)}"

definition owned :: "TensorRegistry \<Rightarrow> string \<Rightarrow> int set" where
  "owned r name = \<Union> (span_bytes ` set (live_spans r name))"

definition span_wf :: "string \<Rightarrow> registeredSpan \<Rightarrow> bool" where
  "span_wf name s \<longleftrightarrow> Validate (rs_desc s) = None \<and> td_ShmName (rs_desc s) = name
     \<and> rs_offset s = td_Offset (rs_desc s) \<and> rs_size s = td_Size (rs_desc s) \<and> rs_size s \<noteq> 0"

text \<open>Live spans are validated, and pairwise disjoint within a segment.\<close>

definition segment_inv :: "string \<Rightarrow> registeredSpan list \<Rightarrow> bool" where
  "segment_inv name l \<longleftrightarrow> (\<forall>s \<in> set l. span_wf name s)
     \<and> sorted_wrt (\<lambda>s t. span_bytes s \<inter> span_bytes t = {}) l"

definition registry_inv :: "TensorRegistry \<Rightarrow> bool" where
  "registry_inv r \<longleftrightarrow> (\<forall>name. segment_inv name (live_spans r name))"

text \<open>The registries a session can reach.\<close>

inductive session :: "TensorRegistry \<Rightarrow> bool" where
  start: "session NewTensorRegistry"
| register: "session r \<Longrightarrow> Register r d = (res, r') \<Longrightarrow> session r'"
| deregister: "session r \<Longrightarrow> Deregister r name offset = (found, r') \<Longrightarrow> session r'"

section \<open>Lemmas\<close>

lemma live_spans_new [simp]: "live_spans NewTensorRegistry name = []"
  by (simp add: live_spans_def NewTensorRegistry_def)

lemma live_spans_upd [simp]:
  "live_spans (r\<lparr>reg_spans := (reg_spans r)(n \<mapsto> l)\<rparr>) name = (if name = n then l else live_spans r name)"
  by (simp add: live_spans_def)

lemma Validate_no_wrap: "Validate d = None \<Longrightarrow> uint (td_Offset d) + uint (td_Size d) < 2 ^ 64"
  by (simp add: Validate_None_iff)

lemma span_wf_no_wrap: "span_wf name s \<Longrightarrow> uint (rs_offset s) + uint (rs_size s) < 2 ^ 64"
  using Validate_no_wrap [of "rs_desc s"] by (simp add: span_wf_def)

lemma uint_add_no_wrap: "uint a + uint b < 2 ^ 64 \<Longrightarrow> uint (a + b :: 64 word) = uint a + uint b"
  using uint_add_lem [of a b] by simp

text \<open>Under the invariant the test of the code is intersection.\<close>

lemma overlap_test:
  assumes "Validate d = None" "td_Size d \<noteq> 0" "span_wf name s"
  shows "(td_Offset d < rs_offset s + rs_size s \<and> rs_offset s < td_Offset d + td_Size d)
     \<longleftrightarrow> desc_bytes d \<inter> span_bytes s \<noteq> {}"
proof -
  have sums: "uint (rs_offset s + rs_size s) = uint (rs_offset s) + uint (rs_size s)"
    "uint (td_Offset d + td_Size d) = uint (td_Offset d) + uint (td_Size d)"
    using assms Validate_no_wrap span_wf_no_wrap uint_add_no_wrap by blast+
  have "0 < uint (td_Size d)" "0 < uint (rs_size s)"
    using assms by (auto simp: span_wf_def word_neq_0_conv word_less_def)
  then show ?thesis
    by (auto simp: word_less_def sums desc_bytes_def span_bytes_def Int_atLeastLessThan)
qed

lemma check_overlap_None:
  assumes "Validate d = None" "td_Size d \<noteq> 0" "\<forall>s \<in> set live. span_wf name s"
  shows "check_overlap d live = None \<longleftrightarrow> desc_bytes d \<inter> \<Union> (span_bytes ` set live) = {}"
  using assms(3)
proof (induction live)
  case Nil
  then show ?case by simp
next
  case (Cons s live)
  then show ?case
    using overlap_test [OF assms(1,2), of name s] by (simp add: Int_Un_distrib)
qed

lemma check_overlap_Some: "check_overlap d live = Some e \<Longrightarrow> errors_Is e ErrTensorOverlap"
  by (induction live) (auto split: if_splits)

lemma remove_at_Some:
  "remove_at offset l = Some l' \<Longrightarrow>
     \<exists>s before after. l = before @ s # after \<and> l' = before @ after \<and> rs_offset s = offset"
proof (induction l arbitrary: l')
  case (Cons s l)
  then show ?case
    by (auto split: if_splits) (metis append_Nil, metis append_Cons)
qed simp

lemma remove_at_None: "remove_at offset l = None \<longleftrightarrow> (\<forall>s \<in> set l. rs_offset s \<noteq> offset)"
  by (induction l) auto

lemma registry_inv_new: "registry_inv NewTensorRegistry"
  by (simp add: registry_inv_def segment_inv_def)

lemma registry_inv_upd:
  "registry_inv r \<Longrightarrow> segment_inv n l \<Longrightarrow> registry_inv (r\<lparr>reg_spans := (reg_spans r)(n \<mapsto> l)\<rparr>)"
  by (simp add: registry_inv_def)

lemma registry_invD: "registry_inv r \<Longrightarrow> segment_inv name (live_spans r name)"
  by (simp add: registry_inv_def)

lemma segment_inv_remove: "segment_inv name (before @ s # after) \<Longrightarrow> segment_inv name (before @ after)"
  by (auto simp: segment_inv_def sorted_wrt_append)

lemma span_bytes_new [simp]:
  "span_bytes \<lparr>rs_offset = td_Offset d, rs_size = td_Size d, rs_desc = d\<rparr> = desc_bytes d"
  by (simp add: span_bytes_def desc_bytes_def)

lemma segment_inv_add:
  assumes "segment_inv name l" "Validate d = None" "td_Size d \<noteq> 0" "td_ShmName d = name"
    and "check_overlap d l = None"
  shows "segment_inv name (l @ [\<lparr>rs_offset = td_Offset d, rs_size = td_Size d, rs_desc = d\<rparr>])"
proof -
  have "desc_bytes d \<inter> \<Union> (span_bytes ` set l) = {}"
    using assms check_overlap_None [OF assms(2,3), of l name] by (simp add: segment_inv_def)
  moreover have "span_wf name \<lparr>rs_offset = td_Offset d, rs_size = td_Size d, rs_desc = d\<rparr>"
    using assms by (simp add: span_wf_def)
  ultimately show ?thesis
    using assms(1) by (auto simp: segment_inv_def sorted_wrt_append)
qed

text \<open>The two outcomes of \<open>Register\<close> and of \<open>Deregister\<close>.\<close>

lemma Register_cases:
  assumes "Register r d = (res, r')"
  obtains (refused) e where "res = Some e" "r' = r"
  | (added) "res = None" "Validate d = None" "td_Size d \<noteq> 0"
      "check_overlap d (live_spans r (td_ShmName d)) = None"
      "r' = r\<lparr>reg_spans := (reg_spans r)(td_ShmName d \<mapsto> live_spans r (td_ShmName d)
        @ [\<lparr>rs_offset = td_Offset d, rs_size = td_Size d, rs_desc = d\<rparr>])\<rparr>"
proof (cases "res")
  case None
  with assms show thesis
    by (intro added) (simp_all add: Register_def Let_def split: option.splits if_splits)
next
  case (Some e)
  with assms show thesis
    by (intro refused) (auto simp: Register_def Let_def split: option.splits if_splits)
qed

lemma Deregister_cases:
  assumes "Deregister r name offset = (found, r')"
  obtains (absent) "\<not> found" "r' = r" "\<forall>s \<in> set (live_spans r name). rs_offset s \<noteq> offset"
  | (removed) s before after where "found" "live_spans r name = before @ s # after" "rs_offset s = offset"
      "r' = r\<lparr>reg_spans := (reg_spans r)(name \<mapsto> before @ after)\<rparr>"
proof (cases "remove_at offset (live_spans r name)")
  case None
  with assms absent show thesis by (simp add: Deregister_def remove_at_None)
next
  case (Some l)
  then obtain s before after where "live_spans r name = before @ s # after" "l = before @ after" "rs_offset s = offset"
    using remove_at_Some by blast
  with assms Some removed show thesis by (simp add: Deregister_def)
qed

lemma Register_inv: "registry_inv r \<Longrightarrow> Register r d = (res, r') \<Longrightarrow> registry_inv r'"
  by (erule Register_cases) (auto intro: registry_inv_upd segment_inv_add registry_invD)

lemma Deregister_inv: "registry_inv r \<Longrightarrow> Deregister r name offset = (found, r') \<Longrightarrow> registry_inv r'"
  by (erule Deregister_cases) (use registry_invD [of r name] segment_inv_remove registry_inv_upd in \<open>simp, metis\<close>)

lemma Register_accepts_iff:
  assumes "registry_inv r"
  shows "fst (Register r d) = None \<longleftrightarrow>
    Validate d = None \<and> td_Size d \<noteq> 0 \<and> desc_bytes d \<inter> owned r (td_ShmName d) = {}"
proof -
  have "\<forall>s \<in> set (live_spans r (td_ShmName d)). span_wf (td_ShmName d) s"
    using registry_invD [OF assms] by (simp add: segment_inv_def)
  then show ?thesis
    using check_overlap_None [of d "live_spans r (td_ShmName d)" "td_ShmName d"]
    by (auto simp: Register_def owned_def Let_def split: option.splits)
qed

lemma Register_owned:
  "Register r d = (None, r') \<Longrightarrow>
     owned r' name = owned r name \<union> (if name = td_ShmName d then desc_bytes d else {})"
  by (erule Register_cases) (auto simp: owned_def)

lemma segment_inv_other_bytes:
  assumes "segment_inv name (before @ s # after)"
  shows "span_bytes s \<inter> \<Union> (span_bytes ` (set before \<union> set after)) = {}"
  using assms by (auto simp: segment_inv_def sorted_wrt_append)

lemma Deregister_owned:
  assumes "registry_inv r" "Deregister r name offset = (True, r')"
  obtains s where "s \<in> set (live_spans r name)" "rs_offset s = offset"
    "owned r' name = owned r name - span_bytes s" "\<And>n. n \<noteq> name \<Longrightarrow> owned r' n = owned r n"
proof (rule Deregister_cases [OF assms(2)])
  fix s before after
  assume l: "live_spans r name = before @ s # after" "rs_offset s = offset"
    and r': "r' = r\<lparr>reg_spans := (reg_spans r)(name \<mapsto> before @ after)\<rparr>"
  have "span_bytes s \<inter> \<Union> (span_bytes ` (set before \<union> set after)) = {}"
    using registry_invD [OF assms(1), of name] l(1) by (auto dest: segment_inv_other_bytes)
  then have "owned r' name = owned r name - span_bytes s"
    by (auto simp: owned_def r' l(1))
  then show thesis
    using l by (intro that [of s]) (auto simp: owned_def r')
qed simp

lemma span_start_owned: "span_wf name s \<Longrightarrow> uint (rs_offset s) \<in> span_bytes s"
  by (auto simp: span_wf_def span_bytes_def word_neq_0_conv word_less_def)

lemma segment_offsets_distinct: "segment_inv name l \<Longrightarrow> distinct (map rs_offset l)"
proof (induction l)
  case (Cons s l)
  have "rs_offset t \<noteq> rs_offset s" if "t \<in> set l" for t
    using Cons.prems that span_start_owned [of name s] span_start_owned [of name t]
    by (fastforce simp: segment_inv_def)
  then have "rs_offset s \<notin> set (map rs_offset l)" by fastforce
  with Cons show ?case by (simp add: segment_inv_def)
qed simp

lemma segment_desc_offsets: "segment_inv name l \<Longrightarrow> map td_Offset (map rs_desc l) = map rs_offset l"
  by (auto simp: segment_inv_def span_wf_def)

lemma remove_at_last:
  "offset \<notin> rs_offset ` set l \<Longrightarrow> rs_offset s = offset \<Longrightarrow> remove_at offset (l @ [s]) = Some l"
  by (induction l) auto

lemma session_inv: "session r \<Longrightarrow> registry_inv r"
proof (induction rule: session.induct)
  case start
  show ?case by (rule registry_inv_new)
next
  case (register r d res r')
  then show ?case by (blast intro: Register_inv)
next
  case (deregister r name offset found r')
  then show ?case by (blast intro: Deregister_inv)
qed

lemma sort_key_strict:
  "distinct (map f xs) \<Longrightarrow> sorted_wrt (\<lambda>x y. f x < (f y :: 'b :: linorder)) (sort_key f xs)"
proof -
  assume "distinct (map f xs)"
  then have "distinct (map f (sort_key f xs))"
    by (metis distinct_map distinct_sort inj_on_subset set_sort subset_refl)
  moreover have "sorted (map f (sort_key f xs))" by simp
  ultimately have "sorted_wrt (<) (map f (sort_key f xs))"
    using strict_sorted_iff by blast
  then show ?thesis by (simp add: sorted_wrt_map)
qed

section \<open>Properties\<close>

text \<open>
  C26: Whatever sequence of registrations and deregistrations a session performs, the
  live spans of a segment never overlap: two live spans at different positions share no
  byte, each holds a validated descriptor of that segment, and none wraps the address space.
\<close>

theorem registry_spans_disjoint:
  assumes "session r" and "i < j" and "j < length (live_spans r name)"
  shows "span_bytes (live_spans r name ! i) \<inter> span_bytes (live_spans r name ! j) = {}
    \<and> span_wf name (live_spans r name ! i)
    \<and> uint (rs_offset (live_spans r name ! i)) + uint (rs_size (live_spans r name ! i)) < 2 ^ 64"
proof -
  have inv: "segment_inv name (live_spans r name)"
    by (rule registry_invD [OF session_inv [OF assms(1)]])
  then have wf: "span_wf name (live_spans r name ! i)"
    using assms by (simp add: segment_inv_def)
  show ?thesis
    using inv assms(2,3) wf span_wf_no_wrap [OF wf] by (simp add: segment_inv_def sorted_wrt_iff_nth_less)
qed

text \<open>Two neighbouring tensors of one segment.\<close>

definition example_registry :: TensorRegistry where
  "example_registry = snd (Register (snd (Register NewTensorRegistry example_tensor)) (example_tensor\<lparr>td_Offset := 88\<rparr>))"

lemma example_tensor_Validate_88: "Validate (example_tensor\<lparr>td_Offset := 88\<rparr>) = None"
  by (rule Validate_complete)
    (simp add: tensor_valid_def tensor_footprint_def tensor_extent_def elem_bytes_def example_tensor_simps)

lemma example_registry_spans:
  "live_spans example_registry ''seg'' =
     [\<lparr>rs_offset = 64, rs_size = 24, rs_desc = example_tensor\<rparr>,
      \<lparr>rs_offset = 88, rs_size = 24, rs_desc = example_tensor\<lparr>td_Offset := 88\<rparr>\<rparr>]"
proof -
  have "live_spans (snd (Register NewTensorRegistry example_tensor)) ''seg''
      = [\<lparr>rs_offset = 64, rs_size = 24, rs_desc = example_tensor\<rparr>]"
    by (simp add: Register_def example_tensor_Validate) (simp add: example_tensor_def)
  then show ?thesis
    by (simp add: example_registry_def Register_def [of _ "example_tensor\<lparr>td_Offset := 88\<rparr>"] example_tensor_Validate_88)
      (simp add: example_tensor_def)
qed

lemma example_registry_session: "session example_registry"
  unfolding example_registry_def
  by (rule session.register [OF session.register [OF session.start prod.collapse [symmetric]] prod.collapse [symmetric]])

theorem registry_spans_disjoint_witness:
  "span_bytes (live_spans example_registry ''seg'' ! 0) \<inter> span_bytes (live_spans example_registry ''seg'' ! 1) = {}"
  using registry_spans_disjoint [OF example_registry_session, of 0 1 "''seg''"]
  by (simp add: example_registry_spans)

text \<open>
  In every reachable registry, \<open>Register\<close> succeeds exactly when the descriptor is
  valid, not empty, and touches no byte that a live span of its segment owns, and it then adds
  exactly the descriptor's bytes to that segment; a refused call changes nothing.
\<close>

theorem Register_exact:
  assumes "session r"
  shows "(fst (Register r d) = None \<longleftrightarrow>
           Validate d = None \<and> td_Size d \<noteq> 0 \<and> desc_bytes d \<inter> owned r (td_ShmName d) = {})
    \<and> (if fst (Register r d) = None
       then \<forall>name. owned (snd (Register r d)) name
              = owned r name \<union> (if name = td_ShmName d then desc_bytes d else {})
       else snd (Register r d) = r)"
proof -
  obtain res r' where res: "Register r d = (res, r')" by fastforce
  have "if res = None
      then \<forall>name. owned r' name = owned r name \<union> (if name = td_ShmName d then desc_bytes d else {})
      else r' = r"
    using Register_owned [of r d r'] res by (cases rule: Register_cases [OF res]) auto
  then show ?thesis
    using Register_accepts_iff [OF session_inv [OF assms], of d] res by simp
qed

theorem Register_exact_witness:
  "fst (Register NewTensorRegistry example_tensor) = None
   \<and> owned (snd (Register NewTensorRegistry example_tensor)) ''seg'' = {64 ..< 88}"
proof -
  have d: "td_Size example_tensor \<noteq> 0" "td_ShmName example_tensor = ''seg''" "desc_bytes example_tensor = {64 ..< 88}"
    by (simp_all add: example_tensor_def desc_bytes_def)
  have "owned NewTensorRegistry ''seg'' = {}" by (simp add: owned_def)
  with Register_exact [OF session.start, of example_tensor] example_tensor_Validate d show ?thesis
    by (metis Int_empty_right Un_empty_left)
qed

text \<open>
  \<open>Deregister\<close> frees exactly the live span that starts at the offset: it reports
  whether there was one, and the span's bytes and only those leave the segment.
\<close>

theorem Deregister_exact:
  assumes "session r"
  shows "(fst (Deregister r name offset) \<longleftrightarrow> (\<exists>s \<in> set (live_spans r name). rs_offset s = offset))
    \<and> (\<forall>s \<in> set (live_spans r name). rs_offset s = offset \<longrightarrow>
         owned (snd (Deregister r name offset)) name = owned r name - span_bytes s)
    \<and> (\<forall>other. other \<noteq> name \<longrightarrow> owned (snd (Deregister r name offset)) other = owned r other)"
proof -
  have inv: "registry_inv r" by (rule session_inv [OF assms])
  obtain found r' where res: "Deregister r name offset = (found, r')" by fastforce
  have inj: "inj_on rs_offset (set (live_spans r name))"
    using segment_offsets_distinct [OF registry_invD [OF inv, of name]] by (simp only: distinct_map)
  show ?thesis
  proof (cases found)
    case False
    with res have "r' = r" "\<forall>s \<in> set (live_spans r name). rs_offset s \<noteq> offset"
      by (auto elim: Deregister_cases)
    with res False show ?thesis by simp
  next
    case True
    with res have res': "Deregister r name offset = (True, r')" by simp
    obtain t where t: "t \<in> set (live_spans r name)" "rs_offset t = offset"
      "owned r' name = owned r name - span_bytes t" "\<And>n. n \<noteq> name \<Longrightarrow> owned r' n = owned r n"
      using Deregister_owned [OF inv res'] by metis
    have uniq: "u = t" if "u \<in> set (live_spans r name)" "rs_offset u = offset" for u
      using inj_onD [OF inj _ that(1) t(1)] that(2) t(2) by simp
    have "\<forall>s \<in> set (live_spans r name). rs_offset s = offset \<longrightarrow> owned r' name = owned r name - span_bytes s"
      using uniq t(3) by blast
    with t(1,2,4) show ?thesis unfolding res' by auto
  qed
qed

theorem Deregister_exact_witness:
  "fst (Deregister example_registry ''seg'' 64)
   \<and> owned (snd (Deregister example_registry ''seg'' 64)) ''seg'' = {88 ..< 112}"
  using Deregister_exact [OF example_registry_session, of "''seg''" 64]
  by (auto simp: example_registry_spans owned_def span_bytes_def)

text \<open>
  \<open>Spans\<close> lists exactly the live descriptors of a segment, each once, in strictly
  increasing order of offset.
\<close>

theorem Spans_sorted:
  assumes "session r"
  shows "sorted_wrt (\<lambda>d e. td_Offset d < td_Offset e) (Spans r name)
    \<and> mset (Spans r name) = mset (map rs_desc (live_spans r name))"
proof -
  have inv: "segment_inv name (live_spans r name)"
    by (rule registry_invD [OF session_inv [OF assms]])
  have "distinct (map td_Offset (map rs_desc (live_spans r name)))"
    using segment_offsets_distinct [OF inv] by (simp only: segment_desc_offsets [OF inv])
  then show ?thesis
    by (simp add: Spans_def sort_key_strict del: map_map)
qed

theorem Spans_sorted_witness:
  "sorted_wrt (\<lambda>d e. td_Offset d < td_Offset e) (Spans example_registry ''seg'')
   \<and> length (Spans example_registry ''seg'') = 2"
  using Spans_sorted [OF example_registry_session, of "''seg''"]
  by (simp add: example_registry_spans Spans_def)

end
