(* ===== verification/Conn.thy ===== *)
theory Conn
  imports Frame
begin

text \<open>
  \<^verbatim>\<open>transport/transport.go\<close>: \<open>ConnWrapper\<close>, the length-prefixed frame connection over
  a stream. The lemmas give the exact bytes \<open>Send\<close> puts on the stream, the exact frames
  \<open>Receive\<close> takes from it however the stream is segmented, and the contract
  \<open>channel\<close> of the interface \<open>transport.Connection\<close> that the endpoints use.
\<close>

section \<open>ConnWrapper\<close>

type_synonym ConnWrapper = netconn

definition NewConnWrapper :: "netconn \<Rightarrow> ConnWrapper" where
  "NewConnWrapper conn = conn"

definition ConnWrapper_Send :: "frame \<Rightarrow> ConnWrapper \<Rightarrow> error option \<times> ConnWrapper" where
  "ConnWrapper_Send f c =
     (case Encode limitedBuffer_Write f \<lparr>lb_data = []\<rparr> of
       (Some e, _) \<Rightarrow> (Some (wrap_err ''encode frame: %w'' e), c)
     | (None, buf) \<Rightarrow>
        (let frameBuf = limitedBuffer_Bytes buf in
         case netconn_Write c (PutUint32 (of_nat (length frameBuf))) of
           (Some e, c1) \<Rightarrow> (Some (wrap_err ''write length: %w'' e), c1)
         | (None, c1) \<Rightarrow> (case netconn_Write c1 frameBuf of
             (Some e, c2) \<Rightarrow> (Some (wrap_err ''write frame: %w'' e), c2)
           | (None, c2) \<Rightarrow> (None, c2))))"

definition ConnWrapper_Receive :: "ConnWrapper \<Rightarrow> frame result \<times> ConnWrapper" where
  "ConnWrapper_Receive c =
     (case io_ReadFull netconn_Read c 4 of
       (Inl e, c1) \<Rightarrow> (Inl (wrap_err ''read length: %w'' e), c1)
     | (Inr lenBuf, c1) \<Rightarrow>
        (let frameLen = Uint32 lenBuf in
         if frameLen > MaxFrameSize
         then (Inl (Errorf ''frame too large: %d bytes'' [AInt (uint frameLen)]), c1)
         else case io_ReadFull netconn_Read c1 (unat frameLen) of
           (Inl e, c2) \<Rightarrow> (Inl (wrap_err ''read frame: %w'' e), c2)
         | (Inr frameBuf, c2) \<Rightarrow>
             (fst (Decode (io_ReadFull bytesReader_Read) (newBytesReader frameBuf)), c2)))"

definition ConnWrapper_RemoteAddr :: "ConnWrapper \<Rightarrow> string" where
  "ConnWrapper_RemoteAddr c = nc_remote c"

definition ConnWrapper_Close :: "ConnWrapper \<Rightarrow> error option \<times> ConnWrapper" where
  "ConnWrapper_Close c = netconn_Close c"

section \<open>What travels on the stream\<close>

definition conn_wire :: "frame \<Rightarrow> bytes" where
  "conn_wire f = PutUint32 (of_nat (length (wire f))) @ wire f"

text \<open>The frames that survive the receiver's length check.\<close>

definition conn_ok :: "frame \<Rightarrow> bool" where
  "conn_ok f \<longleftrightarrow> frame_wf f \<and> length (wire f) \<le> unat MaxFrameSize"

definition conn_open :: "netconn \<Rightarrow> bool" where
  "conn_open c \<longleftrightarrow> \<not> nc_closed c \<and> nc_broken c = None"

text \<open>The receiver of a stream, on the bytes themselves.\<close>

definition stream_Receive :: "bytes \<Rightarrow> frame result \<times> bytes" where
  "stream_Receive s =
     (case stream_ReadFull s 4 of
       (Inl e, s1) \<Rightarrow> (Inl (wrap_err ''read length: %w'' e), s1)
     | (Inr lenBuf, s1) \<Rightarrow>
        (let frameLen = Uint32 lenBuf in
         if frameLen > MaxFrameSize
         then (Inl (Errorf ''frame too large: %d bytes'' [AInt (uint frameLen)]), s1)
         else case stream_ReadFull s1 (unat frameLen) of
           (Inl e, s2) \<Rightarrow> (Inl (wrap_err ''read frame: %w'' e), s2)
         | (Inr frameBuf, s2) \<Rightarrow> (fst (Decode stream_ReadFull frameBuf), s2)))"

lemma length_wire_bound: "frame_fits f \<Longrightarrow> length (wire f) \<le> 1048624"
  by (auto simp: frame_fits_def wire_def mac_part_def MACSize_def)

lemma unat_length_wire: "frame_fits f \<Longrightarrow> unat (of_nat (length (wire f)) :: 32 word) = length (wire f)"
  by (rule unat_of_nat_small) (use length_wire_bound [of f] in simp)

lemma ConnWrapper_Send_open:
  assumes "conn_open c"
  shows "ConnWrapper_Send f c =
    (if frame_fits f then (None, c\<lparr>nc_out := nc_out c @ conn_wire f\<rparr>)
     else (Some (wrap_err ''encode frame: %w'' (Sentinel ErrFrameTooLarge)), c))"
  using assms
  by (simp add: ConnWrapper_Send_def Encode_limitedBuffer limitedBuffer_Bytes_def netconn_Write_def
      conn_open_def conn_wire_def Let_def)

lemma Decode_bytesReader:
  "fst (Decode (io_ReadFull bytesReader_Read) (newBytesReader b)) = fst (Decode stream_ReadFull b)"
proof -
  have "bytesReader_stream (newBytesReader b) = b"
    by (simp add: bytesReader_stream_def newBytesReader_def)
  then show ?thesis
    using bytesrd.Decode_reader [of "newBytesReader b"] by auto
qed

text \<open>The segmentation of the stream does not matter.\<close>

lemma ConnWrapper_Receive_stream:
  assumes "\<not> nc_closed c"
  shows "\<exists>c'. ConnWrapper_Receive c = (fst (stream_Receive (concat (nc_in c))), c')
    \<and> concat (nc_in c') = snd (stream_Receive (concat (nc_in c))) \<and> \<not> nc_closed c'"
proof -
  let ?s = "concat (nc_in c)"
  obtain c1 where c1: "io_ReadFull netconn_Read c 4 = (fst (stream_ReadFull ?s 4), c1)"
    "concat (nc_in c1) = snd (stream_ReadFull ?s 4)" "\<not> nc_closed c1"
    using netrd.rf_stream [OF assms] by blast
  obtain res1 s1 where s1: "stream_ReadFull ?s 4 = (res1, s1)" by fastforce
  show ?thesis
  proof (cases res1)
    case (Inl e)
    with c1 s1 show ?thesis by (simp add: ConnWrapper_Receive_def stream_Receive_def)
  next
    case (Inr lenBuf)
    let ?n = "unat (Uint32 lenBuf)"
    obtain c2 where c2: "io_ReadFull netconn_Read c1 ?n = (fst (stream_ReadFull s1 ?n), c2)"
      "concat (nc_in c2) = snd (stream_ReadFull s1 ?n)" "\<not> nc_closed c2"
      using netrd.rf_stream [OF c1(3), of ?n] c1(2) s1 by auto
    obtain res2 s2 where s2: "stream_ReadFull s1 ?n = (res2, s2)" by fastforce
    show ?thesis
      using c1 c2 s1 s2 Inr
      by (cases res2; cases "MaxFrameSize < Uint32 lenBuf")
        (simp_all add: ConnWrapper_Receive_def stream_Receive_def Let_def Decode_bytesReader)
  qed
qed

lemma stream_Receive_wire:
  assumes "frame_wf f"
  shows "stream_Receive (conn_wire f @ rest) =
    (if conn_ok f then (Inr f, rest)
     else (Inl (Errorf ''frame too large: %d bytes'' [AInt (int (length (wire f)))]), wire f @ rest))"
proof -
  have fits: "frame_fits f" using assms by (simp add: frame_wf_def)
  have "stream_ReadFull (conn_wire f @ rest) 4 = (Inr (PutUint32 (of_nat (length (wire f)))), wire f @ rest)"
    by (simp add: stream_ReadFull_def conn_wire_def)
  moreover have "MaxFrameSize < (of_nat (length (wire f)) :: 32 word) \<longleftrightarrow> \<not> conn_ok f"
    using assms by (simp add: word_less_nat_alt unat_length_wire [OF fits] conn_ok_def not_le)
  moreover have "uint (of_nat (length (wire f)) :: 32 word) = int (length (wire f))"
    using unat_length_wire [OF fits] by (metis uint_nat)
  moreover have "stream_ReadFull (wire f @ rest) (length (wire f)) = (Inr (wire f), rest)"
    by (simp add: stream_ReadFull_def)
  moreover have "Decode stream_ReadFull (wire f) = (Inr f, [])"
    using Decode_wire [OF assms, of "[]"] by simp
  ultimately show ?thesis
    by (simp add: stream_Receive_def unat_length_wire [OF fits])
qed

section \<open>The contract of transport.Connection\<close>

text \<open>
  A channel takes frames (or messages) from its sender and hands them to its receiver in order.
  \<open>accepts c fs\<close> is the condition for sending \<open>fs\<close> in a row, \<open>carry f\<close> the frame the other side sees,
  \<open>outbox c fs\<close> and \<open>inbox c fs\<close> the frames in flight. A call that does
  not return (a transport that waits for its peer, a run-time panic) is \<open>None\<close>.
\<close>

fun recv_all :: "('c \<Rightarrow> ('f result \<times> 'c) option) \<Rightarrow> nat \<Rightarrow> 'c \<Rightarrow> ('f list result \<times> 'c) option" where
  "recv_all rcv 0 c = Some (Inr [], c)"
| "recv_all rcv (Suc n) c =
     (case rcv c of
       None \<Rightarrow> None
     | Some (Inl e, c') \<Rightarrow> Some (Inl e, c')
     | Some (Inr f, c') \<Rightarrow> (case recv_all rcv n c' of
         None \<Rightarrow> None
       | Some (Inl e, c'') \<Rightarrow> Some (Inl e, c'')
       | Some (Inr fs, c'') \<Rightarrow> Some (Inr (f # fs), c'')))"

fun send_all :: "('f \<Rightarrow> 'c \<Rightarrow> (error option \<times> 'c) option) \<Rightarrow> 'f list \<Rightarrow> 'c \<Rightarrow> (error option \<times> 'c) option" where
  "send_all snd' [] c = Some (None, c)"
| "send_all snd' (f # fs) c =
     (case snd' f c of
       None \<Rightarrow> None
     | Some (Some e, c') \<Rightarrow> Some (Some e, c')
     | Some (None, c') \<Rightarrow> send_all snd' fs c')"

locale channel =
  fixes csend :: "'f \<Rightarrow> 's \<Rightarrow> (error option \<times> 's) option"
    and crecv :: "'r \<Rightarrow> ('f result \<times> 'r) option"
    and accepts :: "'s \<Rightarrow> 'f list \<Rightarrow> bool"
    and carry :: "'f \<Rightarrow> 'f"
    and outbox :: "'s \<Rightarrow> 'f list \<Rightarrow> bool"
    and inbox :: "'r \<Rightarrow> 'f list \<Rightarrow> bool"
  assumes send_accepted: "outbox c gs \<Longrightarrow> accepts c (f # fs) \<Longrightarrow>
      \<exists>c'. csend f c = Some (None, c') \<and> outbox c' (gs @ [carry f]) \<and> accepts c' fs"
    and recv_next: "inbox d (f # fs) \<Longrightarrow> \<exists>d'. crecv d = Some (Inr f, d') \<and> inbox d' fs"
begin

lemma send_all_outbox:
  "outbox c gs \<Longrightarrow> accepts c fs \<Longrightarrow> \<exists>c'. send_all csend fs c = Some (None, c') \<and> outbox c' (gs @ map carry fs)"
proof (induction fs arbitrary: c gs)
  case Nil
  then show ?case by simp
next
  case (Cons f fs)
  then obtain c1 where c1: "csend f c = Some (None, c1)" "outbox c1 (gs @ [carry f])" "accepts c1 fs"
    using send_accepted by blast
  then obtain c2 where "send_all csend fs c1 = Some (None, c2)" "outbox c2 ((gs @ [carry f]) @ map carry fs)"
    using Cons.IH by blast
  with c1 show ?case by simp
qed

text \<open>Receiving as many frames as are in flight keeps their order.\<close>

lemma recv_all_inbox:
  "inbox c (fs @ gs) \<Longrightarrow> \<exists>c'. recv_all crecv (length fs) c = Some (Inr fs, c') \<and> inbox c' gs"
proof (induction fs arbitrary: c)
  case Nil
  then show ?case by simp
next
  case (Cons f fs)
  then obtain c1 where c1: "crecv c = Some (Inr f, c1)" "inbox c1 (fs @ gs)"
    using recv_next by fastforce
  then obtain c2 where "recv_all crecv (length fs) c1 = Some (Inr fs, c2)" "inbox c2 gs"
    using Cons.IH by blast
  with c1 show ?case by simp
qed

end

definition conn_outbox :: "netconn \<Rightarrow> frame list \<Rightarrow> bool" where
  "conn_outbox c fs \<longleftrightarrow> nc_out c = concat (map conn_wire fs)"

definition conn_inbox :: "netconn \<Rightarrow> frame list \<Rightarrow> bool" where
  "conn_inbox c fs \<longleftrightarrow> \<not> nc_closed c \<and> (\<forall>f \<in> set fs. conn_ok f)
     \<and> concat (nc_in c) = concat (map conn_wire fs)"

definition conn_accepts :: "netconn \<Rightarrow> frame list \<Rightarrow> bool" where
  "conn_accepts c fs \<longleftrightarrow> conn_open c \<and> (\<forall>f \<in> set fs. frame_fits f)"

interpretation tcpconn: channel "\<lambda>f c. Some (ConnWrapper_Send f c)" "\<lambda>c. Some (ConnWrapper_Receive c)" conn_accepts "\<lambda>f. f"
  conn_outbox conn_inbox
proof
  fix c fs gs f
  show "\<exists>c'. Some (ConnWrapper_Send f c) = Some (None, c') \<and> conn_outbox c' (gs @ [f]) \<and> conn_accepts c' fs"
    if "conn_outbox c gs" "conn_accepts c (f # fs)"
    using that by (simp add: conn_accepts_def ConnWrapper_Send_open conn_outbox_def conn_open_def)
  assume inb: "conn_inbox c (f # fs)"
  then have op: "\<not> nc_closed c" and ok: "conn_ok f"
    and st: "concat (nc_in c) = conn_wire f @ concat (map conn_wire fs)"
    by (auto simp: conn_inbox_def)
  have "stream_Receive (concat (nc_in c)) = (Inr f, concat (map conn_wire fs))"
    unfolding st using stream_Receive_wire [of f] ok by (simp add: conn_ok_def)
  then show "\<exists>c'. Some (ConnWrapper_Receive c) = Some (Inr f, c') \<and> conn_inbox c' fs"
    using ConnWrapper_Receive_stream [OF op] inb
    by (metis (no_types, lifting) conn_inbox_def fst_conv list.set_intros(2) snd_conv)
qed

section \<open>Properties\<close>

text \<open>
  Two connected wrappers are a reliable queue of frames: sending any frames the
  receiver's limit admits succeeds, and the peer, whose incoming segments are any
  cutting of the bytes sent, receives exactly those frames in that order.
\<close>

theorem ConnWrapper_pipe:
  assumes "conn_open c" and "nc_out c = []" and "\<not> nc_closed d" and "\<forall>f \<in> set fs. conn_ok f"
    and "send_all (\<lambda>f c. Some (ConnWrapper_Send f c)) fs c = Some (res, c')"
    and "concat (nc_in d) = nc_out c'"
  shows "res = None \<and> map_option fst (recv_all (\<lambda>c. Some (ConnWrapper_Receive c)) (length fs) d) = Some (Inr fs)"
proof -
  have "conn_outbox c []" "conn_accepts c fs"
    using assms(1,2,4) by (auto simp: conn_outbox_def conn_accepts_def conn_ok_def frame_wf_def)
  from tcpconn.send_all_outbox [OF this] assms(5) have c': "res = None" "conn_outbox c' fs" by auto
  with assms(3,4,6) have "conn_inbox d (fs @ [])"
    by (simp add: conn_outbox_def conn_inbox_def)
  from tcpconn.recv_all_inbox [OF this] c'(1) show ?thesis by auto
qed

text \<open>An open connection with given incoming segments.\<close>

definition open_conn :: "bytes list \<Rightarrow> netconn" where
  "open_conn segs = \<lparr>nc_in = segs, nc_out = [], nc_closed = False, nc_broken = None, nc_remote = []\<rparr>"

lemma open_conn_simps [simp]:
  "conn_open (open_conn segs)" "nc_out (open_conn segs) = []" "\<not> nc_closed (open_conn segs)"
  "nc_in (open_conn segs) = segs"
  by (simp_all add: open_conn_def conn_open_def)

lemma example_frame_ok: "conn_ok example_frame"
  using example_frame_wf by (simp add: conn_ok_def wire_def mac_part_def example_frame_def MACSize_def)

theorem ConnWrapper_pipe_witness:
  "map_option fst (recv_all (\<lambda>c. Some (ConnWrapper_Receive c)) 2
     (open_conn [take 3 (conn_wire example_frame), drop 3 (conn_wire example_frame) @ conn_wire example_frame]))
   = Some (Inr [example_frame, example_frame])"
  using ConnWrapper_pipe [of "open_conn []"
      "open_conn [take 3 (conn_wire example_frame), drop 3 (conn_wire example_frame) @ conn_wire example_frame]"
      "[example_frame, example_frame]" None "(open_conn [])\<lparr>nc_out := conn_wire example_frame @ conn_wire example_frame\<rparr>"]
    example_frame_ok
  by (simp add: ConnWrapper_Send_open conn_ok_def frame_wf_def conn_open_def open_conn_def numeral_2_eq_2)

text \<open>
  The sender and the receiver disagree on the largest frame. On an open connection
  every frame whose header and payload together fit in \<open>MaxFrameSize\<close> is sent without
  error, yet the receiver refuses it when preamble and MAC push the encoding past
  \<open>MaxFrameSize\<close>, and then leaves the frame's bytes in the stream, where the next
  \<open>Receive\<close> takes them for a length.
\<close>

theorem ConnWrapper_limit_gap:
  assumes "conn_open c" and "frame_wf f" and "length (wire f) > unat MaxFrameSize" and "\<not> nc_closed d"
    and "concat (nc_in d) = conn_wire f @ rest"
  shows "ConnWrapper_Send f c = (None, c\<lparr>nc_out := nc_out c @ conn_wire f\<rparr>)
    \<and> (\<exists>d'. ConnWrapper_Receive d
              = (Inl (Errorf ''frame too large: %d bytes'' [AInt (int (length (wire f)))]), d')
          \<and> concat (nc_in d') = wire f @ rest)"
proof
  show "ConnWrapper_Send f c = (None, c\<lparr>nc_out := nc_out c @ conn_wire f\<rparr>)"
    using assms(1,2) by (simp add: ConnWrapper_Send_open frame_wf_def)
  have "\<not> conn_ok f" using assms(3) by (simp add: conn_ok_def)
  with ConnWrapper_Receive_stream [OF assms(4)] show "\<exists>d'. ConnWrapper_Receive d
      = (Inl (Errorf ''frame too large: %d bytes'' [AInt (int (length (wire f)))]), d') \<and> concat (nc_in d') = wire f @ rest"
    by (auto simp: assms(5) stream_Receive_wire [OF assms(2)])
qed

text \<open>A frame with a payload of exactly \<open>MaxFrameSize\<close> bytes and no MAC.\<close>

definition full_frame :: frame where
  "full_frame = \<lparr>f_Version = 1, f_MsgType = 0x6D, f_Flags = 0, f_Header = [],
     f_Payload = replicate 1048576 0, f_MAC = []\<rparr>"

theorem ConnWrapper_limit_gap_witness:
  "fst (ConnWrapper_Send full_frame (open_conn [])) = None
   \<and> fst (ConnWrapper_Receive (open_conn [conn_wire full_frame]))
     = Inl (Errorf ''frame too large: %d bytes'' [AInt 1048592])"
proof -
  have wf: "frame_wf full_frame" and len: "length (wire full_frame) = 1048592"
    by (simp_all add: full_frame_def frame_wf_def frame_fits_def has_flag_def ProtocolVersion_def wire_def mac_part_def)
  show ?thesis
    using ConnWrapper_limit_gap [of "open_conn []" full_frame "open_conn [conn_wire full_frame]" "[]"] wf
    by (auto simp: len)
qed

end
