(* ===== verification/Shm.thy ===== *)
theory Shm
  imports Conn "HOL-Library.Monad_Syntax"
begin

text \<open>
  \<^verbatim>\<open>transport/shm/shm.go\<close>: the in-process ring buffer and the connection made of two of
  them. Every index and slice expression of the code is a partial operation here (\<open>None\<close>
  is a run-time panic), so that memory safety is a theorem. The ring is shown to be a bounded
  queue of the frames without their MACs, and to meet the contract \<open>channel\<close>.
\<close>

section \<open>The ring buffer\<close>

record ShmConfig =
  sc_Name :: string
  sc_BufferSize :: int
  sc_SlotCount :: int

definition DefaultBufferSize :: int where "DefaultBufferSize = 64 * 1024"
definition DefaultSlotCount :: int where "DefaultSlotCount = 256"
definition MaxSlotSize :: int where "MaxSlotSize = 8192"

record RingBuffer =
  rb_name :: string
  rb_buf :: bytes
  rb_slots :: int
  rb_slotSize :: int
  rb_head :: "64 word"
  rb_tail :: "64 word"
  rb_hmacKey :: bytes

definition SetHMACKey :: "RingBuffer \<Rightarrow> bytes \<Rightarrow> RingBuffer" where
  "SetHMACKey rb key = rb\<lparr>rb_hmacKey := key\<rparr>"

definition NewRingBuffer :: "ShmConfig \<Rightarrow> RingBuffer" where
  "NewRingBuffer cfg =
     (let bufferSize = (if sc_BufferSize cfg \<le> 0 then DefaultBufferSize else sc_BufferSize cfg);
          slotCount = (if sc_SlotCount cfg \<le> 0 then DefaultSlotCount else sc_SlotCount cfg);
          slotSize = bufferSize div slotCount;
          slotSize = (if slotSize > MaxSlotSize then MaxSlotSize else slotSize)
      in \<lparr>rb_name = sc_Name cfg, rb_buf = replicate (nat (slotCount * slotSize)) 0,
          rb_slots = slotCount, rb_slotSize = slotSize, rb_head = 0, rb_tail = 0, rb_hmacKey = []\<rparr>)"

text \<open>
  \<open>buf[i] = v\<close>, \<open>buf[i]\<close>, \<open>copy(buf[i:], src)\<close> and \<open>buf[i:j]\<close>, with the panics of Go.
\<close>

definition gstore :: "bytes \<Rightarrow> int \<Rightarrow> byte \<Rightarrow> bytes option" where
  "gstore b i v = (if 0 \<le> i \<and> i < int (length b) then Some (b[nat i := v]) else None)"

definition gload :: "bytes \<Rightarrow> int \<Rightarrow> byte option" where
  "gload b i = (if 0 \<le> i \<and> i < int (length b) then Some (b ! nat i) else None)"

definition gcopy_at :: "bytes \<Rightarrow> int \<Rightarrow> bytes \<Rightarrow> bytes option" where
  "gcopy_at b i src =
     (if 0 \<le> i \<and> i \<le> int (length b)
      then Some (take (nat i) b @ take (length b - nat i) src @ drop (nat i + length src) b) else None)"

definition gsub :: "bytes \<Rightarrow> int \<Rightarrow> int \<Rightarrow> bytes option" where
  "gsub b i j = (if 0 \<le> i \<and> i \<le> j \<and> j \<le> int (length b) then Some (gslice (nat i) (nat j) b) else None)"

definition umod :: "64 word \<Rightarrow> int \<Rightarrow> int option" where
  "umod x m = (if (word_of_int m :: 64 word) = 0 then None else Some (uint (x mod word_of_int m)))"

definition RingBuffer_Write :: "RingBuffer \<Rightarrow> frame \<Rightarrow> (error option \<times> RingBuffer) option" where
  "RingBuffer_Write rb f =
     (let data = SignableBytes f in
      if int (length data) > rb_slotSize rb - 2
      then Some (Some (Errorf ''frame too large for slot (%d > %d)''
              [AInt (int (length data)), AInt (rb_slotSize rb - 2)]), rb)
      else if rb_head rb - rb_tail rb \<ge> word_of_int (rb_slots rb)
      then Some (Some (Errorf ''ring buffer full (backpressure)'' []), rb)
      else do {
        idx \<leftarrow> umod (rb_head rb) (rb_slots rb);
        let offset = idx * rb_slotSize rb;
        b1 \<leftarrow> gstore (rb_buf rb) offset (of_nat (length data div 256));
        b2 \<leftarrow> gstore b1 (offset + 1) (of_nat (length data mod 256));
        b3 \<leftarrow> gcopy_at b2 (offset + 2) data;
        Some (None, rb\<lparr>rb_buf := b3, rb_head := rb_head rb + 1\<rparr>)
      })"

text \<open>The frame a slot's bytes stand for.\<close>

definition slot_frame :: "bytes \<Rightarrow> frame" where
  "slot_frame data =
     (let len = length data;
          headerLen = unat (Uint32 (gslice 8 12 data));
          payloadLen = unat (Uint32 (gslice 12 16 data));
          has_header = 0 < headerLen \<and> FrameFixedSize + headerLen \<le> len;
          header = (if has_header then gslice FrameFixedSize (FrameFixedSize + headerLen) data else []);
          pos = (if has_header then FrameFixedSize + headerLen else FrameFixedSize);
          payload = (if 0 < payloadLen \<and> pos + payloadLen \<le> len then gslice pos (pos + payloadLen) data else [])
      in \<lparr>f_Version = Uint16 (gslice 4 6 data), f_MsgType = data ! 6, f_Flags = data ! 7,
          f_Header = header, f_Payload = payload, f_MAC = []\<rparr>)"

text \<open>\<open>Read\<close> returns no frame and no error when the ring is empty.\<close>

definition RingBuffer_Read :: "RingBuffer \<Rightarrow> (frame option result \<times> RingBuffer) option" where
  "RingBuffer_Read rb =
     (if rb_tail rb \<ge> rb_head rb then Some (Inr None, rb)
      else do {
        idx \<leftarrow> umod (rb_tail rb) (rb_slots rb);
        let offset = idx * rb_slotSize rb;
        hi \<leftarrow> gload (rb_buf rb) offset;
        lo \<leftarrow> gload (rb_buf rb) (offset + 1);
        let len = uint hi * 256 + uint lo;
        if len > rb_slotSize rb - 2
        then Some (Inl (Errorf ''invalid slot length (%d)'' [AInt len]), rb)
        else do {
          data \<leftarrow> gsub (rb_buf rb) (offset + 2) (offset + 2 + len);
          let rb' = rb\<lparr>rb_tail := rb_tail rb + 1\<rparr>;
          if len < int FrameFixedSize
          then Some (Inl (Errorf ''slot data too short (%d bytes)'' [AInt len]), rb')
          else Some (Inr (Some (slot_frame data)), rb')
        }
      })"

definition RingBuffer_Len :: "RingBuffer \<Rightarrow> int" where
  "RingBuffer_Len rb = sint (rb_head rb - rb_tail rb)"

definition RingBuffer_Name :: "RingBuffer \<Rightarrow> string" where
  "RingBuffer_Name rb = rb_name rb"

section \<open>The connection\<close>

text \<open>The two rings as the connection sees them; \<open>Send\<close> writes one, \<open>Receive\<close> polls the other.\<close>

record ShmConnection =
  sm_tx :: RingBuffer
  sm_rx :: RingBuffer
  sm_remote :: string

definition NewConnection :: "RingBuffer \<Rightarrow> RingBuffer \<Rightarrow> string \<Rightarrow> ShmConnection" where
  "NewConnection tx rx remote = \<lparr>sm_tx = tx, sm_rx = rx, sm_remote = remote\<rparr>"

definition Connection_Send :: "ShmConnection \<Rightarrow> frame \<Rightarrow> (error option \<times> ShmConnection) option" where
  "Connection_Send c f =
     map_option (\<lambda>(e, rb). (e, c\<lparr>sm_tx := rb\<rparr>)) (RingBuffer_Write (sm_tx c) f)"

text \<open>
  \<open>Receive\<close> polls until a frame or an error arrives. While it yields, the peer may write:
  \<open>env\<close> lists what the peer writes at each \<open>runtime.Gosched()\<close>, and the loop is still
  waiting (\<open>None\<close>) when \<open>env\<close> is used up.
\<close>

fun peer_writes :: "frame list \<Rightarrow> RingBuffer \<Rightarrow> RingBuffer option" where
  "peer_writes [] rb = Some rb"
| "peer_writes (f # fs) rb = do { (e, rb') \<leftarrow> RingBuffer_Write rb f; peer_writes fs rb' }"

fun Connection_Receive :: "frame list list \<Rightarrow> ShmConnection \<Rightarrow> (frame result \<times> ShmConnection) option" where
  "Connection_Receive env c =
     (case RingBuffer_Read (sm_rx c) of
       None \<Rightarrow> None
     | Some (Inl e, rx) \<Rightarrow> Some (Inl e, c\<lparr>sm_rx := rx\<rparr>)
     | Some (Inr (Some f), rx) \<Rightarrow> Some (Inr f, c\<lparr>sm_rx := rx\<rparr>)
     | Some (Inr None, rx) \<Rightarrow>
         (case env of
           [] \<Rightarrow> None
         | fs # env' \<Rightarrow> do { rx' \<leftarrow> peer_writes fs rx; Connection_Receive env' (c\<lparr>sm_rx := rx'\<rparr>) }))"

definition Connection_Close :: "ShmConnection \<Rightarrow> error option" where
  "Connection_Close c = None"

definition Connection_RemoteAddr :: "ShmConnection \<Rightarrow> string" where
  "Connection_RemoteAddr c = sm_remote c"

section \<open>The queue the ring implements\<close>

text \<open>The bytes of slot \<open>k\<close>, the data it holds, and the data waiting between tail and head.\<close>

definition ring_slot :: "RingBuffer \<Rightarrow> nat \<Rightarrow> bytes" where
  "ring_slot rb k = gslice (k * nat (rb_slotSize rb)) (k * nat (rb_slotSize rb) + nat (rb_slotSize rb)) (rb_buf rb)"

definition slot_len :: "bytes \<Rightarrow> nat" where
  "slot_len s = unat (s ! 0) * 256 + unat (s ! 1)"

definition slot_data :: "bytes \<Rightarrow> bytes" where
  "slot_data s = gslice 2 (2 + slot_len s) s"

definition ring_at :: "RingBuffer \<Rightarrow> nat \<Rightarrow> bytes" where
  "ring_at rb i = ring_slot rb (i mod nat (rb_slots rb))"

definition ring_queue :: "RingBuffer \<Rightarrow> bytes list" where
  "ring_queue rb = map (\<lambda>i. slot_data (ring_at rb i)) [unat (rb_tail rb) ..< unat (rb_head rb)]"

definition ring_geom :: "RingBuffer \<Rightarrow> bool" where
  "ring_geom rb \<longleftrightarrow> 0 < rb_slots rb \<and> rb_slots rb < 2 ^ 63 \<and> 0 \<le> rb_slotSize rb \<and> rb_slotSize rb \<le> MaxSlotSize
     \<and> length (rb_buf rb) = nat (rb_slots rb) * nat (rb_slotSize rb)"

definition ring_inv :: "RingBuffer \<Rightarrow> bool" where
  "ring_inv rb \<longleftrightarrow> ring_geom rb
     \<and> unat (rb_tail rb) \<le> unat (rb_head rb)
     \<and> unat (rb_head rb) \<le> unat (rb_tail rb) + nat (rb_slots rb)
     \<and> (\<forall>i \<in> {unat (rb_tail rb) ..< unat (rb_head rb)}. slot_len (ring_at rb i) + 2 \<le> nat (rb_slotSize rb))"

text \<open>Frames that the ring carries: within the frame limit and the slot.\<close>

definition ring_fits :: "RingBuffer \<Rightarrow> frame \<Rightarrow> bool" where
  "ring_fits rb f \<longleftrightarrow> frame_fits f \<and> int (length (SignableBytes f)) \<le> rb_slotSize rb - 2"

section \<open>Slots as list segments\<close>

lemma gslice_gslice: "j \<le> l - k \<Longrightarrow> gslice i j (gslice k l b) = gslice (k + i) (k + j) b"
  by (auto simp: gslice_def take_drop min_def add.commute)

lemma gslice_upd_other:
  assumes "off + length new \<le> length b" "j \<le> off \<or> off + length new \<le> i"
  shows "gslice i j (take off b @ new @ drop (off + length new) b) = gslice i j b"
proof (cases "j \<le> off")
  case True
  then have "take j (take off b @ new @ drop (off + length new) b) = take j b"
    using assms(1) by (simp add: min_def)
  then show ?thesis unfolding gslice_def drop_take [symmetric] by (rule arg_cong)
next
  case False
  then have "drop i (take off b @ new @ drop (off + length new) b) = drop i b"
    using assms by (simp add: min_def)
  then show ?thesis by (simp only: gslice_def)
qed

lemma gslice_upd_same:
  assumes "off + length new \<le> length b"
  shows "gslice off (off + length new) (take off b @ new @ drop (off + length new) b) = new"
  using assms by (simp add: gslice_def)

lemma drop_gslice: "i \<le> j \<Longrightarrow> drop i b = gslice i j b @ drop j b"
  unfolding gslice_def by (metis append_take_drop_id drop_drop le_add_diff_inverse2)

lemma slot_index_bound:
  assumes "k < n" shows "k * z + z \<le> n * (z :: nat)"
proof -
  have "Suc k * z \<le> n * z" using assms by (intro mult_le_mono) auto
  then show ?thesis by simp
qed

text \<open>The three stores of \<open>Write\<close> replace the slot's prefix.\<close>

lemma slot_stores:
  assumes "off + 2 + length data \<le> length b"
  shows "(do { b1 \<leftarrow> gstore b (int off) hi; b2 \<leftarrow> gstore b1 (int off + 1) lo; gcopy_at b2 (int off + 2) data })
    = Some (take off b @ (hi # lo # data) @ drop (off + length (hi # lo # data)) b)"
proof -
  have "nat (int off + 1) = Suc off" "nat (int off + 2) = Suc (Suc off)" by simp_all
  moreover have "take (Suc (Suc off)) (b[off := hi, Suc off := lo]) = take off b @ [hi, lo]"
    using assms by (simp add: take_Suc_conv_app_nth take_update_swap list_update_append)
  moreover have "drop (Suc (Suc off) + length data) (b[off := hi, Suc off := lo]) = drop (Suc (Suc off) + length data) b"
    by (simp add: drop_update_cancel)
  ultimately show ?thesis
    using assms by (simp add: gstore_def gcopy_at_def)
qed

lemma unat_word_of_int: "0 \<le> m \<Longrightarrow> m < 2 ^ 63 \<Longrightarrow> unat (word_of_int m :: 64 word) = nat m"
  by (simp add: unat_eq_nat_uint uint_word_of_int)

lemma umod_eq:
  assumes "0 < m" "m < 2 ^ 63"
  shows "umod x m = Some (int (unat x mod nat m))"
proof -
  have m: "unat (word_of_int m :: 64 word) = nat m"
    using assms by (intro unat_word_of_int) simp_all
  then have "(word_of_int m :: 64 word) \<noteq> 0"
    using assms by auto
  moreover have "uint (x mod word_of_int m) = int (unat x mod nat m)"
    using m by (simp add: uint_nat unat_mod)
  ultimately show ?thesis by (simp add: umod_def)
qed

section \<open>Writing and reading\<close>

lemma ring_geomD:
  assumes "ring_geom rb"
  shows "0 < nat (rb_slots rb)" "rb_slotSize rb = int (nat (rb_slotSize rb))"
    "length (rb_buf rb) = nat (rb_slots rb) * nat (rb_slotSize rb)"
    "umod x (rb_slots rb) = Some (int (unat x mod nat (rb_slots rb)))"
    "nat (rb_slotSize rb) \<le> 8192"
    "unat (word_of_int (rb_slots rb) :: 64 word) = nat (rb_slots rb)"
  using assms by (auto simp: ring_geom_def umod_eq MaxSlotSize_def unat_word_of_int)

lemma ring_invD:
  assumes "ring_inv rb"
  shows "ring_geom rb"
    "unat (rb_tail rb) \<le> unat (rb_head rb)" "unat (rb_head rb) \<le> unat (rb_tail rb) + nat (rb_slots rb)"
    "i \<in> {unat (rb_tail rb) ..< unat (rb_head rb)} \<Longrightarrow> slot_len (ring_at rb i) + 2 \<le> nat (rb_slotSize rb)"
  using assms by (auto simp: ring_inv_def)

lemma ring_full_test:
  assumes "ring_inv rb"
  shows "rb_head rb - rb_tail rb \<ge> word_of_int (rb_slots rb)
    \<longleftrightarrow> unat (rb_head rb) = unat (rb_tail rb) + nat (rb_slots rb)"
  using ring_invD [OF assms] ring_geomD [of rb] by (auto simp: word_le_nat_alt unat_sub)

text \<open>The slot that holds \<open>data\<close>.\<close>

definition slot_bytes :: "bytes \<Rightarrow> bytes" where
  "slot_bytes data = of_nat (length data div 256) # of_nat (length data mod 256) # data"

lemma length_slot_bytes [simp]: "length (slot_bytes data) = length data + 2"
  by (simp add: slot_bytes_def)

lemma slot_len_bytes: "length data < 65536 \<Longrightarrow> slot_len (slot_bytes data @ rest) = length data"
proof -
  assume "length data < 65536"
  then have "unat (of_nat (length data div 256) :: byte) = length data div 256"
    "unat (of_nat (length data mod 256) :: byte) = length data mod 256"
    by (intro unat_of_nat_small; simp; linarith)+
  then show ?thesis by (simp add: slot_len_def slot_bytes_def)
qed

lemma slot_data_bytes: "length data < 65536 \<Longrightarrow> slot_data (slot_bytes data @ rest) = data"
  by (simp add: slot_data_def slot_len_bytes, simp add: slot_bytes_def gslice_def)

definition write_buf :: "nat \<Rightarrow> bytes \<Rightarrow> bytes \<Rightarrow> bytes" where
  "write_buf off data b = take off b @ slot_bytes data @ drop (off + length (slot_bytes data)) b"

lemma ring_slot_in_buf:
  assumes "ring_geom rb"
  shows "unat i mod nat (rb_slots rb) * nat (rb_slotSize rb) + nat (rb_slotSize rb) \<le> length (rb_buf rb)"
  unfolding ring_geomD(3) [OF assms] using ring_geomD(1) [OF assms] by (intro slot_index_bound) simp

lemma ring_offset:
  assumes "ring_geom rb"
  shows "int (n mod nat (rb_slots rb)) * rb_slotSize rb = int (n mod nat (rb_slots rb) * nat (rb_slotSize rb))"
  using ring_geomD(2) [OF assms] by (metis of_nat_mult)

lemma RingBuffer_Write_geom:
  assumes geom: "ring_geom rb"
  shows "RingBuffer_Write rb f =
    (if int (length (SignableBytes f)) > rb_slotSize rb - 2
     then Some (Some (Errorf ''frame too large for slot (%d > %d)''
            [AInt (int (length (SignableBytes f))), AInt (rb_slotSize rb - 2)]), rb)
     else if rb_head rb - rb_tail rb \<ge> word_of_int (rb_slots rb)
     then Some (Some (Errorf ''ring buffer full (backpressure)'' []), rb)
     else Some (None, rb\<lparr>rb_buf := write_buf (unat (rb_head rb) mod nat (rb_slots rb) * nat (rb_slotSize rb))
                                 (SignableBytes f) (rb_buf rb),
                       rb_head := rb_head rb + 1\<rparr>))"
proof (cases "int (length (SignableBytes f)) > rb_slotSize rb - 2")
  case True
  then show ?thesis by (simp add: RingBuffer_Write_def)
next
  case False
  let ?off = "unat (rb_head rb) mod nat (rb_slots rb) * nat (rb_slotSize rb)"
  have "?off + 2 + length (SignableBytes f) \<le> length (rb_buf rb)"
    using ring_slot_in_buf [OF geom, of "rb_head rb"] False ring_geomD(2) [OF geom] by linarith
  from slot_stores [OF this, of "of_nat (length (SignableBytes f) div 256)" "of_nat (length (SignableBytes f) mod 256)"]
  obtain b1 b2 where st: "gstore (rb_buf rb) (int ?off) (of_nat (length (SignableBytes f) div 256)) = Some b1"
    "gstore b1 (int ?off + 1) (of_nat (length (SignableBytes f) mod 256)) = Some b2"
    "gcopy_at b2 (int ?off + 2) (SignableBytes f) = Some (write_buf ?off (SignableBytes f) (rb_buf rb))"
    unfolding write_buf_def slot_bytes_def bind_eq_Some_conv by blast
  show ?thesis
    using False st unfolding RingBuffer_Write_def Let_def ring_geomD(4) [OF geom]
    by (simp add: ring_offset [OF geom] del: of_nat_mult)
qed

lemma length_write_buf:
  assumes "ring_geom rb" "length data + 2 \<le> nat (rb_slotSize rb)"
  shows "length (write_buf (unat i mod nat (rb_slots rb) * nat (rb_slotSize rb)) data (rb_buf rb)) = length (rb_buf rb)"
  using ring_slot_in_buf [OF assms(1), of i] assms(2) by (simp add: write_buf_def)

lemma window_mod_inj:
  fixes t h i n :: nat
  assumes "t \<le> i" "i < h" "h < t + n"
  shows "i mod n \<noteq> h mod n"
proof
  assume "i mod n = h mod n"
  then have "n dvd h - i" using assms(2) by (metis less_imp_le mod_eq_dvd_iff_nat)
  moreover have "0 < h - i" "h - i < n" using assms by auto
  ultimately show False using nat_dvd_not_less by blast
qed

text \<open>A write replaces one slot and keeps the others.\<close>

lemma ring_slot_write:
  assumes inv: "ring_geom rb" and fit: "length data + 2 \<le> nat (rb_slotSize rb)"
    and k: "k < nat (rb_slots rb)" and j: "j < nat (rb_slots rb)"
    and rb': "rb_buf rb' = write_buf (k * nat (rb_slotSize rb)) data (rb_buf rb)" "rb_slotSize rb' = rb_slotSize rb"
  shows "ring_slot rb' j = (if j = k then slot_bytes data @ drop (length data + 2) (ring_slot rb k) else ring_slot rb j)"
proof -
  let ?z = "nat (rb_slotSize rb)" and ?b = "rb_buf rb"
  define new where "new = slot_bytes data @ gslice (k * ?z + length data + 2) (k * ?z + ?z) ?b"
  have bound: "k * ?z + ?z \<le> length ?b"
    unfolding ring_geomD(3) [OF inv] using k by (rule slot_index_bound)
  have len: "length new = ?z" using fit bound by (simp add: new_def)
  have "drop (k * ?z + length (slot_bytes data)) ?b
      = gslice (k * ?z + length data + 2) (k * ?z + ?z) ?b @ drop (k * ?z + ?z) ?b"
    using drop_gslice [of "k * ?z + length data + 2" "k * ?z + ?z" ?b] fit by (simp add: add.assoc)
  then have buf: "rb_buf rb' = take (k * ?z) ?b @ new @ drop (k * ?z + length new) ?b"
    unfolding rb'(1) write_buf_def len by (simp add: new_def)
  show ?thesis
  proof (cases "j = k")
    case True
    have "ring_slot rb' k = new"
      using gslice_upd_same [of "k * ?z" new ?b] bound by (simp add: ring_slot_def rb'(2) buf len)
    moreover have "drop (length data + 2) (ring_slot rb k) = gslice (k * ?z + length data + 2) (k * ?z + ?z) ?b"
      using fit by (simp add: ring_slot_def gslice_def drop_take add.commute add.left_commute)
    ultimately show ?thesis using True by (simp add: new_def)
  next
    case False
    then have "j * ?z + ?z \<le> k * ?z \<or> k * ?z + ?z \<le> j * ?z"
      using slot_index_bound [of j k ?z] slot_index_bound [of k j ?z] by linarith
    then have "ring_slot rb' j = ring_slot rb j"
      using gslice_upd_other [of "k * ?z" new ?b "j * ?z + ?z" "j * ?z"] bound by (simp add: ring_slot_def rb'(2) buf len)
    with False show ?thesis by simp
  qed
qed

lemma unat_inc: "(w :: 64 word) \<noteq> - 1 \<Longrightarrow> unat (w + 1) = unat w + 1"
proof -
  assume "w \<noteq> - 1"
  then have "1 + w \<noteq> 0" by (metis add.commute eq_neg_iff_add_eq_0)
  then show ?thesis using unatSuc [of w] by (metis add.commute Suc_eq_plus1)
qed

lemma RingBuffer_Write_queue:
  assumes inv: "ring_inv rb" and fit: "int (length (SignableBytes f)) \<le> rb_slotSize rb - 2"
    and room: "unat (rb_head rb) < unat (rb_tail rb) + nat (rb_slots rb)" and live: "rb_head rb \<noteq> - 1"
  shows "\<exists>rb'. RingBuffer_Write rb f = Some (None, rb') \<and> ring_inv rb'
    \<and> ring_queue rb' = ring_queue rb @ [SignableBytes f]
    \<and> rb_slots rb' = rb_slots rb \<and> rb_slotSize rb' = rb_slotSize rb
    \<and> unat (rb_head rb') = unat (rb_head rb) + 1 \<and> rb_tail rb' = rb_tail rb"
proof -
  note geom = ring_invD(1) [OF inv]
  let ?n = "nat (rb_slots rb)" and ?h = "unat (rb_head rb)" and ?t = "unat (rb_tail rb)" and ?d = "SignableBytes f"
  define rb' where "rb' = rb\<lparr>rb_buf := write_buf (?h mod ?n * nat (rb_slotSize rb)) ?d (rb_buf rb),
    rb_head := rb_head rb + 1\<rparr>"
  have w: "RingBuffer_Write rb f = Some (None, rb')"
    using fit room by (simp add: RingBuffer_Write_geom [OF geom] ring_full_test [OF inv] rb'_def)
  have fit': "length ?d + 2 \<le> nat (rb_slotSize rb)" using fit ring_geomD(2) [OF geom] by linarith
  have small: "length ?d < 65536" using fit' ring_geomD(5) [OF geom] by simp
  have head': "unat (rb_head rb') = ?h + 1"
    using live by (simp add: rb'_def unat_inc)
  have slot: "ring_slot rb' j = (if j = ?h mod ?n then slot_bytes ?d @ drop (length ?d + 2) (ring_slot rb (?h mod ?n)) else ring_slot rb j)"
    if "j < ?n" for j
    using ring_slot_write [OF geom fit' _ that, of "?h mod ?n" rb'] ring_geomD(1) [OF geom] by (simp add: rb'_def)
  have at: "ring_at rb' ?h = slot_bytes ?d @ drop (length ?d + 2) (ring_slot rb (?h mod ?n))"
    using slot [of "?h mod ?n"] ring_geomD(1) [OF geom] by (simp add: ring_at_def rb'_def)
  have old: "ring_at rb' i = ring_at rb i" if "i \<in> {?t ..< ?h}" for i
    using slot [of "i mod ?n"] window_mod_inj [of ?t i ?h ?n] that room ring_geomD(1) [OF geom]
    by (simp add: ring_at_def rb'_def)
  have "ring_queue rb' = ring_queue rb @ [?d]"
    using old ring_invD(2) [OF inv] at small unfolding ring_queue_def head'
    by (simp add: slot_data_bytes rb'_def)
  moreover have "slot_len (ring_at rb' i) + 2 \<le> nat (rb_slotSize rb)" if "i \<in> {?t ..< ?h + 1}" for i
    using that old [of i] ring_invD(4) [OF inv, of i] at small fit'
    by (cases "i = ?h") (simp_all add: slot_len_bytes)
  moreover have "length (rb_buf rb') = length (rb_buf rb)"
    using length_write_buf [OF geom fit'] by (simp add: rb'_def)
  moreover have "rb_slots rb' = rb_slots rb" "rb_slotSize rb' = rb_slotSize rb" "rb_tail rb' = rb_tail rb"
    by (simp_all add: rb'_def)
  ultimately show ?thesis
    using w head' inv room by (auto simp: ring_inv_def ring_geom_def)
qed

lemma gload_slot:
  assumes "ring_geom rb" "m < nat (rb_slotSize rb)"
  shows "gload (rb_buf rb) (int (unat i mod nat (rb_slots rb) * nat (rb_slotSize rb)) + int m) = Some (ring_at rb (unat i) ! m)"
  using ring_slot_in_buf [OF assms(1), of i] assms(2)
  by (simp add: gload_def ring_at_def ring_slot_def gslice_def nat_int_add del: of_nat_mult)

lemma gsub_slot:
  assumes "ring_geom rb" "slot_len (ring_at rb (unat i)) + 2 \<le> nat (rb_slotSize rb)"
  shows "gsub (rb_buf rb) (int (unat i mod nat (rb_slots rb) * nat (rb_slotSize rb)) + 2)
      (int (unat i mod nat (rb_slots rb) * nat (rb_slotSize rb)) + 2 + int (slot_len (ring_at rb (unat i))))
    = Some (slot_data (ring_at rb (unat i)))"
proof -
  let ?o = "unat i mod nat (rb_slots rb) * nat (rb_slotSize rb)" and ?l = "slot_len (ring_at rb (unat i))"
  have "slot_data (ring_at rb (unat i)) = gslice (?o + 2) (?o + (2 + ?l)) (rb_buf rb)"
    using assms(2) by (simp add: slot_data_def ring_at_def ring_slot_def gslice_gslice)
  moreover have "nat (int ?o + 2) = ?o + 2" "nat (int ?o + 2 + int ?l) = ?o + (2 + ?l)"
    by (simp_all del: of_nat_mult)
  moreover have "?o + (2 + ?l) \<le> length (rb_buf rb)"
    using ring_slot_in_buf [OF assms(1), of i] assms(2) by linarith
  ultimately show ?thesis by (simp add: gsub_def del: of_nat_mult)
qed

lemma RingBuffer_Read_queue:
  assumes inv: "ring_inv rb"
  shows "case ring_queue rb of
      [] \<Rightarrow> RingBuffer_Read rb = Some (Inr None, rb)
    | d # ds \<Rightarrow> \<exists>rb'. RingBuffer_Read rb =
          Some (if length d < 16 then Inl (Errorf ''slot data too short (%d bytes)'' [AInt (int (length d))])
                else Inr (Some (slot_frame d)), rb')
        \<and> ring_inv rb' \<and> ring_queue rb' = ds \<and> rb_slots rb' = rb_slots rb \<and> rb_slotSize rb' = rb_slotSize rb
        \<and> unat (rb_tail rb') = unat (rb_tail rb) + 1 \<and> rb_head rb' = rb_head rb"
proof (cases "unat (rb_tail rb) < unat (rb_head rb)")
  case False
  then show ?thesis by (simp add: ring_queue_def RingBuffer_Read_def word_le_nat_alt)
next
  case True
  note geom = ring_invD(1) [OF inv]
  let ?t = "unat (rb_tail rb)" and ?s = "ring_at rb (unat (rb_tail rb))"
  define rb' where "rb' = rb\<lparr>rb_tail := rb_tail rb + 1\<rparr>"
  have len: "slot_len ?s + 2 \<le> nat (rb_slotSize rb)"
    using ring_invD(4) [OF inv, of ?t] True by simp
  have slen: "uint (?s ! 0) * 256 + uint (?s ! 1) = int (slot_len ?s)"
    by (simp add: slot_len_def)
  have fits: "\<not> int (slot_len ?s) > rb_slotSize rb - 2" using len by linarith
  have "length ?s = nat (rb_slotSize rb)"
    using ring_slot_in_buf [OF geom, of "rb_tail rb"] by (simp add: ring_at_def ring_slot_def)
  then have dlen: "length (slot_data ?s) = slot_len ?s" using len by (simp add: slot_data_def)
  have "rb_tail rb \<noteq> - 1"
    using True by (metis not_less word_le_nat_alt word_order.extremum)
  then have tail': "unat (rb_tail rb') = ?t + 1" by (simp add: rb'_def unat_inc)
  have q: "ring_queue rb = slot_data ?s # ring_queue rb'"
    using True tail' by (simp add: ring_queue_def rb'_def upt_conv_Cons ring_at_def ring_slot_def)
  have "ring_inv rb'"
    using inv True tail' by (auto simp: ring_inv_def ring_geom_def rb'_def ring_at_def ring_slot_def)
  moreover have "RingBuffer_Read rb = Some (if slot_len ?s < 16 then Inl (Errorf ''slot data too short (%d bytes)'' [AInt (int (slot_len ?s))])
        else Inr (Some (slot_frame (slot_data ?s))), rb')"
    using True gload_slot [OF geom, of 0 "rb_tail rb"] gload_slot [OF geom, of 1 "rb_tail rb"] len gsub_slot [OF geom len] fits
    by (simp add: RingBuffer_Read_def word_le_nat_alt ring_geomD(4) [OF geom] ring_offset [OF geom] slen [unfolded One_nat_def] rb'_def FrameFixedSize_def Let_def
        del: of_nat_mult of_nat_add)
  ultimately show ?thesis
    using tail' by (simp add: q dlen, simp add: rb'_def)
qed

section \<open>The ring as a channel\<close>

definition shm_carry :: "frame \<Rightarrow> frame" where
  "shm_carry f = f\<lparr>f_MAC := []\<rparr>"

lemma SignableBytes_carry [simp]: "SignableBytes (shm_carry f) = SignableBytes f"
  by (simp add: shm_carry_def)

lemma frame_fits_carry [simp]: "frame_fits (shm_carry f) = frame_fits f"
  by (simp add: shm_carry_def frame_fits_def)

lemma slot_frame_Signable:
  assumes "frame_fits f"
  shows "slot_frame (SignableBytes f) = shm_carry f" and "16 \<le> length (SignableBytes f)"
proof -
  have S: "SignableBytes f = preamble f @ f_Header f @ f_Payload f"
    by (rule preamble_SignableBytes [OF assms])
  have fields: "gslice 4 6 (SignableBytes f) = PutUint16 (f_Version f)"
    "SignableBytes f ! 6 = f_MsgType f" "SignableBytes f ! 7 = f_Flags f"
    "gslice 8 12 (SignableBytes f) = PutUint32 (of_nat (length (f_Header f)))"
    "gslice 12 16 (SignableBytes f) = PutUint32 (of_nat (length (f_Payload f)))"
    by (simp_all add: S gslice_append_left nth_append)
  have "gslice 16 (16 + length (f_Header f)) (SignableBytes f) = f_Header f"
    "gslice (16 + length (f_Header f)) (16 + length (f_Header f) + length (f_Payload f)) (SignableBytes f) = f_Payload f"
    by (simp_all add: S gslice_def)
  moreover have "length (SignableBytes f) = 16 + length (f_Header f) + length (f_Payload f)" by (simp add: S)
  ultimately show "slot_frame (SignableBytes f) = shm_carry f" "16 \<le> length (SignableBytes f)"
    by (auto simp: slot_frame_def fields frame_fits_lengths [OF assms] FrameFixedSize_def Let_def shm_carry_def)
qed

definition shm_outbox :: "ShmConnection \<Rightarrow> frame list \<Rightarrow> bool" where
  "shm_outbox c fs \<longleftrightarrow> ring_inv (sm_tx c) \<and> ring_queue (sm_tx c) = map SignableBytes fs"

definition shm_inbox :: "ShmConnection \<Rightarrow> frame list \<Rightarrow> bool" where
  "shm_inbox c fs \<longleftrightarrow> ring_inv (sm_rx c) \<and> ring_queue (sm_rx c) = map SignableBytes fs
     \<and> (\<forall>f \<in> set fs. frame_fits f \<and> f_MAC f = [])"

definition shm_accepts :: "ShmConnection \<Rightarrow> frame list \<Rightarrow> bool" where
  "shm_accepts c fs \<longleftrightarrow> (\<forall>f \<in> set fs. ring_fits (sm_tx c) f)
     \<and> unat (rb_head (sm_tx c)) + length fs \<le> unat (rb_tail (sm_tx c)) + nat (rb_slots (sm_tx c))
     \<and> unat (rb_head (sm_tx c)) + length fs < 2 ^ 64"

lemma unat_bound_not_max: "unat (w :: 64 word) + 1 < 2 ^ 64 \<Longrightarrow> w \<noteq> - 1"
  by (auto simp: unsigned_minus_1_eq_mask mask_eq_exp_minus_1)

interpretation shmconn: channel "\<lambda>f c. Connection_Send c f" "Connection_Receive []" shm_accepts shm_carry
  shm_outbox shm_inbox
proof
  fix c gs f fs
  assume out: "shm_outbox c gs" and acc: "shm_accepts c (f # fs)"
  have "rb_head (sm_tx c) \<noteq> - 1"
    by (rule unat_bound_not_max) (use acc in \<open>simp add: shm_accepts_def\<close>)
  then obtain rb' where rb': "RingBuffer_Write (sm_tx c) f = Some (None, rb')" "ring_inv rb'"
    "ring_queue rb' = ring_queue (sm_tx c) @ [SignableBytes f]"
    "rb_slots rb' = rb_slots (sm_tx c)" "rb_slotSize rb' = rb_slotSize (sm_tx c)"
    "unat (rb_head rb') = unat (rb_head (sm_tx c)) + 1" "rb_tail rb' = rb_tail (sm_tx c)"
    using RingBuffer_Write_queue [of "sm_tx c" f] out acc by (auto simp: shm_outbox_def shm_accepts_def ring_fits_def)
  then show "\<exists>c'. Connection_Send c f = Some (None, c') \<and> shm_outbox c' (gs @ [shm_carry f]) \<and> shm_accepts c' fs"
    using out acc by (auto simp: Connection_Send_def shm_outbox_def shm_accepts_def ring_fits_def)
next
  fix c f fs
  assume inb: "shm_inbox c (f # fs)"
  then have q: "ring_queue (sm_rx c) = SignableBytes f # map SignableBytes fs" and inv: "ring_inv (sm_rx c)"
    and f: "frame_fits f" "f_MAC f = []" by (simp_all add: shm_inbox_def)
  have "shm_carry f = f" using f(2) by (simp add: shm_carry_def)
  with RingBuffer_Read_queue [OF inv] slot_frame_Signable [OF f(1)] obtain rb' where
    "RingBuffer_Read (sm_rx c) = Some (Inr (Some f), rb')" "ring_inv rb'" "ring_queue rb' = map SignableBytes fs"
    by (auto simp: q)
  then show "\<exists>c'. Connection_Receive [] c = Some (Inr f, c') \<and> shm_inbox c' fs"
    using inb by (simp add: shm_inbox_def)
qed

section \<open>Reachable rings\<close>

text \<open>The rings a program can reach from a configuration; Go's \<open>int\<close> bounds the slot count.\<close>

inductive ring_run :: "ShmConfig \<Rightarrow> RingBuffer \<Rightarrow> bool" for cfg where
  init: "ring_run cfg (NewRingBuffer cfg)"
| set_key: "ring_run cfg rb \<Longrightarrow> ring_run cfg (SetHMACKey rb key)"
| wrote: "ring_run cfg rb \<Longrightarrow> RingBuffer_Write rb f = Some (res, rb') \<Longrightarrow> ring_run cfg rb'"
| read: "ring_run cfg rb \<Longrightarrow> RingBuffer_Read rb = Some (out, rb') \<Longrightarrow> ring_run cfg rb'"

text \<open>A ring whose slots cannot hold a length prefix never holds anything.\<close>

definition ring_safe :: "RingBuffer \<Rightarrow> bool" where
  "ring_safe rb \<longleftrightarrow> ring_geom rb \<and> (2 \<le> rb_slotSize rb \<or> rb_head rb = rb_tail rb)"

lemma NewRingBuffer_geom:
  assumes "sc_SlotCount cfg < 2 ^ 63"
  shows "ring_geom (NewRingBuffer cfg)"
proof -
  define size where "size = (if sc_BufferSize cfg \<le> 0 then DefaultBufferSize else sc_BufferSize cfg)"
  define slots where "slots = (if sc_SlotCount cfg \<le> 0 then DefaultSlotCount else sc_SlotCount cfg)"
  have "0 < slots" "slots < 2 ^ 63" "0 < size"
    using assms by (auto simp: slots_def size_def DefaultSlotCount_def DefaultBufferSize_def)
  then have "0 \<le> size div slots" by (simp add: pos_imp_zdiv_nonneg_iff)
  with \<open>0 < slots\<close> \<open>slots < 2 ^ 63\<close> show ?thesis
    by (simp add: NewRingBuffer_def Let_def ring_geom_def nat_mult_distrib MaxSlotSize_def flip: size_def slots_def)
qed

lemma NewRingBuffer_inv: "sc_SlotCount cfg < 2 ^ 63 \<Longrightarrow> ring_inv (NewRingBuffer cfg) \<and> ring_queue (NewRingBuffer cfg) = []"
  using NewRingBuffer_geom [of cfg] by (simp add: ring_inv_def ring_queue_def) (simp add: NewRingBuffer_def Let_def)

lemma RingBuffer_Read_safe:
  assumes "ring_safe rb"
  obtains out rb' where "RingBuffer_Read rb = Some (out, rb')" "ring_safe rb'"
proof (cases "rb_tail rb \<ge> rb_head rb")
  case True
  then show thesis using assms by (intro that [of "Inr None" rb]) (simp_all add: RingBuffer_Read_def)
next
  case False
  have geom: "ring_geom rb" and z: "2 \<le> rb_slotSize rb"
    using assms False by (auto simp: ring_safe_def)
  have z': "0 < nat (rb_slotSize rb)" "1 < nat (rb_slotSize rb)" using z by simp_all
  let ?s = "ring_at rb (unat (rb_tail rb))"
  have slen: "uint (?s ! 0) * 256 + uint (?s ! Suc 0) = int (slot_len ?s)" by (simp add: slot_len_def)
  have safe': "ring_safe (rb\<lparr>rb_tail := rb_tail rb + 1\<rparr>)"
    using geom z by (simp add: ring_safe_def ring_geom_def)
  note load = gload_slot [OF geom z'(1), of "rb_tail rb"] gload_slot [OF geom z'(2), of "rb_tail rb"]
  show thesis
  proof (cases "int (slot_len ?s) > rb_slotSize rb - 2")
    case True
    then have "RingBuffer_Read rb = Some (Inl (Errorf ''invalid slot length (%d)'' [AInt (int (slot_len ?s))]), rb)"
      using False load
      by (simp add: RingBuffer_Read_def ring_geomD(4) [OF geom] ring_offset [OF geom] slen Let_def del: of_nat_mult of_nat_add)
    then show thesis using assms by (rule that)
  next
    case fits: False
    then have len: "slot_len ?s + 2 \<le> nat (rb_slotSize rb)" by linarith
    have "RingBuffer_Read rb = Some (if int (slot_len ?s) < int FrameFixedSize
        then Inl (Errorf ''slot data too short (%d bytes)'' [AInt (int (slot_len ?s))])
        else Inr (Some (slot_frame (slot_data ?s))), rb\<lparr>rb_tail := rb_tail rb + 1\<rparr>)"
      using False load fits gsub_slot [OF geom len]
      by (simp add: RingBuffer_Read_def ring_geomD(4) [OF geom] ring_offset [OF geom] slen Let_def del: of_nat_mult of_nat_add)
    then show thesis using safe' by (rule that)
  qed
qed

lemma RingBuffer_Write_safe:
  assumes "ring_safe rb"
  obtains res rb' where "RingBuffer_Write rb f = Some (res, rb')" "ring_safe rb'"
proof -
  have geom: "ring_geom rb" using assms by (simp add: ring_safe_def)
  let ?d = "SignableBytes f"
  let ?rb' = "rb\<lparr>rb_buf := write_buf (unat (rb_head rb) mod nat (rb_slots rb) * nat (rb_slotSize rb)) ?d (rb_buf rb),
      rb_head := rb_head rb + 1\<rparr>"
  have "ring_safe ?rb'" if "\<not> int (length ?d) > rb_slotSize rb - 2"
  proof -
    from that have "length ?d + 2 \<le> nat (rb_slotSize rb)" "2 \<le> rb_slotSize rb" by linarith+
    with geom show ?thesis
      using length_write_buf [OF geom, of ?d "rb_head rb"] by (simp add: ring_safe_def ring_geom_def)
  qed
  with assms that RingBuffer_Write_geom [OF geom, of f] show thesis by metis
qed

lemma ring_run_safe:
  assumes "sc_SlotCount cfg < 2 ^ 63" "ring_run cfg rb"
  shows "ring_safe rb"
  using assms(2)
proof (induction rule: ring_run.induct)
  case init
  show ?case
    using NewRingBuffer_geom [OF assms(1)] by (simp add: ring_safe_def) (simp add: NewRingBuffer_def Let_def)
next
  case (set_key rb key)
  then show ?case by (simp add: SetHMACKey_def ring_safe_def ring_geom_def)
next
  case (wrote rb f res rb')
  then show ?case using RingBuffer_Write_safe [of rb f] by (metis option.inject prod.inject)
next
  case (read rb out rb')
  then show ?case using RingBuffer_Read_safe [of rb] by (metis option.inject prod.inject)
qed

text \<open>The rings reached by fewer than \<open>2 ^ 64\<close> writes, so that the head counter has not wrapped.\<close>

inductive ring_live :: "ShmConfig \<Rightarrow> RingBuffer \<Rightarrow> bool" for cfg where
  init: "ring_live cfg (NewRingBuffer cfg)"
| set_key: "ring_live cfg rb \<Longrightarrow> ring_live cfg (SetHMACKey rb key)"
| wrote: "ring_live cfg rb \<Longrightarrow> rb_head rb \<noteq> - 1 \<Longrightarrow> RingBuffer_Write rb f = Some (res, rb') \<Longrightarrow> ring_live cfg rb'"
| read: "ring_live cfg rb \<Longrightarrow> RingBuffer_Read rb = Some (out, rb') \<Longrightarrow> ring_live cfg rb'"

lemma length_ring_queue [simp]: "length (ring_queue rb) = unat (rb_head rb) - unat (rb_tail rb)"
  by (simp add: ring_queue_def)

lemma RingBuffer_Write_cases:
  assumes inv: "ring_inv rb" and live: "rb_head rb \<noteq> - 1"
  shows "\<exists>res rb'. RingBuffer_Write rb f = Some (res, rb') \<and> ring_inv rb'
    \<and> (res = None \<longleftrightarrow> int (length (SignableBytes f)) \<le> rb_slotSize rb - 2 \<and> length (ring_queue rb) < nat (rb_slots rb))
    \<and> ring_queue rb' = ring_queue rb @ (if res = None then [SignableBytes f] else [])"
proof (cases "int (length (SignableBytes f)) \<le> rb_slotSize rb - 2 \<and> length (ring_queue rb) < nat (rb_slots rb)")
  case True
  then have "unat (rb_head rb) < unat (rb_tail rb) + nat (rb_slots rb)" by simp linarith
  with RingBuffer_Write_queue [OF inv _ _ live] True show ?thesis by fastforce
next
  case False
  then have "int (length (SignableBytes f)) > rb_slotSize rb - 2 \<or> unat (rb_head rb) = unat (rb_tail rb) + nat (rb_slots rb)"
    using ring_invD(2,3) [OF inv] by simp linarith
  then have "\<exists>e. RingBuffer_Write rb f = Some (Some e, rb)"
    unfolding RingBuffer_Write_geom [OF ring_invD(1) [OF inv]] ring_full_test [OF inv] by auto
  with False inv show ?thesis by auto
qed

lemma RingBuffer_Read_inv:
  assumes "ring_inv rb" "RingBuffer_Read rb = Some (out, rb')"
  shows "ring_inv rb'"
  using RingBuffer_Read_queue [OF assms(1)] assms by (auto split: list.splits)

lemma ring_live_inv:
  assumes "sc_SlotCount cfg < 2 ^ 63" "ring_live cfg rb"
  shows "ring_inv rb"
  using assms(2)
proof (induction rule: ring_live.induct)
  case init
  show ?case using NewRingBuffer_inv [OF assms(1)] by simp
next
  case (set_key rb key)
  then show ?case by (simp add: SetHMACKey_def ring_inv_def ring_geom_def ring_at_def ring_slot_def)
next
  case (wrote rb f res rb')
  then show ?case using RingBuffer_Write_cases [of rb f] by auto
next
  case (read rb out rb')
  then show ?case by (blast intro: RingBuffer_Read_inv)
qed

section \<open>Properties\<close>

text \<open>
  The ring buffer is memory safe: in every state reachable by any writes and reads,
  with any configuration (Go's \<open>int\<close> bounds the slot count) and whatever the slots hold, no index or
  slice expression of \<open>Write\<close> or \<open>Read\<close> is out of range and no division is by zero.
\<close>

theorem ring_never_panics:
  assumes "sc_SlotCount cfg < 2 ^ 63" and "ring_run cfg rb"
  shows "RingBuffer_Write rb f \<noteq> None \<and> RingBuffer_Read rb \<noteq> None"
  using RingBuffer_Write_safe [OF ring_run_safe [OF assms], of f] RingBuffer_Read_safe [OF ring_run_safe [OF assms]]
  by (metis option.distinct(1))

definition example_shm :: ShmConfig where
  "example_shm = \<lparr>sc_Name = ''eni'', sc_BufferSize = 0, sc_SlotCount = 0\<rparr>"

theorem ring_never_panics_witness:
  "RingBuffer_Write (NewRingBuffer example_shm) example_frame \<noteq> None \<and> RingBuffer_Read (NewRingBuffer example_shm) \<noteq> None"
  by (rule ring_never_panics [OF _ ring_run.init]) (simp add: example_shm_def)

text \<open>
  C33: The ring is a bounded first-in first-out queue. In every state reached by fewer
  than \<open>2 ^ 64\<close> writes, \<open>Write\<close> succeeds exactly when the frame fits a slot and
  the queue is not full, and then appends the frame's bytes; a refused write changes
  nothing; \<open>Read\<close> reports an empty queue as no frame, and otherwise removes its first entry.
\<close>

theorem ring_fifo:
  assumes "sc_SlotCount cfg < 2 ^ 63" and "ring_live cfg rb" and "rb_head rb \<noteq> - 1"
  shows "(\<exists>res rb'. RingBuffer_Write rb f = Some (res, rb')
      \<and> (res = None \<longleftrightarrow> int (length (SignableBytes f)) \<le> rb_slotSize rb - 2 \<and> length (ring_queue rb) < nat (rb_slots rb))
      \<and> ring_queue rb' = ring_queue rb @ (if res = None then [SignableBytes f] else []))
    \<and> (\<exists>out rb'. RingBuffer_Read rb = Some (out, rb') \<and> ring_queue rb' = tl (ring_queue rb)
      \<and> out = (case ring_queue rb of [] \<Rightarrow> Inr None
          | d # ds \<Rightarrow> if length d < 16 then Inl (Errorf ''slot data too short (%d bytes)'' [AInt (int (length d))])
                      else Inr (Some (slot_frame d))))"
  using RingBuffer_Write_cases [OF ring_live_inv [OF assms(1,2)] assms(3), of f]
    RingBuffer_Read_queue [OF ring_live_inv [OF assms(1,2)]]
  by (cases "ring_queue rb") fastforce+

theorem ring_fifo_witness:
  "\<exists>res rb'. RingBuffer_Write (NewRingBuffer example_shm) example_frame = Some (res, rb')
     \<and> res = None \<and> ring_queue rb' = [SignableBytes example_frame]"
proof -
  have "sc_SlotCount example_shm < 2 ^ 63" by (simp add: example_shm_def)
  moreover have "rb_head (NewRingBuffer example_shm) \<noteq> - 1" "ring_queue (NewRingBuffer example_shm) = []"
    "rb_slotSize (NewRingBuffer example_shm) = 256" "rb_slots (NewRingBuffer example_shm) = 256"
    by (simp_all add: NewRingBuffer_def example_shm_def ring_queue_def DefaultSlotCount_def DefaultBufferSize_def MaxSlotSize_def)
  moreover have "length (SignableBytes example_frame) = 21"
    by (simp add: SignableBytes_def example_frame_def)
  ultimately show ?thesis
    using ring_fifo [OF _ ring_live.init, of example_shm example_frame] by fastforce
qed

lemma fresh_ring:
  assumes "sc_SlotCount cfg < 2 ^ 63"
  shows "shm_outbox (NewConnection (NewRingBuffer cfg) rx remote) []"
    and "\<forall>f \<in> set fs. ring_fits (NewRingBuffer cfg) f \<Longrightarrow> length fs \<le> nat (rb_slots (NewRingBuffer cfg)) \<Longrightarrow>
      shm_accepts (NewConnection (NewRingBuffer cfg) rx remote) fs"
    and "0 < nat (rb_slots (NewRingBuffer cfg))"
proof -
  have "rb_slots (NewRingBuffer cfg) < 2 ^ 63" and pos: "0 < nat (rb_slots (NewRingBuffer cfg))"
    using NewRingBuffer_geom [OF assms] by (auto simp: ring_geom_def)
  moreover have "rb_head (NewRingBuffer cfg) = 0" "rb_tail (NewRingBuffer cfg) = 0"
    by (simp_all add: NewRingBuffer_def Let_def)
  ultimately show "shm_outbox (NewConnection (NewRingBuffer cfg) rx remote) []"
    "\<forall>f \<in> set fs. ring_fits (NewRingBuffer cfg) f \<Longrightarrow> length fs \<le> nat (rb_slots (NewRingBuffer cfg)) \<Longrightarrow>
      shm_accepts (NewConnection (NewRingBuffer cfg) rx remote) fs"
    using NewRingBuffer_inv [OF assms] by (auto simp: shm_outbox_def shm_accepts_def NewConnection_def)
  show "0 < nat (rb_slots (NewRingBuffer cfg))" by (rule pos)
qed

text \<open>
  Frames sent over a shared-memory connection whose ring is fresh arrive at the
  peer that reads the same ring, in order and complete except for their MACs, which the ring drops.
\<close>

theorem shm_pipe:
  assumes "sc_SlotCount cfg < 2 ^ 63" and "\<forall>f \<in> set fs. ring_fits (NewRingBuffer cfg) f"
    and "length fs \<le> nat (rb_slots (NewRingBuffer cfg))"
  shows "\<exists>c'. send_all (\<lambda>f c. Connection_Send c f) fs (NewConnection (NewRingBuffer cfg) rx remote) = Some (None, c')
    \<and> map_option fst (recv_all (Connection_Receive []) (length fs) (NewConnection tx (sm_tx c') peer))
      = Some (Inr (map shm_carry fs))"
proof -
  let ?c = "NewConnection (NewRingBuffer cfg) rx remote"
  have "shm_outbox ?c []" "shm_accepts ?c fs" using fresh_ring [OF assms(1)] assms(2,3) by auto
  from shmconn.send_all_outbox [OF this] obtain c' where
    c': "send_all (\<lambda>f c. Connection_Send c f) fs ?c = Some (None, c')" "shm_outbox c' (map shm_carry fs)" by auto
  then have "shm_inbox (NewConnection tx (sm_tx c') peer) (map shm_carry fs @ [])"
    using assms(2) by (auto simp: shm_outbox_def shm_inbox_def NewConnection_def ring_fits_def shm_carry_def frame_fits_def)
  from shmconn.recv_all_inbox [OF this] c'(1) show ?thesis by auto
qed

lemma example_ring:
  "sc_SlotCount example_shm < 2 ^ 63" "rb_slotSize (NewRingBuffer example_shm) = 256"
  "rb_slots (NewRingBuffer example_shm) = 256" "ring_fits (NewRingBuffer example_shm) example_frame"
  by (simp_all add: NewRingBuffer_def example_shm_def ring_fits_def example_frame_def frame_fits_def SignableBytes_def
      DefaultSlotCount_def DefaultBufferSize_def MaxSlotSize_def)

theorem shm_pipe_witness:
  "\<exists>c'. send_all (\<lambda>f c. Connection_Send c f) [example_frame, example_frame]
       (NewConnection (NewRingBuffer example_shm) (NewRingBuffer example_shm) ''peer'') = Some (None, c')
    \<and> map_option fst (recv_all (Connection_Receive []) 2 (NewConnection (NewRingBuffer example_shm) (sm_tx c') ''me''))
      = Some (Inr [shm_carry example_frame, shm_carry example_frame])"
  using shm_pipe [of example_shm "[example_frame, example_frame]"] example_ring by (simp add: numeral_2_eq_2)

text \<open>
  \<open>Receive\<close> on an empty ring waits, and returns with the peer's next frame as
  soon as the peer has written one that fits, after any number \<open>n\<close> of empty polls.
\<close>

theorem shm_Receive_waits:
  assumes "ring_inv (sm_rx c)" and "ring_queue (sm_rx c) = []" and "ring_fits (sm_rx c) f" and "rb_head (sm_rx c) \<noteq> - 1"
  shows "Connection_Receive (replicate n []) c = None
    \<and> (\<exists>c'. Connection_Receive (replicate n [] @ [[f]]) c = Some (Inr (shm_carry f), c') \<and> ring_queue (sm_rx c') = [])"
proof -
  have empty: "RingBuffer_Read (sm_rx c) = Some (Inr None, sm_rx c)"
    using RingBuffer_Read_queue [OF assms(1)] assms(2) by simp
  have "0 < nat (rb_slots (sm_rx c))" by (rule ring_geomD(1) [OF ring_invD(1) [OF assms(1)]])
  moreover have "unat (rb_head (sm_rx c)) - unat (rb_tail (sm_rx c)) = 0"
    using assms(2) length_ring_queue [of "sm_rx c"] by simp
  ultimately have "unat (rb_head (sm_rx c)) < unat (rb_tail (sm_rx c)) + nat (rb_slots (sm_rx c))" by linarith
  then obtain rb1 where rb1: "RingBuffer_Write (sm_rx c) f = Some (None, rb1)" "ring_inv rb1" "ring_queue rb1 = [SignableBytes f]"
    using RingBuffer_Write_queue [OF assms(1)] assms(2-4) by (auto simp: ring_fits_def)
  then obtain rb2 where rb2: "RingBuffer_Read rb1 = Some (Inr (Some (shm_carry f)), rb2)" "ring_queue rb2 = []"
    using RingBuffer_Read_queue [OF rb1(2)] slot_frame_Signable [of f] assms(3) by (auto simp: ring_fits_def)
  have "c\<lparr>sm_rx := sm_rx c\<rparr> = c" by simp
  then have poll: "Connection_Receive ([] # env) c = Connection_Receive env c" for env
    by (subst Connection_Receive.simps) (simp add: empty del: Connection_Receive.simps)
  have "Connection_Receive (replicate n [] @ env) c = Connection_Receive env c" for env
    by (induction n) (simp_all add: poll del: Connection_Receive.simps)
  from this [of "[]"] this [of "[[f]]"] show ?thesis
    using empty rb1 rb2 by simp
qed

theorem shm_Receive_waits_witness:
  "\<exists>c'. Connection_Receive [[], [], [], [example_frame]]
        (NewConnection (NewRingBuffer example_shm) (NewRingBuffer example_shm) ''peer'')
      = Some (Inr (shm_carry example_frame), c')"
proof -
  let ?c = "NewConnection (NewRingBuffer example_shm) (NewRingBuffer example_shm) ''peer''"
  have "rb_head (NewRingBuffer example_shm) \<noteq> - 1" by (simp add: NewRingBuffer_def Let_def)
  then have "ring_inv (sm_rx ?c)" "ring_queue (sm_rx ?c) = []" "ring_fits (sm_rx ?c) example_frame" "rb_head (sm_rx ?c) \<noteq> - 1"
    using NewRingBuffer_inv [OF example_ring(1)] example_ring(4) by (simp_all add: NewConnection_def)
  from shm_Receive_waits [OF this, of 3] show ?thesis
    by (auto simp: numeral_3_eq_3 simp del: Connection_Receive.simps)
qed

text \<open>
  A frame over the protocol's size limit is not refused by \<open>Write\<close>: it has no
  signable bytes, so it is stored as an empty slot, and the reader gets an error for it.
\<close>

theorem shm_oversized_frame:
  assumes "ring_inv rb" and "2 \<le> rb_slotSize rb" and "ring_queue rb = []" and "rb_head rb \<noteq> - 1" and "\<not> frame_fits f"
  shows "\<exists>rb' rb''. RingBuffer_Write rb f = Some (None, rb')
    \<and> RingBuffer_Read rb' = Some (Inl (Errorf ''slot data too short (%d bytes)'' [AInt 0]), rb'')"
proof -
  have d: "SignableBytes f = []" using assms(5) by (simp add: SignableBytes_def frame_fits_def)
  have "0 < nat (rb_slots rb)" by (rule ring_geomD(1) [OF ring_invD(1) [OF assms(1)]])
  with RingBuffer_Write_cases [OF assms(1,4), of f] assms(2,3) d obtain rb' where
    rb': "RingBuffer_Write rb f = Some (None, rb')" "ring_inv rb'" "ring_queue rb' = [[]]"
    by (auto simp flip: length_ring_queue)
  with RingBuffer_Read_queue [OF rb'(2)] show ?thesis by auto
qed

definition oversized_frame :: frame where
  "oversized_frame = \<lparr>f_Version = 1, f_MsgType = 0, f_Flags = 0, f_Header = [0],
     f_Payload = replicate 1048576 0, f_MAC = []\<rparr>"

theorem shm_oversized_frame_witness:
  "\<exists>rb' rb''. RingBuffer_Write (NewRingBuffer example_shm) oversized_frame = Some (None, rb')
    \<and> RingBuffer_Read rb' = Some (Inl (Errorf ''slot data too short (%d bytes)'' [AInt 0]), rb'')"
proof (rule shm_oversized_frame)
  show "ring_inv (NewRingBuffer example_shm)" "ring_queue (NewRingBuffer example_shm) = []"
    using NewRingBuffer_inv [OF example_ring(1)] by simp_all
  show "rb_head (NewRingBuffer example_shm) \<noteq> - 1" by (simp add: NewRingBuffer_def Let_def)
  show "\<not> frame_fits oversized_frame" by (simp add: oversized_frame_def frame_fits_def)
qed (simp add: example_ring)

end
