(* ===== verification/Replay.thy ===== *)
theory Replay
  imports Prelude
begin

text \<open>
  \<^verbatim>\<open>security/replay/tracker.go\<close>: the sliding-window replay tracker. Its contract is stated
  over the history of accepted sequence numbers: a number is accepted exactly when it is
  not zero, has not been accepted before and is no more than a window behind the highest
  accepted number. The tracker keeps only the part of the history inside the window.
\<close>

section \<open>The tracker\<close>

definition defaultWindowSize :: "64 word" where "defaultWindowSize = 128"

record Tracker =
  t_maxSeen :: "64 word"
  t_windowSize :: "64 word"
  t_seen :: "64 word set"

definition NewTracker :: "int \<Rightarrow> Tracker" where
  "NewTracker windowSize =
     (let ws = word_of_int windowSize;
          ws = (if ws = 0 then defaultWindowSize else ws)
      in \<lparr>t_maxSeen = 0, t_windowSize = ws, t_seen = {}\<rparr>)"

definition Tracker_cleanup :: "Tracker \<Rightarrow> Tracker" where
  "Tracker_cleanup t =
     (let cutoff = (if t_maxSeen t > t_windowSize t then t_maxSeen t - t_windowSize t else 0)
      in t\<lparr>t_seen := Set.filter (\<lambda>seq. \<not> seq < cutoff) (t_seen t)\<rparr>)"

definition Tracker_Check :: "Tracker \<Rightarrow> 64 word \<Rightarrow> error option \<times> Tracker" where
  "Tracker_Check t seq =
     (if seq = 0 then (Some (Sentinel ReplayErrReplay), t)
      else if seq > t_maxSeen t
      then let t1 = Tracker_cleanup (t\<lparr>t_maxSeen := seq\<rparr>)
           in (None, t1\<lparr>t_seen := insert seq (t_seen t1)\<rparr>)
      else if t_maxSeen t - seq > t_windowSize t then (Some (Sentinel ReplayErrReplay), t)
      else if seq \<in> t_seen t then (Some (Sentinel ReplayErrReplay), t)
      else (None, t\<lparr>t_seen := insert seq (t_seen t)\<rparr>))"

definition Tracker_Reset :: "Tracker \<Rightarrow> Tracker" where
  "Tracker_Reset t = t\<lparr>t_maxSeen := 0, t_seen := {}\<rparr>"

section \<open>The contract\<close>

text \<open>The highest number of a finite history (0 when there is none), and the window test.\<close>

definition hist_max :: "64 word set \<Rightarrow> nat" where
  "hist_max H = Max (insert 0 (unat ` H))"

definition replay_accepts :: "nat \<Rightarrow> 64 word set \<Rightarrow> 64 word \<Rightarrow> bool" where
  "replay_accepts ws H seq \<longleftrightarrow> seq \<noteq> 0 \<and> seq \<notin> H \<and> hist_max H \<le> unat seq + ws"

text \<open>The tracker \<open>t\<close> stands for the history \<open>H\<close>.\<close>

definition tracks :: "Tracker \<Rightarrow> 64 word set \<Rightarrow> bool" where
  "tracks t H \<longleftrightarrow> finite H \<and> 0 \<notin> H \<and> unat (t_maxSeen t) = hist_max H
     \<and> t_seen t = {s \<in> H. hist_max H \<le> unat s + unat (t_windowSize t)}"

text \<open>A sequence of checks, with the numbers that were accepted.\<close>

fun run_checks :: "('s \<Rightarrow> 'n \<Rightarrow> error option \<times> 's) \<Rightarrow> 's \<Rightarrow> 'n list \<Rightarrow> 'n list \<times> 's" where
  "run_checks chk s [] = ([], s)"
| "run_checks chk s (n # ns) =
     (case chk s n of
       (None, s') \<Rightarrow> (case run_checks chk s' ns of (acc, s'') \<Rightarrow> (n # acc, s''))
     | (Some e, s') \<Rightarrow> run_checks chk s' ns)"

text \<open>The reference filter, which remembers every number it has accepted.\<close>

fun replay_spec :: "nat \<Rightarrow> 64 word set \<Rightarrow> 64 word list \<Rightarrow> 64 word list" where
  "replay_spec ws H [] = []"
| "replay_spec ws H (n # ns) =
     (if replay_accepts ws H n then n # replay_spec ws (insert n H) ns else replay_spec ws H ns)"

text \<open>What a receiver relies on: a number once accepted is never accepted again.\<close>

locale replay_filter =
  fixes chk :: "'s \<Rightarrow> 'n \<Rightarrow> error option \<times> 's"
    and used :: "'s \<Rightarrow> 'n set \<Rightarrow> bool"
  assumes accept_fresh: "used s H \<Longrightarrow> chk s n = (None, s') \<Longrightarrow> n \<notin> H \<and> used s' (insert n H)"
    and refuse_keeps: "used s H \<Longrightarrow> chk s n = (Some e, s') \<Longrightarrow> used s' H"
begin

lemma run_checks_fresh:
  "used s H \<Longrightarrow> run_checks chk s ns = (acc, s') \<Longrightarrow> distinct acc \<and> set acc \<inter> H = {} \<and> used s' (set acc \<union> H)"
proof (induction ns arbitrary: s H acc)
  case Nil
  then show ?case by simp
next
  case (Cons n ns)
  obtain r s1 where chk: "chk s n = (r, s1)" by fastforce
  show ?case
  proof (cases r)
    case None
    with chk Cons.prems obtain acc' where acc: "run_checks chk s1 ns = (acc', s')" "acc = n # acc'"
      by (auto split: prod.splits)
    have fresh: "n \<notin> H" "used s1 (insert n H)"
      using accept_fresh Cons.prems(1) chk None by auto
    with Cons.IH [OF fresh(2) acc(1)] acc show ?thesis by auto
  next
    case (Some e)
    with chk Cons.prems have "run_checks chk s1 ns = (acc, s')" "used s1 H"
      by (auto intro: refuse_keeps)
    then show ?thesis by (rule Cons.IH [rotated])
  qed
qed

end

section \<open>Lemmas\<close>

lemma hist_max_empty [simp]: "hist_max {} = 0"
  by (simp add: hist_max_def)

lemma hist_max_insert: "finite H \<Longrightarrow> hist_max (insert s H) = max (unat s) (hist_max H)"
  by (simp add: hist_max_def insert_commute [of 0])

lemma hist_max_ge: "finite H \<Longrightarrow> s \<in> H \<Longrightarrow> unat s \<le> hist_max H"
  by (simp add: hist_max_def)

lemma tracks_new: "tracks (NewTracker ws) {}"
  by (simp add: tracks_def NewTracker_def Let_def)

lemma tracks_reset: "tracks (Tracker_Reset t) {}"
  by (simp add: tracks_def Tracker_Reset_def)

text \<open>The number against the window, on words and on naturals.\<close>

lemma window_test:
  assumes "unat seq \<le> unat mx"
  shows "mx - seq > ws \<longleftrightarrow> unat (mx :: 64 word) > unat seq + unat ws"
  using assms by (auto simp: word_less_nat_alt unat_sub word_le_nat_alt)

lemma cutoff_test:
  "seq < (if mx > ws then mx - ws else 0) \<longleftrightarrow> unat (mx :: 64 word) > unat seq + unat ws"
  by (auto simp: word_less_nat_alt unat_sub word_le_nat_alt)

lemma tracks_newer: "tracks t H \<Longrightarrow> seq > t_maxSeen t \<longleftrightarrow> hist_max H < unat seq"
  by (simp add: word_less_nat_alt tracks_def)

lemma tracks_window:
  assumes "tracks t H" "\<not> hist_max H < unat seq"
  shows "t_maxSeen t - seq > t_windowSize t \<longleftrightarrow> \<not> hist_max H \<le> unat seq + unat (t_windowSize t)"
  using assms window_test [of seq "t_maxSeen t" "t_windowSize t"] by (simp add: tracks_def not_le not_less)

lemma tracks_seen:
  "tracks t H \<Longrightarrow> hist_max H \<le> unat seq + unat (t_windowSize t) \<Longrightarrow> seq \<in> t_seen t \<longleftrightarrow> seq \<in> H"
  by (simp add: tracks_def)

lemma tracks_fresh: "tracks t H \<Longrightarrow> hist_max H < unat seq \<Longrightarrow> seq \<notin> H"
  using hist_max_ge [of H seq] by (auto simp: tracks_def)

lemma Tracker_Check_refuse:
  assumes tr: "tracks t H" and no: "\<not> replay_accepts (unat (t_windowSize t)) H seq"
  shows "Tracker_Check t seq = (Some (Sentinel ReplayErrReplay), t)"
proof (cases "seq = 0")
  case True
  then show ?thesis by (simp add: Tracker_Check_def)
next
  case nz: False
  then have old: "\<not> hist_max H < unat seq"
    using no tracks_fresh [OF tr] by (auto simp: replay_accepts_def)
  show ?thesis
    using nz no old tracks_seen [OF tr, of seq]
    by (auto simp: Tracker_Check_def tracks_newer [OF tr] tracks_window [OF tr old] replay_accepts_def)
qed

lemma Tracker_cleanup_eq:
  "Tracker_cleanup t = t\<lparr>t_seen := {s \<in> t_seen t. unat (t_maxSeen t) \<le> unat s + unat (t_windowSize t)}\<rparr>"
proof -
  have "Set.filter (\<lambda>s. \<not> s < (if t_maxSeen t > t_windowSize t then t_maxSeen t - t_windowSize t else 0)) (t_seen t)
      = {s \<in> t_seen t. unat (t_maxSeen t) \<le> unat s + unat (t_windowSize t)}"
    by (auto simp: cutoff_test not_less)
  then show ?thesis unfolding Tracker_cleanup_def Let_def by (rule arg_cong)
qed

lemma Tracker_Check_newer:
  assumes tr: "tracks t H" and new: "hist_max H < unat seq"
  shows "Tracker_Check t seq = (None, t\<lparr>t_maxSeen := seq,
      t_seen := insert seq {s \<in> t_seen t. unat seq \<le> unat s + unat (t_windowSize t)}\<rparr>)"
  using new by (auto simp: Tracker_Check_def tracks_newer [OF tr] Tracker_cleanup_eq Let_def)

lemma Tracker_Check_accept:
  assumes tr: "tracks t H" and acc: "replay_accepts (unat (t_windowSize t)) H seq"
  shows "\<exists>t'. Tracker_Check t seq = (None, t') \<and> tracks t' (insert seq H) \<and> t_windowSize t' = t_windowSize t"
proof (cases "hist_max H < unat seq")
  case True
  let ?t' = "t\<lparr>t_maxSeen := seq, t_seen := insert seq {s \<in> t_seen t. unat seq \<le> unat s + unat (t_windowSize t)}\<rparr>"
  have seen: "t_seen t = {s \<in> H. hist_max H \<le> unat s + unat (t_windowSize t)}"
    and fin: "finite H" and nz: "0 \<notin> H" "seq \<noteq> 0"
    using tr acc unfolding tracks_def replay_accepts_def by blast+
  have max: "hist_max (insert seq H) = unat seq"
    using True fin by (simp add: hist_max_insert)
  have "tracks ?t' (insert seq H)"
    unfolding tracks_def max using fin nz True by (auto simp: seen)
  with Tracker_Check_newer [OF tr True] show ?thesis by auto
next
  case False
  let ?t' = "t\<lparr>t_seen := insert seq (t_seen t)\<rparr>"
  have chk: "Tracker_Check t seq = (None, ?t')"
    using False acc tracks_seen [OF tr, of seq]
    by (simp add: Tracker_Check_def tracks_newer [OF tr] tracks_window [OF tr False] replay_accepts_def)
  have max: "hist_max (insert seq H) = hist_max H"
    using False tr by (simp add: tracks_def hist_max_insert max_def)
  have "tracks ?t' (insert seq H)"
    unfolding tracks_def max using tr acc by (auto simp: tracks_def replay_accepts_def)
  with chk show ?thesis by simp
qed

interpretation tracker: replay_filter Tracker_Check tracks
proof
  fix t :: Tracker and H n t' e
  assume tr: "tracks t H"
  show "n \<notin> H \<and> tracks t' (insert n H)" if "Tracker_Check t n = (None, t')"
    using that Tracker_Check_refuse [OF tr, of n] Tracker_Check_accept [OF tr, of n]
    by (auto simp: replay_accepts_def)
  show "tracks t' H" if "Tracker_Check t n = (Some e, t')"
    using that tr Tracker_Check_refuse [OF tr, of n] Tracker_Check_accept [OF tr, of n] by auto
qed

lemma run_checks_spec:
  "tracks t H \<Longrightarrow> fst (run_checks Tracker_Check t ns) = replay_spec (unat (t_windowSize t)) H ns"
proof (induction ns arbitrary: t H)
  case Nil
  then show ?case by simp
next
  case (Cons n ns)
  show ?case
  proof (cases "replay_accepts (unat (t_windowSize t)) H n")
    case True
    from Tracker_Check_accept [OF Cons.prems this] obtain t' where
      t': "Tracker_Check t n = (None, t')" "tracks t' (insert n H)" "t_windowSize t' = t_windowSize t"
      by blast
    with Cons.IH [OF t'(2)] True show ?thesis by (simp add: split_beta)
  next
    case False
    with Tracker_Check_refuse [OF Cons.prems False] Cons.IH [OF Cons.prems] show ?thesis by simp
  qed
qed

lemma replay_spec_increasing:
  "sorted_wrt (<) (map unat ns) \<Longrightarrow> \<forall>n \<in> set ns. hist_max H < unat n \<Longrightarrow> finite H \<Longrightarrow> replay_spec ws H ns = ns"
proof (induction ns arbitrary: H)
  case Nil
  then show ?case by simp
next
  case (Cons n ns)
  then have "replay_accepts ws H n"
    using hist_max_ge [of H n] by (auto simp: replay_accepts_def)
  moreover have "replay_spec ws (insert n H) ns = ns"
    using Cons by (intro Cons.IH) (auto simp: hist_max_insert)
  ultimately show ?case by simp
qed

lemma tracks_card:
  assumes "tracks t H"
  shows "card (t_seen t) \<le> unat (t_windowSize t) + 1"
proof -
  have fin: "finite H" and seen: "t_seen t = {s \<in> H. hist_max H \<le> unat s + unat (t_windowSize t)}"
    using assms unfolding tracks_def by blast+
  have "unat ` t_seen t \<subseteq> {hist_max H - unat (t_windowSize t) .. hist_max H}"
    using hist_max_ge [OF fin] by (auto simp: seen)
  then have "card (unat ` t_seen t) \<le> card {hist_max H - unat (t_windowSize t) .. hist_max H}"
    by (intro card_mono) auto
  moreover have "card (unat ` t_seen t) = card (t_seen t)"
    by (intro card_image) (auto simp: inj_on_def word_unat_eq_iff)
  ultimately show ?thesis by (simp add: le_diff_conv)
qed

lemma run_checks_window: "t_windowSize (snd (run_checks Tracker_Check t ns)) = t_windowSize t"
proof (induction ns arbitrary: t)
  case (Cons n ns)
  have "t_windowSize (snd (Tracker_Check t n)) = t_windowSize t"
    by (simp add: Tracker_Check_def Tracker_cleanup_def Let_def)
  with Cons show ?case by (simp add: split_beta split: option.splits)
qed simp

section \<open>Properties\<close>

text \<open>
  C25: From a fresh tracker, whatever numbers arrive in whatever order, the numbers the
  sliding window accepts are exactly those the reference filter accepts, which remembers
  the whole history: not zero, never accepted before, and at most a window behind the
  highest accepted number. Forgetting the numbers that fell out of the window loses nothing.
\<close>

theorem Tracker_refines_history:
  "fst (run_checks Tracker_Check (NewTracker w) ns) = replay_spec (unat (t_windowSize (NewTracker w))) {} ns"
  by (rule run_checks_spec [OF tracks_new])

text \<open>
  No sequence number is ever accepted twice, by a fresh tracker or by one that was
  reset, and the tracker never holds more than one window of numbers and the highest.
\<close>

theorem Tracker_no_replay:
  "distinct (fst (run_checks Tracker_Check (NewTracker w) ns))
   \<and> distinct (fst (run_checks Tracker_Check (Tracker_Reset t) ns))
   \<and> card (t_seen (snd (run_checks Tracker_Check (NewTracker w) ns))) \<le> unat (t_windowSize (NewTracker w)) + 1"
proof -
  let ?t = "snd (run_checks Tracker_Check (NewTracker w) ns)"
  have new: "distinct (fst (run_checks Tracker_Check (NewTracker w) ns))"
      "tracks ?t (set (fst (run_checks Tracker_Check (NewTracker w) ns)))"
    using tracker.run_checks_fresh [OF tracks_new prod.collapse [symmetric]] by auto
  moreover have "distinct (fst (run_checks Tracker_Check (Tracker_Reset t) ns))"
    using tracker.run_checks_fresh [OF tracks_reset prod.collapse [symmetric]] by auto
  ultimately show ?thesis
    using tracks_card [OF new(2)] by (simp add: run_checks_window)
qed

text \<open>
  A peer that numbers its messages in increasing order, as the endpoints do, never
  has one refused: every strictly increasing run of non-zero numbers is accepted whole.
\<close>

theorem Tracker_accepts_increasing:
  assumes "sorted_wrt (<) (map unat ns)" and "0 \<notin> set ns"
  shows "fst (run_checks Tracker_Check (NewTracker w) ns) = ns"
proof -
  have "\<forall>n \<in> set ns. hist_max {} < unat n"
    using assms(2) by (auto simp: unat_gt_0)
  with assms(1) show ?thesis
    by (simp add: run_checks_spec [OF tracks_new] replay_spec_increasing)
qed

theorem Tracker_accepts_increasing_witness:
  "fst (run_checks Tracker_Check (NewTracker 0) [1, 2, 7, 400]) = [1, 2, 7, 400]"
  by (rule Tracker_accepts_increasing) simp_all

end
