(* ===== verification/TensorMessage.thy ===== *)
theory TensorMessage
  imports Tensor
begin

text \<open>
  \<^verbatim>\<open>protocol/tensor_message.go\<close>: the binding of a tensor descriptor to a message payload
  and its capability. \<open>MessagePayload\<close> refuses a descriptor that names no grant;
  \<open>TensorFromPayload\<close> refuses a message whose capability is none of the claims.
\<close>

definition MessagePayload :: "TensorDescriptor option \<Rightarrow> (bytes \<times> string) result" where
  "MessagePayload p =
     (case p of
       None \<Rightarrow> Inl (Sentinel ErrTensorNoCapability)
     | Some d \<Rightarrow>
        (case Validate d of
          Some e \<Rightarrow> Inl e
        | None \<Rightarrow>
           (case td_Capabilities d of
             [] \<Rightarrow> Inl (Sentinel ErrTensorNoCapability)
           | c # _ \<Rightarrow>
              (case TensorEncode buffer_Write d [] of
                (Some e, _) \<Rightarrow> Inl e
              | (None, buf) \<Rightarrow> Inr (buf, c)))))"

fun has_claim :: "string list \<Rightarrow> string \<Rightarrow> bool" where
  "has_claim [] cap = False"
| "has_claim (claim # claims) cap = (if claim = cap then True else has_claim claims cap)"

definition TensorFromPayload :: "bytes \<Rightarrow> string \<Rightarrow> TensorDescriptor result" where
  "TensorFromPayload payload cap =
     (case DecodeTensor stream_ReadFull payload of
       (Inl e, _) \<Rightarrow> Inl e
     | (Inr d, _) \<Rightarrow>
        (case Validate d of
          Some e \<Rightarrow> Inl e
        | None \<Rightarrow>
            (if has_claim (td_Capabilities d) cap then Inr d
             else Inl (Errorf ''%w: message asserts %q, descriptor claims %v''
                    [AErr (Sentinel ErrTensorCapabilityMismatch), AStr cap, AStrs (td_Capabilities d)]))))"

section \<open>Lemmas\<close>

lemma has_claim_iff [simp]: "has_claim claims cap \<longleftrightarrow> cap \<in> set claims"
  by (induction claims) auto

lemma TensorEncode_bounds:
  "tensor_bounds d \<Longrightarrow> TensorEncode wr d w = wr w (tensor_wire d)"
  by (simp add: TensorEncode_eq tensor_bounds_def Let_def)

lemma MessagePayload_Some:
  "MessagePayload (Some d) =
     (case Validate d of Some e \<Rightarrow> Inl e
      | None \<Rightarrow> (if td_Capabilities d = [] then Inl (Sentinel ErrTensorNoCapability)
                 else Inr (tensor_wire d, hd (td_Capabilities d))))"
  by (auto simp: MessagePayload_def Validate_bounds TensorEncode_bounds buffer_Write_def
      split: option.splits list.splits)

lemma TensorFromPayload_Inr_iff:
  "TensorFromPayload payload cap = Inr d \<longleftrightarrow>
     (\<exists>rest. payload = tensor_wire d @ rest) \<and> Validate d = None \<and> cap \<in> set (td_Capabilities d)"
proof
  assume "TensorFromPayload payload cap = Inr d"
  then show "(\<exists>rest. payload = tensor_wire d @ rest) \<and> Validate d = None \<and> cap \<in> set (td_Capabilities d)"
    by (auto simp: TensorFromPayload_def dest: DecodeTensor_canonical
        split: prod.splits sum.splits option.splits if_splits)
next
  assume "(\<exists>rest. payload = tensor_wire d @ rest) \<and> Validate d = None \<and> cap \<in> set (td_Capabilities d)"
  then show "TensorFromPayload payload cap = Inr d"
    by (auto simp: TensorFromPayload_def DecodeTensor_wire Validate_bounds)
qed

lemma TensorFromPayload_bound:
  assumes "MessagePayload (Some d) = Inr (payload, cap)"
  shows "TensorFromPayload payload cap = Inr d
    \<and> (TensorFromPayload payload cap' = Inr d' \<longleftrightarrow> d' = d \<and> cap' \<in> set (td_Capabilities d))"
proof -
  have d: "Validate d = None" "td_Capabilities d \<noteq> []" "payload = tensor_wire d" "cap = hd (td_Capabilities d)"
    using assms by (auto simp: MessagePayload_Some split: option.splits if_splits)
  have "d' = d" if "TensorFromPayload payload cap' = Inr d'"
  proof -
    from that obtain rest where rest: "payload = tensor_wire d' @ rest" "Validate d' = None"
      by (auto simp: TensorFromPayload_Inr_iff)
    with d(3) DecodeTensor_wire [OF Validate_bounds [OF rest(2)], of rest]
      DecodeTensor_wire [OF Validate_bounds [OF d(1)], of "[]"] show ?thesis by simp
  qed
  moreover have ok: "TensorFromPayload payload c = Inr d" if "c \<in> set (td_Capabilities d)" for c
    using that d(1) unfolding TensorFromPayload_Inr_iff d(3) by (metis append_Nil2)
  moreover have "cap' \<in> set (td_Capabilities d)" if "TensorFromPayload payload cap' = Inr d"
    using that unfolding TensorFromPayload_Inr_iff by blast
  moreover have "cap \<in> set (td_Capabilities d)" using d by simp
  ultimately show ?thesis by blast
qed

section \<open>Properties\<close>



text \<open>
  C28: The capability a message carries for a descriptor is one of the descriptor's own
  claims, and the receiver enforces it: from the payload \<open>MessagePayload\<close> builds, the
  receiver gets back the same descriptor under the capability it returned, and
  under any capability it gets nothing else, and nothing at all unless the capability is
  claimed.
\<close>

theorem tensor_message_binding:
  assumes "MessagePayload (Some d) = Inr (payload, cap)"
  shows "TensorFromPayload payload cap = Inr d
    \<and> (TensorFromPayload payload cap' = Inr d' \<longleftrightarrow> d' = d \<and> cap' \<in> set (td_Capabilities d))"
  using TensorFromPayload_bound [OF assms] by blast

theorem tensor_message_binding_witness:
  "TensorFromPayload (tensor_wire example_tensor) ''tensor:read'' = Inr example_tensor
   \<and> TensorFromPayload (tensor_wire example_tensor) ''tensor:write'' \<noteq> Inr example_tensor"
  using tensor_message_binding [of example_tensor "tensor_wire example_tensor" "''tensor:read''" "''tensor:write''" example_tensor]
    example_tensor_Validate
  by (simp add: MessagePayload_Some, simp add: example_tensor_def)

end
