(* ===== verification/Message.thy ===== *)
theory Message
  imports TensorMessage
begin

text \<open>
  \<^verbatim>\<open>core/types.go\<close>, \<^verbatim>\<open>core/message.go\<close>, the type codes of \<^verbatim>\<open>core/endpoint.go\<close> and
  the tensor binding of \<^verbatim>\<open>core/tensor_message.go\<close>: the message envelope, the one-byte
  code each message type has on the wire, and the messages that carry a tensor descriptor.
\<close>

section \<open>Types\<close>

type_synonym MessageType = string

definition TypeIntent :: MessageType where "TypeIntent = ''intent''"
definition TypeFeatures :: MessageType where "TypeFeatures = ''features''"
definition TypeToolRequest :: MessageType where "TypeToolRequest = ''tool_request''"
definition TypeAuth :: MessageType where "TypeAuth = ''auth''"
definition TypeChallenge :: MessageType where "TypeChallenge = ''challenge''"
definition TypeAuthResponse :: MessageType where "TypeAuthResponse = ''auth_response''"
definition TypeAck :: MessageType where "TypeAck = ''ack''"
definition TypePolicyResult :: MessageType where "TypePolicyResult = ''policy_result''"
definition TypeHeartbeat :: MessageType where "TypeHeartbeat = ''heartbeat''"
definition TypeAudit :: MessageType where "TypeAudit = ''audit''"
definition TypeChat :: MessageType where "TypeChat = ''chat''"
definition TypeComplete :: MessageType where "TypeComplete = ''complete''"

lemmas message_types = TypeIntent_def TypeFeatures_def TypeToolRequest_def TypeAuth_def TypeChallenge_def
  TypeAuthResponse_def TypeAck_def TypePolicyResult_def TypeHeartbeat_def TypeAudit_def TypeChat_def TypeComplete_def

type_synonym Priority = byte

definition PriorityP0 :: Priority where "PriorityP0 = 0"
definition PriorityP1 :: Priority where "PriorityP1 = 1"
definition PriorityP2 :: Priority where "PriorityP2 = 2"
definition PriorityP3 :: Priority where "PriorityP3 = 3"

type_synonym PayloadFormat = byte

definition PayloadJSON :: PayloadFormat where "PayloadJSON = 0"
definition PayloadMsgPack :: PayloadFormat where "PayloadMsgPack = 1"

definition core_ProtocolVersion :: "16 word" where "core_ProtocolVersion = 1"

section \<open>Messages\<close>

record Message =
  m_Version :: "16 word"
  m_Type :: MessageType
  m_Source :: string
  m_Timestamp :: time
  m_SessionID :: string
  m_RequestID :: string
  m_Priority :: Priority
  m_Capability :: string
  m_Payload :: bytes

text \<open>\<open>time.Now()\<close> is the argument \<open>now\<close>; a fresh message leaves the other fields empty.\<close>

definition NewMessage :: "time \<Rightarrow> MessageType \<Rightarrow> string \<Rightarrow> bytes \<Rightarrow> Message" where
  "NewMessage now msgType source payload =
     \<lparr>m_Version = core_ProtocolVersion, m_Type = msgType, m_Source = source, m_Timestamp = now,
      m_SessionID = '''', m_RequestID = '''', m_Priority = PriorityP1, m_Capability = '''',
      m_Payload = payload\<rparr>"

definition AttachTensor :: "time \<Rightarrow> TensorDescriptor option \<Rightarrow> Message result" where
  "AttachTensor now d =
     (case MessagePayload d of
       Inl e \<Rightarrow> Inl e
     | Inr (payload, cap) \<Rightarrow> Inr ((NewMessage now TypeFeatures '''' payload)\<lparr>m_Capability := cap\<rparr>))"

definition ExtractTensor :: "Message option \<Rightarrow> TensorDescriptor result" where
  "ExtractTensor m =
     (case m of
       None \<Rightarrow> Inl (Sentinel ErrNilMessage)
     | Some msg \<Rightarrow> TensorFromPayload (m_Payload msg) (m_Capability msg))"

section \<open>Type codes\<close>

text \<open>\<open>string(rune(b))\<close>: one byte below 128, the two-byte UTF-8 form above.\<close>

definition string_of_rune_byte :: "byte \<Rightarrow> string" where
  "string_of_rune_byte b =
     (if b < 0x80 then string_of_bytes [b]
      else string_of_bytes [0xC0 OR drop_bit 6 b, 0x80 OR (b AND 0x3F)])"

definition msgTypeFromByte :: "byte \<Rightarrow> MessageType" where
  "msgTypeFromByte b =
     (if b = of_char (CHR ''i'') then TypeIntent
      else if b = of_char (CHR ''f'') then TypeFeatures
      else if b = of_char (CHR ''t'') then TypeToolRequest
      else if b = of_char (CHR ''a'') then TypeAck
      else if b = of_char (CHR ''A'') then TypeAuth
      else if b = of_char (CHR ''H'') then TypeChallenge
      else if b = of_char (CHR ''R'') then TypeAuthResponse
      else if b = of_char (CHR ''p'') then TypePolicyResult
      else if b = of_char (CHR ''h'') then TypeHeartbeat
      else if b = of_char (CHR ''u'') then TypeAudit
      else if b = of_char (CHR ''c'') then TypeChat
      else if b = of_char (CHR ''C'') then TypeComplete
      else string_of_rune_byte b)"

definition MsgTypeToByte :: "MessageType \<Rightarrow> byte" where
  "MsgTypeToByte mt =
     (if mt = TypeIntent then of_char (CHR ''i'')
      else if mt = TypeFeatures then of_char (CHR ''f'')
      else if mt = TypeToolRequest then of_char (CHR ''t'')
      else if mt = TypeAck then of_char (CHR ''a'')
      else if mt = TypeAuth then of_char (CHR ''A'')
      else if mt = TypeChallenge then of_char (CHR ''H'')
      else if mt = TypeAuthResponse then of_char (CHR ''R'')
      else if mt = TypePolicyResult then of_char (CHR ''p'')
      else if mt = TypeHeartbeat then of_char (CHR ''h'')
      else if mt = TypeAudit then of_char (CHR ''u'')
      else if mt = TypeChat then of_char (CHR ''c'')
      else if mt = TypeComplete then of_char (CHR ''C'')
      else case mt of [] \<Rightarrow> 0 | c # _ \<Rightarrow> of_char c)"

section \<open>Lemmas\<close>

definition known_types :: "MessageType list" where
  "known_types = [TypeIntent, TypeFeatures, TypeToolRequest, TypeAck, TypeAuth, TypeChallenge, TypeAuthResponse,
     TypePolicyResult, TypeHeartbeat, TypeAudit, TypeChat, TypeComplete]"

definition type_codes :: "string" where
  "type_codes = ''iftaAHRphucC''"

lemma known_type_round_trip: "t \<in> set known_types \<Longrightarrow> msgTypeFromByte (MsgTypeToByte t) = t"
  by (auto simp: known_types_def MsgTypeToByte_def msgTypeFromByte_def message_types)

lemma unknown_type_byte:
  "t \<notin> set known_types \<Longrightarrow> MsgTypeToByte t = (case t of [] \<Rightarrow> 0 | c # _ \<Rightarrow> of_char c)"
  by (simp add: known_types_def MsgTypeToByte_def)

lemma of_char_byte_inject: "(of_char c :: byte) = of_char d \<longleftrightarrow> c = d"
  by (metis char_of_of_char_byte)

lemma string_of_rune_byte_char: "string_of_rune_byte b \<noteq> []"
  by (simp add: string_of_rune_byte_def string_of_bytes_def)

lemma unknown_code_type:
  "c \<notin> set type_codes \<Longrightarrow> msgTypeFromByte (of_char c) = string_of_rune_byte (of_char c)"
  unfolding msgTypeFromByte_def of_char_byte_inject by (simp add: type_codes_def)

lemma known_code_type:
  "c \<in> set type_codes \<Longrightarrow> msgTypeFromByte (of_char c) \<in> set known_types"
  by (auto simp: type_codes_def msgTypeFromByte_def known_types_def)

lemma rune_lead_fixed:
  assumes "0xC0 OR drop_bit 6 b = (b :: byte)"
  shows "b = 0xC3"
proof -
  have top: "drop_bit 6 (drop_bit 6 b) = 0"
    by (rule bit_eqI) (auto simp add: bit_drop_bit_eq dest: bit_imp_le_length)
  have "drop_bit 6 b = drop_bit 6 (0xC0 OR drop_bit 6 b)" using assms by simp
  also have "\<dots> = drop_bit 6 0xC0 OR drop_bit 6 (drop_bit 6 b)" by (rule drop_bit_or)
  finally have "drop_bit 6 b = 3" unfolding top by simp
  then show ?thesis using assms by simp
qed

lemma string_of_rune_byte_head:
  "string_of_rune_byte (of_char c) = c # rest \<longleftrightarrow>
     (of_char c :: byte) < 128 \<and> rest = [] \<or> c = CHR 0xC3 \<and> rest = [CHR 0x83]"
proof (cases "(of_char c :: byte) < 128")
  case True
  then show ?thesis by (auto simp: string_of_rune_byte_def string_of_bytes_def)
next
  case False
  let ?b = "of_char c :: byte"
  have "c = CHR 0xC3" if "char_of (unat (0xC0 OR drop_bit 6 ?b)) = c"
  proof -
    have "0xC0 OR drop_bit 6 ?b = ?b"
      using of_char_char_of_byte [of "0xC0 OR drop_bit 6 ?b"] that by simp
    then have "?b = 0xC3" by (rule rune_lead_fixed)
    then have "?b = of_char (CHR 0xC3)" by simp
    then show ?thesis by (simp only: of_char_byte_inject)
  qed
  moreover have "char_of (195 :: nat) = CHR 0xC3" "char_of (131 :: nat) = CHR 0x83"
    by (simp_all add: char_of_def bit_0)
  ultimately show ?thesis
    using False by (auto simp: string_of_rune_byte_def string_of_bytes_def)
qed

section \<open>Properties\<close>

text \<open>
  Exactly these message types survive the one-byte type code of the wire format:
  the twelve types of the protocol, the one-letter ASCII types that are not themselves a code,
  and one two-byte string whose first byte happens to be its own code. Every other
  type arrives as a different type.
\<close>

theorem message_type_round_trip:
  "msgTypeFromByte (MsgTypeToByte t) = t \<longleftrightarrow>
     t \<in> set known_types \<or> t = [CHR 0xC3, CHR 0x83]
   \<or> (\<exists>c. t = [c] \<and> c \<notin> set type_codes \<and> of_char c < (128 :: byte))"
proof (cases "t \<in> set known_types")
  case True
  then show ?thesis by (simp add: known_type_round_trip)
next
  case False
  show ?thesis
  proof (cases t)
    case Nil
    have "msgTypeFromByte (of_char (CHR 0x00)) = string_of_rune_byte (of_char (CHR 0x00))"
      by (rule unknown_code_type) (simp add: type_codes_def)
    then show ?thesis
      using Nil False string_of_rune_byte_char [of 0] by (simp add: unknown_type_byte)
  next
    case (Cons c rest)
    then have t: "MsgTypeToByte t = of_char c" using False by (simp add: unknown_type_byte)
    show ?thesis
    proof (cases "c \<in> set type_codes")
      case True
      then have "msgTypeFromByte (MsgTypeToByte t) \<noteq> t"
        using known_code_type [OF True] False t by auto
      moreover have "CHR 0xC3 \<notin> set type_codes" by (simp add: type_codes_def)
      ultimately show ?thesis using True False Cons by auto
    next
      case False
      then show ?thesis
        using Cons t \<open>t \<notin> set known_types\<close>
        by (auto simp: unknown_code_type string_of_rune_byte_head)
    qed
  qed
qed


lemma AttachTensor_example:
  "AttachTensor 0 (Some example_tensor) =
     Inr ((NewMessage 0 TypeFeatures '''' (tensor_wire example_tensor))\<lparr>m_Capability := ''tensor:read''\<rparr>)"
proof -
  have "td_Capabilities example_tensor = [''tensor:read'']" by (simp add: example_tensor_def)
  then show ?thesis by (simp add: AttachTensor_def MessagePayload_Some example_tensor_Validate)
qed


end
