(* ===== verification/Router.thy ===== *)
theory Router
  imports Message
begin

text \<open>
  \<^verbatim>\<open>core/router.go\<close>: handlers by message type, and \<open>DispatchBatch\<close>, which empties a
  priority queue built with \<^verbatim>\<open>container/heap\<close>. The heap operations are modelled on lists as the
  standard library implements them; the locale \<open>prio_queue\<close> is the contract the router
  relies on, and the heap is shown to meet it.
\<close>

section \<open>container/heap\<close>

definition swap :: "'a list \<Rightarrow> nat \<Rightarrow> nat \<Rightarrow> 'a list" where
  "swap h i j = h[i := h ! j, j := h ! i]"

function heap_down :: "('a \<Rightarrow> 'a \<Rightarrow> bool) \<Rightarrow> 'a list \<Rightarrow> nat \<Rightarrow> nat \<Rightarrow> 'a list" where
  "heap_down lt h i n =
     (let j1 = 2 * i + 1 in
      if j1 \<ge> n then h
      else let j = (if j1 + 1 < n \<and> lt (h ! (j1 + 1)) (h ! j1) then j1 + 1 else j1) in
        if \<not> lt (h ! j) (h ! i) then h
        else heap_down lt (swap h i j) j n)"
  by pat_completeness auto
termination
  by (relation "measure (\<lambda>(lt, h, i, n). n - i)") (auto split: if_splits)

declare heap_down.simps [simp del]

fun heap_init_loop :: "('a \<Rightarrow> 'a \<Rightarrow> bool) \<Rightarrow> 'a list \<Rightarrow> nat \<Rightarrow> nat \<Rightarrow> 'a list" where
  "heap_init_loop lt h 0 n = h"
| "heap_init_loop lt h (Suc i) n = heap_init_loop lt (heap_down lt h i n) i n"

definition heap_Init :: "('a \<Rightarrow> 'a \<Rightarrow> bool) \<Rightarrow> 'a list \<Rightarrow> 'a list" where
  "heap_Init lt h = heap_init_loop lt h (length h div 2) (length h)"

text \<open>\<open>heap.Pop\<close> followed by the queue's own \<open>Pop\<close>, which takes the last element off.\<close>

definition heap_Pop :: "('a \<Rightarrow> 'a \<Rightarrow> bool) \<Rightarrow> 'a list \<Rightarrow> 'a \<times> 'a list" where
  "heap_Pop lt h =
     (let n = length h - 1; h1 = heap_down lt (swap h 0 n) 0 n
      in (h1 ! n, take n h1))"

section \<open>The router\<close>

text \<open>A handler may change the program's state \<open>'s\<close> (health table, audit log).\<close>

type_synonym 's HandlerFunc = "Message \<Rightarrow> 's \<Rightarrow> (Message option \<times> error option) \<times> 's"

record 's Router =
  rt_handlers :: "MessageType \<rightharpoonup> 's HandlerFunc"

definition NewRouter :: "'s Router" where
  "NewRouter = \<lparr>rt_handlers = Map.empty\<rparr>"

definition Router_Handle :: "'s Router \<Rightarrow> MessageType \<Rightarrow> 's HandlerFunc \<Rightarrow> 's Router" where
  "Router_Handle r msgType handler = r\<lparr>rt_handlers := (rt_handlers r)(msgType \<mapsto> handler)\<rparr>"

definition Router_Dispatch :: "'s Router \<Rightarrow> Message \<Rightarrow> 's \<Rightarrow> (Message option \<times> error option) \<times> 's" where
  "Router_Dispatch r msg s =
     (case rt_handlers r (m_Type msg) of
       None \<Rightarrow> ((None, None), s)
     | Some handler \<Rightarrow> handler msg s)"

record DispatchResult =
  dr_Response :: "Message option"
  dr_Err :: "error option"

record priorityItem =
  pi_msg :: Message
  pi_index :: nat

definition pq_Less :: "priorityItem \<Rightarrow> priorityItem \<Rightarrow> bool" where
  "pq_Less a b \<longleftrightarrow> m_Priority (pi_msg a) < m_Priority (pi_msg b)"

lemma length_swap [simp]: "length (swap h i j) = length h"
  by (simp add: swap_def)

lemma length_heap_down [simp]: "length (heap_down lt h i n) = length h"
proof (induction lt h i n rule: heap_down.induct)
  case (1 lt h i n)
  then show ?case by (subst heap_down.simps) (simp add: Let_def)
qed

lemma length_heap_Pop: "length (snd (heap_Pop lt h)) = length h - 1"
  by (simp add: heap_Pop_def Let_def)

lemma heap_Pop_shorter: "pq \<noteq> [] \<Longrightarrow> (item, pq') = heap_Pop lt pq \<Longrightarrow> length pq' < length pq"
  using length_heap_Pop [of lt pq] by (metis diff_less length_greater_0_conv less_numeral_extra(1) snd_conv)

function batch_loop :: "'s Router \<Rightarrow> priorityItem list \<Rightarrow> DispatchResult list \<Rightarrow> 's \<Rightarrow> DispatchResult list \<times> 's" where
  "batch_loop r pq results s =
     (if pq = [] then (results, s)
      else case heap_Pop pq_Less pq of
        (item, pq') \<Rightarrow> (case Router_Dispatch r (pi_msg item) s of
          ((resp, err), s') \<Rightarrow>
            batch_loop r pq' (results[pi_index item := \<lparr>dr_Response = resp, dr_Err = err\<rparr>]) s'))"
  by pat_completeness auto
termination
  by (relation "measure (\<lambda>(r, pq, results, s). length pq)") (auto dest: heap_Pop_shorter)

declare batch_loop.simps [simp del]

definition DispatchBatch :: "'s Router \<Rightarrow> Message list \<Rightarrow> 's \<Rightarrow> DispatchResult list \<times> 's" where
  "DispatchBatch r messages s =
     (let pq = map (\<lambda>(i, msg). \<lparr>pi_msg = msg, pi_index = i\<rparr>) (enumerate 0 messages)
      in batch_loop r (heap_Init pq_Less pq)
           (replicate (length messages) \<lparr>dr_Response = None, dr_Err = None\<rparr>) s)"

section \<open>The heap is a priority queue\<close>

definition heap_child :: "nat \<Rightarrow> nat \<Rightarrow> bool" where
  "heap_child p c \<longleftrightarrow> c = 2 * p + 1 \<or> c = 2 * p + 2"

text \<open>The heap order among the first \<open>n\<close> elements, for parents from \<open>k\<close> on.\<close>

definition heap_from :: "('a \<Rightarrow> 'k :: linorder) \<Rightarrow> nat \<Rightarrow> nat \<Rightarrow> 'a list \<Rightarrow> bool" where
  "heap_from key k n h \<longleftrightarrow> (\<forall>p c. k \<le> p \<and> c < n \<and> heap_child p c \<longrightarrow> key (h ! p) \<le> key (h ! c))"

text \<open>The same but for the element at \<open>i\<close>, which may be too large for its place.\<close>

definition heap_except :: "('a \<Rightarrow> 'k :: linorder) \<Rightarrow> nat \<Rightarrow> nat \<Rightarrow> nat \<Rightarrow> 'a list \<Rightarrow> bool" where
  "heap_except key k i n h \<longleftrightarrow>
     (\<forall>p c. k \<le> p \<and> p \<noteq> i \<and> c < n \<and> heap_child p c \<longrightarrow> key (h ! p) \<le> key (h ! c))
   \<and> (\<forall>p c. k \<le> p \<and> heap_child p i \<and> heap_child i c \<and> c < n \<longrightarrow> key (h ! p) \<le> key (h ! c))"

lemma swap_nth:
  "i < length h \<Longrightarrow> j < length h \<Longrightarrow> swap h i j ! x = (if x = j then h ! i else if x = i then h ! j else h ! x)"
  by (simp add: swap_def nth_list_update)

lemma heap_child_unique: "heap_child p c \<Longrightarrow> heap_child q c \<Longrightarrow> p = q"
  by (auto simp: heap_child_def)

text \<open>Moving the smaller child up restores the order above it.\<close>

lemma heap_swap_except:
  assumes ex: "heap_except key k i n h" and n: "n \<le> length h" "j < n"
    and j: "heap_child i j" "\<And>c. heap_child i c \<Longrightarrow> c < n \<Longrightarrow> key (h ! j) \<le> key (h ! c)"
    and lt: "key (h ! j) < key (h ! i)"
  shows "heap_except key k j n (swap h i j)"
proof -
  have ij: "i < j" using j(1) by (auto simp: heap_child_def)
  have sw: "swap h i j ! x = (if x = j then h ! i else if x = i then h ! j else h ! x)" for x
    using n ij by (intro swap_nth) auto
  have "key (swap h i j ! p) \<le> key (swap h i j ! c)" if "k \<le> p" "p \<noteq> j" "c < n" "heap_child p c" for p c
  proof (cases "p = i")
    case True
    then have "c = j \<or> c \<noteq> i \<and> c \<noteq> j" using that(4) by (auto simp: heap_child_def)
    then show ?thesis using True ij lt j(2) [of c] that by (auto simp: sw)
  next
    case False
    then have c: "c \<noteq> j" using heap_child_unique [OF that(4)] j(1) by blast
    show ?thesis
    proof (cases "c = i")
      case True
      then show ?thesis using ex that False c n j(1) by (simp add: sw heap_except_def)
    next
      case False
      then show ?thesis using ex that \<open>p \<noteq> i\<close> c by (simp add: sw heap_except_def)
    qed
  qed
  moreover have "key (swap h i j ! p) \<le> key (swap h i j ! c)"
    if "k \<le> p" "heap_child p j" "heap_child j c" "c < n" for p c
  proof -
    have "p = i" using heap_child_unique [OF that(2) j(1)] .
    moreover have "c \<noteq> i" "c \<noteq> j" "j \<noteq> i" "k \<le> j" using that(3) ij \<open>p = i\<close> that(1) by (auto simp: heap_child_def)
    ultimately show ?thesis using ex that by (simp add: sw heap_except_def)
  qed
  ultimately show ?thesis unfolding heap_except_def by blast
qed

definition heap_pick :: "('a \<Rightarrow> 'a \<Rightarrow> bool) \<Rightarrow> 'a list \<Rightarrow> nat \<Rightarrow> nat \<Rightarrow> nat" where
  "heap_pick lt h i n = (if 2 * i + 1 + 1 < n \<and> lt (h ! (2 * i + 1 + 1)) (h ! (2 * i + 1)) then 2 * i + 1 + 1 else 2 * i + 1)"

lemma heap_down_unfold:
  "heap_down lt h i n =
     (if n \<le> 2 * i + 1 \<or> \<not> lt (h ! heap_pick lt h i n) (h ! i) then h
      else heap_down lt (swap h i (heap_pick lt h i n)) (heap_pick lt h i n) n)"
  unfolding heap_pick_def by (subst heap_down.simps) (simp add: Let_def)

lemma heap_down_order:
  "heap_except key k i n h \<Longrightarrow> n \<le> length h \<Longrightarrow> heap_from key k n (heap_down (\<lambda>a b. key a < key b) h i n)"
proof (induction "\<lambda>a b. key a < key b" h i n rule: heap_down.induct)
  case (1 h i n)
  let ?lt = "\<lambda>a b. key a < key b"
  define j where "j = heap_pick ?lt h i n"
  have unf: "heap_down ?lt h i n = (if n \<le> 2 * i + 1 \<or> \<not> key (h ! j) < key (h ! i) then h else heap_down ?lt (swap h i j) j n)"
    unfolding j_def by (rule heap_down_unfold)
  show ?case
  proof (cases "n \<le> 2 * i + 1")
    case True
    then have "heap_from key k n h"
      using "1.prems"(1) unfolding heap_from_def heap_except_def heap_child_def
      by (metis add_lessD1 not_le one_add_one add.assoc)
    with True show ?thesis by (simp add: unf)
  next
    case False
    then have j: "j < n" "heap_child i j" "\<And>c. heap_child i c \<Longrightarrow> c < n \<Longrightarrow> key (h ! j) \<le> key (h ! c)"
      by (auto simp: heap_child_def heap_pick_def j_def)
    show ?thesis
    proof (cases "key (h ! j) < key (h ! i)")
      case True
      have "heap_except key k j n (swap h i j)"
        using heap_swap_except [OF "1.prems" j True] .
      then have "heap_from key k n (heap_down ?lt (swap h i j) j n)"
        using "1.hyps" [OF refl False refl] True "1.prems"(2) by (simp only: j_def heap_pick_def length_swap not_not simp_thms)
      with True False show ?thesis by (simp add: unf)
    next
      case stop: False
      have "key (h ! p) \<le> key (h ! c)" if "k \<le> p" "c < n" "heap_child p c" for p c
        using "1.prems"(1) j(3) [of c] stop that by (cases "p = i") (auto simp: heap_except_def)
      then have "heap_from key k n h" unfolding heap_from_def by blast
      with stop show ?thesis by (simp add: unf)
    qed
  qed
qed

lemma mset_swap_eq: "i < length h \<Longrightarrow> j < length h \<Longrightarrow> mset (swap h i j) = mset h"
  using mset_swap [of j h i] by (simp add: swap_def)

lemma drop_swap: "i < n \<Longrightarrow> j < n \<Longrightarrow> drop n (swap h i j) = drop n h"
  by (simp add: swap_def drop_update_cancel)

lemma heap_down_perm:
  "n \<le> length h \<Longrightarrow> mset (heap_down lt h i n) = mset h \<and> drop n (heap_down lt h i n) = drop n h"
proof (induction lt h i n rule: heap_down.induct)
  case (1 lt h i n)
  define j where "j = heap_pick lt h i n"
  have unf: "heap_down lt h i n = (if n \<le> 2 * i + 1 \<or> \<not> lt (h ! j) (h ! i) then h else heap_down lt (swap h i j) j n)"
    unfolding j_def by (rule heap_down_unfold)
  show ?case
  proof (cases "n \<le> 2 * i + 1 \<or> \<not> lt (h ! j) (h ! i)")
    case False
    then have b: "i < n" "j < n" by (auto simp: j_def heap_pick_def)
    have "mset (heap_down lt (swap h i j) j n) = mset (swap h i j)
        \<and> drop n (heap_down lt (swap h i j) j n) = drop n (swap h i j)"
      using "1.IH" [OF refl _ refl] "1.prems" False by (simp only: j_def heap_pick_def length_swap not_not simp_thms de_Morgan_disj)
    then show ?thesis using b "1.prems" False by (simp add: unf mset_swap_eq drop_swap)
  qed (simp add: unf)
qed

lemma heap_init_loop_heap:
  "heap_from key i n h \<Longrightarrow> n \<le> length h \<Longrightarrow>
     heap_from key 0 n (heap_init_loop (\<lambda>a b. key a < key b) h i n)
   \<and> mset (heap_init_loop (\<lambda>a b. key a < key b) h i n) = mset h"
proof (induction i arbitrary: h)
  case 0
  then show ?case by simp
next
  case (Suc i)
  have "heap_except key i i n h"
    unfolding heap_except_def
  proof (intro conjI allI impI, goal_cases)
    case (1 p c)
    then show ?case using Suc.prems(1) by (auto simp: heap_from_def)
  next
    case (2 p c)
    then show ?case by (auto simp: heap_child_def)
  qed
  then show ?case
    using Suc.IH [OF heap_down_order] Suc.prems heap_down_perm [of n h "\<lambda>a b. key a < key b" i] by simp
qed

lemma heap_Init_heap:
  "heap_from key 0 (length h) (heap_Init (\<lambda>a b. key a < key b) h) \<and> mset (heap_Init (\<lambda>a b. key a < key b) h) = mset h"
  unfolding heap_Init_def by (rule heap_init_loop_heap) (auto simp: heap_from_def heap_child_def)

lemma heap_root_least:
  assumes "heap_from key 0 n h"
  shows "j < n \<Longrightarrow> key (h ! 0) \<le> key (h ! j)"
proof (induction j rule: less_induct)
  case (less j)
  show ?case
  proof (cases "j = 0")
    case False
    then have "heap_child ((j - 1) div 2) j" "(j - 1) div 2 < j" by (auto simp: heap_child_def)
    then have "key (h ! ((j - 1) div 2)) \<le> key (h ! j)" "key (h ! 0) \<le> key (h ! ((j - 1) div 2))"
      using assms less by (auto simp: heap_from_def)
    then show ?thesis by (rule order_trans [rotated])
  qed simp
qed

lemma heap_Pop_heap:
  assumes heap: "heap_from key 0 (length h) h" and ne: "h \<noteq> []"
    and pop: "heap_Pop (\<lambda>a b. key a < key b) h = (x, h')"
  shows "x = h ! 0 \<and> heap_from key 0 (length h') h' \<and> mset h = add_mset x (mset h')"
proof -
  let ?lt = "\<lambda>a b. key a < key b"
  define n where "n = length h - 1"
  define h1 where "h1 = swap h 0 n"
  define h2 where "h2 = heap_down ?lt h1 0 n"
  have n: "n < length h" "length h = Suc n" using ne by (auto simp: n_def)
  have h1: "h1 ! i = (if i = n then h ! 0 else if i = 0 then h ! n else h ! i)" for i
    unfolding h1_def using n by (intro swap_nth) auto
  have "heap_except key 0 0 n h1"
    using heap n by (auto simp: heap_except_def heap_from_def h1 heap_child_def)
  then have heap2: "heap_from key 0 n h2"
    unfolding h2_def using n by (intro heap_down_order) (auto simp: h1_def)
  have perm: "mset h2 = mset h1" "drop n h2 = drop n h1"
    using heap_down_perm [of n h1 ?lt 0] n by (simp_all add: h2_def h1_def)
  have len: "length h2 = Suc n" using n by (simp add: h2_def h1_def)
  have "drop n h1 = [h1 ! n]" using n by (metis Cons_nth_drop_Suc drop_all h1_def length_swap order_refl)
  then have drop2: "drop n h2 = [h ! 0]" using perm by (simp add: h1)
  then have "h2 ! n = h ! 0" by (metis hd_drop_conv_nth len lessI list.sel(1))
  with pop have x: "x = h ! 0" and h': "h' = take n h2"
    by (simp_all add: heap_Pop_def Let_def h2_def h1_def n_def)
  have "heap_from key 0 (length h') h'"
    using heap2 by (auto simp: h' len heap_from_def heap_child_def)
  moreover have "mset h = mset (take n h2) + mset (drop n h2)"
    using perm(1) mset_swap_eq [of 0 h n] n by (metis append_take_drop_id h1_def mset_append zero_less_Suc)
  ultimately show ?thesis using x by (simp add: h' drop2)
qed

text \<open>The contract of a priority queue of items ordered by \<open>key\<close>.\<close>

fun drain :: "('q \<Rightarrow> 'a \<times> 'q) \<Rightarrow> nat \<Rightarrow> 'q \<Rightarrow> 'a list" where
  "drain pop 0 q = []"
| "drain pop (Suc n) q = (case pop q of (x, q') \<Rightarrow> x # drain pop n q')"

locale prio_queue =
  fixes pinit :: "'a list \<Rightarrow> 'q"
    and ppop :: "'q \<Rightarrow> 'a \<times> 'q"
    and items :: "'q \<Rightarrow> 'a multiset"
    and pinv :: "'q \<Rightarrow> bool"
    and key :: "'a \<Rightarrow> 'k :: linorder"
  assumes init_inv: "pinv (pinit xs)"
    and init_items: "items (pinit xs) = mset xs"
    and pop_least: "pinv q \<Longrightarrow> items q \<noteq> {#} \<Longrightarrow> ppop q = (x, q') \<Longrightarrow> y \<in># items q \<Longrightarrow> key x \<le> key y"
    and pop_items: "pinv q \<Longrightarrow> items q \<noteq> {#} \<Longrightarrow> ppop q = (x, q') \<Longrightarrow> items q = add_mset x (items q')"
    and pop_inv: "pinv q \<Longrightarrow> items q \<noteq> {#} \<Longrightarrow> ppop q = (x, q') \<Longrightarrow> pinv q'"
begin

lemma drain_sorted:
  "pinv q \<Longrightarrow> size (items q) = n \<Longrightarrow> mset (drain ppop n q) = items q \<and> sorted (map key (drain ppop n q))"
proof (induction n arbitrary: q)
  case 0
  then show ?case by simp
next
  case (Suc n)
  obtain x q' where pop: "ppop q = (x, q')" by fastforce
  have ne: "items q \<noteq> {#}" using Suc.prems(2) by auto
  note step = pop_items [OF Suc.prems(1) ne pop] pop_inv [OF Suc.prems(1) ne pop]
  have IH: "mset (drain ppop n q') = items q'" "sorted (map key (drain ppop n q'))"
    using Suc.IH [OF step(2)] step(1) Suc.prems(2) by simp_all
  have "key x \<le> key y" if "y \<in> set (drain ppop n q')" for y
    using pop_least [OF Suc.prems(1) ne pop] IH(1) step(1) that by (metis set_mset_add_mset_insert insertI2 set_mset_mset)
  with IH step pop show ?case by simp
qed

lemma drain_init: "mset (drain ppop (length xs) (pinit xs)) = mset xs \<and> sorted (map key (drain ppop (length xs) (pinit xs)))"
  using drain_sorted [OF init_inv, of xs "length xs"] by (simp add: init_items)

end

definition pq_key :: "priorityItem \<Rightarrow> byte" where
  "pq_key a = m_Priority (pi_msg a)"

lemma pq_Less_key: "pq_Less = (\<lambda>a b. pq_key a < pq_key b)"
  by (simp add: pq_Less_def pq_key_def fun_eq_iff)

interpretation batchq: prio_queue "heap_Init pq_Less" "heap_Pop pq_Less" mset
  "\<lambda>h. heap_from pq_key 0 (length h) h" pq_key
proof
  fix xs :: "priorityItem list"
  show "heap_from pq_key 0 (length (heap_Init pq_Less xs)) (heap_Init pq_Less xs)"
    "mset (heap_Init pq_Less xs) = mset xs"
    using heap_Init_heap [of pq_key xs] mset_eq_length by (fastforce simp: pq_Less_key)+
next
  fix q :: "priorityItem list" and x q' y
  assume q: "heap_from pq_key 0 (length q) q" "mset q \<noteq> {#}" "heap_Pop pq_Less q = (x, q')"
  then have pop: "x = q ! 0" "heap_from pq_key 0 (length q') q'" "mset q = add_mset x (mset q')"
    using heap_Pop_heap [of pq_key q x q'] by (auto simp: pq_Less_key)
  from pop show "mset q = add_mset x (mset q')" "heap_from pq_key 0 (length q') q'" by simp_all
  show "pq_key x \<le> pq_key y" if "y \<in># mset q"
    using that pop(1) heap_root_least [OF q(1)] by (auto simp: in_set_conv_nth)
qed

section \<open>The batch\<close>

text \<open>Dispatching the items of a list one after the other, each result at its item's index.\<close>

fun run_items :: "'s Router \<Rightarrow> priorityItem list \<Rightarrow> DispatchResult list \<Rightarrow> 's \<Rightarrow> DispatchResult list \<times> 's" where
  "run_items r [] results s = (results, s)"
| "run_items r (item # rest) results s =
     (case Router_Dispatch r (pi_msg item) s of
       ((resp, err), s') \<Rightarrow> run_items r rest (results[pi_index item := \<lparr>dr_Response = resp, dr_Err = err\<rparr>]) s')"

lemma batch_loop_drain: "batch_loop r pq results s = run_items r (drain (heap_Pop pq_Less) (length pq) pq) results s"
proof (induction r pq results s rule: batch_loop.induct)
  case (1 r pq results s)
  show ?case
  proof (cases "pq = []")
    case False
    obtain item pq' where pop: "heap_Pop pq_Less pq = (item, pq')" by fastforce
    obtain resp err s' where d: "Router_Dispatch r (pi_msg item) s = ((resp, err), s')" by (metis prod.collapse)
    have "length pq = Suc (length pq')"
      using length_heap_Pop [of pq_Less pq] pop False by (cases pq) auto
    with False pop d "1.IH" [OF False pop [symmetric] d [symmetric] refl] show ?thesis
      by (subst batch_loop.simps) simp
  qed (simp add: batch_loop.simps)
qed

definition batch_items :: "Message list \<Rightarrow> nat list \<Rightarrow> priorityItem list" where
  "batch_items messages order = map (\<lambda>i. \<lparr>pi_msg = messages ! i, pi_index = i\<rparr>) order"

lemma batch_items_all:
  "map (\<lambda>(i, msg). \<lparr>pi_msg = msg, pi_index = i\<rparr>) (enumerate 0 messages) = batch_items messages [0..<length messages]"
  by (rule nth_equalityI) (simp_all add: batch_items_def nth_enumerate_eq)

lemma batch_items_of:
  assumes "set items \<subseteq> set (batch_items messages is)"
  shows "items = batch_items messages (map pi_index items)"
  using assms by (induction items) (auto simp: batch_items_def)

lemma map_index_batch_items [simp]: "map pi_index (batch_items messages is) = is"
  by (induction "is") (simp_all add: batch_items_def)

lemma DispatchBatch_drain:
  obtains order where "mset order = mset [0..<length messages]" "sorted (map (\<lambda>i. m_Priority (messages ! i)) order)"
    "DispatchBatch r messages s = run_items r (batch_items messages order)
       (replicate (length messages) \<lparr>dr_Response = None, dr_Err = None\<rparr>) s"
proof -
  let ?pq = "batch_items messages [0..<length messages]"
  define items where "items = drain (heap_Pop pq_Less) (length messages) (heap_Init pq_Less ?pq)"
  have "length ?pq = length messages" by (simp add: batch_items_def)
  then have items: "mset items = mset ?pq" "sorted (map pq_key items)"
    using batchq.drain_init [of ?pq] by (simp_all add: items_def)
  have "set items \<subseteq> set ?pq" using items(1) by (metis order_refl set_mset_mset)
  then have eq: "items = batch_items messages (map pi_index items)" by (rule batch_items_of)
  have "mset (map pi_index items) = mset (map pi_index ?pq)" using items(1) by (simp only: mset_map)
  then have "mset (map pi_index items) = mset [0..<length messages]" by (simp only: map_index_batch_items)
  moreover have "map pq_key items = map (\<lambda>i. m_Priority (messages ! i)) (map pi_index items)"
    by (subst eq) (simp add: batch_items_def pq_key_def)
  moreover have "length (heap_Init pq_Less ?pq) = length messages"
    using batchq.init_items [of ?pq] mset_eq_length \<open>length ?pq = length messages\<close> by metis
  then have "DispatchBatch r messages s = run_items r items (replicate (length messages) \<lparr>dr_Response = None, dr_Err = None\<rparr>) s"
    by (simp add: DispatchBatch_def batch_items_all batch_loop_drain items_def Let_def)
  ultimately show thesis
    using items(2) that [of "map pi_index items"] eq by (simp only:)
qed

text \<open>Where the handlers' answers do not depend on the state, the order does not show in the results.\<close>

definition pure_result :: "(Message \<Rightarrow> Message option \<times> error option) \<Rightarrow> Message \<Rightarrow> DispatchResult" where
  "pure_result f m = \<lparr>dr_Response = fst (f m), dr_Err = snd (f m)\<rparr>"

lemma run_items_pure:
  assumes pure: "\<And>m s. fst (Router_Dispatch r m s) = f m"
  shows "set order \<subseteq> {..<length messages} \<Longrightarrow> length results = length messages \<Longrightarrow>
    fst (run_items r (batch_items messages order) results s)
      = map (\<lambda>i. if i \<in> set order then pure_result f (messages ! i) else results ! i) [0..<length messages]"
proof (induction order arbitrary: results s)
  case Nil
  then show ?case using map_nth [of results] by (simp add: batch_items_def)
next
  case (Cons i order)
  obtain s' where d: "Router_Dispatch r (messages ! i) s = (f (messages ! i), s')"
    using pure [of "messages ! i" s] by (metis prod.collapse)
  have "run_items r (batch_items messages (i # order)) results s
      = run_items r (batch_items messages order) (results[i := pure_result f (messages ! i)]) s'"
    by (simp add: batch_items_def d pure_result_def split_beta)
  with Cons show ?case by (auto simp: nth_list_update)
qed

section \<open>Properties\<close>

text \<open>
  C34: \<open>DispatchBatch\<close> handles every message of the batch exactly once, in an order of
  non-decreasing priority value (P0 first), whatever the handlers do to the state, and stores
  each outcome at the index of its message.
\<close>

theorem DispatchBatch_priority_order:
  "\<exists>order. mset order = mset [0..<length messages]
     \<and> sorted (map (\<lambda>i. m_Priority (messages ! i)) order)
     \<and> DispatchBatch r messages s
       = run_items r (batch_items messages order) (replicate (length messages) \<lparr>dr_Response = None, dr_Err = None\<rparr>) s"
  by (rule DispatchBatch_drain [of messages r s]) blast

text \<open>
  When the handlers' answers depend only on the message, the results of a batch are
  those of dispatching its messages one by one, in their places.
\<close>

theorem DispatchBatch_results:
  assumes "\<And>m s. fst (Router_Dispatch r m s) = f m"
  shows "fst (DispatchBatch r messages s) = map (pure_result f) messages"
proof -
  obtain order where order: "mset order = mset [0..<length messages]"
    and run: "DispatchBatch r messages s = run_items r (batch_items messages order)
       (replicate (length messages) \<lparr>dr_Response = None, dr_Err = None\<rparr>) s"
    by (rule DispatchBatch_drain [of messages r s])
  have "set order = {..<length messages}"
    using order by (metis atLeast_upt set_mset_mset)
  then have "fst (DispatchBatch r messages s)
      = map (\<lambda>i. pure_result f (messages ! i)) [0..<length messages]"
    unfolding run by (subst run_items_pure [OF assms]) simp_all
  also have "\<dots> = map (pure_result f) messages"
    by (metis (no_types, lifting) map_nth map_map comp_apply map_eq_conv)
  finally show ?thesis .
qed

text \<open>A router that answers heartbeats with an error and counts what it sees.\<close>

definition example_router :: "nat Router" where
  "example_router = Router_Handle NewRouter TypeHeartbeat (\<lambda>m n. ((None, Some (Sentinel ErrTimeout)), Suc n))"

theorem DispatchBatch_results_witness:
  "fst (DispatchBatch example_router [NewMessage 0 TypeHeartbeat ''a'' [], NewMessage 0 TypeAck ''b'' []] 0)
   = [\<lparr>dr_Response = None, dr_Err = Some (Sentinel ErrTimeout)\<rparr>, \<lparr>dr_Response = None, dr_Err = None\<rparr>]"
proof -
  let ?f = "\<lambda>m. (None, if m_Type m = TypeHeartbeat then Some (Sentinel ErrTimeout) else None)"
  have "fst (Router_Dispatch example_router m s) = ?f m" for m s
    by (simp add: Router_Dispatch_def example_router_def Router_Handle_def NewRouter_def)
  from DispatchBatch_results [OF this] show ?thesis
    by (simp add: pure_result_def NewMessage_def message_types)
qed

end
