(* ===== verification/Capability.thy ===== *)
theory Capability
  imports Prelude
begin

text \<open>
  \<^verbatim>\<open>security/capability/checker.go\<close>: the allowlist of actions per capability. \<open>permits\<close>
  is its abstract view, a relation between capabilities and actions.
\<close>

record Checker =
  ck_allowlist :: "string \<rightharpoonup> string set"

definition NewChecker :: "(string \<rightharpoonup> string list) \<Rightarrow> Checker" where
  "NewChecker allowlist = \<lparr>ck_allowlist = map_option set \<circ> allowlist\<rparr>"

fun Checker_Check :: "Checker \<Rightarrow> string list \<Rightarrow> string \<Rightarrow> error option" where
  "Checker_Check c [] action =
     Some (Errorf ''%w: no capability permits action %q'' [AErr (Sentinel ErrCapability), AStr action])"
| "Checker_Check c (cap # caps) action =
     (case ck_allowlist c cap of
       Some actions \<Rightarrow> if action \<in> actions then None else Checker_Check c caps action
     | None \<Rightarrow> Checker_Check c caps action)"

definition Checker_Grant :: "Checker \<Rightarrow> string \<Rightarrow> string \<Rightarrow> Checker" where
  "Checker_Grant c cap action =
     (let actions = (case ck_allowlist c cap of None \<Rightarrow> {} | Some a \<Rightarrow> a)
      in c\<lparr>ck_allowlist := (ck_allowlist c)(cap \<mapsto> insert action actions)\<rparr>)"

definition Checker_Revoke :: "Checker \<Rightarrow> string \<Rightarrow> string \<Rightarrow> Checker" where
  "Checker_Revoke c cap action =
     (case ck_allowlist c cap of
       None \<Rightarrow> c
     | Some actions \<Rightarrow> c\<lparr>ck_allowlist := (ck_allowlist c)(cap \<mapsto> actions - {action})\<rparr>)"

section \<open>The abstract view\<close>

definition permits :: "Checker \<Rightarrow> string \<Rightarrow> string \<Rightarrow> bool" where
  "permits c cap action \<longleftrightarrow> (\<exists>actions. ck_allowlist c cap = Some actions \<and> action \<in> actions)"

datatype cap_op = GrantOp string string | RevokeOp string string

fun run_cap_ops :: "Checker \<Rightarrow> cap_op list \<Rightarrow> Checker" where
  "run_cap_ops c [] = c"
| "run_cap_ops c (GrantOp cap action # ops) = run_cap_ops (Checker_Grant c cap action) ops"
| "run_cap_ops c (RevokeOp cap action # ops) = run_cap_ops (Checker_Revoke c cap action) ops"

text \<open>What the last operation on a pair decided, if there was one.\<close>

fun last_decision :: "string \<Rightarrow> string \<Rightarrow> cap_op list \<Rightarrow> bool option" where
  "last_decision cap action [] = None"
| "last_decision cap action (op # ops) =
     (case last_decision cap action ops of
       Some d \<Rightarrow> Some d
     | None \<Rightarrow> if op = GrantOp cap action then Some True
               else if op = RevokeOp cap action then Some False else None)"

section \<open>Lemmas\<close>

lemma Checker_Check_iff: "Checker_Check c caps action = None \<longleftrightarrow> (\<exists>cap \<in> set caps. permits c cap action)"
  by (induction c caps action rule: Checker_Check.induct) (auto simp: permits_def split: option.splits)

lemma Checker_Check_error: "Checker_Check c caps action = Some e \<Longrightarrow> errors_Is e ErrCapability"
  by (induction c caps action rule: Checker_Check.induct) (auto split: option.splits if_splits)

lemma permits_New: "permits (NewChecker al) cap action \<longleftrightarrow> (\<exists>actions. al cap = Some actions \<and> action \<in> set actions)"
  by (auto simp: permits_def NewChecker_def)

lemma permits_Grant:
  "permits (Checker_Grant c cap action) cap' action' \<longleftrightarrow> (cap', action') = (cap, action) \<or> permits c cap' action'"
  by (auto simp: permits_def Checker_Grant_def Let_def split: option.splits)

lemma permits_Revoke:
  "permits (Checker_Revoke c cap action) cap' action' \<longleftrightarrow> (cap', action') \<noteq> (cap, action) \<and> permits c cap' action'"
  by (auto simp: permits_def Checker_Revoke_def split: option.splits)

lemma permits_run:
  "permits (run_cap_ops c ops) cap action =
     (case last_decision cap action ops of Some d \<Rightarrow> d | None \<Rightarrow> permits c cap action)"
proof (induction c ops rule: run_cap_ops.induct)
  case (2 c cap' action' ops)
  then show ?case by (auto simp: permits_Grant split: option.splits)
next
  case (3 c cap' action' ops)
  then show ?case by (auto simp: permits_Revoke split: option.splits)
qed simp

section \<open>Properties\<close>

text \<open>
  C36: Authorization follows the grants: after any sequence of \<open>Grant\<close> and \<open>Revoke\<close>
  calls on a checker built from an allowlist, \<open>Check\<close> lets a peer act exactly when, for one of
  the peer's capabilities, the last call on that capability and action was a grant, or there was no such
  call and the allowlist lists the action. Every refusal is an \<open>ErrCapability\<close>.
\<close>

theorem Checker_follows_grants:
  "(Checker_Check (run_cap_ops (NewChecker al) ops) caps action = None \<longleftrightarrow>
      (\<exists>cap. cap \<in> set caps \<and>
         (case last_decision cap action ops of
            Some granted \<Rightarrow> granted
          | None \<Rightarrow> \<exists>actions. al cap = Some actions \<and> action \<in> set actions)))
   \<and> (case Checker_Check (run_cap_ops (NewChecker al) ops) caps action of None \<Rightarrow> True | Some e \<Rightarrow> errors_Is e ErrCapability)"
  by (rule conjI, unfold Checker_Check_iff permits_run permits_New Bex_def, rule refl)
    (simp add: Checker_Check_error split: option.split)

end
