(* ===== verification/Integrity.thy ===== *)
theory Integrity
  imports Prelude
begin

text \<open>
  \<^verbatim>\<open>security/integrity/hmac.go\<close>: \<open>Sign\<close> and \<open>Verify\<close>. The two standard library
  functions they call are modelled as the standards define them: SHA-256 (FIPS 180-4) and
  HMAC (RFC 2104) with a block size of 64 bytes; \<open>hmac.Equal\<close> is equality of bytes.
\<close>

section \<open>SHA-256\<close>

type_synonym w32 = "32 word"

definition sha256_K :: "w32 list" where
  "sha256_K =
     [0x428A2F98, 0x71374491, 0xB5C0FBCF, 0xE9B5DBA5, 0x3956C25B, 0x59F111F1, 0x923F82A4, 0xAB1C5ED5,
      0xD807AA98, 0x12835B01, 0x243185BE, 0x550C7DC3, 0x72BE5D74, 0x80DEB1FE, 0x9BDC06A7, 0xC19BF174,
      0xE49B69C1, 0xEFBE4786, 0x0FC19DC6, 0x240CA1CC, 0x2DE92C6F, 0x4A7484AA, 0x5CB0A9DC, 0x76F988DA,
      0x983E5152, 0xA831C66D, 0xB00327C8, 0xBF597FC7, 0xC6E00BF3, 0xD5A79147, 0x06CA6351, 0x14292967,
      0x27B70A85, 0x2E1B2138, 0x4D2C6DFC, 0x53380D13, 0x650A7354, 0x766A0ABB, 0x81C2C92E, 0x92722C85,
      0xA2BFE8A1, 0xA81A664B, 0xC24B8B70, 0xC76C51A3, 0xD192E819, 0xD6990624, 0xF40E3585, 0x106AA070,
      0x19A4C116, 0x1E376C08, 0x2748774C, 0x34B0BCB5, 0x391C0CB3, 0x4ED8AA4A, 0x5B9CCA4F, 0x682E6FF3,
      0x748F82EE, 0x78A5636F, 0x84C87814, 0x8CC70208, 0x90BEFFFA, 0xA4506CEB, 0xBEF9A3F7, 0xC67178F2]"

definition sha256_H0 :: "w32 list" where
  "sha256_H0 = [0x6A09E667, 0xBB67AE85, 0x3C6EF372, 0xA54FF53A, 0x510E527F, 0x9B05688C, 0x1F83D9AB, 0x5BE0CD19]"

definition rotr :: "nat \<Rightarrow> w32 \<Rightarrow> w32" where
  "rotr n w = drop_bit n w OR push_bit (32 - n) w"

definition sha256_ch :: "w32 \<Rightarrow> w32 \<Rightarrow> w32 \<Rightarrow> w32" where
  "sha256_ch e f g = (e AND f) XOR (NOT e AND g)"

definition sha256_maj :: "w32 \<Rightarrow> w32 \<Rightarrow> w32 \<Rightarrow> w32" where
  "sha256_maj a b c = (a AND b) XOR (a AND c) XOR (b AND c)"

definition big_sigma0 :: "w32 \<Rightarrow> w32" where "big_sigma0 a = rotr 2 a XOR rotr 13 a XOR rotr 22 a"
definition big_sigma1 :: "w32 \<Rightarrow> w32" where "big_sigma1 e = rotr 6 e XOR rotr 11 e XOR rotr 25 e"
definition small_sigma0 :: "w32 \<Rightarrow> w32" where "small_sigma0 x = rotr 7 x XOR rotr 18 x XOR drop_bit 3 x"
definition small_sigma1 :: "w32 \<Rightarrow> w32" where "small_sigma1 x = rotr 17 x XOR rotr 19 x XOR drop_bit 10 x"

text \<open>
  The message schedule, as the last sixteen words: \<open>schedule n ws\<close> is the first \<open>n\<close>
  words of the schedule that starts with the sixteen words \<open>ws\<close>.
\<close>

fun schedule :: "nat \<Rightarrow> w32 list \<Rightarrow> w32 list" where
  "schedule 0 ws = []"
| "schedule (Suc n) ws =
     (case ws of [] \<Rightarrow> []
      | w # rest \<Rightarrow>
         w # schedule n (rest @ [small_sigma1 (ws ! 14) + ws ! 9 + small_sigma0 (ws ! 1) + w]))"

fun sha256_round :: "w32 list \<Rightarrow> w32 \<times> w32 \<Rightarrow> w32 list" where
  "sha256_round [a, b, c, d, e, f, g, h] (k, w) =
     (let t1 = h + big_sigma1 e + sha256_ch e f g + k + w;
          t2 = big_sigma0 a + sha256_maj a b c
      in [t1 + t2, a, b, c, d + t1, e, f, g])"
| "sha256_round st kw = st"

fun words_of_bytes :: "bytes \<Rightarrow> w32 list" where
  "words_of_bytes (a # b # c # d # rest) = Uint32 [a, b, c, d] # words_of_bytes rest"
| "words_of_bytes _ = []"

definition sha256_block :: "w32 list \<Rightarrow> bytes \<Rightarrow> w32 list" where
  "sha256_block h blk =
     map2 (+) h (foldl sha256_round h (zip sha256_K (schedule 64 (words_of_bytes blk))))"

definition sha256_pad :: "bytes \<Rightarrow> bytes" where
  "sha256_pad m =
     m @ 0x80 # replicate ((119 - length m mod 64) mod 64) 0 @ PutUint64 (of_nat (length m) * 8)"

fun blocks :: "nat \<Rightarrow> bytes \<Rightarrow> bytes list" where
  "blocks 0 b = []"
| "blocks (Suc n) b = take 64 b # blocks n (drop 64 b)"

definition sha256_Sum :: "bytes \<Rightarrow> bytes" where
  "sha256_Sum m =
     (let p = sha256_pad m
      in concat (map PutUint32 (foldl sha256_block sha256_H0 (blocks (length p div 64) p))))"

section \<open>HMAC\<close>

definition sha256_BlockSize :: nat where "sha256_BlockSize = 64"

definition hmac_key :: "bytes \<Rightarrow> bytes" where
  "hmac_key key =
     (let key = (if length key > sha256_BlockSize then sha256_Sum key else key)
      in key @ replicate (sha256_BlockSize - length key) 0)"

definition hmac_Sum :: "bytes \<Rightarrow> bytes \<Rightarrow> bytes" where
  "hmac_Sum key data =
     (let ipad = map ((XOR) 0x36) (hmac_key key); opad = map ((XOR) 0x5C) (hmac_key key)
      in sha256_Sum (opad @ sha256_Sum (ipad @ data)))"

definition hmac_Equal :: "bytes \<Rightarrow> bytes \<Rightarrow> bool" where
  "hmac_Equal a b \<longleftrightarrow> a = b"

section \<open>The package\<close>

definition Sign :: "bytes \<Rightarrow> bytes \<Rightarrow> bytes" where
  "Sign key data = hmac_Sum key data"

definition Verify :: "bytes \<Rightarrow> bytes \<Rightarrow> bytes \<Rightarrow> bool" where
  "Verify key data mac = (let expected = Sign key data in hmac_Equal expected mac)"

section \<open>Lemmas\<close>

lemma length_sha256_round [simp]: "length (sha256_round st kw) = length st"
  by (cases "(st, kw)" rule: sha256_round.cases) (simp_all add: Let_def)

lemma length_foldl_round [simp]: "length (foldl sha256_round st kws) = length st"
  by (induction kws arbitrary: st) simp_all

lemma length_sha256_block [simp]: "length (sha256_block h blk) = length h"
  by (simp add: sha256_block_def)

lemma length_foldl_block [simp]: "length (foldl sha256_block h bs) = length h"
  by (induction bs arbitrary: h) simp_all

lemma length_concat_Put32 [simp]: "length (concat (map PutUint32 ws)) = 4 * length ws"
  by (induction ws) simp_all

lemma length_sha256 [simp]: "length (sha256_Sum m) = 32"
  by (simp add: sha256_Sum_def Let_def sha256_H0_def)

lemma length_Sign [simp]: "length (Sign key data) = 32"
  by (simp add: Sign_def hmac_Sum_def Let_def)

lemma sha256_pad_blocks: "64 dvd length (sha256_pad m)"
proof -
  define q where "q = length m div 64"
  define r where "r = length m mod 64"
  have m: "length m = 64 * q + r" and r: "r < 64" by (simp_all add: q_def r_def)
  have "(119 - r) mod 64 = (if r \<le> 55 then 55 - r else 119 - r)"
    using r by (simp add: le_mod_geq)
  then have "length (sha256_pad m) = 64 * (if r \<le> 55 then q + 1 else q + 2)"
    using m r by (simp add: sha256_pad_def flip: r_def)
  then show ?thesis by simp
qed

lemma Verify_iff [simp]: "Verify key data mac \<longleftrightarrow> mac = Sign key data"
  by (auto simp: Verify_def hmac_Equal_def)

end
