(* ===== verification/Hex.thy ===== *)
theory Hex
  imports Prelude
begin

text \<open>
  The part of \<^verbatim>\<open>encoding/hex\<close> the program uses (session tokens, nonces, challenge
  responses, rotated key names): \<open>EncodeToString\<close> and \<open>DecodeString\<close>, which also accepts
  upper-case digits and reports the first bad byte or an odd length.
\<close>

definition hex_digit :: "nat \<Rightarrow> char" where
  "hex_digit n = ''0123456789abcdef'' ! n"

definition hex_EncodeToString :: "bytes \<Rightarrow> string" where
  "hex_EncodeToString bs = concat (map (\<lambda>b. [hex_digit (unat b div 16), hex_digit (unat b mod 16)]) bs)"

text \<open>The reverse table: the value of a digit, or none.\<close>

definition hex_val :: "char \<Rightarrow> nat option" where
  "hex_val c =
     (let n = of_char c in
      if 48 \<le> n \<and> n \<le> 57 then Some (n - 48)
      else if 97 \<le> n \<and> n \<le> 102 then Some (n - 87)
      else if 65 \<le> n \<and> n \<le> 70 then Some (n - 55)
      else None)"

definition InvalidByteError :: "char \<Rightarrow> error" where
  "InvalidByteError c = Errorf ''encoding/hex: invalid byte: %#U'' [AInt (of_char c)]"

definition hex_ErrLength :: error where
  "hex_ErrLength = Errorf ''encoding/hex: odd length hex string'' []"

fun hex_DecodeString :: "string \<Rightarrow> bytes result" where
  "hex_DecodeString [] = Inr []"
| "hex_DecodeString [p] = (case hex_val p of None \<Rightarrow> Inl (InvalidByteError p) | Some _ \<Rightarrow> Inl hex_ErrLength)"
| "hex_DecodeString (p # q # rest) =
     (case hex_val p of
       None \<Rightarrow> Inl (InvalidByteError p)
     | Some a \<Rightarrow> (case hex_val q of
         None \<Rightarrow> Inl (InvalidByteError q)
       | Some b \<Rightarrow> rbind (hex_DecodeString rest) (\<lambda>bs. Inr (of_nat (16 * a + b) # bs))))"

lemma hex_val_digits: "\<forall>n \<in> set [0..<16]. hex_val (hex_digit n) = Some n"
  by code_simp

lemma hex_val_digit [simp]: "n < 16 \<Longrightarrow> hex_val (hex_digit n) = Some n"
  using hex_val_digits by simp

lemma hex_byte_split [simp]: "of_nat (16 * (unat b div 16) + unat b mod 16) = (b :: byte)"
  by simp

lemma unat_byte_bound: "unat (b :: byte) < 256"
  using unsigned_less [of b] by simp

lemma unat_byte_div16 [simp]: "unat (b :: byte) div 16 < 16"
  using unat_byte_bound [of b] by simp

lemma hex_round_trip [simp]: "hex_DecodeString (hex_EncodeToString bs) = Inr bs"
  by (induction bs) (simp_all add: hex_EncodeToString_def del: of_nat_add of_nat_mult)

lemma length_hex [simp]: "length (hex_EncodeToString bs) = 2 * length bs"
  by (induction bs) (simp_all add: hex_EncodeToString_def)

lemma hex_inject [simp]: "hex_EncodeToString a = hex_EncodeToString b \<longleftrightarrow> a = b"
  by (metis hex_round_trip sum.inject(2))

end
