(* ===== verification/Auth.thy ===== *)
theory Auth
  imports Integrity Hex
begin

text \<open>
  \<^verbatim>\<open>security/auth/identity.go\<close>: the authenticator. Random bytes (\<^verbatim>\<open>crypto/rand\<close>) and the
  clock are arguments of the operations that read them. The runs of an authenticator are an
  inductive set of traces; authentication is an agreement between the events of a trace.
\<close>

section \<open>State\<close>

record PeerIdentity =
  pe_ServiceID :: string
  pe_Capabilities :: "string list"
  pe_SessionToken :: string
  pe_CreatedAt :: time
  pe_SessionTTL :: duration

definition IsExpired :: "PeerIdentity \<Rightarrow> time \<Rightarrow> bool" where
  "IsExpired p now = (if pe_SessionTTL p \<le> 0 then False else time_Sub now (pe_CreatedAt p) > pe_SessionTTL p)"

record Challenge =
  ch_ServiceID :: string
  ch_Nonce :: bytes
  ch_CreatedAt :: time

record Authenticator =
  au_sharedSecret :: bytes
  au_knownServices :: "string \<rightharpoonup> string list"
  au_activeSessions :: "string \<rightharpoonup> PeerIdentity"
  au_pendingChallenges :: "string \<rightharpoonup> Challenge"
  au_sessionTTL :: duration

section \<open>Operations\<close>

definition NewAuthenticator :: "bytes \<Rightarrow> (string \<rightharpoonup> string list) \<Rightarrow> Authenticator" where
  "NewAuthenticator sharedSecret knownServices =
     \<lparr>au_sharedSecret = sharedSecret, au_knownServices = knownServices, au_activeSessions = Map.empty,
      au_pendingChallenges = Map.empty, au_sessionTTL = 1 * Hour\<rparr>"

definition SetSessionTTL :: "Authenticator \<Rightarrow> duration \<Rightarrow> Authenticator" where
  "SetSessionTTL a ttl = a\<lparr>au_sessionTTL := ttl\<rparr>"

text \<open>\<open>rnd\<close> is what \<open>rand.Read\<close> delivers for the 32 bytes asked: the bytes or its error.\<close>

definition CreateChallenge :: "Authenticator \<Rightarrow> string \<Rightarrow> bytes result \<Rightarrow> time \<Rightarrow> Challenge result \<times> Authenticator" where
  "CreateChallenge a serviceID rnd now =
     (case au_knownServices a serviceID of
       None \<Rightarrow> (Inl (Errorf ''%w: unknown service %q'' [AErr (Sentinel ErrAuth), AStr serviceID]), a)
     | Some _ \<Rightarrow>
        (case rnd of
          Inl e \<Rightarrow> (Inl (wrap_err ''generate nonce: %w'' e), a)
        | Inr nonce \<Rightarrow>
           (let challenge = \<lparr>ch_ServiceID = serviceID, ch_Nonce = nonce, ch_CreatedAt = now\<rparr>
            in (Inr challenge, a\<lparr>au_pendingChallenges := (au_pendingChallenges a)(serviceID \<mapsto> challenge)\<rparr>))))"

definition generateToken :: "bytes result \<Rightarrow> string result" where
  "generateToken rnd = (case rnd of Inl e \<Rightarrow> Inl e | Inr b \<Rightarrow> Inr (hex_EncodeToString b))"

definition VerifyResponse ::
  "Authenticator \<Rightarrow> string \<Rightarrow> bytes \<Rightarrow> bytes result \<Rightarrow> time \<Rightarrow> PeerIdentity result \<times> Authenticator" where
  "VerifyResponse a serviceID response rnd now =
     (case au_pendingChallenges a serviceID of
       None \<Rightarrow> (Inl (Errorf ''%w: no pending challenge for %q'' [AErr (Sentinel ErrAuth), AStr serviceID]), a)
     | Some challenge \<Rightarrow>
        (let a1 = a\<lparr>au_pendingChallenges := (au_pendingChallenges a)(serviceID := None)\<rparr>;
             expected = hmac_Sum (au_sharedSecret a) (ch_Nonce challenge) in
         if \<not> hmac_Equal expected response
         then (Inl (Errorf ''%w: challenge-response verification failed for %q''
                 [AErr (Sentinel ErrAuth), AStr serviceID]), a1)
         else let caps = (case au_knownServices a serviceID of None \<Rightarrow> [] | Some c \<Rightarrow> c) in
           case generateToken rnd of
             Inl e \<Rightarrow> (Inl (wrap_err ''generate token: %w'' e), a1)
           | Inr token \<Rightarrow>
              (let peer = \<lparr>pe_ServiceID = serviceID, pe_Capabilities = caps, pe_SessionToken = token,
                           pe_CreatedAt = now, pe_SessionTTL = au_sessionTTL a\<rparr>
               in (Inr peer, a1\<lparr>au_activeSessions := (au_activeSessions a1)(token \<mapsto> peer)\<rparr>))))"

definition Authenticate :: "Authenticator \<Rightarrow> string \<Rightarrow> bytes result \<Rightarrow> time \<Rightarrow> PeerIdentity result \<times> Authenticator" where
  "Authenticate a serviceID rnd now =
     (case au_knownServices a serviceID of
       None \<Rightarrow> (Inl (Errorf ''%w: unknown service %q'' [AErr (Sentinel ErrAuth), AStr serviceID]), a)
     | Some caps \<Rightarrow>
        (case generateToken rnd of
          Inl e \<Rightarrow> (Inl (wrap_err ''generate token: %w'' e), a)
        | Inr token \<Rightarrow>
           (let peer = \<lparr>pe_ServiceID = serviceID, pe_Capabilities = caps, pe_SessionToken = token,
                        pe_CreatedAt = now, pe_SessionTTL = au_sessionTTL a\<rparr>
            in (Inr peer, a\<lparr>au_activeSessions := (au_activeSessions a)(token \<mapsto> peer)\<rparr>))))"

definition ValidateSession :: "Authenticator \<Rightarrow> string \<Rightarrow> time \<Rightarrow> PeerIdentity result" where
  "ValidateSession a token now =
     (case au_activeSessions a token of
       None \<Rightarrow> Inl (Errorf ''%w: invalid session token'' [AErr (Sentinel ErrAuth)])
     | Some peer \<Rightarrow>
        (if IsExpired peer now then Inl (Errorf ''%w: session expired'' [AErr (Sentinel ErrAuth)])
         else Inr peer))"

definition SharedSecret :: "Authenticator \<Rightarrow> bytes" where
  "SharedSecret a = au_sharedSecret a"

definition RevokeSession :: "Authenticator \<Rightarrow> string \<Rightarrow> Authenticator" where
  "RevokeSession a token = a\<lparr>au_activeSessions := (au_activeSessions a)(token := None)\<rparr>"

text \<open>The loop of \<open>CleanupExpired\<close> over the tokens \<open>ks\<close>; a deleted key is not visited again.\<close>

fun cleanup_loop :: "time \<Rightarrow> string list \<Rightarrow> int \<times> (string \<rightharpoonup> PeerIdentity) \<Rightarrow> int \<times> (string \<rightharpoonup> PeerIdentity)" where
  "cleanup_loop now [] (removed, m) = (removed, m)"
| "cleanup_loop now (token # ks) (removed, m) =
     (case m token of
       None \<Rightarrow> cleanup_loop now ks (removed, m)
     | Some peer \<Rightarrow>
        (if IsExpired peer now then cleanup_loop now ks (removed + 1, m(token := None))
         else cleanup_loop now ks (removed, m)))"

definition CleanupExpired :: "Authenticator \<Rightarrow> time \<Rightarrow> string list \<Rightarrow> int \<times> Authenticator" where
  "CleanupExpired a now ks =
     (case cleanup_loop now ks (0, au_activeSessions a) of
       (removed, m) \<Rightarrow> (removed, a\<lparr>au_activeSessions := m\<rparr>))"

definition ActiveSessionCount :: "Authenticator \<Rightarrow> nat" where
  "ActiveSessionCount a = card (dom (au_activeSessions a))"

section \<open>Runs\<close>

text \<open>What happened to a service, latest first.\<close>

datatype auth_event =
    Challenged string bytes
  | Rejected string
  | Accepted string bytes string
  | Trusted string string

inductive auth_run :: "bytes \<Rightarrow> (string \<rightharpoonup> string list) \<Rightarrow> Authenticator \<Rightarrow> auth_event list \<Rightarrow> bool"
  for secret known where
  start: "auth_run secret known (NewAuthenticator secret known) []"
| set_ttl: "auth_run secret known a evs \<Longrightarrow> auth_run secret known (SetSessionTTL a ttl) evs"
| challenged: "auth_run secret known a evs \<Longrightarrow> CreateChallenge a s rnd now = (Inr c, a') \<Longrightarrow>
     auth_run secret known a' (Challenged s (ch_Nonce c) # evs)"
| unchallenged: "auth_run secret known a evs \<Longrightarrow> CreateChallenge a s rnd now = (Inl e, a') \<Longrightarrow>
     auth_run secret known a' evs"
| accepted: "auth_run secret known a evs \<Longrightarrow> VerifyResponse a s resp rnd now = (Inr p, a') \<Longrightarrow>
     auth_run secret known a' (Accepted s resp (pe_SessionToken p) # evs)"
| rejected: "auth_run secret known a evs \<Longrightarrow> VerifyResponse a s resp rnd now = (Inl e, a') \<Longrightarrow>
     auth_run secret known a' (Rejected s # evs)"
| trusted: "auth_run secret known a evs \<Longrightarrow> Authenticate a s rnd now = (Inr p, a') \<Longrightarrow>
     auth_run secret known a' (Trusted s (pe_SessionToken p) # evs)"
| untrusted: "auth_run secret known a evs \<Longrightarrow> Authenticate a s rnd now = (Inl e, a') \<Longrightarrow>
     auth_run secret known a' evs"
| revoked: "auth_run secret known a evs \<Longrightarrow> auth_run secret known (RevokeSession a token) evs"
| cleaned: "auth_run secret known a evs \<Longrightarrow> map_order (au_activeSessions a) ks \<Longrightarrow>
     CleanupExpired a now ks = (removed, a') \<Longrightarrow> auth_run secret known a' evs"

text \<open>The latest challenge or answer of a service.\<close>

fun latest :: "string \<Rightarrow> auth_event list \<Rightarrow> auth_event option" where
  "latest s [] = None"
| "latest s (Challenged s' nonce # evs) = (if s' = s then Some (Challenged s' nonce) else latest s evs)"
| "latest s (Rejected s' # evs) = (if s' = s then Some (Rejected s') else latest s evs)"
| "latest s (Accepted s' resp tok # evs) = (if s' = s then Some (Accepted s' resp tok) else latest s evs)"
| "latest s (Trusted s' tok # evs) = latest s evs"

section \<open>Lemmas\<close>

definition session_expired :: "(string \<rightharpoonup> PeerIdentity) \<Rightarrow> time \<Rightarrow> string \<Rightarrow> bool" where
  "session_expired m now token = (case m token of None \<Rightarrow> False | Some p \<Rightarrow> IsExpired p now)"

lemma cleanup_loop_eq:
  "distinct ks \<Longrightarrow> cleanup_loop now ks (r, m) =
     (r + int (card {t \<in> set ks. session_expired m now t}),
      \<lambda>t. if t \<in> set ks \<and> session_expired m now t then None else m t)"
proof (induction ks arbitrary: r m)
  case Nil
  then show ?case by simp
next
  case (Cons k ks)
  show ?case
  proof (cases "session_expired m now k")
    case True
    then obtain p where p: "m k = Some p" "IsExpired p now" by (auto simp: session_expired_def split: option.splits)
    have same: "session_expired (m(k := None)) now t = session_expired m now t" if "t \<in> set ks" for t
      using that Cons.prems by (auto simp: session_expired_def)
    have "{t \<in> set (k # ks). session_expired m now t} = insert k {t \<in> set ks. session_expired m now t}"
      using True by auto
    moreover have "{t \<in> set ks. session_expired (m(k := None)) now t} = {t \<in> set ks. session_expired m now t}"
      using same by auto
    ultimately show ?thesis
      using Cons p True same by (auto simp: fun_eq_iff session_expired_def)
  next
    case False
    then have "cleanup_loop now (k # ks) (r, m) = cleanup_loop now ks (r, m)"
      by (auto simp: session_expired_def split: option.splits)
    moreover have "{t \<in> set (k # ks). session_expired m now t} = {t \<in> set ks. session_expired m now t}"
      using False by auto
    ultimately show ?thesis using Cons False by (auto simp: fun_eq_iff)
  qed
qed

lemma CleanupExpired_eq:
  assumes "map_order (au_activeSessions a) ks"
  shows "CleanupExpired a now ks =
    (int (card {t. session_expired (au_activeSessions a) now t}),
     a\<lparr>au_activeSessions := (\<lambda>t. if session_expired (au_activeSessions a) now t then None else au_activeSessions a t)\<rparr>)"
proof -
  have "t \<in> set ks" if "session_expired (au_activeSessions a) now t" for t
    using that assms by (auto simp: map_order_def session_expired_def split: option.splits)
  then have "{t \<in> set ks. session_expired (au_activeSessions a) now t} = {t. session_expired (au_activeSessions a) now t}"
    "(\<lambda>t. if t \<in> set ks \<and> session_expired (au_activeSessions a) now t then None else au_activeSessions a t)
     = (\<lambda>t. if session_expired (au_activeSessions a) now t then None else au_activeSessions a t)"
    by (auto simp: fun_eq_iff)
  then show ?thesis
    using assms by (simp add: CleanupExpired_def cleanup_loop_eq map_order_def)
qed

lemma time_Sub_mono: "a \<le> b \<Longrightarrow> time_Sub a c \<le> time_Sub b c"
  by (simp add: time_Sub_def)

lemma IsExpired_later: "IsExpired p now \<Longrightarrow> now \<le> now' \<Longrightarrow> IsExpired p now'"
  using time_Sub_mono [of now now' "pe_CreatedAt p"] by (auto simp: IsExpired_def split: if_splits)

text \<open>Every acceptance in a trace answers the latest challenge of its service.\<close>

fun agrees :: "bytes \<Rightarrow> auth_event list \<Rightarrow> bool" where
  "agrees secret [] = True"
| "agrees secret (e # evs) =
     (agrees secret evs \<and>
      (case e of
        Accepted s resp tok \<Rightarrow> \<exists>nonce. latest s evs = Some (Challenged s nonce) \<and> resp = hmac_Sum secret nonce
      | _ \<Rightarrow> True))"

lemma agrees_split:
  "agrees secret (later @ Accepted s resp tok # earlier) \<Longrightarrow>
     \<exists>nonce. latest s earlier = Some (Challenged s nonce) \<and> resp = hmac_Sum secret nonce"
  by (induction later) auto

definition session_ok :: "(string \<rightharpoonup> string list) \<Rightarrow> auth_event list \<Rightarrow> string \<Rightarrow> PeerIdentity \<Rightarrow> bool" where
  "session_ok known evs tok p \<longleftrightarrow>
     pe_SessionToken p = tok \<and> known (pe_ServiceID p) = Some (pe_Capabilities p)
   \<and> ((\<exists>resp. Accepted (pe_ServiceID p) resp tok \<in> set evs) \<or> Trusted (pe_ServiceID p) tok \<in> set evs)"

lemma session_ok_Cons [intro]: "session_ok known evs tok p \<Longrightarrow> session_ok known (e # evs) tok p"
  by (auto simp: session_ok_def)

definition auth_inv :: "bytes \<Rightarrow> (string \<rightharpoonup> string list) \<Rightarrow> Authenticator \<Rightarrow> auth_event list \<Rightarrow> bool" where
  "auth_inv secret known a evs \<longleftrightarrow>
     au_sharedSecret a = secret \<and> au_knownServices a = known \<and> agrees secret evs
   \<and> (\<forall>s c. au_pendingChallenges a s = Some c \<longrightarrow>
        known s \<noteq> None \<and> latest s evs = Some (Challenged s (ch_Nonce c)))
   \<and> (\<forall>tok p. au_activeSessions a tok = Some p \<longrightarrow> session_ok known evs tok p)"

text \<open>The outcomes of the operations that create challenges and sessions.\<close>

lemma CreateChallenge_Inr:
  "CreateChallenge a s rnd now = (Inr c, a') \<longleftrightarrow>
     s \<in> dom (au_knownServices a) \<and> (\<exists>nonce. rnd = Inr nonce \<and> c = \<lparr>ch_ServiceID = s, ch_Nonce = nonce, ch_CreatedAt = now\<rparr>)
   \<and> a' = a\<lparr>au_pendingChallenges := (au_pendingChallenges a)(s \<mapsto> c)\<rparr>"
  by (auto simp: CreateChallenge_def Let_def split: option.splits sum.splits)

lemma CreateChallenge_Inl: "CreateChallenge a s rnd now = (Inl e, a') \<Longrightarrow> a' = a"
  by (auto simp: CreateChallenge_def Let_def split: option.splits sum.splits)

definition new_peer :: "Authenticator \<Rightarrow> string \<Rightarrow> bytes \<Rightarrow> time \<Rightarrow> PeerIdentity" where
  "new_peer a s rnd now = \<lparr>pe_ServiceID = s,
     pe_Capabilities = (case au_knownServices a s of None \<Rightarrow> [] | Some c \<Rightarrow> c),
     pe_SessionToken = hex_EncodeToString rnd, pe_CreatedAt = now, pe_SessionTTL = au_sessionTTL a\<rparr>"

lemma VerifyResponse_Inr:
  "VerifyResponse a s resp rnd now = (Inr p, a') \<longleftrightarrow>
     (\<exists>c b. au_pendingChallenges a s = Some c \<and> resp = hmac_Sum (au_sharedSecret a) (ch_Nonce c) \<and> rnd = Inr b
        \<and> p = new_peer a s b now
        \<and> a' = a\<lparr>au_pendingChallenges := (au_pendingChallenges a)(s := None),
                 au_activeSessions := (au_activeSessions a)(pe_SessionToken p \<mapsto> p)\<rparr>)"
  by (auto simp: VerifyResponse_def new_peer_def generateToken_def hmac_Equal_def Let_def split: option.splits sum.splits if_splits)

lemma VerifyResponse_state:
  "VerifyResponse a s resp rnd now = (Inl e, a') \<Longrightarrow> a' = a\<lparr>au_pendingChallenges := (au_pendingChallenges a)(s := None)\<rparr>"
  by (auto simp: VerifyResponse_def Let_def fun_upd_idem split: option.splits sum.splits if_splits)

lemma Authenticate_Inr:
  "Authenticate a s rnd now = (Inr p, a') \<longleftrightarrow>
     s \<in> dom (au_knownServices a) \<and> (\<exists>b. rnd = Inr b \<and> p = new_peer a s b now
        \<and> a' = a\<lparr>au_activeSessions := (au_activeSessions a)(pe_SessionToken p \<mapsto> p)\<rparr>)"
  by (auto simp: Authenticate_def new_peer_def generateToken_def Let_def split: option.splits sum.splits)

lemma Authenticate_Inl: "Authenticate a s rnd now = (Inl e, a') \<Longrightarrow> a' = a"
  by (auto simp: Authenticate_def Let_def split: option.splits sum.splits)

lemmas auth_outcomes = CreateChallenge_Inr VerifyResponse_Inr Authenticate_Inr

lemma auth_run_inv: "auth_run secret known a evs \<Longrightarrow> auth_inv secret known a evs"
proof (induction rule: auth_run.induct)
  case start
  show ?case by (simp add: auth_inv_def NewAuthenticator_def)
next
  case (set_ttl a evs ttl)
  then show ?case by (simp add: auth_inv_def SetSessionTTL_def)
next
  case (challenged a evs s rnd now c a')
  then show ?case by (auto simp: auth_inv_def CreateChallenge_Inr)
next
  case (unchallenged a evs s rnd now e a')
  then show ?case using CreateChallenge_Inl by blast
next
  case (accepted a evs s resp rnd now p a')
  from accepted(2) obtain c b where c: "au_pendingChallenges a s = Some c" "resp = hmac_Sum (au_sharedSecret a) (ch_Nonce c)"
    and p: "p = new_peer a s b now" and a': "a' = a\<lparr>au_pendingChallenges := (au_pendingChallenges a)(s := None),
                 au_activeSessions := (au_activeSessions a)(pe_SessionToken p \<mapsto> p)\<rparr>"
    by (auto simp: VerifyResponse_Inr)
  have "s \<in> dom (au_knownServices a)" "known = au_knownServices a"
    using accepted.IH c(1) by (auto simp: auth_inv_def)
  then have "session_ok known (Accepted s resp (pe_SessionToken p) # evs) (pe_SessionToken p) p"
    by (auto simp: session_ok_def p new_peer_def)
  with accepted.IH c a' show ?case by (auto simp: auth_inv_def)
next
  case (rejected a evs s resp rnd now e a')
  then show ?case using VerifyResponse_state [OF rejected(2)] by (auto simp: auth_inv_def)
next
  case (trusted a evs s rnd now p a')
  then have "session_ok known (Trusted s (pe_SessionToken p) # evs) (pe_SessionToken p) p"
    by (auto simp: auth_inv_def session_ok_def Authenticate_Inr new_peer_def)
  moreover from trusted(2) have "a' = a\<lparr>au_activeSessions := (au_activeSessions a)(pe_SessionToken p \<mapsto> p)\<rparr>"
    by (auto simp: Authenticate_Inr)
  ultimately show ?case using trusted.IH by (auto simp: auth_inv_def split: if_splits)
next
  case (untrusted a evs s rnd now e a')
  then show ?case using Authenticate_Inl by blast
next
  case (revoked a evs token)
  then show ?case by (auto simp: auth_inv_def RevokeSession_def)
next
  case (cleaned a evs ks now removed a')
  then show ?case by (auto simp: auth_inv_def CleanupExpired_eq split: if_splits)
qed

section \<open>Properties\<close>

text \<open>
  C31: Challenge-response authentication: in every run of an authenticator, however its
  operations interleave and whatever responses peers send, each accepted response of a service is the
  HMAC of the nonce of the latest challenge issued to that service, and that challenge
  had not been answered before, rightly or wrongly. One challenge admits at most one answer.
\<close>

theorem auth_agreement:
  assumes "auth_run secret known a (later @ Accepted s resp tok # earlier)"
  shows "\<exists>nonce. latest s earlier = Some (Challenged s nonce) \<and> resp = hmac_Sum secret nonce"
  using auth_run_inv [OF assms] agrees_split by (auto simp: auth_inv_def)

text \<open>
  C32: A live session belongs to a service the authenticator knows, with exactly the
  capabilities configured for it, under its own token, and was created by an accepted
  response or by the legacy \<open>Authenticate\<close>.
\<close>

theorem auth_sessions_sound:
  assumes "auth_run secret known a evs" and "ValidateSession a tok now = Inr p"
  shows "pe_SessionToken p = tok \<and> known (pe_ServiceID p) = Some (pe_Capabilities p) \<and> \<not> IsExpired p now
    \<and> ((\<exists>resp. Accepted (pe_ServiceID p) resp tok \<in> set evs) \<or> Trusted (pe_ServiceID p) tok \<in> set evs)"
proof -
  have "au_activeSessions a tok = Some p" "\<not> IsExpired p now"
    using assms(2) by (auto simp: ValidateSession_def split: option.splits if_splits)
  with auth_run_inv [OF assms(1)] show ?thesis by (simp add: auth_inv_def session_ok_def)
qed

text \<open>
  A challenge is spent by the first answer: after \<open>VerifyResponse\<close>, whatever it
  returned, any further answer for the service is refused with \<open>ErrAuth\<close> until a new
  challenge is made, even a correct one.
\<close>

theorem challenge_single_use:
  assumes "VerifyResponse a s resp rnd now = (out, a')"
  shows "\<exists>e. VerifyResponse a' s resp' rnd' now' = (Inl e, a') \<and> errors_Is e ErrAuth"
proof -
  have "au_pendingChallenges a' s = None"
  proof (cases out)
    case (Inl e)
    then show ?thesis using VerifyResponse_state assms by fastforce
  next
    case (Inr p)
    then show ?thesis using assms by (auto simp: VerifyResponse_Inr)
  qed
  then show ?thesis by (simp add: VerifyResponse_def)
qed

text \<open>
  \<open>CleanupExpired\<close> is invisible to later validation: whatever the order in which
  the runtime visits the sessions, it removes exactly those that have expired, reports how many, and from then on
  \<open>ValidateSession\<close> accepts the same tokens with the same identities as it would have without it.
\<close>

theorem CleanupExpired_transparent:
  assumes "map_order (au_activeSessions a) ks" and "CleanupExpired a now ks = (removed, a')" and "now \<le> now'"
  shows "removed = int (card {tok. session_expired (au_activeSessions a) now tok})
    \<and> (\<forall>tok. au_activeSessions a' tok = (if session_expired (au_activeSessions a) now tok then None else au_activeSessions a tok))
    \<and> (\<forall>tok p. ValidateSession a' tok now' = Inr p \<longleftrightarrow> ValidateSession a tok now' = Inr p)"
proof -
  have a': "removed = int (card {tok. session_expired (au_activeSessions a) now tok})"
    "au_activeSessions a' = (\<lambda>t. if session_expired (au_activeSessions a) now t then None else au_activeSessions a t)"
    using assms(1,2) by (auto simp: CleanupExpired_eq)
  have "ValidateSession a' tok now' = Inr p \<longleftrightarrow> ValidateSession a tok now' = Inr p" for tok p
    using IsExpired_later [OF _ assms(3)]
    by (auto simp: ValidateSession_def a' session_expired_def split: option.splits if_splits)
  with a' show ?thesis by simp
qed

text \<open>A service that answers its challenge, with a fixed nonce and token.\<close>

definition example_known :: "string \<rightharpoonup> string list" where
  "example_known = [''nia.min'' \<mapsto> [''ui:control'', ''device:read'']]"

definition example_auth :: Authenticator where
  "example_auth = snd (CreateChallenge (NewAuthenticator [1, 2, 3] example_known) ''nia.min'' (Inr [7]) 0)"

definition example_session :: Authenticator where
  "example_session = snd (VerifyResponse example_auth ''nia.min'' (hmac_Sum [1, 2, 3] [7]) (Inr [255]) 5)"

lemma example_auth_pending:
  "au_pendingChallenges example_auth ''nia.min'' = Some \<lparr>ch_ServiceID = ''nia.min'', ch_Nonce = [7], ch_CreatedAt = 0\<rparr>"
  "au_sharedSecret example_auth = [1, 2, 3]" "au_knownServices example_auth = example_known"
  "au_activeSessions example_auth = Map.empty"
  by (simp_all add: Let_def example_auth_def CreateChallenge_def NewAuthenticator_def example_known_def)

lemma example_verify:
  "VerifyResponse example_auth ''nia.min'' (hmac_Sum [1, 2, 3] [7]) (Inr [255]) 5
   = (Inr (new_peer example_auth ''nia.min'' [255] 5), example_session)"
  unfolding example_session_def
  by (rule prod_eqI) (simp_all add: Let_def VerifyResponse_def new_peer_def generateToken_def hmac_Equal_def example_auth_pending)

lemma example_auth_run: "auth_run [1, 2, 3] example_known example_auth [Challenged ''nia.min'' [7]]"
proof -
  have "CreateChallenge (NewAuthenticator [1, 2, 3] example_known) ''nia.min'' (Inr [7]) 0
      = (Inr \<lparr>ch_ServiceID = ''nia.min'', ch_Nonce = [7], ch_CreatedAt = 0\<rparr>, example_auth)"
    by (simp add: Let_def example_auth_def CreateChallenge_def NewAuthenticator_def example_known_def)
  from auth_run.challenged [OF auth_run.start this] show ?thesis by simp
qed

lemma example_session_run:
  "auth_run [1, 2, 3] example_known example_session
     ([] @ Accepted ''nia.min'' (hmac_Sum [1, 2, 3] [7]) ''ff'' # [Challenged ''nia.min'' [7]])"
  using auth_run.accepted [OF example_auth_run example_verify]
  by (simp add: new_peer_def hex_EncodeToString_def hex_digit_def)

theorem auth_agreement_witness:
  "\<exists>nonce. latest ''nia.min'' [Challenged ''nia.min'' [7]] = Some (Challenged ''nia.min'' nonce)
     \<and> hmac_Sum [1, 2, 3] [7] = hmac_Sum [1, 2, 3] nonce"
  by (rule auth_agreement [OF example_session_run])

lemma example_session_active:
  "au_activeSessions example_session = [''ff'' \<mapsto> new_peer example_auth ''nia.min'' [255] 5]"
proof -
  have token: "pe_SessionToken (new_peer example_auth ''nia.min'' [255] 5) = ''ff''"
    by (simp add: new_peer_def hex_EncodeToString_def hex_digit_def)
  have "example_session = example_auth\<lparr>au_pendingChallenges := (au_pendingChallenges example_auth)(''nia.min'' := None),
      au_activeSessions := [''ff'' \<mapsto> new_peer example_auth ''nia.min'' [255] 5]\<rparr>"
    using example_verify by (simp add: VerifyResponse_Inr example_auth_pending token)
  from arg_cong [OF this, of au_activeSessions] show ?thesis by simp
qed

lemma example_session_live:
  "ValidateSession example_session ''ff'' 10 = Inr (new_peer example_auth ''nia.min'' [255] 5)"
  by (simp add: Let_def ValidateSession_def example_session_active IsExpired_def new_peer_def example_auth_def CreateChallenge_def
      NewAuthenticator_def example_known_def time_Sub_def Hour_def Minute_def Second_def maxDuration_def minDuration_def)

theorem auth_sessions_sound_witness:
  "example_known ''nia.min'' = Some (pe_Capabilities (new_peer example_auth ''nia.min'' [255] 5))"
  using auth_sessions_sound [OF example_session_run example_session_live] by (simp add: new_peer_def)

theorem challenge_single_use_witness:
  "\<exists>e. VerifyResponse example_session ''nia.min'' (hmac_Sum [1, 2, 3] [7]) (Inr [254]) 6 = (Inl e, example_session)
     \<and> errors_Is e ErrAuth"
  by (rule challenge_single_use [OF example_verify])

theorem CleanupExpired_transparent_witness:
  "\<forall>p. ValidateSession (snd (CleanupExpired example_session 10 [''ff''])) ''ff'' 20 = Inr p
   \<longleftrightarrow> ValidateSession example_session ''ff'' 20 = Inr p"
proof -
  have "map_order (au_activeSessions example_session) [''ff'']"
    by (simp add: map_order_def example_session_active)
  from CleanupExpired_transparent [OF this prod.collapse [symmetric], of 10 20] show ?thesis by simp
qed

end
