(* ===== verification/Keyring.thy ===== *)
theory Keyring
  imports Hex
begin

text \<open>
  \<^verbatim>\<open>security/keyring/keyring.go\<close>. The keyring maps identifiers to pointers, and
  \<open>Generate\<close>, \<open>Lookup\<close> and \<open>Rotate\<close> hand those pointers out, so a later \<open>Revoke\<close> or
  \<open>Rotate\<close> changes what an earlier caller holds. The entries therefore live in an explicit
  store \<open>kr_store\<close>; a pointer is an address in it, allocated by \<open>new_entry\<close>.
\<close>

section \<open>State\<close>

record KeyEntry =
  ke_ID :: string
  ke_Key :: bytes
  ke_CreatedAt :: time
  ke_ExpiresAt :: time
  ke_Revoked :: bool

type_synonym key_ptr = nat

record Keyring =
  kr_keys :: "string \<rightharpoonup> key_ptr"
  kr_store :: "KeyEntry list"

definition keyring_New :: Keyring where
  "keyring_New = \<lparr>kr_keys = Map.empty, kr_store = []\<rparr>"

text \<open>\<open>*p\<close>, the entry behind a pointer.\<close>

definition deref :: "Keyring \<Rightarrow> key_ptr \<Rightarrow> KeyEntry" where
  "deref kr p = kr_store kr ! p"

text \<open>A new entry under \<open>kid\<close>: allocated, then entered in the map.\<close>

definition mk_entry :: "string \<Rightarrow> bytes \<Rightarrow> duration \<Rightarrow> time \<Rightarrow> KeyEntry" where
  "mk_entry kid key ttl now = \<lparr>ke_ID = kid, ke_Key = key, ke_CreatedAt = now,
     ke_ExpiresAt = (if ttl > 0 then now + ttl else 0), ke_Revoked = False\<rparr>"

definition put_entry :: "Keyring \<Rightarrow> string \<Rightarrow> KeyEntry \<Rightarrow> key_ptr \<times> Keyring" where
  "put_entry kr kid entry =
     (length (kr_store kr), \<lparr>kr_keys = (kr_keys kr)(kid \<mapsto> length (kr_store kr)), kr_store = kr_store kr @ [entry]\<rparr>)"

section \<open>Operations\<close>

text \<open>\<open>rnd n\<close> is what \<open>rand.Read\<close> delivers for \<open>n\<close> bytes.\<close>

definition Keyring_Generate ::
  "Keyring \<Rightarrow> string \<Rightarrow> int \<Rightarrow> duration \<Rightarrow> (nat \<Rightarrow> bytes result) \<Rightarrow> time \<Rightarrow> key_ptr result \<times> Keyring" where
  "Keyring_Generate kr kid keyLen ttl rnd now =
     (if kid = '''' then (Inl (Errorf ''key id is required'' []), kr)
      else let keyLen = (if keyLen \<le> 0 then 32 else keyLen) in
        case rnd (nat keyLen) of
          Inl e \<Rightarrow> (Inl (wrap_err ''generate random key: %w'' e), kr)
        | Inr raw \<Rightarrow> (case put_entry kr kid (mk_entry kid raw ttl now) of (p, kr') \<Rightarrow> (Inr p, kr')))"

definition Keyring_Store :: "Keyring \<Rightarrow> string \<Rightarrow> bytes \<Rightarrow> duration \<Rightarrow> time \<Rightarrow> error option \<times> Keyring" where
  "Keyring_Store kr kid key ttl now =
     (if kid = '''' \<or> length key = 0 then (Some (Errorf ''id and key are required'' []), kr)
      else (None, snd (put_entry kr kid (mk_entry kid key ttl now))))"

definition entry_expired :: "KeyEntry \<Rightarrow> time \<Rightarrow> bool" where
  "entry_expired e now \<longleftrightarrow> ke_ExpiresAt e \<noteq> 0 \<and> now > ke_ExpiresAt e"

definition Keyring_Lookup :: "Keyring \<Rightarrow> string \<Rightarrow> time \<Rightarrow> key_ptr result" where
  "Keyring_Lookup kr kid now =
     (case kr_keys kr kid of
       None \<Rightarrow> Inl (Errorf ''key %q not found'' [AStr kid])
     | Some p \<Rightarrow>
        (if ke_Revoked (deref kr p) then Inl (Errorf ''key %q has been revoked'' [AStr kid])
         else if entry_expired (deref kr p) now then Inl (Errorf ''key %q has expired'' [AStr kid])
         else Inr p))"

text \<open>\<open>entry.Revoked = true\<close> through a pointer.\<close>

definition set_revoked :: "Keyring \<Rightarrow> key_ptr \<Rightarrow> Keyring" where
  "set_revoked kr p = kr\<lparr>kr_store := (kr_store kr)[p := (deref kr p)\<lparr>ke_Revoked := True\<rparr>]\<rparr>"

definition Keyring_Revoke :: "Keyring \<Rightarrow> string \<Rightarrow> error option \<times> Keyring" where
  "Keyring_Revoke kr kid =
     (case kr_keys kr kid of
       None \<Rightarrow> (Some (Errorf ''key %q not found'' [AStr kid]), kr)
     | Some p \<Rightarrow> (None, set_revoked kr p))"

definition Keyring_Delete :: "Keyring \<Rightarrow> string \<Rightarrow> Keyring" where
  "Keyring_Delete kr kid = kr\<lparr>kr_keys := (kr_keys kr)(kid := None)\<rparr>"

definition randomBytes :: "(nat \<Rightarrow> bytes result) \<Rightarrow> nat \<Rightarrow> bytes result" where
  "randomBytes rnd n =
     (case rnd n of
       Inl e \<Rightarrow> Inl (Errorf ''read %d random bytes: %w'' [AInt (int n), AErr e])
     | Inr b \<Rightarrow> Inr b)"

text \<open>\<open>rnd1\<close> serves the suffix, \<open>rnd2\<close> the key.\<close>

definition Keyring_Rotate ::
  "Keyring \<Rightarrow> string \<Rightarrow> int \<Rightarrow> duration \<Rightarrow> (nat \<Rightarrow> bytes result) \<Rightarrow> (nat \<Rightarrow> bytes result) \<Rightarrow> time
    \<Rightarrow> key_ptr result \<times> Keyring" where
  "Keyring_Rotate kr kid keyLen ttl rnd1 rnd2 now =
     (case randomBytes rnd1 4 of
       Inl e \<Rightarrow> (Inl (Errorf ''rotate %q: %w'' [AStr kid, AErr e]), kr)
     | Inr suffix \<Rightarrow>
        (let oldID = kid @ ''.prev.'' @ hex_EncodeToString suffix;
             kr1 = (case kr_keys kr kid of
                     None \<Rightarrow> kr
                   | Some old \<Rightarrow>
                      (let kr0 = set_revoked kr old
                       in kr0\<lparr>kr_keys := (kr_keys kr0)(oldID \<mapsto> old, kid := None)\<rparr>));
             keyLen = (if keyLen \<le> 0 then 32 else keyLen)
         in case rnd2 (nat keyLen) of
              Inl e \<Rightarrow> (Inl (wrap_err ''generate random key: %w'' e), kr1)
            | Inr raw \<Rightarrow> (case put_entry kr1 kid (mk_entry kid raw ttl now) of (p, kr2) \<Rightarrow> (Inr p, kr2))))"

definition entry_active :: "KeyEntry \<Rightarrow> time \<Rightarrow> bool" where
  "entry_active e now \<longleftrightarrow> \<not> ke_Revoked e \<and> \<not> entry_expired e now"

text \<open>The copies of the active entries, in the order \<open>ks\<close> in which the map is visited.\<close>

definition Keyring_ListActive :: "Keyring \<Rightarrow> time \<Rightarrow> string list \<Rightarrow> KeyEntry list" where
  "Keyring_ListActive kr now ks = filter (\<lambda>e. entry_active e now) (map (deref kr) (map_values (kr_keys kr) ks))"

fun kr_cleanup_loop :: "Keyring \<Rightarrow> time \<Rightarrow> string list \<Rightarrow> int \<Rightarrow> int \<times> Keyring" where
  "kr_cleanup_loop kr now [] removed = (removed, kr)"
| "kr_cleanup_loop kr now (kid # ks) removed =
     (case kr_keys kr kid of
       None \<Rightarrow> kr_cleanup_loop kr now ks removed
     | Some p \<Rightarrow>
        (if ke_Revoked (deref kr p) \<or> entry_expired (deref kr p) now
         then kr_cleanup_loop (Keyring_Delete kr kid) now ks (removed + 1)
         else kr_cleanup_loop kr now ks removed))"

definition Keyring_Cleanup :: "Keyring \<Rightarrow> time \<Rightarrow> string list \<Rightarrow> int \<times> Keyring" where
  "Keyring_Cleanup kr now ks = kr_cleanup_loop kr now ks 0"

section \<open>Invariant\<close>

text \<open>Every pointer of the map is allocated, and no two identifiers share an entry.\<close>

definition kr_inv :: "Keyring \<Rightarrow> bool" where
  "kr_inv kr \<longleftrightarrow> (\<forall>kid p. kr_keys kr kid = Some p \<longrightarrow> p < length (kr_store kr))
     \<and> inj_on (kr_keys kr) (dom (kr_keys kr))"

lemma kr_invD:
  assumes "kr_inv kr"
  shows "kr_keys kr kid = Some p \<Longrightarrow> p < length (kr_store kr)"
    and "kr_keys kr kid = Some p \<Longrightarrow> kr_keys kr kid' = Some p \<Longrightarrow> kid = kid'"
  using assms by (auto simp: kr_inv_def inj_on_def dom_def)

lemma kr_invI:
  assumes "\<And>kid p. kr_keys kr kid = Some p \<Longrightarrow> p < length (kr_store kr)"
    and "\<And>kid kid' p. kr_keys kr kid = Some p \<Longrightarrow> kr_keys kr kid' = Some p \<Longrightarrow> kid = kid'"
  shows "kr_inv kr"
  using assms by (auto simp: kr_inv_def inj_on_def dom_def)

lemma kr_inv_New: "kr_inv keyring_New"
  by (simp add: kr_inv_def keyring_New_def)

lemma put_entry_inv: "kr_inv kr \<Longrightarrow> kr_inv (snd (put_entry kr kid e))"
  by (rule kr_invI) (auto simp: put_entry_def split: if_splits dest: kr_invD less_SucI intro: kr_invD(2))

lemma set_revoked_inv: "kr_inv kr \<Longrightarrow> kr_inv (set_revoked kr p)"
  by (rule kr_invI) (auto simp: set_revoked_def dest: kr_invD intro: kr_invD(2))

lemma Delete_inv: "kr_inv kr \<Longrightarrow> kr_inv (Keyring_Delete kr kid)"
  by (rule kr_invI) (auto simp: Keyring_Delete_def split: if_splits dest: kr_invD intro: kr_invD(2))

lemma move_entry_inv:
  assumes "kr_inv kr" and "kr_keys kr kid = Some p" and "kid \<noteq> kid'"
  shows "kr_inv (kr\<lparr>kr_keys := (kr_keys kr)(kid' \<mapsto> p, kid := None)\<rparr>)"
  using assms by (intro kr_invI) (auto split: if_splits dest: kr_invD intro: kr_invD(2))

text \<open>What an operation may do to the entries that exist: only revoke them.\<close>

definition store_ext :: "Keyring \<Rightarrow> Keyring \<Rightarrow> bool" where
  "store_ext kr kr' \<longleftrightarrow> length (kr_store kr) \<le> length (kr_store kr')
     \<and> (\<forall>p < length (kr_store kr). deref kr' p = deref kr p \<or> deref kr' p = (deref kr p)\<lparr>ke_Revoked := True\<rparr>)"

lemma store_ext_refl: "kr_store kr' = kr_store kr \<Longrightarrow> store_ext kr kr'"
  by (simp add: store_ext_def deref_def)

lemma store_ext_trans:
  assumes "store_ext a b" and "store_ext b c"
  shows "store_ext a c"
  unfolding store_ext_def
proof (intro conjI allI impI)
  show "length (kr_store a) \<le> length (kr_store c)" using assms by (simp add: store_ext_def)
  fix p assume "p < length (kr_store a)"
  with assms have "deref b p = deref a p \<or> deref b p = (deref a p)\<lparr>ke_Revoked := True\<rparr>"
    "deref c p = deref b p \<or> deref c p = (deref b p)\<lparr>ke_Revoked := True\<rparr>"
    by (auto simp: store_ext_def)
  then show "deref c p = deref a p \<or> deref c p = (deref a p)\<lparr>ke_Revoked := True\<rparr>" by auto
qed

lemma store_ext_put: "store_ext kr (snd (put_entry kr kid e))"
  by (simp add: store_ext_def put_entry_def deref_def nth_append)

section \<open>Behaviour of the operations\<close>

lemma put_entry_simps [simp]:
  "fst (put_entry kr kid e) = length (kr_store kr)"
  "kr_keys (snd (put_entry kr kid e)) = (kr_keys kr)(kid \<mapsto> length (kr_store kr))"
  "kr_store (snd (put_entry kr kid e)) = kr_store kr @ [e]"
  by (simp_all add: put_entry_def)

lemma set_revoked_simps [simp]:
  "kr_keys (set_revoked kr p) = kr_keys kr"
  "length (kr_store (set_revoked kr p)) = length (kr_store kr)"
  by (simp_all add: set_revoked_def)

lemma Delete_simps [simp]:
  "kr_keys (Keyring_Delete kr kid) = (kr_keys kr)(kid := None)"
  "kr_store (Keyring_Delete kr kid) = kr_store kr"
  "deref (Keyring_Delete kr kid) = deref kr"
  by (simp_all add: Keyring_Delete_def deref_def fun_eq_iff)

lemma deref_put_old: "p < length (kr_store kr) \<Longrightarrow> deref (snd (put_entry kr kid e)) p = deref kr p"
  by (simp add: deref_def nth_append)

lemma deref_put_new: "deref (snd (put_entry kr kid e)) (length (kr_store kr)) = e"
  by (simp add: deref_def)

lemma deref_set_revoked:
  "q < length (kr_store kr) \<Longrightarrow>
    deref (set_revoked kr p) q = (if p = q then (deref kr p)\<lparr>ke_Revoked := True\<rparr> else deref kr q)"
  by (auto simp: deref_def set_revoked_def nth_list_update)

lemma store_ext_set_revoked: "store_ext kr (set_revoked kr p)"
  by (simp add: store_ext_def deref_set_revoked)

text \<open>The keyring after the first half of \<open>Rotate\<close>: the old entry revoked and archived.\<close>

definition archived :: "Keyring \<Rightarrow> string \<Rightarrow> bytes \<Rightarrow> Keyring" where
  "archived kr kid suffix =
     (case kr_keys kr kid of
       None \<Rightarrow> kr
     | Some old \<Rightarrow> (set_revoked kr old)\<lparr>kr_keys := (kr_keys kr)(kid @ ''.prev.'' @ hex_EncodeToString suffix \<mapsto> old, kid := None)\<rparr>)"

lemma archived_inv: "kr_inv kr \<Longrightarrow> kr_inv (archived kr kid suffix)"
proof (cases "kr_keys kr kid")
  case (Some old)
  assume "kr_inv kr"
  then have "kr_inv (set_revoked kr old)" by (rule set_revoked_inv)
  with Some move_entry_inv [of "set_revoked kr old" kid old "kid @ ''.prev.'' @ hex_EncodeToString suffix"]
  show ?thesis by (simp add: archived_def)
qed (simp add: archived_def)

lemma store_ext_archived: "store_ext kr (archived kr kid suffix)"
  by (auto simp: archived_def store_ext_refl split: option.split
      intro: store_ext_trans [OF store_ext_set_revoked store_ext_refl])

lemma length_archived [simp]: "length (kr_store (archived kr kid suffix)) = length (kr_store kr)"
  by (simp add: archived_def split: option.split)

lemma Rotate_eq:
  "Keyring_Rotate kr kid keyLen ttl rnd1 rnd2 now =
     (case rnd1 4 of
       Inl e \<Rightarrow> (Inl (Errorf ''rotate %q: %w'' [AStr kid, AErr (Errorf ''read %d random bytes: %w'' [AInt 4, AErr e])]), kr)
     | Inr suffix \<Rightarrow>
        (case rnd2 (nat (if keyLen \<le> 0 then 32 else keyLen)) of
          Inl e \<Rightarrow> (Inl (wrap_err ''generate random key: %w'' e), archived kr kid suffix)
        | Inr raw \<Rightarrow> (Inr (length (kr_store kr)), snd (put_entry (archived kr kid suffix) kid (mk_entry kid raw ttl now)))))"
  by (simp add: Keyring_Rotate_def randomBytes_def archived_def put_entry_def Let_def
      split: sum.split option.split)

section \<open>Runs\<close>

text \<open>The keyring after any sequence of operations, whatever their arguments and outcomes.\<close>

inductive kr_step :: "Keyring \<Rightarrow> Keyring \<Rightarrow> bool" where
  "kr_step kr (snd (Keyring_Generate kr kid keyLen ttl rnd now))"
| "kr_step kr (snd (Keyring_Store kr kid key ttl now))"
| "kr_step kr (snd (Keyring_Revoke kr kid))"
| "kr_step kr (Keyring_Delete kr kid)"
| "kr_step kr (snd (Keyring_Rotate kr kid keyLen ttl rnd1 rnd2 now))"
| "kr_step kr (snd (Keyring_Cleanup kr now ks))"

lemma cleanup_loop_keeps:
  "kr_inv kr \<Longrightarrow> kr_inv (snd (kr_cleanup_loop kr now ks n)) \<and> kr_store (snd (kr_cleanup_loop kr now ks n)) = kr_store kr"
proof (induction kr now ks n rule: kr_cleanup_loop.induct)
  case (2 kr now kid ks n)
  then show ?case
    by (auto simp: Delete_inv split: option.split)
qed simp

lemma kr_step_keeps:
  assumes "kr_step kr kr'" and "kr_inv kr"
  shows "kr_inv kr' \<and> store_ext kr kr'"
  using assms
proof cases
  case (1 kid keyLen ttl rnd now)
  then show ?thesis
    using assms(2) put_entry_inv [OF assms(2)] store_ext_put [of kr kid]
    by (simp add: Keyring_Generate_def Let_def store_ext_refl case_prod_beta split: sum.split)
next
  case (2 kid key ttl now)
  then show ?thesis
    using assms(2) put_entry_inv [OF assms(2)] store_ext_put [of kr kid]
    by (simp add: Keyring_Store_def store_ext_refl)
next
  case (3 kid)
  then show ?thesis
    using assms(2) set_revoked_inv [OF assms(2)] store_ext_set_revoked
    by (simp add: Keyring_Revoke_def store_ext_refl split: option.split)
next
  case (4 kid)
  then show ?thesis using Delete_inv [OF assms(2)] by (simp add: store_ext_refl)
next
  case (5 kid keyLen ttl rnd1 rnd2 now)
  then show ?thesis
    using assms(2) archived_inv [OF assms(2)] put_entry_inv [OF archived_inv [OF assms(2)]]
      store_ext_archived store_ext_trans [OF store_ext_archived store_ext_put]
    by (simp add: Rotate_eq store_ext_refl split: sum.split)
next
  case (6 now ks)
  then show ?thesis using cleanup_loop_keeps [OF assms(2)] by (simp add: Keyring_Cleanup_def store_ext_refl)
qed

lemma kr_steps_keep:
  assumes "kr_step\<^sup>*\<^sup>* kr kr'" and "kr_inv kr"
  shows "kr_inv kr' \<and> store_ext kr kr'"
  using assms
proof (induction rule: rtranclp_induct)
  case base
  then show ?case by (simp add: store_ext_refl)
next
  case (step kr1 kr2)
  then show ?case using kr_step_keeps store_ext_trans by blast
qed

lemma Lookup_iff:
  "Keyring_Lookup kr kid now = Inr p \<longleftrightarrow> kr_keys kr kid = Some p \<and> entry_active (deref kr p) now"
  by (auto simp: Keyring_Lookup_def entry_active_def split: option.split)

section \<open>Properties\<close>

text \<open>
  C37: Revocation is permanent and reaches every holder: a caller that obtained a key with
  \<open>Lookup\<close> keeps a pointer whose entry changes, over any later sequence of operations, only by
  being revoked; its key bytes and expiry never change. From the moment it is revoked no identifier
  looks it up again, whatever is generated, stored, rotated or cleaned up afterwards.
\<close>

theorem keyring_revocation_permanent:
  assumes "kr_step\<^sup>*\<^sup>* keyring_New kr" and "Keyring_Lookup kr kid now = Inr p" and "kr_step\<^sup>*\<^sup>* kr kr'"
    and "kr_step\<^sup>*\<^sup>* kr' kr''"
  shows "(deref kr' p = deref kr p \<or> deref kr' p = (deref kr p)\<lparr>ke_Revoked := True\<rparr>)
    \<and> (ke_Revoked (deref kr' p) \<longrightarrow> ke_Revoked (deref kr'' p) \<and> Keyring_Lookup kr'' kid' now' \<noteq> Inr p)"
proof -
  have inv: "kr_inv kr" using kr_steps_keep [OF assms(1) kr_inv_New] by simp
  then have "p < length (kr_store kr)" using assms(2) by (auto simp: Lookup_iff dest: kr_invD)
  moreover have ext: "kr_inv kr'" "store_ext kr kr'" using kr_steps_keep [OF assms(3) inv] by simp_all
  moreover have "store_ext kr' kr''" using kr_steps_keep [OF assms(4) ext(1)] by simp
  ultimately have "deref kr' p = deref kr p \<or> deref kr' p = (deref kr p)\<lparr>ke_Revoked := True\<rparr>"
    "deref kr'' p = deref kr' p \<or> deref kr'' p = (deref kr' p)\<lparr>ke_Revoked := True\<rparr>"
    by (auto simp: store_ext_def)
  then show ?thesis by (auto simp: Lookup_iff entry_active_def)
qed

lemma keyring_example_run:
  "kr_step\<^sup>*\<^sup>* keyring_New (snd (Keyring_Store keyring_New ''k'' [1] 0 5))"
  "kr_step\<^sup>*\<^sup>* (snd (Keyring_Store keyring_New ''k'' [1] 0 5))
     (snd (Keyring_Revoke (snd (Keyring_Store keyring_New ''k'' [1] 0 5)) ''k''))"
  by (rule r_into_rtranclp, rule kr_step.intros)+

theorem keyring_revocation_permanent_witness:
  "Keyring_Lookup (snd (Keyring_Store keyring_New ''k'' [1] 0 5)) ''k'' 6 = Inr 0
   \<and> Keyring_Lookup (snd (Keyring_Revoke (snd (Keyring_Store keyring_New ''k'' [1] 0 5)) ''k'')) ''k'' 7 \<noteq> Inr 0"
proof -
  have l: "Keyring_Lookup (snd (Keyring_Store keyring_New ''k'' [1] 0 5)) ''k'' 6 = Inr 0"
    by code_simp
  moreover have "ke_Revoked (deref (snd (Keyring_Revoke (snd (Keyring_Store keyring_New ''k'' [1] 0 5)) ''k'')) 0)"
    by code_simp
  ultimately show ?thesis
    using keyring_revocation_permanent [OF keyring_example_run(1) l keyring_example_run(2) rtranclp.rtrancl_refl] by blast
qed

text \<open>
  \<open>Rotate\<close> replaces the key in one step: when it succeeds the identifier leads to a
  fresh entry with the new key until that expires, the previous entry is revoked for everyone who holds it, with its
  key bytes kept, and no identifier except the archive name is affected.
\<close>

theorem keyring_Rotate_replaces:
  assumes "kr_step\<^sup>*\<^sup>* keyring_New kr" and "Keyring_Rotate kr kid keyLen ttl rnd1 rnd2 now = (Inr q, kr')"
  shows "\<exists>suffix raw. rnd1 4 = Inr suffix \<and> rnd2 (nat (if keyLen \<le> 0 then 32 else keyLen)) = Inr raw
    \<and> deref kr' q = mk_entry kid raw ttl now
    \<and> (\<forall>now'. (ttl \<le> 0 \<or> now' \<le> now + ttl) \<longrightarrow> Keyring_Lookup kr' kid now' = Inr q)
    \<and> (\<forall>old. kr_keys kr kid = Some old \<longrightarrow> old \<noteq> q \<and> deref kr' old = (deref kr old)\<lparr>ke_Revoked := True\<rparr>)
    \<and> (\<forall>kid' now'. kid' \<noteq> kid \<and> kid' \<noteq> kid @ ''.prev.'' @ hex_EncodeToString suffix
          \<longrightarrow> Keyring_Lookup kr' kid' now' = Keyring_Lookup kr kid' now')"
proof -
  have inv: "kr_inv kr" using kr_steps_keep [OF assms(1) kr_inv_New] by simp
  obtain suffix raw where sr: "rnd1 4 = Inr suffix" "rnd2 (nat (if keyLen \<le> 0 then 32 else keyLen)) = Inr raw"
    and q: "q = length (kr_store kr)"
    and kr': "kr' = snd (put_entry (archived kr kid suffix) kid (mk_entry kid raw ttl now))"
    using assms(2) by (auto simp: Rotate_eq split: sum.splits)
  have new: "deref kr' q = mk_entry kid raw ttl now"
    using deref_put_new [of "archived kr kid suffix"] by (simp add: kr' q)
  have keys: "kr_keys kr' = (kr_keys (archived kr kid suffix))(kid \<mapsto> q)" by (simp add: kr' q)
  have old: "deref kr' p = deref (archived kr kid suffix) p" if "p < length (kr_store kr)" for p
    using that by (simp add: kr' deref_put_old)
  have arch: "deref (archived kr kid suffix) p =
      (if kr_keys kr kid = Some p then (deref kr p)\<lparr>ke_Revoked := True\<rparr> else deref kr p)"
    if "p < length (kr_store kr)" for p
    using that by (auto simp: archived_def deref_set_revoked [unfolded deref_def] deref_def split: option.split)
  show ?thesis
  proof (intro exI conjI allI impI)
    show "rnd1 4 = Inr suffix" "rnd2 (nat (if keyLen \<le> 0 then 32 else keyLen)) = Inr raw"
      "deref kr' q = mk_entry kid raw ttl now" by (rule sr new)+
  next
    fix now' assume "ttl \<le> 0 \<or> now' \<le> now + ttl"
    then show "Keyring_Lookup kr' kid now' = Inr q"
      by (auto simp: Lookup_iff new keys entry_active_def entry_expired_def mk_entry_def)
  next
    fix p assume "kr_keys kr kid = Some p"
    then show "p \<noteq> q" "deref kr' p = (deref kr p)\<lparr>ke_Revoked := True\<rparr>"
      using kr_invD(1) [OF inv, of kid p] by (simp_all add: q old arch)
  next
    fix kid' now' assume other: "kid' \<noteq> kid \<and> kid' \<noteq> kid @ ''.prev.'' @ hex_EncodeToString suffix"
    then have "kr_keys kr' kid' = kr_keys kr kid'" by (auto simp: keys archived_def split: option.split)
    moreover have "deref kr' p = deref kr p" if "kr_keys kr kid' = Some p" for p
      using that other kr_invD [OF inv] by (auto simp: old arch)
    ultimately show "Keyring_Lookup kr' kid' now' = Keyring_Lookup kr kid' now'"
      by (simp add: Keyring_Lookup_def split: option.split)
  qed
qed

theorem keyring_Rotate_replaces_witness:
  "Keyring_Lookup (snd (Keyring_Rotate (snd (Keyring_Store keyring_New ''k'' [1] 0 5)) ''k'' 2 10
      (\<lambda>n. Inr [0, 0, 0, 0xAB]) (\<lambda>n. Inr [7, 8]) 20)) ''k'' 30 = Inr 1"
proof -
  let ?kr = "snd (Keyring_Store keyring_New ''k'' [1] 0 5)"
  obtain kr' where kr': "Keyring_Rotate ?kr ''k'' 2 10 (\<lambda>n. Inr [0, 0, 0, 0xAB]) (\<lambda>n. Inr [7, 8]) 20 = (Inr 1, kr')"
    by (simp add: Rotate_eq Keyring_Store_def keyring_New_def)
  show ?thesis using keyring_Rotate_replaces [OF keyring_example_run(1) kr'] kr' by auto
qed

text \<open>
  \<open>Rotate\<close> is not atomic: when the system's random source fails for the new key,
  it reports an error, but the previous key is already revoked and the identifier is gone.
\<close>

theorem keyring_Rotate_failure_loses_key:
  assumes "kr_step\<^sup>*\<^sup>* keyring_New kr" and "Keyring_Lookup kr kid now = Inr p"
    and "rnd1 4 = Inr suffix" and "rnd2 (nat (if keyLen \<le> 0 then 32 else keyLen)) = Inl e"
  shows "\<exists>kr'. Keyring_Rotate kr kid keyLen ttl rnd1 rnd2 now = (Inl (wrap_err ''generate random key: %w'' e), kr')
    \<and> ke_Revoked (deref kr' p) \<and> Keyring_Lookup kr' kid now' = Inl (Errorf ''key %q not found'' [AStr kid])"
proof -
  have "kr_inv kr" using kr_steps_keep [OF assms(1) kr_inv_New] by simp
  moreover have p: "kr_keys kr kid = Some p" using assms(2) by (simp add: Lookup_iff)
  ultimately have "p < length (kr_store kr)" by (rule kr_invD)
  then have "ke_Revoked (deref (archived kr kid suffix) p)"
    using p deref_set_revoked [of p kr p] by (simp add: archived_def deref_def)
  then show ?thesis using assms(3,4) p by (simp add: Rotate_eq Keyring_Lookup_def archived_def)
qed

theorem keyring_Rotate_failure_loses_key_witness:
  "Keyring_Lookup (snd (Keyring_Rotate (snd (Keyring_Store keyring_New ''k'' [1] 0 5)) ''k'' 2 10
      (\<lambda>n. Inr [0, 0, 0, 0xAB]) (\<lambda>n. Inl (Sentinel EOF)) 6)) ''k'' 30 = Inl (Errorf ''key %q not found'' [AStr ''k''])"
proof -
  have l: "Keyring_Lookup (snd (Keyring_Store keyring_New ''k'' [1] 0 5)) ''k'' 6 = Inr 0"
    by code_simp
  show ?thesis
    using keyring_Rotate_failure_loses_key [OF keyring_example_run(1) l, of "\<lambda>n. Inr [0, 0, 0, 0xAB]" _ "\<lambda>n. Inl (Sentinel EOF)" 2, OF refl refl, of 10 30]
    by auto
qed

end
