(* ===== verification/Keyed.thy ===== *)
theory Keyed
  imports Prelude
begin

text \<open>
  The contract of the keyed tables of the program (services, peers, policy rules,
  subscribers): a table answers a lookup with what the last operation on that key left there. Each
  table interprets the locale on its own operations.
\<close>

text \<open>
  \<open>effect op k\<close> is what an operation does to the entry of \<open>k\<close>: nothing (\<open>None\<close>), remove it
  (\<open>Some None\<close>) or set it (\<open>Some (Some v)\<close>).
\<close>

fun last_effect :: "('o \<Rightarrow> 'k \<Rightarrow> 'v option option) \<Rightarrow> 'o list \<Rightarrow> 'k \<Rightarrow> 'v option option" where
  "last_effect eff [] k = None"
| "last_effect eff (op # ops) k =
     (case last_effect eff ops k of None \<Rightarrow> eff op k | Some w \<Rightarrow> Some w)"

locale keyed_table =
  fixes get :: "'s \<Rightarrow> 'k \<Rightarrow> 'v option"
    and exec :: "'s \<Rightarrow> 'o \<Rightarrow> 's"
    and effect :: "'o \<Rightarrow> 'k \<Rightarrow> 'v option option"
  assumes get_exec: "get (exec s op) k = (case effect op k of None \<Rightarrow> get s k | Some w \<Rightarrow> w)"
begin

lemma get_run:
  "get (foldl exec s ops) k = (case last_effect effect ops k of None \<Rightarrow> get s k | Some w \<Rightarrow> w)"
  by (induction ops arbitrary: s) (auto simp: get_exec split: option.splits)

text \<open>Operations that do not touch a key can be dropped, and only the last that does counts.\<close>

lemma get_run_untouched:
  assumes "\<And>op. op \<in> set ops \<Longrightarrow> effect op k = None"
  shows "get (foldl exec s ops) k = get s k"
  using assms by (induction ops arbitrary: s) (simp_all add: get_exec)

lemma get_run_last:
  assumes "effect op k = Some w" and "\<And>op. op \<in> set later \<Longrightarrow> effect op k = None"
  shows "get (foldl exec s (earlier @ op # later)) k = w"
  using get_run_untouched [OF assms(2)] assms(1) by (simp add: get_exec)

lemma get_run_inv:
  assumes "\<And>op v. op \<in> set ops \<Longrightarrow> effect op k = Some (Some v) \<Longrightarrow> P v"
    and "get s k = Some v \<Longrightarrow> P v" and "get (foldl exec s ops) k = Some v"
  shows "P v"
  using assms
proof (induction ops arbitrary: s)
  case (Cons op ops)
  then show ?case
    by (metis (no_types, lifting) foldl_Cons get_exec list.set_intros(1,2) option.case_eq_if option.collapse)
qed simp

end

end
