(* ===== verification/Utf8.thy ===== *)
theory Utf8
  imports Prelude
begin

text \<open>
  The parts of \<^verbatim>\<open>unicode/utf8\<close> that \<^verbatim>\<open>encoding/json\<close> rests on: decoding one rune from the
  front of a byte slice and encoding a rune. A rune is a natural number; \<open>None\<close> is the pair
  \<open>(RuneError, 1)\<close> that \<open>DecodeRune\<close> returns for an invalid encoding.
\<close>

section \<open>Definitions\<close>

definition cont_in :: "nat \<Rightarrow> nat \<Rightarrow> byte \<Rightarrow> bool" where
  "cont_in lo hi b \<longleftrightarrow> lo \<le> unat b \<and> unat b \<le> hi"

abbreviation cont :: "byte \<Rightarrow> bool" where
  "cont \<equiv> cont_in 0x80 0xBF"

text \<open>The accepted range of the second byte, and the size, for each first byte above \<open>0x7F\<close>.\<close>

definition lead :: "byte \<Rightarrow> (nat \<times> nat \<times> nat) option" where
  "lead b = (let n = unat b in
     if 0xC2 \<le> n \<and> n \<le> 0xDF then Some (2, 0x80, 0xBF)
     else if n = 0xE0 then Some (3, 0xA0, 0xBF)
     else if n = 0xED then Some (3, 0x80, 0x9F)
     else if 0xE1 \<le> n \<and> n \<le> 0xEF then Some (3, 0x80, 0xBF)
     else if n = 0xF0 then Some (4, 0x90, 0xBF)
     else if 0xF1 \<le> n \<and> n \<le> 0xF3 then Some (4, 0x80, 0xBF)
     else if n = 0xF4 then Some (4, 0x80, 0x8F)
     else None)"

definition decode_rune :: "bytes \<Rightarrow> (nat \<times> nat) option" where
  "decode_rune bs =
     (case bs of
       [] \<Rightarrow> None
     | b0 # rest \<Rightarrow>
        if unat b0 < 0x80 then Some (unat b0, 1)
        else case lead b0 of
               None \<Rightarrow> None
             | Some (n, lo, hi) \<Rightarrow>
                (if length rest < n - 1 \<or> \<not> cont_in lo hi (rest ! 0) then None
                 else if n = 2 then Some (unat b0 mod 32 * 64 + unat (rest ! 0) mod 64, 2)
                 else if \<not> cont (rest ! 1) then None
                 else if n = 3 then Some (unat b0 mod 16 * 4096 + unat (rest ! 0) mod 64 * 64 + unat (rest ! 1) mod 64, 3)
                 else if \<not> cont (rest ! 2) then None
                 else Some (unat b0 mod 8 * 262144 + unat (rest ! 0) mod 64 * 4096 + unat (rest ! 1) mod 64 * 64
                        + unat (rest ! 2) mod 64, 4)))"

definition valid_rune :: "nat \<Rightarrow> bool" where
  "valid_rune r \<longleftrightarrow> r < 0x110000 \<and> \<not> (0xD800 \<le> r \<and> r \<le> 0xDFFF)"

definition RuneError :: nat where "RuneError = 0xFFFD"

definition encode_rune :: "nat \<Rightarrow> bytes" where
  "encode_rune r =
     (let r = (if valid_rune r then r else RuneError)
      in if r < 0x80 then [of_nat r]
         else if r < 0x800 then [of_nat (0xC0 + r div 64), of_nat (0x80 + r mod 64)]
         else if r < 0x10000 then [of_nat (0xE0 + r div 4096), of_nat (0x80 + r div 64 mod 64), of_nat (0x80 + r mod 64)]
         else [of_nat (0xF0 + r div 262144), of_nat (0x80 + r div 4096 mod 64), of_nat (0x80 + r div 64 mod 64),
               of_nat (0x80 + r mod 64)])"

text \<open>The bytes with every invalid byte replaced by U+FFFD: what a conversion through runes yields.\<close>

function sanitize :: "bytes \<Rightarrow> bytes" where
  "sanitize [] = []"
| "sanitize (b # bs) =
     (case decode_rune (b # bs) of
       None \<Rightarrow> encode_rune RuneError @ sanitize bs
     | Some (r, n) \<Rightarrow> take n (b # bs) @ sanitize (drop (n - 1) bs))"
  by pat_completeness auto
termination by (relation "measure length") auto

function valid_utf8 :: "bytes \<Rightarrow> bool" where
  "valid_utf8 [] = True"
| "valid_utf8 (b # bs) =
     (case decode_rune (b # bs) of
       None \<Rightarrow> False
     | Some (r, n) \<Rightarrow> valid_utf8 (drop (n - 1) bs))"
  by pat_completeness auto
termination by (relation "measure length") auto

section \<open>Lemmas\<close>

lemma decode_rune_ascii [simp]: "unat b < 128 \<Longrightarrow> decode_rune (b # bs) = Some (unat b, 1)"
  by (simp add: decode_rune_def)

text \<open>The four shapes of a valid encoding.\<close>

lemma decode_rune_cases:
  assumes "decode_rune bs = Some (r, n)"
  obtains (one) b0 rest where "bs = b0 # rest" "n = 1" "r = unat b0" "unat b0 < 0x80"
  | (two) b0 b1 rest where "bs = b0 # b1 # rest" "n = 2" "lead b0 = Some (2, 0x80, 0xBF)" "cont b1"
      "r = unat b0 mod 32 * 64 + unat b1 mod 64" "0x80 \<le> unat b0"
  | (three) b0 b1 b2 rest lo hi where "bs = b0 # b1 # b2 # rest" "n = 3" "lead b0 = Some (3, lo, hi)" "cont_in lo hi b1" "cont b2"
      "r = unat b0 mod 16 * 4096 + unat b1 mod 64 * 64 + unat b2 mod 64" "0x80 \<le> unat b0"
  | (four) b0 b1 b2 b3 rest lo hi where "bs = b0 # b1 # b2 # b3 # rest" "n = 4" "lead b0 = Some (4, lo, hi)" "cont_in lo hi b1"
      "cont b2" "cont b3" "r = unat b0 mod 8 * 262144 + unat b1 mod 64 * 4096 + unat b2 mod 64 * 64 + unat b3 mod 64" "0x80 \<le> unat b0"
proof -
  obtain b0 rest where bs: "bs = b0 # rest" using assms by (cases bs) (simp_all add: decode_rune_def)
  show thesis
  proof (cases "unat b0 < 0x80")
    case True
    then show thesis using one bs assms by simp
  next
    case False
    then obtain k lo hi where k: "lead b0 = Some (k, lo, hi)" using assms bs by (auto simp: decode_rune_def split: option.splits)
    have len: "k - 1 \<le> length rest" "cont_in lo hi (rest ! 0)"
      using assms bs False k by (auto simp: decode_rune_def split: if_splits)
    have "k = 2 \<and> lo = 0x80 \<and> hi = 0xBF \<or> k = 3 \<or> k = 4"
      using k by (auto simp: lead_def Let_def split: if_splits)
    then consider "k = 2" "lo = 0x80" "hi = 0xBF" | "k = 3" | "k = 4" by blast
    then show thesis
    proof cases
      case 1
      then obtain b1 rest' where "rest = b1 # rest'" using len by (cases rest) auto
      then show thesis using two [of b0 b1 rest'] assms bs False k len 1 by (auto simp: decode_rune_def split: if_splits)
    next
      case 2
      then obtain b1 b2 rest' where "rest = b1 # b2 # rest'" using len
        by (auto simp: numeral_eq_Suc Suc_le_length_iff)
      then show thesis using three [of b0 b1 b2 rest' lo hi] assms bs False k len 2 by (auto simp: decode_rune_def split: if_splits)
    next
      case 3
      then obtain b1 b2 b3 rest' where "rest = b1 # b2 # b3 # rest'" using len
        by (auto simp: numeral_eq_Suc Suc_le_length_iff)
      then show thesis using four [of b0 b1 b2 b3 rest' lo hi] assms bs False k len 3
        by (auto simp: decode_rune_def numeral_2_eq_2 split: if_splits)
    qed
  qed
qed

lemma decode_rune_size:
  "decode_rune bs = Some (r, n) \<Longrightarrow> 1 \<le> n \<and> n \<le> 4 \<and> n \<le> length bs"
  by (erule decode_rune_cases) simp_all

lemma decode_rune_prefix:
  "decode_rune bs = Some (r, n) \<Longrightarrow> decode_rune (take n bs @ tail) = Some (r, n)"
  by (erule decode_rune_cases) (auto simp: decode_rune_def numeral_2_eq_2)

lemma decode_rune_high:
  assumes "decode_rune (b0 # bs) = Some (r, n)" and "0x80 \<le> unat b0" and "b \<in> set (take n (b0 # bs))"
  shows "0x80 \<le> unat b"
proof -
  have "128 \<le> lo" if "lead b0 = Some (k, lo, hi)" for k lo hi
    using that by (auto simp: lead_def Let_def split: if_splits)
  with assms show ?thesis
    by (auto simp: cont_in_def elim!: decode_rune_cases dest: order_trans)
qed

text \<open>The arithmetic of the encoding, lane by lane.\<close>

lemma lane_split:
  assumes "(k :: nat) * m \<le> n" and "n < k * m + m"
  shows "n = k * m + n mod m \<and> n mod m = n - k * m"
proof -
  obtain d where d: "n = k * m + d" using assms(1) le_Suc_ex by blast
  then show ?thesis using assms(2) by simp
qed

lemma unat_split:
  "cont_in lo hi b \<Longrightarrow> 0x80 \<le> lo \<Longrightarrow> hi \<le> 0xBF \<Longrightarrow> unat b = 0x80 + unat b mod 64"
  using lane_split [of 2 64 "unat b"] by (simp add: cont_in_def)

lemma lead_split:
  "lead b = Some (2, lo, hi) \<Longrightarrow> unat b = 0xC0 + unat b mod 32 \<and> 2 \<le> unat b mod 32"
  "lead b = Some (3, lo, hi) \<Longrightarrow> unat b = 0xE0 + unat b mod 16 \<and> 0x80 \<le> lo \<and> hi \<le> 0xBF
     \<and> (unat b mod 16 = 0 \<longrightarrow> 0xA0 \<le> lo) \<and> (unat b mod 16 = 13 \<longrightarrow> hi \<le> 0x9F)"
  "lead b = Some (4, lo, hi) \<Longrightarrow> unat b = 0xF0 + unat b mod 8 \<and> 0x80 \<le> lo \<and> hi \<le> 0xBF
     \<and> (unat b mod 8 = 0 \<longrightarrow> 0x90 \<le> lo) \<and> unat b mod 8 \<le> 4 \<and> (unat b mod 8 = 4 \<longrightarrow> hi \<le> 0x8F)"
  using lane_split [of 6 32 "unat b"] lane_split [of 14 16 "unat b"] lane_split [of 30 8 "unat b"]
  by (simp_all add: lead_def Let_def split: if_splits)

lemma lanes:
  "z < 64 \<Longrightarrow> (q * 64 + z) div 64 = (q :: nat)" "z < 64 \<Longrightarrow> (q * 64 + z) mod 64 = (z :: nat)"
  "r div 4096 = r div 64 div (64 :: nat)" "r div 262144 = r div 64 div 64 div (64 :: nat)"
  by (simp_all flip: div_mult2_eq)

lemma of_nat_byte: "n = unat b \<Longrightarrow> (of_nat n :: byte) = b"
  by simp

lemma encode_decode_rune:
  assumes "decode_rune bs = Some (r, n)"
  shows "valid_rune r \<and> encode_rune r = take n bs"
  using assms
proof (cases rule: decode_rune_cases)
  case (one b0 rest)
  then show ?thesis by (simp add: valid_rune_def encode_rune_def)
next
  case (two b0 b1 rest)
  define x y where "x = unat b0 mod 32" and "y = unat b1 mod 64"
  have b: "unat b0 = 0xC0 + x" "unat b1 = 0x80 + y" "2 \<le> x" "x < 32" "y < 64" "r = x * 64 + y"
    using lead_split(1) [OF two(3)] unat_split [OF two(4)] two(5) by (simp_all add: x_def y_def)
  then have "r div 64 = x" "r mod 64 = y" "0x80 \<le> r" "r < 0x800" by auto
  with b show ?thesis
    by (simp add: valid_rune_def encode_rune_def two(1,2) numeral_2_eq_2 of_nat_byte del: of_nat_add)
next
  case (three b0 b1 b2 rest lo hi)
  define x y z where "x = unat b0 mod 16" and "y = unat b1 mod 64" and "z = unat b2 mod 64"
  have b: "unat b0 = 0xE0 + x" "unat b1 = 0x80 + y" "unat b2 = 0x80 + z" "x < 16" "y < 64" "z < 64" "r = x * 4096 + y * 64 + z"
    using lead_split(2) [OF three(3)] unat_split [OF three(4)] unat_split [OF three(5)] three(6) by (simp_all add: x_def y_def z_def)
  have "x = 0 \<longrightarrow> 32 \<le> y" "x = 13 \<longrightarrow> y < 32"
    using lead_split(2) [OF three(3)] three(4) b(2) by (auto simp: cont_in_def x_def)
  note xy = this
  have "\<not> (0xD800 \<le> r \<and> r \<le> 0xDFFF)"
  proof (cases "x = 13")
    case True
    then show ?thesis using b xy by linarith
  next
    case False
    then have "x \<le> 12 \<or> 14 \<le> x" by linarith
    then show ?thesis using b by linarith
  qed
  moreover have "0x800 \<le> r" using b xy by (cases "x = 0") linarith+
  ultimately have r: "0x800 \<le> r" "r < 0x10000" "valid_rune r" using b by (simp_all add: valid_rune_def)
  have "r = (x * 64 + y) * 64 + z" using b by simp
  then have "r div 4096 = x" "r div 64 mod 64 = y" "r mod 64 = z" using b(5,6) by (simp_all only: lanes)
  with b r show ?thesis
    by (simp add: encode_rune_def three(1,2) numeral_3_eq_3 of_nat_byte del: of_nat_add)
next
  case (four b0 b1 b2 b3 rest lo hi)
  define x y z u where "x = unat b0 mod 8" and "y = unat b1 mod 64" and "z = unat b2 mod 64" and "u = unat b3 mod 64"
  have b: "unat b0 = 0xF0 + x" "unat b1 = 0x80 + y" "unat b2 = 0x80 + z" "unat b3 = 0x80 + u" "x < 8" "y < 64" "z < 64" "u < 64"
    "r = x * 262144 + y * 4096 + z * 64 + u"
    using lead_split(3) [OF four(3)] unat_split [OF four(4)] unat_split [OF four(5)] unat_split [OF four(6)] four(7)
    by (simp_all add: x_def y_def z_def u_def)
  have "x = 0 \<longrightarrow> 16 \<le> y" "x \<le> 4" "x = 4 \<longrightarrow> y < 16"
    using lead_split(3) [OF four(3)] four(4) b(2) by (auto simp: cont_in_def x_def)
  note xy = this
  have r: "0x10000 \<le> r" using b xy by (cases "x = 0") linarith+
  moreover have "r < 0x110000" using b xy by (cases "x = 4") linarith+
  ultimately have "valid_rune r" by (simp add: valid_rune_def)
  note r = r this
  have "r = ((x * 64 + y) * 64 + z) * 64 + u" using b by simp
  then have "r div 262144 = x" "r div 4096 mod 64 = y" "r div 64 mod 64 = z" "r mod 64 = u"
    using b(6-8) by (simp_all only: lanes)
  with b r show ?thesis
    by (simp add: encode_rune_def four(1,2) of_nat_byte del: of_nat_add)
qed

lemma sanitize_valid: "valid_utf8 bs \<Longrightarrow> sanitize bs = bs"
proof (induction bs rule: valid_utf8.induct)
  case (2 b bs)
  then obtain r n where rn: "decode_rune (b # bs) = Some (r, n)" "valid_utf8 (drop (n - 1) bs)"
    by (auto split: option.splits)
  then have "drop n (b # bs) = drop (n - 1) bs" using decode_rune_size [OF rn(1)] by (cases n) simp_all
  then show ?case using 2 rn append_take_drop_id [of n "b # bs"] by simp
qed simp

end
