(* ===== verification/Json.thy ===== *)
theory Json
  imports Utf8 Hex
begin

text \<open>
  The parts of \<^verbatim>\<open>encoding/json\<close> the program uses through \<^verbatim>\<open>protocol/codec.go\<close>: \<open>Marshal\<close>
  of flat structs and \<open>Unmarshal\<close> of any input into them. Texts are byte lists. \<open>Unmarshal\<close> is
  tokenizing, parsing the tokens with a stack, and storing the members of the object into the fields of the
  struct; the message of a JSON error is not modelled, only which of the two kinds it is.
\<close>

section \<open>Encoding\<close>

definition hexd :: "nat \<Rightarrow> byte" where
  "hexd n = of_char (hex_digit n)"

definition html_safe :: "byte \<Rightarrow> bool" where
  "html_safe b \<longleftrightarrow> 0x20 \<le> unat b \<and> unat b < 0x80 \<and> b \<notin> {0x22, 0x26, 0x3C, 0x3E, 0x5C}"

definition escape_byte :: "byte \<Rightarrow> bytes" where
  "escape_byte b =
     (if b = 0x5C \<or> b = 0x22 then [0x5C, b]
      else if b = 0x08 then [0x5C, 0x62]
      else if b = 0x0C then [0x5C, 0x66]
      else if b = 0x0A then [0x5C, 0x6E]
      else if b = 0x0D then [0x5C, 0x72]
      else if b = 0x09 then [0x5C, 0x74]
      else [0x5C, 0x75, 0x30, 0x30, hexd (unat b div 16), hexd (unat b mod 16)])"

function quote_body :: "bytes \<Rightarrow> bytes" where
  "quote_body [] = []"
| "quote_body (b # bs) =
     (if unat b < 0x80 then (if html_safe b then [b] else escape_byte b) @ quote_body bs
      else case decode_rune (b # bs) of
        None \<Rightarrow> [0x5C, 0x75, 0x66, 0x66, 0x66, 0x64] @ quote_body bs
      | Some (r, n) \<Rightarrow>
         (if r = 0x2028 \<or> r = 0x2029 then [0x5C, 0x75, 0x32, 0x30, 0x32, hexd (r mod 16)] else take n (b # bs))
          @ quote_body (drop (n - 1) bs))"
  by pat_completeness auto
termination by (relation "measure length") auto

definition json_string :: "bytes \<Rightarrow> bytes" where
  "json_string s = [0x22] @ quote_body s @ [0x22]"

fun itoa :: "nat \<Rightarrow> bytes" where
  "itoa n = (if n < 10 then [of_nat (0x30 + n)] else itoa (n div 10) @ [of_nat (0x30 + n mod 10)])"

declare itoa.simps [simp del]

fun json_members :: "(string \<times> bytes) list \<Rightarrow> bytes" where
  "json_members [] = []"
| "json_members [(k, v)] = json_string (bytes_of_string k) @ [0x3A] @ v"
| "json_members ((k, v) # ms) = json_string (bytes_of_string k) @ [0x3A] @ v @ [0x2C] @ json_members ms"

definition json_object :: "(string \<times> bytes) list \<Rightarrow> bytes" where
  "json_object ms = [0x7B] @ json_members ms @ [0x7D]"

fun json_elems :: "bytes list \<Rightarrow> bytes" where
  "json_elems [] = []"
| "json_elems [v] = v"
| "json_elems (v # vs) = v @ [0x2C] @ json_elems vs"

definition json_array :: "bytes list \<Rightarrow> bytes" where
  "json_array vs = [0x5B] @ json_elems vs @ [0x5D]"

section \<open>Tokens\<close>

datatype tok = TLBrace | TRBrace | TLBrack | TRBrack | TColon | TComma | TTrue | TFalse | TNull
  | TString bytes | TNumber bytes

definition is_ws :: "byte \<Rightarrow> bool" where
  "is_ws b \<longleftrightarrow> b \<in> {0x20, 0x09, 0x0A, 0x0D}"

definition is_hex :: "byte \<Rightarrow> bool" where
  "is_hex b \<longleftrightarrow> hex_val (char_of (unat b)) \<noteq> None"

definition is_digit :: "byte \<Rightarrow> bool" where
  "is_digit b \<longleftrightarrow> 0x30 \<le> unat b \<and> unat b \<le> 0x39"

text \<open>The body of a string up to its closing quote, still escaped, and what follows.\<close>

fun scan_string :: "bytes \<Rightarrow> (bytes \<times> bytes) option" where
  "scan_string [] = None"
| "scan_string (c # cs) =
     (if c = 0x22 then Some ([], cs)
      else if unat c < 0x20 then None
      else if c = 0x5C then
        (case cs of
           [] \<Rightarrow> None
         | e # es \<Rightarrow>
            (if e = 0x75 then
               (case es of
                  h1 # h2 # h3 # h4 # fs \<Rightarrow>
                    (if is_hex h1 \<and> is_hex h2 \<and> is_hex h3 \<and> is_hex h4
                     then map_option (\<lambda>(body, rest). (c # e # h1 # h2 # h3 # h4 # body, rest)) (scan_string fs) else None)
                | _ \<Rightarrow> None)
             else if e \<in> {0x62, 0x66, 0x6E, 0x72, 0x74, 0x5C, 0x2F, 0x22}
             then map_option (\<lambda>(body, rest). (c # e # body, rest)) (scan_string es)
             else None))
      else map_option (\<lambda>(body, rest). (c # body, rest)) (scan_string cs))"

text \<open>The grammar of numbers.\<close>

definition exp_ok :: "bytes \<Rightarrow> bool" where
  "exp_ok r =
     (case r of
       [] \<Rightarrow> True
     | e # s \<Rightarrow> e \<in> {0x65, 0x45} \<and>
        (let ds = (case s of [] \<Rightarrow> [] | c # t \<Rightarrow> if c \<in> {0x2B, 0x2D} then t else s)
         in ds \<noteq> [] \<and> list_all is_digit ds))"

definition is_number :: "bytes \<Rightarrow> bool" where
  "is_number lit =
     (let ds = (case lit of [] \<Rightarrow> [] | c # t \<Rightarrow> if c = 0x2D then t else lit);
          i = takeWhile is_digit ds;
          r = dropWhile is_digit ds
      in i \<noteq> [] \<and> (length i = 1 \<or> hd i \<noteq> 0x30)
         \<and> (case r of
              [] \<Rightarrow> True
            | c # f \<Rightarrow> if c = 0x2E then takeWhile is_digit f \<noteq> [] \<and> exp_ok (dropWhile is_digit f) else exp_ok r))"

definition num_char :: "byte \<Rightarrow> bool" where
  "num_char b \<longleftrightarrow> is_digit b \<or> b \<in> {0x2B, 0x2D, 0x2E, 0x45, 0x65}"

definition punct :: "byte \<Rightarrow> tok option" where
  "punct b =
     (if b = 0x7B then Some TLBrace else if b = 0x7D then Some TRBrace
      else if b = 0x5B then Some TLBrack else if b = 0x5D then Some TRBrack
      else if b = 0x3A then Some TColon else if b = 0x2C then Some TComma else None)"

definition word_true :: bytes where "word_true = [0x74, 0x72, 0x75, 0x65]"
definition word_false :: bytes where "word_false = [0x66, 0x61, 0x6C, 0x73, 0x65]"
definition word_null :: bytes where "word_null = [0x6E, 0x75, 0x6C, 0x6C]"

lemma scan_string_length: "scan_string cs = Some (body, rest) \<Longrightarrow> length rest < length cs"
proof (induction cs arbitrary: body rest rule: scan_string.induct)
  case (2 c cs)
  then show ?case
    by (fastforce split: if_splits list.splits)
qed simp

function tokenize :: "bytes \<Rightarrow> tok list option" where
  "tokenize [] = Some []"
| "tokenize (b # bs) =
     (if is_ws b then tokenize bs
      else case punct b of
        Some t \<Rightarrow> map_option (Cons t) (tokenize bs)
      | None \<Rightarrow>
         (if b = 0x22 then
            (case scan_string bs of
               None \<Rightarrow> None
             | Some (body, rest) \<Rightarrow> map_option (Cons (TString body)) (tokenize rest))
          else if b = 0x2D \<or> is_digit b then
            (let lit = b # takeWhile num_char bs
             in if is_number lit then map_option (Cons (TNumber lit)) (tokenize (dropWhile num_char bs)) else None)
          else if take 4 (b # bs) = word_true then map_option (Cons TTrue) (tokenize (drop 3 bs))
          else if take 5 (b # bs) = word_false then map_option (Cons TFalse) (tokenize (drop 4 bs))
          else if take 4 (b # bs) = word_null then map_option (Cons TNull) (tokenize (drop 3 bs))
          else None))"
  by pat_completeness auto
termination
  by (relation "measure length") (auto dest: scan_string_length simp: less_Suc_eq_le length_dropWhile_le)

declare tokenize.simps(2) [simp del]

section \<open>Values\<close>

text \<open>Strings and numbers are kept as they are written.\<close>

datatype json = JNull | JBool bool | JNumber bytes | JString bytes | JArray "json list" | JObject "(bytes \<times> json) list"

text \<open>
  The containers that are open, innermost first, with what they hold so far, and what the parser expects:
  a value, or the end of an array that may be empty; a key, or the end of an object that may be
  empty; a colon; a comma or the end of the container; nothing more.
\<close>

datatype ctx = CArray "json list" | CObject "(bytes \<times> json) list" bytes

datatype expect = EValue | EValueOrEnd | EKey | EKeyOrEnd | EColon | EComma | EDone json

definition maxNestingDepth :: nat where "maxNestingDepth = 10000"

fun deliver :: "json \<Rightarrow> ctx list \<Rightarrow> ctx list \<times> expect" where
  "deliver v [] = ([], EDone v)"
| "deliver v (CArray vs # st) = (CArray (vs @ [v]) # st, EComma)"
| "deliver v (CObject ms k # st) = (CObject (ms @ [(k, v)]) k # st, EComma)"

fun scalar :: "tok \<Rightarrow> json option" where
  "scalar TTrue = Some (JBool True)"
| "scalar TFalse = Some (JBool False)"
| "scalar TNull = Some JNull"
| "scalar (TString s) = Some (JString s)"
| "scalar (TNumber n) = Some (JNumber n)"
| "scalar _ = None"

fun open_value :: "ctx list \<Rightarrow> tok \<Rightarrow> (ctx list \<times> expect) option" where
  "open_value st TLBrace = (if length st < maxNestingDepth then Some (CObject [] [] # st, EKeyOrEnd) else None)"
| "open_value st TLBrack = (if length st < maxNestingDepth then Some (CArray [] # st, EValueOrEnd) else None)"
| "open_value st t = map_option (\<lambda>v. deliver v st) (scalar t)"

fun pstep :: "ctx list \<times> expect \<Rightarrow> tok \<Rightarrow> (ctx list \<times> expect) option" where
  "pstep (st, EValue) t = open_value st t"
| "pstep (CArray vs # st, EValueOrEnd) TRBrack = Some (deliver (JArray vs) st)"
| "pstep (st, EValueOrEnd) t = open_value st t"
| "pstep (CObject ms k # st, EKeyOrEnd) TRBrace = Some (deliver (JObject ms) st)"
| "pstep (CObject ms k # st, EKeyOrEnd) (TString s) = Some (CObject ms s # st, EColon)"
| "pstep (CObject ms k # st, EKey) (TString s) = Some (CObject ms s # st, EColon)"
| "pstep (st, EColon) TColon = Some (st, EValue)"
| "pstep (CArray vs # st, EComma) TComma = Some (CArray vs # st, EValue)"
| "pstep (CArray vs # st, EComma) TRBrack = Some (deliver (JArray vs) st)"
| "pstep (CObject ms k # st, EComma) TComma = Some (CObject ms k # st, EKey)"
| "pstep (CObject ms k # st, EComma) TRBrace = Some (deliver (JObject ms) st)"
| "pstep _ _ = None"

fun prun :: "ctx list \<times> expect \<Rightarrow> tok list \<Rightarrow> (ctx list \<times> expect) option" where
  "prun s [] = Some s"
| "prun s (t # ts) = (case pstep s t of None \<Rightarrow> None | Some s' \<Rightarrow> prun s' ts)"

definition json_parse :: "bytes \<Rightarrow> json option" where
  "json_parse data =
     (case tokenize data of
       None \<Rightarrow> None
     | Some ts \<Rightarrow> (case prun ([], EValue) ts of Some ([], EDone v) \<Rightarrow> Some v | _ \<Rightarrow> None))"

section \<open>Decoding\<close>

text \<open>\<open>getu4\<close> on four digits that the tokenizer has checked.\<close>

definition u4 :: "bytes \<Rightarrow> nat" where
  "u4 bs = foldl (\<lambda>acc b. 16 * acc + (case hex_val (char_of (unat b)) of None \<Rightarrow> 0 | Some d \<Rightarrow> d)) 0 (take 4 bs)"

definition is_surrogate :: "nat \<Rightarrow> bool" where
  "is_surrogate r \<longleftrightarrow> 0xD800 \<le> r \<and> r \<le> 0xDFFF"

definition utf16_DecodeRune :: "nat \<Rightarrow> nat \<Rightarrow> nat option" where
  "utf16_DecodeRune r1 r2 =
     (if 0xD800 \<le> r1 \<and> r1 < 0xDC00 \<and> 0xDC00 \<le> r2 \<and> r2 \<le> 0xDFFF
      then Some ((r1 - 0xD800) * 1024 + (r2 - 0xDC00) + 0x10000) else None)"

definition unescape :: "byte \<Rightarrow> byte" where
  "unescape e =
     (if e = 0x62 then 0x08 else if e = 0x66 then 0x0C else if e = 0x6E then 0x0A
      else if e = 0x72 then 0x0D else if e = 0x74 then 0x09 else e)"

function unquote :: "bytes \<Rightarrow> bytes" where
  "unquote [] = []"
| "unquote (c # cs) =
     (if c = 0x5C then
        (case cs of
           [] \<Rightarrow> []
         | e # es \<Rightarrow>
            (if e = 0x75 then
               (let rr = u4 es; fs = drop 4 es
                in if is_surrogate rr then
                     (case (if take 2 fs = [0x5C, 0x75] then utf16_DecodeRune rr (u4 (drop 2 fs)) else None) of
                        Some dec \<Rightarrow> encode_rune dec @ unquote (drop 6 fs)
                      | None \<Rightarrow> encode_rune RuneError @ unquote fs)
                   else encode_rune rr @ unquote fs)
             else unescape e # unquote es))
      else if unat c < 0x80 then c # unquote cs
      else case decode_rune (c # cs) of
             None \<Rightarrow> encode_rune RuneError @ unquote cs
           | Some (r, n) \<Rightarrow> encode_rune r @ unquote (drop (n - 1) cs))"
  by pat_completeness auto
termination by (relation "measure length") auto

declare unquote.simps(2) [simp del]

text \<open>
  The names of the fields are ASCII, so a key matches one of them up to case exactly when its runes are
  the letters of the name, in either case, or the two other runes that fold to ASCII letters: U+017F to \<open>s\<close>
  and U+212A to \<open>k\<close>.
\<close>

function fold_name :: "bytes \<Rightarrow> bytes" where
  "fold_name [] = []"
| "fold_name (b # bs) =
     (if 0x61 \<le> unat b \<and> unat b \<le> 0x7A then (b - 0x20) # fold_name bs
      else if take 2 (b # bs) = [0xC5, 0xBF] then 0x53 # fold_name (drop 1 bs)
      else if take 3 (b # bs) = [0xE2, 0x84, 0xAA] then 0x4B # fold_name (drop 2 bs)
      else b # fold_name bs)"
  by pat_completeness auto
termination by (relation "measure length") auto

definition json_SyntaxError :: error where
  "json_SyntaxError = Errorf ''json: syntax error'' []"

definition json_TypeError :: error where
  "json_TypeError = Errorf ''json: cannot unmarshal'' []"

type_synonym 'r setter = "json \<Rightarrow> 'r \<Rightarrow> error option \<times> 'r"

definition find_field :: "(string \<times> 'a) list \<Rightarrow> bytes \<Rightarrow> 'a option" where
  "find_field fields key =
     (case find (\<lambda>(name, s). bytes_of_string name = key) fields of
       Some (name, s) \<Rightarrow> Some s
     | None \<Rightarrow> map_option snd (find (\<lambda>(name, s). fold_name (bytes_of_string name) = fold_name key) fields))"

text \<open>Decoding goes on after a mismatch, and the first one is reported.\<close>

fun decode_members :: "(string \<times> 'r setter) list \<Rightarrow> (bytes \<times> json) list \<Rightarrow> 'r \<Rightarrow> error option \<times> 'r" where
  "decode_members fields [] r = (None, r)"
| "decode_members fields ((k, v) # ms) r =
     (case find_field fields (unquote k) of
       None \<Rightarrow> decode_members fields ms r
     | Some put \<Rightarrow>
        (let (e1, r1) = put v r; (e2, r2) = decode_members fields ms r1
         in (case e1 of None \<Rightarrow> e2 | Some e \<Rightarrow> Some e, r2)))"

definition json_Unmarshal :: "(string \<times> 'r setter) list \<Rightarrow> bytes \<Rightarrow> 'r \<Rightarrow> error option \<times> 'r" where
  "json_Unmarshal fields data r =
     (case json_parse data of
       None \<Rightarrow> (Some json_SyntaxError, r)
     | Some JNull \<Rightarrow> (None, r)
     | Some (JObject ms) \<Rightarrow> decode_members fields ms r
     | Some _ \<Rightarrow> (Some json_TypeError, r))"

subsection \<open>Fields\<close>

fun set_string :: "(string \<Rightarrow> 'r \<Rightarrow> 'r) \<Rightarrow> 'r setter" where
  "set_string upd (JString s) r = (None, upd (string_of_bytes (unquote s)) r)"
| "set_string upd JNull r = (None, r)"
| "set_string upd _ r = (Some json_TypeError, r)"

fun parse_digits :: "nat \<Rightarrow> bytes \<Rightarrow> nat option" where
  "parse_digits acc [] = Some acc"
| "parse_digits acc (b # bs) = (if is_digit b then parse_digits (10 * acc + (unat b - 0x30)) bs else None)"

text \<open>\<open>ParseUint\<close> of a literal, refused above \<open>max\<close>.\<close>

fun set_uint :: "nat \<Rightarrow> (nat \<Rightarrow> 'r \<Rightarrow> 'r) \<Rightarrow> 'r setter" where
  "set_uint mx upd (JNumber lit) r =
     (case parse_digits 0 lit of
       None \<Rightarrow> (Some json_TypeError, r)
     | Some n \<Rightarrow> if n \<le> mx then (None, upd n r) else (Some json_TypeError, r))"
| "set_uint mx upd JNull r = (None, r)"
| "set_uint mx upd _ r = (Some json_TypeError, r)"

definition parse_int :: "bytes \<Rightarrow> int option" where
  "parse_int lit =
     (case lit of
       [] \<Rightarrow> None
     | c # ds \<Rightarrow> if c = 0x2D then map_option (\<lambda>n. - int n) (parse_digits 0 ds) else map_option int (parse_digits 0 lit))"

fun set_int :: "(int \<Rightarrow> 'r \<Rightarrow> 'r) \<Rightarrow> 'r setter" where
  "set_int upd (JNumber lit) r =
     (case parse_int lit of
       None \<Rightarrow> (Some json_TypeError, r)
     | Some n \<Rightarrow> if - (2 ^ 63) \<le> n \<and> n < 2 ^ 63 then (None, upd n r) else (Some json_TypeError, r))"
| "set_int upd JNull r = (None, r)"
| "set_int upd _ r = (Some json_TypeError, r)"

text \<open>
  A \<open>float64\<close> field: the literal is kept as it is written. \<open>ParseFloat\<close> fails only when the value
  rounds beyond the largest finite number, that is, from \<open>2 ^ 1024 - 2 ^ 970\<close> on.
\<close>

definition digits_nat :: "bytes \<Rightarrow> nat" where
  "digits_nat ds = foldl (\<lambda>acc b. 10 * acc + (unat b - 0x30)) 0 ds"

definition float_overflows :: "bytes \<Rightarrow> bool" where
  "float_overflows lit =
     (let ds = (case lit of [] \<Rightarrow> [] | c # t \<Rightarrow> if c = 0x2D then t else lit);
          i = takeWhile is_digit ds;
          r = dropWhile is_digit ds;
          f = (case r of [] \<Rightarrow> [] | c # t \<Rightarrow> if c = 0x2E then takeWhile is_digit t else []);
          x = (case r of [] \<Rightarrow> [] | c # t \<Rightarrow> if c = 0x2E then dropWhile is_digit t else r);
          e = (case tl x of [] \<Rightarrow> 0 | c # t \<Rightarrow> if c = 0x2D then - int (digits_nat t)
                 else if c = 0x2B then int (digits_nat t) else int (digits_nat (tl x)));
          m = digits_nat (i @ f);
          k = e - int (length f);
          bound = 2 ^ 1024 - 2 ^ 970
      in if 0 \<le> k then bound \<le> m * 10 ^ nat k else bound * 10 ^ nat (- k) \<le> m)"

fun set_float :: "(bytes \<Rightarrow> 'r \<Rightarrow> 'r) \<Rightarrow> 'r setter" where
  "set_float upd (JNumber lit) r = (if float_overflows lit then (Some json_TypeError, r) else (None, upd lit r))"
| "set_float upd JNull r = (None, r)"
| "set_float upd _ r = (Some json_TypeError, r)"

text \<open>Elements that are not strings leave the empty string and an error.\<close>

fun string_elems :: "json list \<Rightarrow> error option \<times> string list" where
  "string_elems [] = (None, [])"
| "string_elems (v # vs) =
     (let (e1, s) = set_string (\<lambda>s r. s) v ''''; (e2, ss) = string_elems vs
      in (case e1 of None \<Rightarrow> e2 | Some e \<Rightarrow> Some e, s # ss))"

fun set_strings :: "(string list \<Rightarrow> 'r \<Rightarrow> 'r) \<Rightarrow> 'r setter" where
  "set_strings upd (JArray vs) r = (case string_elems vs of (e, ss) \<Rightarrow> (e, upd ss r))"
| "set_strings upd JNull r = (None, upd [] r)"
| "set_strings upd _ r = (Some json_TypeError, r)"

section \<open>Strings survive\<close>

lemma hexd_simps [simp]: "n < 16 \<Longrightarrow> is_hex (hexd n)" "n < 16 \<Longrightarrow> hex_val (char_of (unat (hexd n))) = Some n"
  by (simp_all add: hexd_def is_hex_def)

lemma is_hex_consts [simp]: "is_hex 0x30" "is_hex 0x32" "is_hex 0x64" "is_hex 0x66"
  by (simp_all add: is_hex_def hex_val_def)

text \<open>A piece of a string body that the scanner passes over as a whole.\<close>

definition scan_piece :: "bytes \<Rightarrow> bool" where
  "scan_piece p \<longleftrightarrow> (\<forall>tail. scan_string (p @ tail) = map_option (\<lambda>(body, rest). (p @ body, rest)) (scan_string tail))"

lemma scan_piece_append: "scan_piece p \<Longrightarrow> scan_piece q \<Longrightarrow> scan_piece (p @ q)"
  by (simp add: scan_piece_def option.map_comp comp_def split_def)

lemma scan_piece_Nil: "scan_piece []"
  by (simp add: scan_piece_def option.map_ident split_def)

lemma scan_piece_byte: "0x20 \<le> unat b \<Longrightarrow> b \<noteq> 0x22 \<Longrightarrow> b \<noteq> 0x5C \<Longrightarrow> scan_piece [b]"
  by (simp add: scan_piece_def)

lemma scan_piece_u: "is_hex a \<Longrightarrow> is_hex b \<Longrightarrow> is_hex c \<Longrightarrow> is_hex d \<Longrightarrow> scan_piece [0x5C, 0x75, a, b, c, d]"
  by (simp add: scan_piece_def)

lemma scan_piece_simple: "e \<in> {0x62, 0x66, 0x6E, 0x72, 0x74, 0x5C, 0x2F, 0x22} \<Longrightarrow> scan_piece [0x5C, e]"
  by (auto simp: scan_piece_def)

lemma scan_piece_escape: "unat b < 0x80 \<Longrightarrow> scan_piece (escape_byte b)"
proof -
  assume "unat b < 0x80"
  then have "scan_piece [0x5C, 0x75, 0x30, 0x30, hexd (unat b div 16), hexd (unat b mod 16)]"
    by (intro scan_piece_u) simp_all
  then show ?thesis by (simp add: escape_byte_def scan_piece_simple)
qed

lemma high_byte_simps: "0x80 \<le> unat (b :: byte) \<Longrightarrow> b \<noteq> 0x22 \<and> b \<noteq> 0x5C"
  by auto

lemma scan_piece_high: "(\<And>b. b \<in> set p \<Longrightarrow> 0x80 \<le> unat b) \<Longrightarrow> scan_piece p"
proof (induction p)
  case (Cons b p)
  then have "0x80 \<le> unat b" by simp
  then have "scan_piece [b]" using high_byte_simps [of b] by (intro scan_piece_byte) simp_all
  then show ?case using Cons scan_piece_append [of "[b]" p] by simp
qed (simp add: scan_piece_Nil)

lemma scan_piece_quote: "scan_piece (quote_body s)"
proof (induction s rule: quote_body.induct)
  case (2 b bs)
  show ?case
  proof (cases "unat b < 0x80")
    case True
    have "scan_piece (if html_safe b then [b] else escape_byte b)"
      using scan_piece_byte [of b] scan_piece_escape [OF True] by (auto simp: html_safe_def)
    then show ?thesis using 2(1) True scan_piece_append by simp
  next
    case False
    show ?thesis
    proof (cases "decode_rune (b # bs)")
      case None
      have "scan_piece [0x5C, 0x75, 0x66, 0x66, 0x66, 0x64]" by (rule scan_piece_u) simp_all
      then show ?thesis using 2(2) [OF False None] False None scan_piece_append by fastforce
    next
      case (Some rn)
      obtain r n where rn: "rn = (r, n)" by (cases rn)
      have "scan_piece [0x5C, 0x75, 0x32, 0x30, 0x32, hexd (r mod 16)]" by (rule scan_piece_u) simp_all
      moreover have "scan_piece (take n (b # bs))"
        using decode_rune_high [of b bs r n] Some rn False by (intro scan_piece_high) simp
      ultimately show ?thesis
        using 2(3) [OF False Some rn [symmetric]] False Some rn by (simp add: scan_piece_append del: append_Cons)
    qed
  qed
qed (simp add: scan_piece_Nil)

lemma scan_string_quote [simp]: "scan_string (quote_body s @ 0x22 # rest) = Some (quote_body s, rest)"
  using scan_piece_quote [of s] by (simp add: scan_piece_def)

lemma tokenize_string [simp]: "tokenize (json_string s @ rest) = map_option (Cons (TString (quote_body s))) (tokenize rest)"
  by (simp add: json_string_def tokenize.simps(2) is_ws_def punct_def)

text \<open>What a piece of a string body stands for.\<close>

definition unquotes_to :: "bytes \<Rightarrow> bytes \<Rightarrow> bool" where
  "unquotes_to p v \<longleftrightarrow> (\<forall>tail. unquote (p @ tail) = v @ unquote tail)"

lemma unquotes_ascii: "unat b < 0x80 \<Longrightarrow> b \<noteq> 0x5C \<Longrightarrow> unquotes_to [b] [b]"
  by (simp add: unquotes_to_def unquote.simps(2))

lemma unquotes_simple: "e \<noteq> 0x75 \<Longrightarrow> unquotes_to [0x5C, e] [unescape e]"
  by (simp add: unquotes_to_def unquote.simps(2))

lemma unquotes_u:
  "\<not> is_surrogate (u4 [a, b, c, d]) \<Longrightarrow> unquotes_to [0x5C, 0x75, a, b, c, d] (encode_rune (u4 [a, b, c, d]))"
  by (simp add: unquotes_to_def unquote.simps(2) u4_def)

lemma u4_hexd: "x < 16 \<Longrightarrow> y < 16 \<Longrightarrow> u4 [0x30, 0x30, hexd x, hexd y] = 16 * x + y"
  by (simp add: u4_def) (simp add: hex_val_def)

lemma unquotes_escape:
  assumes "unat b < 0x80"
  shows "unquotes_to (escape_byte b) [b]"
proof -
  have "unquotes_to [0x5C, 0x75, 0x30, 0x30, hexd (unat b div 16), hexd (unat b mod 16)] (encode_rune (unat b))"
    using unquotes_u [of "0x30" "0x30" "hexd (unat b div 16)" "hexd (unat b mod 16)"] assms
    by (simp add: u4_hexd is_surrogate_def)
  moreover have "encode_rune (unat b) = [b]"
    using assms by (simp add: encode_rune_def valid_rune_def)
  moreover have "unquotes_to [0x5C, e] [c]" if "e \<noteq> 0x75" "unescape e = c" for e c
    using unquotes_simple [OF that(1)] that(2) by simp
  ultimately show ?thesis by (auto simp: escape_byte_def unescape_def)
qed

lemma unquotes_rune:
  assumes "decode_rune (b # bs) = Some (r, n)" and "0x80 \<le> unat b"
  shows "unquotes_to (take n (b # bs)) (take n (b # bs))"
  unfolding unquotes_to_def
proof
  fix tail
  obtain k where k: "n = Suc k" "k \<le> length bs" using decode_rune_size [OF assms(1)] by (cases n) auto
  have "decode_rune (b # take k bs @ tail) = Some (r, n)"
    using decode_rune_prefix [OF assms(1), of tail] k by simp
  then show "unquote (take n (b # bs) @ tail) = take n (b # bs) @ unquote tail"
    using encode_decode_rune [OF assms(1)] high_byte_simps [OF assms(2)] assms(2) k
    by (simp add: unquote.simps(2))
qed

lemma u4_2028: "r = 0x2028 \<or> r = 0x2029 \<Longrightarrow> u4 [0x32, 0x30, 0x32, hexd (r mod 16)] = r"
  by (auto simp: u4_def) (simp_all add: hex_val_def)

lemma u4_fffd: "u4 [0x66, 0x66, 0x66, 0x64] = RuneError"
  by (simp add: u4_def hex_val_def RuneError_def)

lemma unquotes_to_append: "unquotes_to p v \<Longrightarrow> unquote (p @ tail) = v @ unquote tail"
  by (simp add: unquotes_to_def)

lemma unquote_quote [simp]: "unquote (quote_body s) = sanitize s"
proof (induction s rule: quote_body.induct)
  case (2 b bs)
  show ?case
  proof (cases "unat b < 0x80")
    case True
    have "unquotes_to (if html_safe b then [b] else escape_byte b) [b]"
      using unquotes_ascii [of b] unquotes_escape [OF True] True by (auto simp: html_safe_def)
    then show ?thesis using 2(1) True by (simp add: unquotes_to_append)
  next
    case False
    show ?thesis
    proof (cases "decode_rune (b # bs)")
      case None
      have "unquotes_to [0x5C, 0x75, 0x66, 0x66, 0x66, 0x64] (encode_rune RuneError)"
        using unquotes_u [of "0x66" "0x66" "0x66" "0x64"] by (simp add: u4_fffd is_surrogate_def RuneError_def)
      from unquotes_to_append [OF this] show ?thesis using 2(2) [OF False None] False None by simp
    next
      case (Some rn)
      obtain r n where rn: "rn = (r, n)" by (cases rn)
      have "unquotes_to (take n (b # bs)) (take n (b # bs))"
        using unquotes_rune Some rn False by simp
      moreover have "unquotes_to [0x5C, 0x75, 0x32, 0x30, 0x32, hexd (r mod 16)] (take n (b # bs))"
        if "r = 0x2028 \<or> r = 0x2029"
        using unquotes_u [of "0x32" "0x30" "0x32" "hexd (r mod 16)"] u4_2028 [OF that] that
          encode_decode_rune [of "b # bs" r n] Some rn by (auto simp: is_surrogate_def)
      ultimately have "unquotes_to (if r = 0x2028 \<or> r = 0x2029 then [0x5C, 0x75, 0x32, 0x30, 0x32, hexd (r mod 16)]
          else take n (b # bs)) (take n (b # bs))" by simp
      from unquotes_to_append [OF this] show ?thesis
        using 2(3) [OF False Some rn [symmetric]] False Some rn by simp
    qed
  qed
qed simp

section \<open>Numbers survive\<close>

lemma unat_digit [simp]: "d < 10 \<Longrightarrow> unat (of_nat (0x30 + d) :: byte) = 0x30 + d"
  by (simp add: unat_of_nat del: of_nat_add)

lemma is_digit_of_nat [simp]: "d < 10 \<Longrightarrow> is_digit (of_nat (0x30 + d))"
  unfolding is_digit_def by (simp del: of_nat_add)

lemma itoa_digits: "list_all is_digit (itoa n) \<and> itoa n \<noteq> []"
proof (induction n rule: itoa.induct)
  case (1 n)
  then show ?case by (subst (1 2) itoa.simps) (simp del: of_nat_add)
qed

lemma itoa_leading: "0 < n \<Longrightarrow> unat (hd (itoa n)) \<noteq> 0x30"
proof (induction n rule: itoa.induct)
  case (1 n)
  then show ?case
    by (subst itoa.simps) (use itoa_digits [of "n div 10"] in \<open>auto simp del: of_nat_add\<close>)
qed

lemma is_number_itoa: "is_number (itoa n)"
proof -
  have scan: "takeWhile is_digit (itoa n) = itoa n" "dropWhile is_digit (itoa n) = []"
    using itoa_digits [of n] by (simp_all add: list_all_iff)
  have "hd (itoa n) \<noteq> 0x2D"
    using itoa_digits [of n] by (cases "itoa n") (auto simp: is_digit_def)
  then have unsigned: "(case itoa n of [] \<Rightarrow> [] | c # t \<Rightarrow> if c = 0x2D then t else itoa n) = itoa n"
    by (cases "itoa n") simp_all
  have "length (itoa n) = 1 \<or> hd (itoa n) \<noteq> 0x30"
    using itoa_leading [of n] by (cases "n = 0") (auto simp: itoa.simps [of 0])
  then show ?thesis
    using itoa_digits [of n] unfolding is_number_def Let_def unsigned scan by simp
qed

lemma parse_digits_append:
  "parse_digits acc (xs @ ys) = (case parse_digits acc xs of None \<Rightarrow> None | Some a \<Rightarrow> parse_digits a ys)"
  by (induction xs arbitrary: acc) simp_all

lemma parse_digits_itoa [simp]: "parse_digits 0 (itoa n) = Some n"
proof (induction n rule: itoa.induct)
  case (1 n)
  then show ?case by (subst itoa.simps) (simp add: parse_digits_append del: of_nat_add)
qed

lemma tokenize_number:
  assumes "rest = [] \<or> \<not> num_char (hd rest)"
  shows "tokenize (itoa n @ rest) = map_option (Cons (TNumber (itoa n))) (tokenize rest)"
proof -
  obtain b bs where b: "itoa n = b # bs" using itoa_digits [of n] by (cases "itoa n") auto
  have d: "is_digit b" "list_all is_digit bs" using itoa_digits [of n] b by auto
  have "takeWhile num_char (bs @ rest) = bs" "dropWhile num_char (bs @ rest) = rest"
    using d(2) assms by (auto simp: list_all_iff num_char_def takeWhile_append dropWhile_append takeWhile_eq_Nil_iff dropWhile_eq_self_iff)
  moreover have "\<not> is_ws b" "punct b = None" "b \<noteq> 0x22"
    using d(1) by (auto simp: is_digit_def is_ws_def punct_def)
  ultimately show ?thesis
    using d(1) is_number_itoa [of n] by (simp add: b tokenize.simps(2) Let_def)
qed

section \<open>Objects survive\<close>

text \<open>
  The text \<open>v\<close> is read as the value \<open>j\<close>, which nests \<open>d\<close> containers, wherever a value is expected and
  no character that could extend a number follows.
\<close>

definition reads_as :: "nat \<Rightarrow> bytes \<Rightarrow> json \<Rightarrow> bool" where
  "reads_as d v j \<longleftrightarrow> (\<exists>ts. ts \<noteq> [] \<and> hd ts \<noteq> TRBrack
     \<and> (\<forall>rest. (rest = [] \<or> \<not> num_char (hd rest)) \<longrightarrow> tokenize (v @ rest) = map_option ((@) ts) (tokenize rest))
     \<and> (\<forall>st ts'. length st + d \<le> maxNestingDepth \<longrightarrow> prun (st, EValue) (ts @ ts') = prun (deliver j st) ts'))"

lemma append_single: "(@) [x] = (#) x"
  by (simp add: fun_eq_iff)

lemma append_fun: "(@) (x # xs) = (\<lambda>ys. x # xs @ ys)" "(@) (us @ vs) = (\<lambda>ys. us @ vs @ ys)"
  by (simp_all add: fun_eq_iff)

lemma reads_as_string: "reads_as 0 (json_string s) (JString (quote_body s))"
  unfolding reads_as_def by (intro exI [of _ "[TString (quote_body s)]"]) (simp add: append_single)

lemma reads_as_number: "reads_as 0 (itoa n) (JNumber (itoa n))"
  unfolding reads_as_def
  by (intro exI [of _ "[TNumber (itoa n)]"]) (simp add: tokenize_number append_single)

text \<open>A number as it is written, where the tokenizer reads it as one token.\<close>

definition number_lit :: "bytes \<Rightarrow> bool" where
  "number_lit lit \<longleftrightarrow> lit \<noteq> [] \<and> (hd lit = 0x2D \<or> is_digit (hd lit)) \<and> list_all num_char (tl lit) \<and> is_number lit"

lemma tokenize_number_lit:
  assumes "number_lit lit" and "rest = [] \<or> \<not> num_char (hd rest)"
  shows "tokenize (lit @ rest) = map_option (Cons (TNumber lit)) (tokenize rest)"
proof -
  obtain b bs where b: "lit = b # bs" using assms(1) by (cases lit) (auto simp: number_lit_def)
  have d: "b = 0x2D \<or> is_digit b" "list_all num_char bs" "is_number (b # bs)" using assms(1) b by (auto simp: number_lit_def)
  have "takeWhile num_char (bs @ rest) = bs" "dropWhile num_char (bs @ rest) = rest"
    using d(2) assms(2) by (auto simp: list_all_iff takeWhile_append dropWhile_append takeWhile_eq_Nil_iff dropWhile_eq_self_iff)
  moreover have "\<not> is_ws b" "punct b = None" "b \<noteq> 0x22"
    using d(1) by (auto simp: is_digit_def is_ws_def punct_def)
  ultimately show ?thesis using d by (simp add: b tokenize.simps(2) Let_def)
qed

lemma reads_as_number_lit: "number_lit lit \<Longrightarrow> reads_as 0 lit (JNumber lit)"
  unfolding reads_as_def
  by (intro exI [of _ "[TNumber lit]"]) (simp add: tokenize_number_lit append_single)

lemma not_num_char [simp]: "\<not> num_char 0x2C" "\<not> num_char 0x5D" "\<not> num_char 0x7D"
  by (simp_all add: num_char_def is_digit_def)

lemma tokenize_punct [simp]:
  "tokenize (0x7B # bs) = map_option (Cons TLBrace) (tokenize bs)"
  "tokenize (0x7D # bs) = map_option (Cons TRBrace) (tokenize bs)"
  "tokenize (0x5B # bs) = map_option (Cons TLBrack) (tokenize bs)"
  "tokenize (0x5D # bs) = map_option (Cons TRBrack) (tokenize bs)"
  "tokenize (0x3A # bs) = map_option (Cons TColon) (tokenize bs)"
  "tokenize (0x2C # bs) = map_option (Cons TComma) (tokenize bs)"
  by (simp_all add: tokenize.simps(2) is_ws_def punct_def)

text \<open>The tokens of a sequence of values or members, and what the parser makes of them.\<close>

lemma prun_append: "prun s (ts @ ts') = (case prun s ts of None \<Rightarrow> None | Some s' \<Rightarrow> prun s' ts')"
  by (induction ts arbitrary: s) (simp_all split: option.split)

lemma pstep_EValueOrEnd: "t \<noteq> TRBrack \<Longrightarrow> pstep (st, EValueOrEnd) t = pstep (st, EValue) t"
  by (cases st; cases t; cases "hd st") auto

definition members_read :: "nat \<Rightarrow> (string \<times> bytes) list \<Rightarrow> (string \<times> json) list \<Rightarrow> tok list \<Rightarrow> bool" where
  "members_read d ms js ts \<longleftrightarrow>
     (\<forall>rest. tokenize (json_members ms @ 0x7D # rest) = map_option ((@) (ts @ [TRBrace])) (tokenize rest))
   \<and> (\<forall>st ts' acc k0 e. e \<in> {EKey, EKeyOrEnd} \<and> Suc (length st) + d \<le> maxNestingDepth \<longrightarrow>
        prun (CObject acc k0 # st, e) (ts @ TRBrace # ts')
          = prun (deliver (JObject (acc @ map (\<lambda>(k, j). (quote_body (bytes_of_string k), j)) js)) st) ts')"

lemma reads_as_members:
  assumes "list_all2 (\<lambda>(k, v) (k', j). k = k' \<and> reads_as d v j) ms js" and "ms \<noteq> []"
  shows "\<exists>ts. members_read d ms js ts"
  using assms
proof (induction ms arbitrary: js rule: json_members.induct)
  case (2 k v)
  then obtain j where js: "js = [(k, j)]" and j: "reads_as d v j"
    by (auto simp: list_all2_Cons1)
  from j obtain ts where ts: "\<And>rest. rest = [] \<or> \<not> num_char (hd rest) \<Longrightarrow> tokenize (v @ rest) = map_option ((@) ts) (tokenize rest)"
    "\<And>st ts'. length st + d \<le> maxNestingDepth \<Longrightarrow> prun (st, EValue) (ts @ ts') = prun (deliver j st) ts'"
    unfolding reads_as_def by blast
  show ?case
  proof (rule exI [of _ "TString (quote_body (bytes_of_string k)) # TColon # ts"], unfold members_read_def, intro conjI allI impI)
    fix rest
    have "tokenize (v @ 0x7D # rest) = map_option ((@) ts) (map_option (Cons TRBrace) (tokenize rest))" by (simp add: ts(1))
    then show "tokenize (json_members [(k, v)] @ 0x7D # rest)
        = map_option ((@) ((TString (quote_body (bytes_of_string k)) # TColon # ts) @ [TRBrace])) (tokenize rest)"
      by (simp add: option.map_comp comp_def append_fun)
  next
    fix st :: "ctx list" and ts' acc k0 e
    assume "e \<in> {EKey, EKeyOrEnd} \<and> Suc (length st) + d \<le> maxNestingDepth"
    then show "prun (CObject acc k0 # st, e) ((TString (quote_body (bytes_of_string k)) # TColon # ts) @ TRBrace # ts')
        = prun (deliver (JObject (acc @ map (\<lambda>(k, j). (quote_body (bytes_of_string k), j)) js)) st) ts'"
      by (elim conjE insertE emptyE) (simp_all add: js ts(2))
  qed
next
  case (3 k v m ms)
  then obtain j js' where js: "js = (k, j) # js'" and j: "reads_as d v j"
    and js': "list_all2 (\<lambda>(k, v) (k', j). k = k' \<and> reads_as d v j) (m # ms) js'"
    by (auto simp: list_all2_Cons1)
  from j obtain ts where ts: "\<And>rest. rest = [] \<or> \<not> num_char (hd rest) \<Longrightarrow> tokenize (v @ rest) = map_option ((@) ts) (tokenize rest)"
    "\<And>st ts'. length st + d \<le> maxNestingDepth \<Longrightarrow> prun (st, EValue) (ts @ ts') = prun (deliver j st) ts'"
    unfolding reads_as_def by blast
  from 3(1) [OF js' list.distinct(2)] obtain us where "members_read d (m # ms) js' us" ..
  then have us: "tokenize (json_members (m # ms) @ 0x7D # rest) = map_option ((@) (us @ [TRBrace])) (tokenize rest)"
    "e \<in> {EKey, EKeyOrEnd} \<Longrightarrow> Suc (length st) + d \<le> maxNestingDepth \<Longrightarrow>
        prun (CObject acc k0 # st, e) (us @ TRBrace # ts')
          = prun (deliver (JObject (acc @ map (\<lambda>(k, j). (quote_body (bytes_of_string k), j)) js')) st) ts'" for rest st ts' acc k0 e
    unfolding members_read_def by blast+
  show ?case
  proof (rule exI [of _ "TString (quote_body (bytes_of_string k)) # TColon # ts @ TComma # us"], unfold members_read_def, intro conjI allI impI)
    fix rest
    have "tokenize (v @ 0x2C # json_members (m # ms) @ 0x7D # rest)
        = map_option ((@) ts) (map_option (Cons TComma) (map_option ((@) (us @ [TRBrace])) (tokenize rest)))"
      using us(1) [of rest] by (simp add: ts(1))
    then show "tokenize (json_members ((k, v) # m # ms) @ 0x7D # rest)
        = map_option ((@) ((TString (quote_body (bytes_of_string k)) # TColon # ts @ TComma # us) @ [TRBrace])) (tokenize rest)"
      by (simp add: option.map_comp comp_def append_fun)
  next
    fix st :: "ctx list" and ts' acc k0 e
    assume "e \<in> {EKey, EKeyOrEnd} \<and> Suc (length st) + d \<le> maxNestingDepth"
    then show "prun (CObject acc k0 # st, e)
          ((TString (quote_body (bytes_of_string k)) # TColon # ts @ TComma # us) @ TRBrace # ts')
        = prun (deliver (JObject (acc @ map (\<lambda>(k, j). (quote_body (bytes_of_string k), j)) js)) st) ts'"
      by (elim conjE insertE emptyE) (simp_all add: js ts(2) us(2))
  qed
qed simp

lemma json_parse_object:
  assumes "list_all2 (\<lambda>(k, v) (k', j). k = k' \<and> reads_as d v j) ms js" and "Suc d \<le> maxNestingDepth"
  shows "json_parse (json_object ms) = Some (JObject (map (\<lambda>(k, j). (quote_body (bytes_of_string k), j)) js))"
proof (cases "ms = []")
  case True
  then show ?thesis using assms by (simp add: json_parse_def json_object_def maxNestingDepth_def)
next
  case False
  from reads_as_members [OF assms(1) False] obtain ts where ts: "members_read d ms js ts" ..
  then have "tokenize (json_members ms @ [0x7D]) = Some (ts @ [TRBrace])"
    unfolding members_read_def by (metis append_Nil2 option.map(2) tokenize.simps(1))
  moreover have "prun ([CObject [] []], EKeyOrEnd) (ts @ TRBrace # [])
      = prun (deliver (JObject ([] @ map (\<lambda>(k, j). (quote_body (bytes_of_string k), j)) js)) []) []"
    using ts assms(2) unfolding members_read_def by (simp del: prun.simps)
  ultimately show ?thesis by (simp add: json_parse_def json_object_def maxNestingDepth_def)
qed

definition elems_read :: "nat \<Rightarrow> bytes list \<Rightarrow> json list \<Rightarrow> tok list \<Rightarrow> bool" where
  "elems_read d vs js ts \<longleftrightarrow>
     (\<forall>rest. tokenize (json_elems vs @ 0x5D # rest) = map_option ((@) (ts @ [TRBrack])) (tokenize rest))
   \<and> (\<forall>st ts' acc e. e \<in> {EValue, EValueOrEnd} \<and> Suc (length st) + d \<le> maxNestingDepth \<longrightarrow>
        prun (CArray acc # st, e) (ts @ TRBrack # ts') = prun (deliver (JArray (acc @ js)) st) ts')"

lemma prun_EValueOrEnd:
  "ts \<noteq> [] \<Longrightarrow> hd ts \<noteq> TRBrack \<Longrightarrow> prun (st, EValueOrEnd) (ts @ ts') = prun (st, EValue) (ts @ ts')"
  by (cases ts) (simp_all add: pstep_EValueOrEnd)

lemma reads_as_elems:
  assumes "list_all2 (reads_as d) vs js" and "vs \<noteq> []"
  shows "\<exists>ts. elems_read d vs js ts"
  using assms
proof (induction vs arbitrary: js rule: json_elems.induct)
  case (2 v)
  then obtain j where js: "js = [j]" and j: "reads_as d v j" by (auto simp: list_all2_Cons1)
  from j obtain ts where ts: "ts \<noteq> []" "hd ts \<noteq> TRBrack"
    "\<And>rest. rest = [] \<or> \<not> num_char (hd rest) \<Longrightarrow> tokenize (v @ rest) = map_option ((@) ts) (tokenize rest)"
    "\<And>st ts'. length st + d \<le> maxNestingDepth \<Longrightarrow> prun (st, EValue) (ts @ ts') = prun (deliver j st) ts'"
    unfolding reads_as_def by blast
  have "elems_read d [v] js ts"
    using ts by (auto simp: elems_read_def js prun_EValueOrEnd option.map_comp comp_def append_fun)
  then show ?case ..
next
  case (3 v w vs)
  then obtain j js' where js: "js = j # js'" and j: "reads_as d v j" and js': "list_all2 (reads_as d) (w # vs) js'"
    by (auto simp: list_all2_Cons1)
  from j obtain ts where ts: "ts \<noteq> []" "hd ts \<noteq> TRBrack"
    "\<And>rest. rest = [] \<or> \<not> num_char (hd rest) \<Longrightarrow> tokenize (v @ rest) = map_option ((@) ts) (tokenize rest)"
    "\<And>st ts'. length st + d \<le> maxNestingDepth \<Longrightarrow> prun (st, EValue) (ts @ ts') = prun (deliver j st) ts'"
    unfolding reads_as_def by blast
  from 3(1) [OF js' list.distinct(2)] obtain us where "elems_read d (w # vs) js' us" ..
  then have us: "tokenize (json_elems (w # vs) @ 0x5D # rest) = map_option ((@) (us @ [TRBrack])) (tokenize rest)"
    "Suc (length st) + d \<le> maxNestingDepth \<Longrightarrow>
        prun (CArray acc # st, EValue) (us @ TRBrack # ts') = prun (deliver (JArray (acc @ js')) st) ts'" for rest st ts' acc
    unfolding elems_read_def by blast+
  have "tokenize (v @ 0x2C # json_elems (w # vs) @ 0x5D # rest)
      = map_option ((@) ts) (map_option (Cons TComma) (map_option ((@) (us @ [TRBrack])) (tokenize rest)))" for rest
    using us(1) [of rest] by (simp add: ts(3))
  then have "elems_read d (v # w # vs) js (ts @ TComma # us)"
    using ts(1,2) by (auto simp: elems_read_def js prun_EValueOrEnd ts(4) us(2) option.map_comp comp_def append_fun)
  then show ?case ..
qed simp

lemma reads_as_array:
  assumes "list_all2 (reads_as d) vs js"
  shows "reads_as (Suc d) (json_array vs) (JArray js)"
proof (cases "vs = []")
  case True
  then show ?thesis using assms unfolding reads_as_def
    by (intro exI [of _ "[TLBrack, TRBrack]"]) (auto simp: json_array_def option.map_comp comp_def append_fun)
next
  case False
  from reads_as_elems [OF assms False] obtain ts where ts: "elems_read d vs js ts" ..
  have "tokenize (json_array vs @ rest) = map_option ((@) (TLBrack # ts @ [TRBrack])) (tokenize rest)" for rest
    using ts by (simp add: json_array_def elems_read_def option.map_comp comp_def append_fun)
  moreover have "prun (st, EValue) ((TLBrack # ts @ [TRBrack]) @ ts') = prun (deliver (JArray js) st) ts'"
    if "length st + Suc d \<le> maxNestingDepth" for st ts'
  proof -
    have "prun (CArray [] # st, EValueOrEnd) (ts @ TRBrack # ts') = prun (deliver (JArray ([] @ js)) st) ts'"
      using ts that unfolding elems_read_def by (simp del: prun.simps)
    then show ?thesis using that by simp
  qed
  ultimately show ?thesis unfolding reads_as_def by (intro exI [of _ "TLBrack # ts @ [TRBrack]"]) simp
qed

lemma reads_as_mono:
  assumes "reads_as d v j" and "d \<le> d'"
  shows "reads_as d' v j"
proof -
  from assms(1) obtain ts where "ts \<noteq> []" "hd ts \<noteq> TRBrack"
    "\<And>rest. rest = [] \<or> \<not> num_char (hd rest) \<Longrightarrow> tokenize (v @ rest) = map_option ((@) ts) (tokenize rest)"
    "\<And>st ts'. length st + d \<le> maxNestingDepth \<Longrightarrow> prun (st, EValue) (ts @ ts') = prun (deliver j st) ts'"
    unfolding reads_as_def by blast
  then show ?thesis
    using assms(2) unfolding reads_as_def by (intro exI [of _ ts]) simp
qed

section \<open>Structs\<close>

text \<open>The fields of a struct in the order of its declaration, as \<open>Marshal\<close> prints them.\<close>

datatype fval = FStr string | FNum nat | FLit bytes | FStrs "string list"

fun fval_text :: "fval \<Rightarrow> bytes" where
  "fval_text (FStr s) = json_string (bytes_of_string s)"
| "fval_text (FNum n) = itoa n"
| "fval_text (FLit l) = l"
| "fval_text (FStrs ss) = json_array (map (\<lambda>s. json_string (bytes_of_string s)) ss)"

definition json_struct :: "(string \<times> fval) list \<Rightarrow> bytes" where
  "json_struct ms = json_object (map (\<lambda>(k, v). (k, fval_text v)) ms)"

text \<open>\<open>json.Marshal\<close> of a struct of such fields; it does not fail.\<close>

definition json_Marshal :: "(string \<times> fval) list \<Rightarrow> bytes result" where
  "json_Marshal ms = Inr (json_struct ms)"

text \<open>A string field with \<open>omitempty\<close> is left out when it is empty.\<close>

definition omitempty :: "string \<Rightarrow> string \<Rightarrow> (string \<times> fval) list" where
  "omitempty name s = (if s = [] then [] else [(name, FStr s)])"

fun fval_json :: "fval \<Rightarrow> json" where
  "fval_json (FStr s) = JString (quote_body (bytes_of_string s))"
| "fval_json (FNum n) = JNumber (itoa n)"
| "fval_json (FLit l) = JNumber l"
| "fval_json (FStrs ss) = JArray (map (\<lambda>s. JString (quote_body (bytes_of_string s))) ss)"

text \<open>A field whose text is valid JSON: a literal must be a number.\<close>

fun fval_ok :: "fval \<Rightarrow> bool" where
  "fval_ok (FLit l) = number_lit l"
| "fval_ok _ = True"

lemma reads_as_fval: "fval_ok v \<Longrightarrow> reads_as 1 (fval_text v) (fval_json v)"
proof (cases v)
  case (FStrs ss)
  have "list_all2 (reads_as 0) (map (\<lambda>s. json_string (bytes_of_string s)) ss)
      (map (\<lambda>s. JString (quote_body (bytes_of_string s))) ss)"
    by (induction ss) (simp_all add: reads_as_string)
  then show ?thesis using reads_as_array [of 0] FStrs by simp
qed (simp_all add: reads_as_string reads_as_number reads_as_number_lit reads_as_mono [of 0])

lemma json_parse_struct:
  assumes "list_all (fval_ok \<circ> snd) ms"
  shows "json_parse (json_struct ms) = Some (JObject (map (\<lambda>(k, v). (quote_body (bytes_of_string k), fval_json v)) ms))"
proof -
  have "list_all2 (\<lambda>(k, v) (k', j). k = k' \<and> reads_as 1 v j)
      (map (\<lambda>(k, v). (k, fval_text v)) ms) (map (\<lambda>(k, v). (k, fval_json v)) ms)"
    using assms by (induction ms) (auto simp: reads_as_fval [unfolded One_nat_def])
  from json_parse_object [OF this] show ?thesis
    by (simp add: json_struct_def maxNestingDepth_def comp_def split_def)
qed

text \<open>What a Go string becomes in JSON: bytes that are not UTF-8 turn into U+FFFD.\<close>

definition clean :: "string \<Rightarrow> string" where
  "clean s = string_of_bytes (sanitize (bytes_of_string s))"

definition utf8_string :: "string \<Rightarrow> bool" where
  "utf8_string s = valid_utf8 (bytes_of_string s)"

lemma clean_utf8: "utf8_string s \<Longrightarrow> clean s = s"
  by (simp add: clean_def utf8_string_def sanitize_valid)

lemma clean_Nil [simp]: "clean [] = []"
  by (simp add: clean_def)

lemma string_of_sanitized [simp]: "string_of_bytes (sanitize (bytes_of_string s)) = clean s"
  by (simp add: clean_def)

lemma sanitize_ascii: "list_all (\<lambda>b. unat b < 0x80) bs \<Longrightarrow> sanitize bs = bs"
  by (induction bs) simp_all

definition ascii :: "string \<Rightarrow> bool" where
  "ascii s = list_all (\<lambda>c. of_char c < (128 :: nat)) s"

lemma sanitize_name: "ascii name \<Longrightarrow> sanitize (bytes_of_string name) = bytes_of_string name"
  by (simp add: ascii_def sanitize_ascii bytes_of_string_def list_all_iff unat_of_char)

lemma find_exact: "map_of flds name = Some s \<Longrightarrow> find (\<lambda>(n, s). bytes_of_string n = bytes_of_string name) flds = Some (name, s)"
  by (induction flds) (auto split: if_splits)

lemma find_field_exact: "map_of flds name = Some s \<Longrightarrow> find_field flds (bytes_of_string name) = Some s"
  unfolding find_field_def by (simp only: find_exact option.case prod.case)

text \<open>Reading the text of a struct back: every member reaches the setter of the field of its name.\<close>

fun put_fvals :: "(string \<times> 'r setter) list \<Rightarrow> (string \<times> fval) list \<Rightarrow> 'r \<Rightarrow> error option \<times> 'r" where
  "put_fvals flds [] r = (None, r)"
| "put_fvals flds ((k, v) # ms) r =
     (case map_of flds k of
       None \<Rightarrow> put_fvals flds ms r
     | Some put \<Rightarrow>
        (let (e1, r1) = put (fval_json v) r; (e2, r2) = put_fvals flds ms r1
         in (case e1 of None \<Rightarrow> e2 | Some e \<Rightarrow> Some e, r2)))"

definition names_in :: "(string \<times> 'a) list \<Rightarrow> (string \<times> 'b) list \<Rightarrow> bool" where
  "names_in ms flds \<longleftrightarrow> list_all (\<lambda>k. ascii k \<and> k \<in> set (map fst flds)) (map fst ms)"

lemma decode_members_struct:
  "names_in ms flds \<Longrightarrow>
     decode_members flds (map (\<lambda>(k, v). (quote_body (bytes_of_string k), fval_json v)) ms) r = put_fvals flds ms r"
proof (induction ms arbitrary: r)
  case (Cons m ms)
  obtain k v where m: "m = (k, v)" by (cases m)
  have k: "ascii k" "k \<in> fst ` set flds" and rest: "names_in ms flds" using Cons.prems by (auto simp: m names_in_def)
  from k(2) obtain put where "map_of flds k = Some put" by (metis map_of_eq_None_iff not_None_eq)
  then show ?case using Cons.IH [OF rest] k(1) by (simp add: m sanitize_name find_field_exact)
qed simp

lemma json_Unmarshal_struct:
  "names_in ms flds \<Longrightarrow> list_all (fval_ok \<circ> snd) ms \<Longrightarrow> json_Unmarshal flds (json_struct ms) r = put_fvals flds ms r"
  by (simp add: json_Unmarshal_def json_parse_struct decode_members_struct)

lemma string_elems_clean [simp]:
  "string_elems (map (\<lambda>s. JString (quote_body (bytes_of_string s))) ss) = (None, map clean ss)"
  by (induction ss) simp_all

lemmas struct_simps = names_in_def ascii_def of_char_def omitempty_def comp_def

section \<open>The size of a text\<close>

lemma length_quote_body: "length (quote_body bs) \<le> 6 * length bs"
proof (induction bs rule: quote_body.induct)
  case (2 b bs)
  show ?case
  proof (cases "unat b < 0x80")
    case True
    then show ?thesis using 2(1) by (simp add: escape_byte_def)
  next
    case False
    show ?thesis
    proof (cases "decode_rune (b # bs)")
      case None
      then show ?thesis using 2(2) False by simp
    next
      case (Some rn)
      obtain r n where rn: "rn = (r, n)" by (cases rn)
      have n: "1 \<le> n" "n \<le> Suc (length bs)" using decode_rune_size Some rn by force+
      then have "length (quote_body (drop (n - 1) bs)) + 6 * n \<le> 6 + 6 * length bs"
        using 2(3) [OF False Some rn [symmetric]] by (simp add: diff_mult_distrib2)
      then show ?thesis using n False Some rn by (auto simp: min_def)
    qed
  qed
qed simp

lemma length_itoa: "n < 10 ^ Suc k \<Longrightarrow> length (itoa n) \<le> Suc k"
proof (induction k arbitrary: n)
  case 0
  then show ?case by (subst itoa.simps) simp
next
  case (Suc k)
  then have "n div 10 < 10 ^ Suc k" by (simp add: less_mult_imp_div_less)
  from Suc.IH [OF this] show ?case by (subst itoa.simps) simp
qed

definition members_size :: "(string \<times> bytes) list \<Rightarrow> nat" where
  "members_size ms = sum_list (map (\<lambda>(k, v). 6 * length k + length v + 4) ms)"

lemma length_json_members: "length (json_members ms) \<le> members_size ms"
proof (induction ms rule: json_members.induct)
  case (2 k v)
  then show ?case using length_quote_body [of "bytes_of_string k"] by (simp add: members_size_def json_string_def)
next
  case (3 k v m ms)
  then show ?case using length_quote_body [of "bytes_of_string k"] by (simp add: members_size_def json_string_def)
qed (simp add: members_size_def)

lemma length_json_struct: "length (json_struct ms) \<le> members_size (map (\<lambda>(k, v). (k, fval_text v)) ms) + 2"
  using length_json_members by (simp add: json_struct_def json_object_def)

lemma length_fval_string: "length (fval_text (FStr s)) \<le> 6 * length s + 2"
  using length_quote_body [of "bytes_of_string s"] by (simp add: json_string_def)

end
