(* ===== verification/GoTime.thy ===== *)
theory GoTime
  imports Prelude
begin

text \<open>
  The part of package \<^verbatim>\<open>time\<close> behind the timestamps of headers and audit entries: the layout
  \<open>RFC3339Nano\<close>. An instant is a number of nanoseconds since the zero time, midnight of 1 January of year 1, UTC;
  \<open>Format\<close> prints an instant in UTC, and \<open>Parse\<close> yields the instant of the text whatever its
  zone offset.
\<close>

section \<open>Calendar\<close>

definition is_leap :: "int \<Rightarrow> bool" where
  "is_leap y \<longleftrightarrow> y mod 4 = 0 \<and> (y mod 100 \<noteq> 0 \<or> y mod 400 = 0)"

definition month_lengths :: "int \<Rightarrow> int list" where
  "month_lengths y = [31, if is_leap y then 29 else 28, 31, 30, 31, 30, 31, 31, 30, 31, 30, 31]"

text \<open>Days before 1 January of a year.\<close>

definition days_before_year :: "int \<Rightarrow> int" where
  "days_before_year y = 365 * (y - 1) + (y - 1) div 4 - (y - 1) div 100 + (y - 1) div 400"

definition days_of_date :: "int \<Rightarrow> int \<Rightarrow> int \<Rightarrow> int" where
  "days_of_date y m d = days_before_year y + sum_list (take (nat (m - 1)) (month_lengths y)) + (d - 1)"

text \<open>The year and the day of the year, by cycles of 400, 100, 4 and 1 years.\<close>

definition year_yday :: "int \<Rightarrow> int \<times> int" where
  "year_yday d =
     (let n400 = d div 146097; d1 = d mod 146097;
          n100 = min 3 (d1 div 36524); d2 = d1 - 36524 * n100;
          n4 = d2 div 1461; d3 = d2 mod 1461;
          n = min 3 (d3 div 365)
      in (400 * n400 + 100 * n100 + 4 * n4 + n + 1, d3 - 365 * n))"

fun month_day :: "int list \<Rightarrow> int \<Rightarrow> int \<Rightarrow> int \<times> int" where
  "month_day [] m yd = (m, yd + 1)"
| "month_day (l # ls) m yd = (if yd < l then (m, yd + 1) else month_day ls (m + 1) (yd - l))"

definition date_of_days :: "int \<Rightarrow> int \<times> int \<times> int" where
  "date_of_days d = (let (y, yd) = year_yday d; (m, md) = month_day (month_lengths y) 1 yd in (y, m, md))"

section \<open>Formatting\<close>

definition dig :: "int \<Rightarrow> char" where
  "dig n = char_of (48 + nat n)"

text \<open>\<open>n\<close> in exactly \<open>w\<close> digits.\<close>

fun pad :: "nat \<Rightarrow> int \<Rightarrow> string" where
  "pad 0 n = []"
| "pad (Suc w) n = pad w (n div 10) @ [dig (n mod 10)]"

fun trim_zeros :: "string \<Rightarrow> string" where
  "trim_zeros s = (if s \<noteq> [] \<and> last s = CHR ''0'' then trim_zeros (butlast s) else s)"

declare trim_zeros.simps [simp del]

definition dayNanos :: int where "dayNanos = 86400 * Second"

text \<open>A year beyond 9999 gets more digits; a year before 0 a sign.\<close>

fun num_digits :: "nat \<Rightarrow> nat" where
  "num_digits n = (if n < 10 then 1 else Suc (num_digits (n div 10)))"

declare num_digits.simps [simp del]

definition format_year :: "int \<Rightarrow> string" where
  "format_year y = (if y < 0 then ''-'' else []) @ pad (max 4 (num_digits (nat \<bar>y\<bar>))) \<bar>y\<bar>"

definition Format_RFC3339Nano :: "time \<Rightarrow> string" where
  "Format_RFC3339Nano t =
     (let (y, m, d) = date_of_days (t div dayNanos);
          ns = t mod dayNanos;
          s = ns div Second;
          frac = trim_zeros (pad 9 (ns mod Second))
      in format_year y @ ''-'' @ pad 2 m @ ''-'' @ pad 2 d @ ''T'' @ pad 2 (s div 3600) @ '':'' @ pad 2 (s div 60 mod 60)
         @ '':'' @ pad 2 (s mod 60) @ (if frac = [] then [] else CHR ''.'' # frac) @ ''Z'')"

section \<open>Parsing\<close>

definition dig_val :: "char \<Rightarrow> int option" where
  "dig_val c = (let n = int (of_char c) in if 48 \<le> n \<and> n \<le> 57 then Some (n - 48) else None)"

text \<open>Exactly \<open>w\<close> digits, and the rest.\<close>

fun num :: "nat \<Rightarrow> int \<Rightarrow> string \<Rightarrow> (int \<times> string) option" where
  "num 0 acc s = Some (acc, s)"
| "num (Suc w) acc [] = None"
| "num (Suc w) acc (c # s) = (case dig_val c of None \<Rightarrow> None | Some d \<Rightarrow> num w (10 * acc + d) s)"

definition lit :: "char \<Rightarrow> string \<Rightarrow> string option" where
  "lit c s = (case s of [] \<Rightarrow> None | x # xs \<Rightarrow> if x = c then Some xs else None)"

text \<open>The hour may have one digit.\<close>

definition num_hour :: "string \<Rightarrow> (int \<times> string) option" where
  "num_hour s = (case num 2 0 s of Some r \<Rightarrow> Some r | None \<Rightarrow> num 1 0 s)"

fun span_digits :: "string \<Rightarrow> string \<times> string" where
  "span_digits [] = ([], [])"
| "span_digits (c # s) = (if dig_val c = None then ([], c # s) else (case span_digits s of (a, b) \<Rightarrow> (c # a, b)))"

text \<open>An optional fraction after a period or comma; digits beyond the ninth are dropped.\<close>

definition parse_frac :: "string \<Rightarrow> int \<times> string" where
  "parse_frac s =
     (case s of
       c # rest \<Rightarrow>
         (if c = CHR ''.'' \<or> c = CHR '','' then
            (case span_digits rest of
               (ds, rest') \<Rightarrow>
                 if ds = [] then (0, s)
                 else let w = min 9 (length ds)
                      in (case num w 0 (take w ds) of Some (n, _) \<Rightarrow> (n * 10 ^ (9 - w), rest') | None \<Rightarrow> (0, s)))
          else (0, s))
     | [] \<Rightarrow> (0, s))"

text \<open>The zone: \<open>Z\<close>, or a sign, hours and minutes; its offset in seconds.\<close>

definition parse_zone :: "string \<Rightarrow> (int \<times> string) option" where
  "parse_zone s =
     (case s of
       [] \<Rightarrow> None
     | c # rest \<Rightarrow>
        if c = CHR ''Z'' then Some (0, rest)
        else if c = CHR ''+'' \<or> c = CHR ''-'' then
          (case num 2 0 rest of
             None \<Rightarrow> None
           | Some (hh, s1) \<Rightarrow>
              (case lit CHR '':'' s1 of
                 None \<Rightarrow> None
               | Some s2 \<Rightarrow>
                  (case num 2 0 s2 of
                     None \<Rightarrow> None
                   | Some (mm, s3) \<Rightarrow>
                      if hh \<le> 24 \<and> mm \<le> 60
                      then Some ((if c = CHR ''-'' then - 1 else 1) * (hh * 3600 + mm * 60), s3) else None)))
        else None)"

definition Parse_RFC3339Nano :: "string \<Rightarrow> time option" where
  "Parse_RFC3339Nano s0 =
     Option.bind (num 4 0 s0) (\<lambda>(y, s1). Option.bind (lit CHR ''-'' s1) (\<lambda>s2.
     Option.bind (num 2 0 s2) (\<lambda>(m, s3). Option.bind (lit CHR ''-'' s3) (\<lambda>s4.
     Option.bind (num 2 0 s4) (\<lambda>(d, s5). Option.bind (lit CHR ''T'' s5) (\<lambda>s6.
     Option.bind (num_hour s6) (\<lambda>(hh, s7). Option.bind (lit CHR '':'' s7) (\<lambda>s8.
     Option.bind (num 2 0 s8) (\<lambda>(mi, s9). Option.bind (lit CHR '':'' s9) (\<lambda>s10.
     Option.bind (num 2 0 s10) (\<lambda>(sec, s11).
     (let (nsec, s12) = parse_frac s11
      in Option.bind (parse_zone s12) (\<lambda>(off, s13).
           if s13 = [] \<and> 1 \<le> m \<and> m \<le> 12 \<and> 1 \<le> d \<and> d \<le> month_lengths y ! nat (m - 1) \<and> hh < 24 \<and> mi < 60 \<and> sec < 60
           then Some (days_of_date y m d * dayNanos + ((hh * 3600 + mi * 60 + sec) - off) * Second + nsec)
           else None)))))))))))))"

section \<open>The calendar is consistent\<close>

lemma cycle_years:
  fixes a b c e :: int
  assumes "0 \<le> b" "b \<le> 3" "0 \<le> c" "c \<le> 24" "0 \<le> e" "e \<le> 3"
  shows "days_before_year (400 * a + 100 * b + 4 * c + e + 1) = 146097 * a + 36524 * b + 1461 * c + 365 * e"
proof -
  let ?n = "400 * a + 100 * b + 4 * c + e"
  have "?n div 4 = 100 * a + 25 * b + c" by (rule int_div_pos_eq [where r = e]) (use assms in simp_all)
  moreover have "?n div 100 = 4 * a + b" by (rule int_div_pos_eq [where r = "4 * c + e"]) (use assms in simp_all)
  moreover have "?n div 400 = a" by (rule int_div_pos_eq [where r = "100 * b + 4 * c + e"]) (use assms in simp_all)
  ultimately show ?thesis by (simp add: days_before_year_def)
qed

text \<open>One level of the cycles: at most three whole periods of \<open>k\<close> days are taken off.\<close>

lemma min_cycle:
  fixes r k :: int
  assumes "0 \<le> r" and "0 < k"
  shows "0 \<le> min 3 (r div k)" "0 \<le> r - k * min 3 (r div k)"
    "min 3 (r div k) < 3 \<Longrightarrow> r - k * min 3 (r div k) < k"
proof -
  have "0 \<le> r div k" using assms by (simp add: pos_imp_zdiv_nonneg_iff)
  then show "0 \<le> min 3 (r div k)" by simp
  have "k * min 3 (r div k) \<le> k * (r div k)" using assms(2) by (intro mult_left_mono) simp_all
  also have "\<dots> = r - r mod k" by (simp add: minus_mod_eq_mult_div)
  also have "\<dots> \<le> r" using assms(2) by simp
  finally show "0 \<le> r - k * min 3 (r div k)" by simp
  show "r - k * min 3 (r div k) < k" if "min 3 (r div k) < 3"
    using that assms(2) by (simp add: min_def minus_mult_div_eq_mod split: if_splits)
qed

lemma year_yday_bounds:
  fixes d :: int
  assumes "year_yday d = (y, yd)"
  shows "days_before_year y + yd = d" "0 \<le> yd" "yd < sum_list (month_lengths y)"
proof -
  define a r b q c u e where "a = d div 146097" and "r = d mod 146097" and "b = min 3 (r div 36524)"
    and "q = r - 36524 * b" and "c = q div 1461" and "u = q mod 1461" and "e = min 3 (u div 365)"
  have "year_yday d = (400 * a + 100 * b + 4 * c + e + 1, u - 365 * e)"
    by (simp only: year_yday_def Let_def a_def r_def b_def q_def c_def u_def e_def)
  then have y: "y = 400 * a + 100 * b + 4 * c + e + 1" "yd = u - 365 * e" using assms by simp_all
  have r: "0 \<le> r" "r < 146097" "d = 146097 * a + r" by (simp_all add: r_def a_def)
  note b = min_cycle [OF r(1), of 36524, folded b_def, folded q_def]
  have b3: "b \<le> 3" by (simp add: b_def)
  have q: "q \<le> 36524" "q = 36524 \<Longrightarrow> b = 3"
    using b(3) b3 r(2) q_def by (cases "b = 3"; simp)+
  have c: "0 \<le> c" "c \<le> 24" "0 \<le> u" "u < 1461" "q = 1461 * c + u"
    using b(2) q(1) by (simp_all add: c_def u_def)
  note e = min_cycle [OF c(3), of 365, folded e_def]
  have e3: "e \<le> 3" by (simp add: e_def)
  have yd: "0 \<le> yd" "yd \<le> 365" "yd = 365 \<Longrightarrow> e = 3 \<and> u = 1460"
    using e(2,3) e3 c(4) y(2) by (cases "e = 3"; simp)+
  have "days_before_year y = 146097 * a + 36524 * b + 1461 * c + 365 * e"
    using cycle_years [of b c e a] b(1) b3 c(1,2) e(1) e3 y(1) by simp
  then show "days_before_year y + yd = d" using y(2) c(5) r(3) q_def by simp
  show "0 \<le> yd" by (rule yd(1))
  have "is_leap y" if "yd = 365"
  proof -
    have y4: "y = 4 * (100 * a + 25 * b + c + 1)" "e = 3" "u = 1460" using yd(3) that y(1) by simp_all
    have "y mod 100 \<noteq> 0 \<or> y mod 400 = 0"
    proof (cases "c = 24")
      case True
      then have "q = 36524" using c y4 by simp
      then have "y = 400 * (a + 1)" using q(2) y4 True by simp
      then show ?thesis by simp
    next
      case False
      then have "0 \<le> c" "c \<le> 23" using c by simp_all
      then have "(4 * (c + 1)) mod 100 \<noteq> 0" by simp
      moreover have "y mod 100 = (4 * (c + 1)) mod 100"
        using mod_mult_self4 [of 100 "4 * a + b" "4 * (c + 1)"] by (simp add: y4(1) algebra_simps)
      ultimately show ?thesis by simp
    qed
    then show ?thesis using y4(1) by (simp add: is_leap_def)
  qed
  then show "yd < sum_list (month_lengths y)" using yd(2) by (cases "yd = 365") (auto simp: month_lengths_def)
qed

lemma month_day_inverse:
  assumes "0 \<le> yd" and "yd < sum_list ls" and "\<forall>l \<in> set ls. 0 \<le> l"
  shows "\<exists>k d. month_day ls m yd = (m + int k, d) \<and> k < length ls \<and> 1 \<le> d \<and> d \<le> ls ! k
    \<and> sum_list (take k ls) + (d - 1) = yd"
  using assms
proof (induction ls arbitrary: m yd)
  case (Cons l ls)
  show ?case
  proof (cases "yd < l")
    case True
    then show ?thesis using Cons.prems by (intro exI [of _ 0] exI [of _ "yd + 1"]) simp
  next
    case False
    then obtain k d where "month_day ls (m + 1) (yd - l) = (m + 1 + int k, d)" "k < length ls" "1 \<le> d" "d \<le> ls ! k"
      "sum_list (take k ls) + (d - 1) = yd - l"
      using Cons.IH [of "yd - l" "m + 1"] Cons.prems by auto
    then show ?thesis using False by (intro exI [of _ "Suc k"] exI [of _ d]) simp
  qed
qed simp

lemma date_round_trip:
  assumes "date_of_days n = (y, m, d)"
  shows "days_of_date y m d = n" "1 \<le> m" "m \<le> 12" "1 \<le> d" "d \<le> month_lengths y ! nat (m - 1)"
proof -
  obtain yd where yd: "year_yday n = (y, yd)" "month_day (month_lengths y) 1 yd = (m, d)"
    using assms by (auto simp: date_of_days_def split: prod.splits)
  note b = year_yday_bounds [OF yd(1)]
  have "\<forall>l \<in> set (month_lengths y). 0 \<le> l" by (simp add: month_lengths_def)
  from month_day_inverse [OF b(2,3) this, of 1] yd(2) obtain k where
    k: "m = 1 + int k" "k < length (month_lengths y)" "1 \<le> d" "d \<le> month_lengths y ! k"
      "sum_list (take k (month_lengths y)) + (d - 1) = yd" by auto
  then show "days_of_date y m d = n" "1 \<le> m" "m \<le> 12" "1 \<le> d" "d \<le> month_lengths y ! nat (m - 1)"
    using b(1) by (simp_all add: days_of_date_def month_lengths_def)
qed

section \<open>Timestamps survive\<close>

lemma dig_val_dig [simp]: "0 \<le> k \<Longrightarrow> k < 10 \<Longrightarrow> dig_val (dig k) = Some k"
  by (simp add: dig_val_def dig_def Let_def)

lemma num_add: "num (a + b) acc s = Option.bind (num a acc s) (\<lambda>(x, s'). num b x s')"
proof (induction a acc s rule: num.induct)
  case (3 w acc c s)
  then show ?case by (simp split: option.split)
qed simp_all

lemma num_pad: "0 \<le> n \<Longrightarrow> num w acc (pad w n @ rest) = Some (acc * 10 ^ w + n mod 10 ^ w, rest)"
proof (induction w arbitrary: n rest acc)
  case (Suc w)
  have "num w acc (pad w (n div 10) @ dig (n mod 10) # rest) = Some (acc * 10 ^ w + n div 10 mod 10 ^ w, dig (n mod 10) # rest)"
    using Suc by simp
  moreover have "10 * (n div 10 mod 10 ^ w) + n mod 10 = n mod 10 ^ Suc w"
    using Suc.prems by (simp add: mod_mult2_eq zmod_zmult2_eq)
  ultimately show ?case
    using num_add [of w 1 acc "pad w (n div 10) @ dig (n mod 10) # rest"]
    by (simp add: algebra_simps)
qed simp

lemma num_pad_exact: "0 \<le> n \<Longrightarrow> n < 10 ^ w \<Longrightarrow> num w 0 (pad w n @ rest) = Some (n, rest)"
  by (simp add: num_pad)

lemma length_pad [simp]: "length (pad w n) = w"
  by (induction w arbitrary: n) simp_all

lemma pad_digits: "0 \<le> n \<Longrightarrow> c \<in> set (pad w n) \<Longrightarrow> dig_val c \<noteq> None"
proof (induction w arbitrary: n)
  case (Suc w)
  from Suc.prems(1) have "0 \<le> n div 10" by simp
  from Suc.IH [OF this] Suc.prems show ?case by (cases "c = dig (n mod 10)") auto
qed simp

lemma trim_zeros_split: "\<exists>k. s = trim_zeros s @ replicate k (CHR ''0'')"
proof (induction s rule: trim_zeros.induct)
  case (1 s)
  show ?case
  proof (cases "s \<noteq> [] \<and> last s = CHR ''0''")
    case True
    with 1 obtain k where "butlast s = trim_zeros (butlast s) @ replicate k (CHR ''0'')" by blast
    moreover have "trim_zeros s = trim_zeros (butlast s)" by (subst trim_zeros.simps) (simp add: True)
    moreover have "s = butlast s @ [CHR ''0'']" using True append_butlast_last_id [of s] by simp
    ultimately have "s = (trim_zeros s @ replicate k (CHR ''0'')) @ [CHR ''0'']" by simp
    then have "s = trim_zeros s @ replicate (Suc k) (CHR ''0'')"
      by (simp only: append_assoc replicate_append_same replicate_Suc)
    then show ?thesis ..
  next
    case False
    then have "trim_zeros s = s" by (subst trim_zeros.simps) auto
    then have "s = trim_zeros s @ replicate 0 (CHR ''0'')" by simp
    then show ?thesis ..
  qed
qed

lemma num_zeros: "num k acc (replicate k (CHR ''0'')) = Some (acc * 10 ^ k, [])"
  by (induction k arbitrary: acc) (simp_all add: dig_val_def Let_def of_char_def)

lemma span_digits_append: "(\<And>c. c \<in> set ds \<Longrightarrow> dig_val c \<noteq> None) \<Longrightarrow> span_digits (ds @ CHR ''Z'' # rest) = (ds, CHR ''Z'' # rest)"
  by (induction ds) (simp_all add: dig_val_def of_char_def)

lemma parse_frac_format:
  assumes "0 \<le> ns" and "ns < 10 ^ 9" and "frac = trim_zeros (pad 9 ns)"
  shows "parse_frac ((if frac = [] then [] else CHR ''.'' # frac) @ ''Z'') = (ns, ''Z'')"
proof -
  obtain k where k: "pad 9 ns = frac @ replicate k (CHR ''0'')"
    using trim_zeros_split [of "pad 9 ns"] assms(3) by auto
  then have len: "length frac + k = 9" by (metis length_append length_pad length_replicate)
  have all: "num 9 0 (frac @ replicate k (CHR ''0'')) = Some (ns, [])"
    using num_pad_exact [of ns 9 "[]"] assms(1,2) k by simp
  have digits: "dig_val c \<noteq> None" if "c \<in> set frac" for c
    using pad_digits [OF assms(1), of c 9] that k by simp
  show ?thesis
  proof (cases "frac = []")
    case True
    then have "ns = 0" using all len num_zeros [of 9 0] by simp
    then show ?thesis using True by (simp add: parse_frac_def)
  next
    case False
    have app: "num w acc (ds @ zs) = Some (x, r) \<Longrightarrow> length ds = w \<Longrightarrow> num w acc ds = Some (x, []) \<and> r = zs" for w acc ds zs x r
      by (induction w acc ds arbitrary: x r rule: num.induct) (auto split: option.splits)
    obtain v r where v: "num (length frac) 0 (frac @ replicate k (CHR ''0'')) = Some (v, r)" "num k v r = Some (ns, [])"
      using all num_add [of "length frac" k 0 "frac @ replicate k (CHR ''0'')"] len
      by (cases "num (length frac) 0 (frac @ replicate k (CHR ''0''))") auto
    then have "num (length frac) 0 frac = Some (v, [])" "ns = v * 10 ^ k"
      using app [OF v(1) refl] num_zeros [of k v] by auto
    moreover have "min 9 (length frac) = length frac" "9 - length frac = k" using len by simp_all
    moreover have "span_digits (frac @ ''Z'') = (frac, ''Z'')"
      using span_digits_append [of frac "[]"] digits by simp
    ultimately show ?thesis
      using False by (simp add: parse_frac_def Let_def)
  qed
qed

lemma div_pred:
  fixes y k :: int
  assumes "0 < k"
  shows "y div k = (y - 1) div k + (if y mod k = 0 then 1 else 0)"
proof -
  have y: "y = k * (y div k) + y mod k" by simp
  show ?thesis
  proof (cases "y mod k = 0")
    case True
    have "(y - 1) div k = y div k - 1"
      by (rule int_div_pos_eq [where r = "k - 1"]) (use assms True in \<open>auto simp: algebra_simps\<close>)
    then show ?thesis using True by simp
  next
    case False
    have "0 \<le> y mod k" "y mod k < k" using assms by simp_all
    moreover have "y - 1 = k * (y div k) + (y mod k - 1)" using y by linarith
    ultimately have "(y - 1) div k = y div k"
      using False by (intro int_div_pos_eq [where r = "y mod k - 1"]) simp_all
    then show ?thesis using False by simp
  qed
qed

lemma leap_count:
  "(c \<Longrightarrow> b) \<Longrightarrow> (b \<Longrightarrow> a) \<Longrightarrow> (if a \<and> (\<not> b \<or> c) then 29 else 28) + 337
    = (365 :: int) + (if a then 1 else 0) - (if b then 1 else 0) + (if c then 1 else 0)"
  by auto

lemma year_length: "days_before_year y + sum_list (month_lengths y) = days_before_year (y + 1)"
proof -
  define i4 i100 i400 :: int where "i4 = (if y mod 4 = 0 then 1 else 0)" and "i100 = (if y mod 100 = 0 then 1 else 0)"
    and "i400 = (if y mod 400 = 0 then 1 else 0)"
  have "sum_list (month_lengths y) = (if is_leap y then 29 else 28) + 337"
    by (simp add: month_lengths_def)
  moreover have "y mod 400 = 0 \<Longrightarrow> y mod 100 = 0" "y mod 100 = 0 \<Longrightarrow> y mod 4 = 0"
    using dvd_trans [of 100 400 y] dvd_trans [of 4 100 y] unfolding dvd_eq_mod_eq_0 by simp_all
  ultimately have "sum_list (month_lengths y) = 365 + i4 - i100 + i400"
    unfolding is_leap_def i4_def i100_def i400_def by (simp only: leap_count)
  moreover define a b c where "a = (y - 1) div 4" and "b = (y - 1) div 100" and "c = (y - 1) div 400"
  have "y div 4 = a + i4" "y div 100 = b + i100" "y div 400 = c + i400"
    unfolding i4_def i100_def i400_def a_def b_def c_def by (rule div_pred, simp)+
  then have "days_before_year (y + 1) = 365 * y + (a + i4) - (b + i100) + (c + i400)"
    unfolding days_before_year_def by (simp only: add_diff_cancel_right')
  moreover have "days_before_year y = 365 * (y - 1) + a - b + c"
    unfolding days_before_year_def a_def b_def c_def by (rule refl)
  ultimately show ?thesis by simp
qed

lemma cycle_mono:
  fixes y y' a a' b b' c c' :: int
  assumes "b' \<le> b + (y' - y)" and "a \<le> a'" and "c \<le> c'" and "y \<le> y'"
  shows "365 * (y - 1) + a - b + c \<le> 365 * (y' - 1) + a' - b' + c'"
proof -
  define k where "k = y' - y"
  have k: "0 \<le> k" "y' = y + k" "b' \<le> b + k" using assms(1,4) by (simp_all add: k_def)
  then have "k \<le> 365 * k" by simp
  then have "b' - b \<le> 365 * k" using k(3) by simp
  then show ?thesis using assms(2,3) by (simp add: k(2) algebra_simps)
qed

lemma days_before_year_mono: "y \<le> y' \<Longrightarrow> days_before_year y \<le> days_before_year y'"
proof -
  assume le: "y \<le> y'"
  have "(y' - 1) div 100 \<le> (y - 1 + (y' - y) * 100) div 100" using le by (intro zdiv_mono1) simp_all
  then have "(y' - 1) div 100 \<le> (y - 1) div 100 + (y' - y)" by simp
  moreover have "(y - 1) div 4 \<le> (y' - 1) div 4" "(y - 1) div 400 \<le> (y' - 1) div 400"
    using le by (simp_all add: zdiv_mono1)
  ultimately show ?thesis using le unfolding days_before_year_def by (intro cycle_mono)
qed

definition year10000 :: time where "year10000 = days_before_year 10000 * dayNanos"

lemma year10000_bound: "year10000 = 315537897600000000000"
  by (simp add: year10000_def days_before_year_def dayNanos_def Second_def)

lemma year_range:
  assumes "0 \<le> n" and "n < days_before_year 10000" and "date_of_days n = (y, m, d)"
  shows "1 \<le> y \<and> y \<le> 9999"
proof -
  obtain yd where yd: "year_yday n = (y, yd)" using assms(3) by (auto simp: date_of_days_def split: prod.splits)
  note b = year_yday_bounds [OF yd]
  have "y \<le> 9999"
  proof (rule ccontr)
    assume "\<not> y \<le> 9999"
    then have "days_before_year 10000 \<le> days_before_year y" by (intro days_before_year_mono) simp
    then show False using b(1,2) assms(2) by simp
  qed
  moreover have "1 \<le> y"
  proof (rule ccontr)
    assume "\<not> 1 \<le> y"
    then have "days_before_year (y + 1) \<le> days_before_year 1" by (intro days_before_year_mono) simp
    moreover have "days_before_year y + sum_list (month_lengths y) = days_before_year (y + 1)" by (rule year_length)
    moreover have "days_before_year 1 = 0" by (simp add: days_before_year_def)
    ultimately have "days_before_year y + sum_list (month_lengths y) \<le> 0" by simp
    then show False using b assms(1) by linarith
  qed
  ultimately show ?thesis by simp
qed

lemma num_digits_year: "n < 10000 \<Longrightarrow> num_digits n \<le> 4"
  by (simp add: num_digits.simps [of n] num_digits.simps [of "n div 10"] num_digits.simps [of "n div 100"]
      num_digits.simps [of "n div 1000"] flip: div_mult2_eq)

lemma num_hour_pad: "0 \<le> n \<Longrightarrow> n < 100 \<Longrightarrow> num_hour (pad 2 n @ rest) = Some (n, rest)"
  using num_pad_exact [of n 2 rest] by (simp add: num_hour_def)

lemma clock_split:
  fixes s :: int
  shows "s div 3600 * 3600 + s div 60 mod 60 * 60 + s mod 60 = s"
proof -
  have "s div 3600 = s div 60 div 60" by (simp flip: zdiv_zmult2_eq)
  then have "s div 3600 * 60 + s div 60 mod 60 = s div 60" by simp
  then have "(s div 3600 * 60 + s div 60 mod 60) * 60 + s mod 60 = s" by (simp only: div_mult_mod_eq)
  then show ?thesis by simp
qed

lemma month_length_le: "1 \<le> m \<Longrightarrow> m \<le> 12 \<Longrightarrow> month_lengths y ! nat (m - 1) \<le> 31"
proof -
  assume "1 \<le> m" "m \<le> 12"
  then have "month_lengths y ! nat (m - 1) \<in> set (month_lengths y)"
    by (intro nth_mem) (simp add: month_lengths_def)
  moreover have "\<forall>l \<in> set (month_lengths y). l \<le> 31" by (simp add: month_lengths_def)
  ultimately show ?thesis by blast
qed

lemma timestamp_year:
  assumes "0 \<le> t" and "t < year10000" and date: "date_of_days (t div dayNanos) = (y, m, d)"
  shows "1 \<le> y" and "y \<le> 9999" and "format_year y = pad 4 y"
proof -
  have day: "0 < dayNanos" by (simp add: dayNanos_def Second_def)
  have "t div dayNanos * dayNanos \<le> t" using day by (simp add: div_mult_mod_eq flip: minus_mod_eq_div_mult)
  then have "t div dayNanos * dayNanos < days_before_year 10000 * dayNanos" using assms(2) by (simp add: year10000_def)
  then have "t div dayNanos < days_before_year 10000" using day by (simp add: mult_less_cancel_right)
  moreover have "0 \<le> t div dayNanos" using assms(1) day by (simp add: pos_imp_zdiv_nonneg_iff)
  ultimately show y: "1 \<le> y" "y \<le> 9999" using year_range date by blast+
  then show "format_year y = pad 4 y"
    using num_digits_year [of "nat y"] by (simp add: format_year_def max_absorb1)
qed

text \<open>Any instant from year 1 to year 9999 survives being printed and parsed.\<close>

lemma timestamp_round_trip:
  assumes "0 \<le> t" and "t < year10000"
  shows "Parse_RFC3339Nano (Format_RFC3339Nano t) = Some t"
proof -
  obtain y m d where date: "date_of_days (t div dayNanos) = (y, m, d)" by (metis prod_cases3)
  have day: "0 < dayNanos" by (simp add: dayNanos_def Second_def)
  define ns s where "ns = t mod dayNanos" and "s = ns div Second"
  note y = timestamp_year [OF assms date]
  note r = date_round_trip [OF date]
  have "0 \<le> ns" "ns < dayNanos" using day by (simp_all add: ns_def)
  then have s: "0 \<le> s" "s < 86400" by (simp_all add: s_def Second_def dayNanos_def)
  have date_ranges: "0 \<le> y" "y < 10 ^ 4" "0 \<le> m" "m < 10 ^ 2" "0 \<le> d" "d < 10 ^ 2"
    using y(1,2) r(2-5) month_length_le [OF r(2,3), of y] by simp_all
  have "s div 3600 \<le> 86399 div 3600" using s by (intro zdiv_mono1) simp_all
  then have clock_ranges: "0 \<le> s div 3600" "s div 3600 < 100" "s div 3600 < 24"
    using s(1) by (simp_all add: pos_imp_zdiv_nonneg_iff)
  have minute_ranges: "0 \<le> s div 60 mod 60" "s div 60 mod 60 < 10 ^ 2" "s div 60 mod 60 < 60"
    "0 \<le> s mod 60" "s mod 60 < 10 ^ 2" "s mod 60 < 60"
    using pos_mod_bound [of 60 "s div 60"] pos_mod_bound [of 60 s] by simp_all
  have nsec: "0 \<le> ns mod Second" "ns mod Second < 10 ^ 9" by (simp_all add: Second_def)
  note frac = parse_frac_format [OF nsec refl]
  have "days_of_date y m d * dayNanos + (s div 3600 * 3600 + s div 60 mod 60 * 60 + s mod 60) * Second + ns mod Second = t"
    unfolding clock_split s_def ns_def r(1) by simp
  then show ?thesis
    unfolding Parse_RFC3339Nano_def Format_RFC3339Nano_def Let_def date prod.case ns_def [symmetric] s_def [symmetric] y(3)
    by (simp add: num_pad_exact num_hour_pad lit_def frac parse_zone_def date_ranges clock_ranges minute_ranges r(2-5)
        del: power_numeral)
qed

end
