(* ===== verification/Codec.thy ===== *)
theory Codec
  imports Json GoTime Message
begin

text \<open>
  \<^verbatim>\<open>protocol/header.go\<close>, \<^verbatim>\<open>protocol/codec.go\<close>: the message header and the JSON codec that
  puts it into frames. The endpoints reach the codec through the interface \<^verbatim>\<open>Codec\<close>; what
  they rely on is the locale \<open>header_codec\<close>.
\<close>

section \<open>Header\<close>

record Header =
  hd_ServiceID :: string
  hd_SessionID :: string
  hd_RequestID :: string
  hd_Sequence :: "64 word"
  hd_Timestamp :: string
  hd_Priority :: byte
  hd_Capability :: string
  hd_Route :: string
  hd_PayloadFormat :: byte

text \<open>\<open>var hdr protocol.Header\<close>.\<close>

definition zeroHeader :: Header where
  "zeroHeader = \<lparr>hd_ServiceID = [], hd_SessionID = [], hd_RequestID = [], hd_Sequence = 0, hd_Timestamp = [],
     hd_Priority = 0, hd_Capability = [], hd_Route = [], hd_PayloadFormat = 0\<rparr>"

section \<open>The JSON codec\<close>

text \<open>A codec as the endpoints see it: the two methods at the type of headers.\<close>

record HeaderCodec =
  hc_Marshal :: "Header \<Rightarrow> bytes result"
  hc_Unmarshal :: "bytes \<Rightarrow> error option \<times> Header"

definition header_members :: "Header \<Rightarrow> (string \<times> fval) list" where
  "header_members h =
     [(''service_id'', FStr (hd_ServiceID h)), (''session_id'', FStr (hd_SessionID h)),
      (''request_id'', FStr (hd_RequestID h)), (''sequence'', FNum (unat (hd_Sequence h))),
      (''timestamp'', FStr (hd_Timestamp h)), (''priority'', FNum (unat (hd_Priority h)))]
     @ omitempty ''capability'' (hd_Capability h) @ omitempty ''route'' (hd_Route h)
     @ [(''payload_format'', FNum (unat (hd_PayloadFormat h)))]"

definition header_fields :: "(string \<times> Header setter) list" where
  "header_fields =
     [(''service_id'', set_string (\<lambda>s r. r\<lparr>hd_ServiceID := s\<rparr>)), (''session_id'', set_string (\<lambda>s r. r\<lparr>hd_SessionID := s\<rparr>)),
      (''request_id'', set_string (\<lambda>s r. r\<lparr>hd_RequestID := s\<rparr>)),
      (''sequence'', set_uint (2 ^ 64 - 1) (\<lambda>n r. r\<lparr>hd_Sequence := of_nat n\<rparr>)),
      (''timestamp'', set_string (\<lambda>s r. r\<lparr>hd_Timestamp := s\<rparr>)),
      (''priority'', set_uint 255 (\<lambda>n r. r\<lparr>hd_Priority := of_nat n\<rparr>)),
      (''capability'', set_string (\<lambda>s r. r\<lparr>hd_Capability := s\<rparr>)), (''route'', set_string (\<lambda>s r. r\<lparr>hd_Route := s\<rparr>)),
      (''payload_format'', set_uint 255 (\<lambda>n r. r\<lparr>hd_PayloadFormat := of_nat n\<rparr>))]"

definition JSONCodec_Marshal :: "Header \<Rightarrow> bytes result" where
  "JSONCodec_Marshal h = json_Marshal (header_members h)"

definition JSONCodec_Unmarshal :: "bytes \<Rightarrow> error option \<times> Header" where
  "JSONCodec_Unmarshal data = json_Unmarshal header_fields data zeroHeader"

definition DefaultCodec :: HeaderCodec where
  "DefaultCodec = \<lparr>hc_Marshal = JSONCodec_Marshal, hc_Unmarshal = JSONCodec_Unmarshal\<rparr>"

section \<open>The contract of a codec\<close>

text \<open>A header with the strings \<open>f\<close> makes of its own.\<close>

definition map_header :: "(string \<Rightarrow> string) \<Rightarrow> Header \<Rightarrow> Header" where
  "map_header f h = h\<lparr>hd_ServiceID := f (hd_ServiceID h), hd_SessionID := f (hd_SessionID h), hd_RequestID := f (hd_RequestID h),
     hd_Timestamp := f (hd_Timestamp h), hd_Capability := f (hd_Capability h), hd_Route := f (hd_Route h)\<rparr>"

locale header_codec =
  fixes marshal :: "Header \<Rightarrow> bytes result"
    and unmarshal :: "bytes \<Rightarrow> error option \<times> Header"
    and carried :: "Header \<Rightarrow> Header"
  assumes round_trip: "\<exists>data. marshal h = Inr data \<and> unmarshal data = (None, carried h)"
begin

lemma marshal_total: "marshal h \<noteq> Inl e"
  using round_trip [of h] by auto

lemma unmarshal_marshal: "marshal h = Inr data \<Longrightarrow> unmarshal data = (None, carried h)"
  using round_trip [of h] by auto

end

lemma unat_word_bounds: "unat (w :: 64 word) \<le> 18446744073709551615" "unat (b :: byte) \<le> 255"
  using unsigned_less [of w, where ?'a = nat] unsigned_less [of b, where ?'a = nat] by simp_all

lemma JSONCodec_round_trip:
  "JSONCodec_Unmarshal (json_struct (header_members h)) = (None, map_header clean h)"
proof -
  have "names_in (header_members h) header_fields" "list_all (fval_ok \<circ> snd) (header_members h)"
    by (simp_all add: struct_simps header_members_def header_fields_def)
  moreover have "put_fvals header_fields (header_members h) zeroHeader = (None, map_header clean h)"
    by (cases h) (simp add: header_members_def header_fields_def omitempty_def unat_word_bounds zeroHeader_def map_header_def)
  ultimately show ?thesis by (simp add: JSONCodec_Unmarshal_def json_Unmarshal_struct)
qed

interpretation jsonheaders: header_codec JSONCodec_Marshal JSONCodec_Unmarshal "map_header clean"
  by unfold_locales (simp add: JSONCodec_Marshal_def json_Marshal_def JSONCodec_round_trip)

section \<open>Timestamps are ASCII\<close>

lemma ascii_append [simp]: "ascii (s @ t) \<longleftrightarrow> ascii s \<and> ascii t"
  by (simp add: ascii_def)

lemma ascii_dig: "ascii [dig (n mod 10)]"
proof -
  have "n mod 10 < 10" by simp
  then have "nat (n mod 10) < 10" by linarith
  then show ?thesis by (simp add: ascii_def dig_def)
qed

lemma ascii_pad [simp]: "ascii (pad w n)"
  by (induction w arbitrary: n) (simp_all add: ascii_dig, simp add: ascii_def)

lemma ascii_trim_zeros: "ascii s \<Longrightarrow> ascii (trim_zeros s)"
  using trim_zeros_split [of s] by (metis ascii_append)

lemma ascii_timestamp: "ascii (Format_RFC3339Nano t)"
proof -
  have lits: "ascii []" "\<And>s. ascii (CHR ''-'' # s) \<longleftrightarrow> ascii s" "\<And>s. ascii (CHR ''T'' # s) \<longleftrightarrow> ascii s"
    "\<And>s. ascii (CHR '':'' # s) \<longleftrightarrow> ascii s" "\<And>s. ascii (CHR ''.'' # s) \<longleftrightarrow> ascii s" "\<And>s. ascii (CHR ''Z'' # s) \<longleftrightarrow> ascii s"
    by (simp_all add: ascii_def of_char_def)
  show ?thesis
    unfolding Format_RFC3339Nano_def format_year_def Let_def
    by (simp add: lits ascii_trim_zeros split: prod.split)
qed

lemma clean_timestamp [simp]: "clean (Format_RFC3339Nano t) = Format_RFC3339Nano t"
  by (simp add: clean_def sanitize_name ascii_timestamp)

section \<open>The size of a header\<close>

lemma header_size:
  "length (json_struct (header_members h)) \<le>
     6 * (length (hd_ServiceID h) + length (hd_SessionID h) + length (hd_RequestID h) + length (hd_Timestamp h)
       + length (hd_Capability h) + length (hd_Route h)) + 800"
proof -
  have "unat (hd_Sequence h) < 10 ^ Suc 19" "unat (hd_Priority h) < 10 ^ Suc 2" "unat (hd_PayloadFormat h) < 10 ^ Suc 2"
    using unat_word_bounds(1) [of "hd_Sequence h"] unat_word_bounds(2) [of "hd_Priority h"] unat_word_bounds(2) [of "hd_PayloadFormat h"]
    by simp_all
  note nums = length_itoa [OF \<open>unat (hd_Sequence h) < 10 ^ Suc 19\<close>] length_itoa [OF \<open>unat (hd_Priority h) < 10 ^ Suc 2\<close>]
    length_itoa [OF \<open>unat (hd_PayloadFormat h) < 10 ^ Suc 2\<close>]
  show ?thesis
    using length_json_struct [of "header_members h"] nums length_fval_string [of "hd_ServiceID h"] length_fval_string [of "hd_SessionID h"]
      length_fval_string [of "hd_RequestID h"] length_fval_string [of "hd_Timestamp h"] length_fval_string [of "hd_Capability h"]
      length_fval_string [of "hd_Route h"]
    by (simp add: header_members_def omitempty_def members_size_def split: if_splits)
qed

lemma length_trim_zeros: "length (trim_zeros s) \<le> length s"
  using trim_zeros_split [of s] by (metis le_add1 length_append)

lemma timestamp_size:
  assumes "0 \<le> t" and "t < year10000"
  shows "length (Format_RFC3339Nano t) \<le> 30"
proof -
  obtain y m d where date: "date_of_days (t div dayNanos) = (y, m, d)" by (metis prod_cases3)
  show ?thesis
    using timestamp_year(3) [OF assms date] length_trim_zeros [of "pad 9 (t mod dayNanos mod Second)"]
    by (simp add: Format_RFC3339Nano_def Let_def date)
qed

end
