(* ===== verification/Config.thy ===== *)
theory Config
  imports Prelude
begin

text \<open>
  \<^verbatim>\<open>config/config.go\<close>. The environment is the map \<open>env\<close> from variable names to values and
  the file system the function \<open>readFile\<close>. \<open>filepath.Clean\<close> and \<open>strconv.Atoi\<close> are
  defined here; \<open>time.ParseDuration\<close>, which computes with floating-point numbers, is the argument \<open>parseDuration\<close>.
\<close>

section \<open>Standard library\<close>

definition os_Getenv :: "(string \<rightharpoonup> string) \<Rightarrow> string \<Rightarrow> string" where
  "os_Getenv env name = (case env name of None \<Rightarrow> '''' | Some v \<Rightarrow> v)"

text \<open>The elements of a path between slashes.\<close>

fun path_split :: "string \<Rightarrow> string list" where
  "path_split [] = [[]]"
| "path_split (c # cs) =
     (if c = CHR ''/'' then [] # path_split cs
      else case path_split cs of [] \<Rightarrow> [[c]] | e # es \<Rightarrow> (c # e) # es)"

text \<open>\<open>out\<close> is the stack of elements kept so far, last first.\<close>

fun clean_elems :: "bool \<Rightarrow> string list \<Rightarrow> string list \<Rightarrow> string list" where
  "clean_elems rooted out [] = rev out"
| "clean_elems rooted out (e # es) =
     (if e = '''' \<or> e = ''.'' then clean_elems rooted out es
      else if e = ''..'' then
        (case out of
           [] \<Rightarrow> clean_elems rooted (if rooted then [] else [''..'']) es
         | x # xs \<Rightarrow> if x = ''..'' then clean_elems rooted (''..'' # out) es else clean_elems rooted xs es)
      else clean_elems rooted (e # out) es)"

fun path_join :: "string list \<Rightarrow> string" where
  "path_join [] = ''''"
| "path_join [e] = e"
| "path_join (e # es) = e @ ''/'' @ path_join es"

definition filepath_Clean :: "string \<Rightarrow> string" where
  "filepath_Clean path =
     (let rooted = (path \<noteq> [] \<and> hd path = CHR ''/'');
          out = path_join (clean_elems rooted [] (path_split path))
      in if rooted then CHR ''/'' # out else if out = '''' then ''.'' else out)"

definition digit_val :: "char \<Rightarrow> int option" where
  "digit_val c = (let n = of_char c :: int in if 48 \<le> n \<and> n \<le> 57 then Some (n - 48) else None)"

fun digits_val :: "int \<Rightarrow> string \<Rightarrow> int option" where
  "digits_val acc [] = Some acc"
| "digits_val acc (c # cs) = (case digit_val c of None \<Rightarrow> None | Some d \<Rightarrow> digits_val (10 * acc + d) cs)"

text \<open>\<open>strconv.Atoi\<close>; both of its errors (syntax and range) are \<open>None\<close>.\<close>

definition strconv_Atoi :: "string \<Rightarrow> int option" where
  "strconv_Atoi s =
     (let (neg, ds) = (case s of
          CHR ''-'' # cs \<Rightarrow> (True, cs)
        | CHR ''+'' # cs \<Rightarrow> (False, cs)
        | _ \<Rightarrow> (False, s))
      in if ds = [] then None
         else case digits_val 0 ds of
                None \<Rightarrow> None
              | Some n \<Rightarrow> (let v = (if neg then - n else n) in if - (2 ^ 63) \<le> v \<and> v < 2 ^ 63 then Some v else None))"

section \<open>The configuration\<close>

definition LoadHMACKey :: "(string \<rightharpoonup> string) \<Rightarrow> (string \<Rightarrow> bytes result) \<Rightarrow> bytes result" where
  "LoadHMACKey env readFile =
     (let key = os_Getenv env ''EIPC_HMAC_KEY''; path = os_Getenv env ''EIPC_KEY_FILE''
      in if key \<noteq> '''' then Inr (bytes_of_string key)
         else if path \<noteq> '''' then
           (let path = filepath_Clean path
            in case readFile path of
                 Inl err \<Rightarrow> Inl (Errorf ''read key file %q: %w'' [AStr path, AErr err])
               | Inr data \<Rightarrow> Inr data)
         else Inl (Errorf ''EIPC_HMAC_KEY or EIPC_KEY_FILE must be set'' []))"

definition LoadSessionTTL :: "(string \<rightharpoonup> string) \<Rightarrow> (string \<Rightarrow> duration result) \<Rightarrow> duration" where
  "LoadSessionTTL env parseDuration =
     (let s = os_Getenv env ''EIPC_SESSION_TTL''
      in if s \<noteq> '''' then (case parseDuration s of Inr d \<Rightarrow> d | Inl err \<Rightarrow> 1 * Hour) else 1 * Hour)"

definition LoadMaxConnections :: "(string \<rightharpoonup> string) \<Rightarrow> int" where
  "LoadMaxConnections env =
     (let s = os_Getenv env ''EIPC_MAX_CONNECTIONS''
      in if s \<noteq> '''' then (case strconv_Atoi s of Some n \<Rightarrow> if n > 0 then n else 64 | None \<Rightarrow> 64) else 64)"

definition LoadListenAddr :: "(string \<rightharpoonup> string) \<Rightarrow> string" where
  "LoadListenAddr env =
     (let addr = os_Getenv env ''EIPC_LISTEN_ADDR'' in if addr \<noteq> '''' then addr else ''127.0.0.1:9090'')"

definition TLSEnabled :: "(string \<rightharpoonup> string) \<Rightarrow> bool" where
  "TLSEnabled env \<longleftrightarrow> os_Getenv env ''EIPC_TLS_CERT'' \<noteq> '''' \<or> os_Getenv env ''EIPC_TLS_AUTO_CERT'' = ''true''"

section \<open>Lemmas\<close>

lemma LoadMaxConnections_pos: "0 < LoadMaxConnections env"
  by (simp add: LoadMaxConnections_def Let_def split: option.split)

text \<open>A cleaned path is rooted exactly when the path is, and then has no \<open>..\<close> element: it cannot climb out.\<close>

definition kept_elem :: "bool \<Rightarrow> string \<Rightarrow> bool" where
  "kept_elem rooted e \<longleftrightarrow> e \<noteq> [] \<and> e \<noteq> ''.'' \<and> (rooted \<longrightarrow> e \<noteq> ''..'')"

lemma clean_elems_keeps:
  "list_all (kept_elem rooted) out \<Longrightarrow> list_all (kept_elem rooted) (clean_elems rooted out es)"
proof (induction es arbitrary: out)
  case (Cons e es)
  consider "e = []" | "e = ''.''" | "e = ''..''" | "e \<noteq> []" "e \<noteq> ''.''" "e \<noteq> ''..''" by blast
  then show ?case
  proof cases
    case 3
    then show ?thesis using Cons by (cases out) (auto simp: kept_elem_def)
  qed (use Cons in \<open>simp_all add: kept_elem_def\<close>)
qed simp

lemma Clean_rooted:
  "path = CHR ''/'' # rest \<Longrightarrow> \<exists>es. filepath_Clean path = CHR ''/'' # path_join es \<and> list_all (kept_elem True) es"
  using clean_elems_keeps [of True "[]" "path_split path"] by (auto simp: filepath_Clean_def Let_def simp del: path_split.simps)

lemma LoadHMACKey_env:
  "env ''EIPC_HMAC_KEY'' = Some key \<Longrightarrow> key \<noteq> '''' \<Longrightarrow> LoadHMACKey env readFile = Inr (bytes_of_string key)"
  by (simp add: LoadHMACKey_def os_Getenv_def Let_def)

end
