(* ===== verification/AuditLog.thy ===== *)
theory AuditLog
  imports Codec Config ByteIO
begin

text \<open>
  \<^verbatim>\<open>services/audit/audit.go\<close>: audit entries, the \<open>Logger\<close> interface and the logger that appends one
  JSON line per entry to a file or to standard output. A logger is the function its \<open>Log\<close>
  method is on the state \<open>'l\<close> behind the interface. The result of an entry may be formatted text;
  \<open>render\<close> is the formatting of package \<^verbatim>\<open>fmt\<close>.
\<close>

section \<open>Entries and loggers\<close>

record Entry =
  ae_Timestamp :: string
  ae_RequestID :: string
  ae_Source :: string
  ae_Target :: string
  ae_Action :: string
  ae_Decision :: string
  ae_Result :: gotext

type_synonym 'l Logger = "Entry \<Rightarrow> 'l \<Rightarrow> error option \<times> 'l"

definition entry_members :: "(gotext \<Rightarrow> string) \<Rightarrow> Entry \<Rightarrow> (string \<times> fval) list" where
  "entry_members render e =
     [(''timestamp'', FStr (ae_Timestamp e)), (''request_id'', FStr (ae_RequestID e)), (''source'', FStr (ae_Source e)),
      (''target'', FStr (ae_Target e)), (''action'', FStr (ae_Action e)), (''decision'', FStr (ae_Decision e)),
      (''result'', FStr (render (ae_Result e)))]"

section \<open>The file logger\<close>

text \<open>The open file, whether it is \<open>os.Stdout\<close>, and the readings the clock will give.\<close>

record 'w FileLogger =
  fl_writer :: 'w
  fl_stdout :: bool
  fl_clock :: "nat \<Rightarrow> time"

definition NewFileLogger :: "'w \<Rightarrow> (string \<Rightarrow> 'w result) \<Rightarrow> (nat \<Rightarrow> time) \<Rightarrow> string \<Rightarrow> 'w FileLogger result" where
  "NewFileLogger stdout openFile clock path =
     (if path = '''' then Inr \<lparr>fl_writer = stdout, fl_stdout = True, fl_clock = clock\<rparr>
      else case openFile (filepath_Clean path) of
             Inl e \<Rightarrow> Inl (wrap_err ''open audit log: %w'' e)
           | Inr f \<Rightarrow> Inr \<lparr>fl_writer = f, fl_stdout = False, fl_clock = clock\<rparr>)"

definition stamp_entry :: "Entry \<Rightarrow> (nat \<Rightarrow> time) \<Rightarrow> Entry \<times> (nat \<Rightarrow> time)" where
  "stamp_entry entry clock =
     (if ae_Timestamp entry = '''' then (entry\<lparr>ae_Timestamp := Format_RFC3339Nano (clock 0)\<rparr>, \<lambda>n. clock (Suc n))
      else (entry, clock))"

definition FileLogger_Log :: "(gotext \<Rightarrow> string) \<Rightarrow> 'w writer \<Rightarrow> 'w FileLogger Logger" where
  "FileLogger_Log render write entry l =
     (let (entry, clock) = stamp_entry entry (fl_clock l); l = l\<lparr>fl_clock := clock\<rparr>
      in case json_Marshal (entry_members render entry) of
           Inl e \<Rightarrow> (Some (wrap_err ''marshal audit entry: %w'' e), l)
         | Inr data \<Rightarrow>
            (case write (fl_writer l) (data @ [0x0A]) of
               (Some e, w) \<Rightarrow> (Some (wrap_err ''write audit entry: %w'' e), l\<lparr>fl_writer := w\<rparr>)
             | (None, w) \<Rightarrow> (None, l\<lparr>fl_writer := w\<rparr>)))"

definition FileLogger_Close :: "('w \<Rightarrow> error option \<times> 'w) \<Rightarrow> 'w FileLogger \<Rightarrow> error option \<times> 'w FileLogger" where
  "FileLogger_Close close l =
     (if \<not> fl_stdout l then case close (fl_writer l) of (r, w) \<Rightarrow> (r, l\<lparr>fl_writer := w\<rparr>) else (None, l))"

section \<open>Reading the log back\<close>

record LogLine =
  ll_Timestamp :: string
  ll_RequestID :: string
  ll_Source :: string
  ll_Target :: string
  ll_Action :: string
  ll_Decision :: string
  ll_Result :: string

definition zeroLogLine :: LogLine where
  "zeroLogLine = \<lparr>ll_Timestamp = [], ll_RequestID = [], ll_Source = [], ll_Target = [], ll_Action = [], ll_Decision = [],
     ll_Result = []\<rparr>"

definition line_fields :: "(string \<times> LogLine setter) list" where
  "line_fields =
     [(''timestamp'', set_string (\<lambda>s r. r\<lparr>ll_Timestamp := s\<rparr>)), (''request_id'', set_string (\<lambda>s r. r\<lparr>ll_RequestID := s\<rparr>)),
      (''source'', set_string (\<lambda>s r. r\<lparr>ll_Source := s\<rparr>)), (''target'', set_string (\<lambda>s r. r\<lparr>ll_Target := s\<rparr>)),
      (''action'', set_string (\<lambda>s r. r\<lparr>ll_Action := s\<rparr>)), (''decision'', set_string (\<lambda>s r. r\<lparr>ll_Decision := s\<rparr>)),
      (''result'', set_string (\<lambda>s r. r\<lparr>ll_Result := s\<rparr>))]"

definition log_line :: "(gotext \<Rightarrow> string) \<Rightarrow> Entry \<Rightarrow> LogLine" where
  "log_line render e =
     \<lparr>ll_Timestamp = clean (ae_Timestamp e), ll_RequestID = clean (ae_RequestID e), ll_Source = clean (ae_Source e),
      ll_Target = clean (ae_Target e), ll_Action = clean (ae_Action e), ll_Decision = clean (ae_Decision e),
      ll_Result = clean (render (ae_Result e))\<rparr>"

fun log_all :: "'l Logger \<Rightarrow> Entry list \<Rightarrow> 'l \<Rightarrow> error option \<times> 'l" where
  "log_all lg [] l = (None, l)"
| "log_all lg (e # es) l = (case lg e l of (Some err, l1) \<Rightarrow> (Some err, l1) | (None, l1) \<Rightarrow> log_all lg es l1)"

text \<open>The entries as they are written, with the clock's readings.\<close>

fun stamp_all :: "Entry list \<Rightarrow> (nat \<Rightarrow> time) \<Rightarrow> Entry list" where
  "stamp_all [] clock = []"
| "stamp_all (e # es) clock = (case stamp_entry e clock of (e', clock') \<Rightarrow> e' # stamp_all es clock')"

fun split_lines :: "bytes \<Rightarrow> bytes \<Rightarrow> bytes list" where
  "split_lines acc [] = (if acc = [] then [] else [acc])"
| "split_lines acc (b # bs) = (if b = 0x0A then acc # split_lines [] bs else split_lines (acc @ [b]) bs)"

section \<open>Lemmas\<close>

lemma split_lines_line: "0x0A \<notin> set l \<Longrightarrow> split_lines acc (l @ 0x0A # rest) = (acc @ l) # split_lines [] rest"
  by (induction l arbitrary: acc) simp_all

lemma hexd_no_newline: "n < 16 \<Longrightarrow> 0x0A \<noteq> hexd n"
proof
  assume "n < 16" "0x0A = hexd n"
  then have "is_hex 0x0A" using hexd_simps(1) by metis
  then show False by (simp add: is_hex_def hex_val_def char_of_def of_char_def Let_def bit_0)
qed

lemma quote_body_no_newline: "0x0A \<notin> set (quote_body bs)"
proof (induction bs rule: quote_body.induct)
  case (2 b bs)
  show ?case
  proof (cases "unat b < 0x80")
    case True
    have "0x0A \<notin> set (if html_safe b then [b] else escape_byte b)"
      using hexd_no_newline [of "unat b div 16"] hexd_no_newline [of "unat b mod 16"]
      by (auto simp: html_safe_def escape_byte_def)
    then show ?thesis using True 2(1) by (auto split: if_splits)
  next
    case False
    show ?thesis
    proof (cases "decode_rune (b # bs)")
      case None
      then show ?thesis using 2(2) False by simp
    next
      case (Some rn)
      obtain r n where rn: "rn = (r, n)" by (cases rn)
      have "0x0A \<notin> set (take n (b # bs))"
      proof
        assume "0x0A \<in> set (take n (b # bs))"
        then have "0x80 \<le> unat (0x0A :: byte)"
          using decode_rune_high [OF Some [unfolded rn], of "0x0A"] False by simp
        then show False by simp
      qed
      then show ?thesis
        using 2(3) [OF False Some rn [symmetric]] False Some rn hexd_no_newline [of "r mod 16"] by simp
    qed
  qed
qed simp

lemma digits_no_newline: "list_all is_digit ds \<Longrightarrow> 0x0A \<notin> set ds"
  by (auto simp: list_all_iff is_digit_def)

lemma fval_no_newline: "fval_ok v \<Longrightarrow> 0x0A \<notin> set (fval_text v)"
proof (cases v)
  case (FStrs ss)
  have "0x0A \<notin> set (json_elems (map (\<lambda>s. json_string (bytes_of_string s)) ss))"
    by (induction ss rule: induct_list012) (simp_all add: json_string_def quote_body_no_newline)
  then show ?thesis using FStrs by (simp add: json_array_def)
next
  case (FLit l)
  assume "fval_ok v"
  then show ?thesis
    using FLit by (cases l) (auto simp: number_lit_def list_all_iff num_char_def is_digit_def)
next
  case (FNum n)
  then show ?thesis using itoa_digits [of n] digits_no_newline by simp
qed (simp add: json_string_def quote_body_no_newline)

lemma json_struct_no_newline:
  assumes "list_all (fval_ok \<circ> snd) ms"
  shows "0x0A \<notin> set (json_struct ms)"
proof -
  have "0x0A \<notin> set (json_members (map (\<lambda>(k, v). (k, fval_text v)) ms))" using assms
  proof (induction ms rule: induct_list012)
    case (2 m)
    then show ?case by (cases m) (simp add: json_string_def quote_body_no_newline fval_no_newline)
  next
    case (3 m m' ms)
    then show ?case by (cases m; cases m') (simp add: json_string_def quote_body_no_newline fval_no_newline)
  qed simp
  then show ?thesis by (simp add: json_struct_def json_object_def)
qed

lemma entry_ok: "list_all (fval_ok \<circ> snd) (entry_members render e)"
  by (simp add: entry_members_def)

lemma entry_round_trip:
  "json_Unmarshal line_fields (json_struct (entry_members render e)) zeroLogLine = (None, log_line render e)"
  by (subst json_Unmarshal_struct)
    (simp_all add: struct_simps entry_members_def line_fields_def zeroLogLine_def log_line_def)

lemma log_all_lines:
  "\<exists>l'. log_all (FileLogger_Log render limitedBuffer_Write) es l = (None, l')
     \<and> lb_data (fl_writer l') = lb_data (fl_writer l)
         @ concat (map (\<lambda>e. json_struct (entry_members render e) @ [0x0A]) (stamp_all es (fl_clock l)))"
proof (induction es arbitrary: l)
  case (Cons e es)
  obtain e' clock' where st: "stamp_entry e (fl_clock l) = (e', clock')" by fastforce
  let ?l1 = "l\<lparr>fl_clock := clock', fl_writer := \<lparr>lb_data = lb_data (fl_writer l) @ json_struct (entry_members render e') @ [0x0A]\<rparr>\<rparr>"
  have "FileLogger_Log render limitedBuffer_Write e l = (None, ?l1)"
    by (simp add: FileLogger_Log_def st json_Marshal_def limitedBuffer_Write_def)
  moreover obtain l' where "log_all (FileLogger_Log render limitedBuffer_Write) es ?l1 = (None, l')"
    "lb_data (fl_writer l') = lb_data (fl_writer ?l1)
      @ concat (map (\<lambda>e. json_struct (entry_members render e) @ [0x0A]) (stamp_all es (fl_clock ?l1)))"
    using Cons by blast
  ultimately show ?case by (simp add: st)
qed simp

lemma split_lines_entries:
  "split_lines [] (concat (map (\<lambda>e. json_struct (entry_members render e) @ [0x0A]) es))
     = map (\<lambda>e. json_struct (entry_members render e)) es"
  by (induction es) (simp_all add: split_lines_line json_struct_no_newline entry_ok)

section \<open>Properties\<close>


definition evil_entry :: Entry where
  "evil_entry = \<lparr>ae_Timestamp = [], ae_RequestID = ''r1'', ae_Source = CHR 0x0A # ''{}'', ae_Target = ''eipc-server'',
     ae_Action = ''connect'', ae_Decision = ''denied'', ae_Result = Sprintf ''limit'' []\<rparr>"


end
