(* ===== verification/Policy.thy ===== *)
theory Policy
  imports Keyed Message AuditLog
begin

text \<open>
  \<^verbatim>\<open>services/policy/policy.go\<close>: rules, verdicts and the engine that decides requests and reports
  every decision to the audit log.
\<close>

section \<open>Rules and results\<close>

text \<open>\<^verbatim>\<open>ActionClass\<close> and \<^verbatim>\<open>Verdict\<close> are integer types, so a rule may hold a value outside the constants.\<close>

type_synonym ActionClass = int

definition ActionSafe :: ActionClass where "ActionSafe = 0"
definition ActionControlled :: ActionClass where "ActionControlled = 1"
definition ActionRestricted :: ActionClass where "ActionRestricted = 2"

type_synonym Verdict = int

definition VerdictAllow :: Verdict where "VerdictAllow = 0"
definition VerdictDeny :: Verdict where "VerdictDeny = 1"
definition VerdictConfirm :: Verdict where "VerdictConfirm = 2"

lemmas verdicts = VerdictAllow_def VerdictDeny_def VerdictConfirm_def

record Rule =
  ru_Action :: string
  ru_Class :: ActionClass
  ru_Verdict :: Verdict
  ru_Capability :: string
  ru_Description :: string

record Request =
  rq_Source :: string
  rq_Action :: string
  rq_Capability :: string
  rq_RequestID :: string

record Result =
  rs_Allowed :: bool
  rs_Verdict :: Verdict
  rs_Reason :: gotext
  rs_RequestID :: string
  rs_Timestamp :: time

section \<open>The engine\<close>

record 'l Engine =
  eg_rules :: "string \<rightharpoonup> Rule"
  eg_defaultDeny :: bool
  eg_audit :: "'l Logger option"

definition NewEngine :: "bool \<Rightarrow> 'l Logger option \<Rightarrow> 'l Engine" where
  "NewEngine defaultDeny auditLogger = \<lparr>eg_rules = Map.empty, eg_defaultDeny = defaultDeny, eg_audit = auditLogger\<rparr>"

definition AddRule :: "'l Engine \<Rightarrow> Rule \<Rightarrow> error option \<times> 'l Engine" where
  "AddRule e rule =
     (if ru_Action rule = '''' then (Some (Errorf ''rule action is required'' []), e)
      else (None, e\<lparr>eg_rules := (eg_rules e)(ru_Action rule \<mapsto> rule)\<rparr>))"

definition RemoveRule :: "'l Engine \<Rightarrow> string \<Rightarrow> 'l Engine" where
  "RemoveRule e action = e\<lparr>eg_rules := (eg_rules e)(action := None)\<rparr>"

text \<open>The zero \<open>Result\<close> filled in; a rule whose verdict is none of the constants leaves it as it is.\<close>

definition decide :: "'l Engine \<Rightarrow> Request \<Rightarrow> time \<Rightarrow> Result" where
  "decide e req now =
     (let result = \<lparr>rs_Allowed = False, rs_Verdict = 0, rs_Reason = Sprintf '''' [],
                    rs_RequestID = rq_RequestID req, rs_Timestamp = now\<rparr>
      in case eg_rules e (rq_Action req) of
           None \<Rightarrow>
            (if eg_defaultDeny e
             then result\<lparr>rs_Allowed := False, rs_Verdict := VerdictDeny,
                    rs_Reason := Sprintf ''no rule for action %q, default deny'' [AStr (rq_Action req)]\<rparr>
             else result\<lparr>rs_Allowed := True, rs_Verdict := VerdictAllow,
                    rs_Reason := Sprintf ''no rule, default allow'' []\<rparr>)
         | Some rule \<Rightarrow>
            (if ru_Verdict rule = VerdictAllow then
               (if ru_Capability rule \<noteq> '''' \<and> ru_Capability rule \<noteq> rq_Capability req
                then result\<lparr>rs_Allowed := False, rs_Verdict := VerdictDeny,
                       rs_Reason := Sprintf ''capability mismatch: need %q, have %q'' [AStr (ru_Capability rule), AStr (rq_Capability req)]\<rparr>
                else result\<lparr>rs_Allowed := True, rs_Verdict := VerdictAllow, rs_Reason := Sprintf ''allowed by rule'' []\<rparr>)
             else if ru_Verdict rule = VerdictDeny then
               result\<lparr>rs_Allowed := False, rs_Verdict := VerdictDeny,
                 rs_Reason := Sprintf ''denied by rule: %s'' [AStr (ru_Description rule)]\<rparr>
             else if ru_Verdict rule = VerdictConfirm then
               result\<lparr>rs_Allowed := False, rs_Verdict := VerdictConfirm,
                 rs_Reason := Sprintf ''requires operator confirmation'' []\<rparr>
             else result))"

text \<open>The error of \<open>Log\<close> is dropped.\<close>

definition Evaluate :: "'l Engine \<Rightarrow> Request \<Rightarrow> time \<Rightarrow> 'l \<Rightarrow> Result \<times> 'l" where
  "Evaluate e req now l =
     (let result = decide e req now
      in case eg_audit e of
           None \<Rightarrow> (result, l)
         | Some log \<Rightarrow>
            (let decision = (if \<not> rs_Allowed result then ''deny'' else ''allow'')
             in (result, snd (log \<lparr>ae_Timestamp = '''', ae_RequestID = rq_RequestID req, ae_Source = rq_Source req,
                   ae_Target = '''', ae_Action = rq_Action req, ae_Decision = decision, ae_Result = rs_Reason result\<rparr> l))))"

definition EvaluateMessage :: "'l Engine \<Rightarrow> Message \<Rightarrow> time \<Rightarrow> 'l \<Rightarrow> Result \<times> 'l" where
  "EvaluateMessage e msg now l =
     Evaluate e \<lparr>rq_Source = m_Source msg, rq_Action = m_Type msg, rq_Capability = m_Capability msg,
                 rq_RequestID = m_RequestID msg\<rparr> now l"

definition ListRules :: "'l Engine \<Rightarrow> string list \<Rightarrow> Rule list" where
  "ListRules e ks = map_values (eg_rules e) ks"

definition SetDefaultDeny :: "'l Engine \<Rightarrow> bool \<Rightarrow> 'l Engine" where
  "SetDefaultDeny e deny = e\<lparr>eg_defaultDeny := deny\<rparr>"

definition safeActions :: "string list" where
  "safeActions = [''ui.cursor.move'', ''ui.scroll'', ''ui.select'', ''ui.focus'',
     ''sensor:read'', ''device:read'', ''status:read'']"

definition controlledActions :: "string list" where
  "controlledActions = [''device:write'', ''actuator:write'', ''motor:move'', ''iot:publish'', ''config:write'']"

definition restrictedActions :: "string list" where
  "restrictedActions = [''system:reboot'', ''system:shutdown'', ''firmware:update'', ''security:modify'', ''policy:modify'']"

definition LoadSafeDefaults :: "'l Engine \<Rightarrow> 'l Engine" where
  "LoadSafeDefaults e =
     (let e1 = fold (\<lambda>a e. snd (AddRule e \<lparr>ru_Action = a, ru_Class = ActionSafe, ru_Verdict = VerdictAllow,
                 ru_Capability = '''', ru_Description = ''''\<rparr>)) safeActions e;
          e2 = fold (\<lambda>a e. snd (AddRule e \<lparr>ru_Action = a, ru_Class = ActionControlled, ru_Verdict = VerdictAllow,
                 ru_Capability = ''device:write'', ru_Description = ''''\<rparr>)) controlledActions e1
      in fold (\<lambda>a e. snd (AddRule e \<lparr>ru_Action = a, ru_Class = ActionRestricted, ru_Verdict = VerdictConfirm,
                 ru_Capability = '''', ru_Description = ''restricted system operation''\<rparr>)) restrictedActions e2)"

section \<open>The rules are a keyed table\<close>

datatype policy_op = AddRuleOp Rule | RemoveRuleOp string | SetDefaultDenyOp bool

fun policy_exec :: "'l Engine \<Rightarrow> policy_op \<Rightarrow> 'l Engine" where
  "policy_exec e (AddRuleOp rule) = snd (AddRule e rule)"
| "policy_exec e (RemoveRuleOp action) = RemoveRule e action"
| "policy_exec e (SetDefaultDenyOp deny) = SetDefaultDeny e deny"

fun policy_effect :: "policy_op \<Rightarrow> string \<Rightarrow> Rule option option" where
  "policy_effect (AddRuleOp rule) k = (if k = ru_Action rule \<and> k \<noteq> '''' then Some (Some rule) else None)"
| "policy_effect (RemoveRuleOp action) k = (if k = action then Some None else None)"
| "policy_effect (SetDefaultDenyOp deny) k = None"

interpretation rules: keyed_table "eg_rules :: 'l Engine \<Rightarrow> string \<Rightarrow> Rule option" policy_exec policy_effect
proof
  fix e :: "'l Engine" and op k
  show "eg_rules (policy_exec e op) k = (case policy_effect op k of None \<Rightarrow> eg_rules e k | Some w \<Rightarrow> w)"
    by (cases op) (auto simp: AddRule_def RemoveRule_def SetDefaultDeny_def)
qed

text \<open>The default that is in force after a sequence of operations.\<close>

fun last_default :: "bool \<Rightarrow> policy_op list \<Rightarrow> bool" where
  "last_default d [] = d"
| "last_default d (SetDefaultDenyOp deny # ops) = last_default deny ops"
| "last_default d (op # ops) = last_default d ops"

lemma default_run:
  "eg_defaultDeny (foldl policy_exec e ops) = last_default (eg_defaultDeny e) ops
   \<and> eg_audit (foldl policy_exec e ops) = eg_audit e"
proof (induction ops arbitrary: e)
  case (Cons op ops)
  then show ?case by (cases op) (simp_all add: AddRule_def RemoveRule_def SetDefaultDeny_def)
qed simp

lemma NewEngine_simps [simp]:
  "eg_rules (NewEngine deny audit) = Map.empty" "eg_defaultDeny (NewEngine deny audit) = deny"
  "eg_audit (NewEngine deny audit) = audit"
  by (simp_all add: NewEngine_def)

lemma decide_cong:
  "eg_rules e (rq_Action req) = eg_rules e' (rq_Action req) \<Longrightarrow> eg_defaultDeny e = eg_defaultDeny e'
    \<Longrightarrow> decide e req now = decide e' req now"
  by (simp add: decide_def Let_def split: option.split)

lemma Evaluate_fst: "fst (Evaluate e req now l) = decide e req now"
  by (simp add: Evaluate_def Let_def split: option.split)

lemma decide_Allowed:
  "rs_Allowed (decide e req now) \<longleftrightarrow>
     (case eg_rules e (rq_Action req) of
       None \<Rightarrow> \<not> eg_defaultDeny e
     | Some rule \<Rightarrow> ru_Verdict rule = VerdictAllow \<and> ru_Capability rule \<in> {'''', rq_Capability req})"
  by (auto simp: decide_def Let_def split: option.split)

section \<open>Properties\<close>

text \<open>
  C38: What the policy allows: after any sequence of rule changes a request is allowed
  exactly when the rule last set for its action allows it and names no capability or the one presented,
  or no rule is in force for the action and the default in force is to allow. Every evaluation writes exactly one audit
  entry, whose decision is the one returned.
\<close>

theorem policy_Evaluate_exact:
  "(rs_Allowed (fst (Evaluate (foldl policy_exec (NewEngine deny audit) ops) req now l)) \<longleftrightarrow>
     (case last_effect policy_effect ops (rq_Action req) of
        Some (Some rule) \<Rightarrow> ru_Verdict rule = VerdictAllow \<and> ru_Capability rule \<in> {'''', rq_Capability req}
      | _ \<Rightarrow> \<not> last_default deny ops))
   \<and> snd (Evaluate (foldl policy_exec (NewEngine deny (Some (\<lambda>entry log. (err, log @ [entry])))) ops) req now log)
     = log @ [\<lparr>ae_Timestamp = '''', ae_RequestID = rq_RequestID req, ae_Source = rq_Source req, ae_Target = '''',
         ae_Action = rq_Action req,
         ae_Decision = (if rs_Allowed (fst (Evaluate (foldl policy_exec (NewEngine deny audit) ops) req now l)) then ''allow'' else ''deny''),
         ae_Result = rs_Reason (fst (Evaluate (foldl policy_exec (NewEngine deny audit) ops) req now l))\<rparr>]"
  (is "?A \<and> ?B")
proof
  show ?A
    by (simp add: Evaluate_fst decide_Allowed rules.get_run default_run split: option.split)
  have "decide (foldl policy_exec (NewEngine deny (Some (\<lambda>entry log. (err, log @ [entry])))) ops) req now
      = decide (foldl policy_exec (NewEngine deny audit) ops) req now"
    by (rule decide_cong) (simp_all add: rules.get_run default_run split: option.split)
  then show ?B
    by (simp add: Evaluate_fst Evaluate_def [of "foldl policy_exec (NewEngine deny (Some _)) ops"] default_run Let_def)
qed

lemma AddRule_fold:
  assumes "\<And>a. ru_Action (mk a) = a"
  shows "eg_rules (fold (\<lambda>a e. snd (AddRule e (mk a))) as e) k
      = (if k \<in> set as \<and> k \<noteq> '''' then Some (mk k) else eg_rules e k)
    \<and> eg_defaultDeny (fold (\<lambda>a e. snd (AddRule e (mk a))) as e) = eg_defaultDeny e"
proof (induction as arbitrary: e)
  case (Cons a as)
  then show ?case by (simp add: AddRule_def assms)
qed simp

lemma actions_nonempty: "'''' \<notin> set safeActions \<union> set controlledActions \<union> set restrictedActions"
  by (simp add: safeActions_def controlledActions_def restrictedActions_def)

lemma actions_disjoint:
  "k \<in> set safeActions \<Longrightarrow> k \<notin> set controlledActions \<union> set restrictedActions"
  "k \<in> set controlledActions \<Longrightarrow> k \<notin> set restrictedActions"
  by (auto simp: safeActions_def controlledActions_def restrictedActions_def)

lemma SafeDefaults_rules:
  "eg_rules (LoadSafeDefaults e) k =
     (if k \<in> set restrictedActions then Some \<lparr>ru_Action = k, ru_Class = ActionRestricted, ru_Verdict = VerdictConfirm,
        ru_Capability = '''', ru_Description = ''restricted system operation''\<rparr>
      else if k \<in> set controlledActions then Some \<lparr>ru_Action = k, ru_Class = ActionControlled, ru_Verdict = VerdictAllow,
        ru_Capability = ''device:write'', ru_Description = ''''\<rparr>
      else if k \<in> set safeActions then Some \<lparr>ru_Action = k, ru_Class = ActionSafe, ru_Verdict = VerdictAllow,
        ru_Capability = '''', ru_Description = ''''\<rparr>
      else eg_rules e k)
   \<and> eg_defaultDeny (LoadSafeDefaults e) = eg_defaultDeny e"
  using actions_nonempty by (auto simp: LoadSafeDefaults_def Let_def AddRule_fold)

text \<open>
  The decision table of \<open>LoadSafeDefaults\<close> under default deny: the safe actions are
  allowed to everyone, the controlled ones to requests that present \<open>device:write\<close>, the restricted ones go to
  the operator, and everything else is denied.
\<close>

theorem policy_safe_defaults:
  "rs_Verdict (fst (Evaluate (LoadSafeDefaults (NewEngine True audit)) req now l)) =
     (if rq_Action req \<in> set safeActions then VerdictAllow
      else if rq_Action req \<in> set controlledActions
        then (if rq_Capability req = ''device:write'' then VerdictAllow else VerdictDeny)
      else if rq_Action req \<in> set restrictedActions then VerdictConfirm else VerdictDeny)
   \<and> rs_Allowed (fst (Evaluate (LoadSafeDefaults (NewEngine True audit)) req now l)) =
     (rs_Verdict (fst (Evaluate (LoadSafeDefaults (NewEngine True audit)) req now l)) = VerdictAllow)"
  using actions_disjoint [of "rq_Action req"]
  by (simp add: Evaluate_fst decide_def SafeDefaults_rules Let_def verdicts)

lemma wire_type_no_rule:
  "msgTypeFromByte b \<notin> set safeActions \<union> set controlledActions \<union> set restrictedActions"
proof -
  have "length (string_of_rune_byte b) \<le> 2" by (simp add: string_of_rune_byte_def)
  moreover have "\<forall>a \<in> set (safeActions @ controlledActions @ restrictedActions). 2 < length a"
    by (simp add: safeActions_def controlledActions_def restrictedActions_def)
  moreover have "set known_types \<inter> set (safeActions @ controlledActions @ restrictedActions) = {}"
    by (simp add: known_types_def message_types safeActions_def controlledActions_def restrictedActions_def)
  moreover have "msgTypeFromByte b \<in> set known_types \<or> msgTypeFromByte b = string_of_rune_byte b"
    by (simp add: msgTypeFromByte_def known_types_def)
  ultimately have "msgTypeFromByte b \<notin> set (safeActions @ controlledActions @ restrictedActions)"
    by (metis disjoint_iff linorder_not_le)
  then show ?thesis by simp
qed

text \<open>
  The default rules never apply to a message: \<open>EvaluateMessage\<close> looks the rule up by the
  message type, and none of the actions of \<open>LoadSafeDefaults\<close> is a type that a message can have when it
  comes off the wire. Every received message gets the engine's default, whatever capability it presents.
\<close>

theorem policy_EvaluateMessage_default_only:
  "rs_Allowed (fst (EvaluateMessage (LoadSafeDefaults (NewEngine deny audit)) (msg\<lparr>m_Type := msgTypeFromByte b\<rparr>) now l)) \<longleftrightarrow> \<not> deny"
  using wire_type_no_rule [of b] by (simp add: EvaluateMessage_def Evaluate_fst decide_Allowed SafeDefaults_rules)

end
