(* ===== verification/ServiceRegistry.thy ===== *)
theory ServiceRegistry
  imports Keyed Message
begin

text \<open>
  \<^verbatim>\<open>services/registry/registry.go\<close>: the table of registered services.
\<close>

record ServiceInfo =
  si_ServiceID :: string
  si_Capabilities :: "string list"
  si_Versions :: "16 word list"
  si_MessageTypes :: "MessageType list"
  si_Priority :: Priority

record Registry =
  rg_services :: "string \<rightharpoonup> ServiceInfo"

definition NewRegistry :: Registry where
  "NewRegistry = \<lparr>rg_services = Map.empty\<rparr>"

definition Registry_Register :: "Registry \<Rightarrow> ServiceInfo \<Rightarrow> error option \<times> Registry" where
  "Registry_Register r info =
     (if si_ServiceID info = '''' then (Some (Errorf ''service_id is required'' []), r)
      else (None, r\<lparr>rg_services := (rg_services r)(si_ServiceID info \<mapsto> info)\<rparr>))"

definition Registry_Deregister :: "Registry \<Rightarrow> string \<Rightarrow> Registry" where
  "Registry_Deregister r serviceID = r\<lparr>rg_services := (rg_services r)(serviceID := None)\<rparr>"

definition Registry_Lookup :: "Registry \<Rightarrow> string \<Rightarrow> ServiceInfo result" where
  "Registry_Lookup r serviceID =
     (case rg_services r serviceID of
       None \<Rightarrow> Inl (Errorf ''service %q not found'' [AStr serviceID])
     | Some info \<Rightarrow> Inr info)"

definition Registry_List :: "Registry \<Rightarrow> string list \<Rightarrow> ServiceInfo list" where
  "Registry_List r ks = map_values (rg_services r) ks"

text \<open>The inner loop stops at the first match, so a capability listed twice counts once.\<close>

fun has_capability :: "string \<Rightarrow> string list \<Rightarrow> bool" where
  "has_capability cap [] = False"
| "has_capability cap (c # cs) = (if c = cap then True else has_capability cap cs)"

definition Registry_FindByCapability :: "Registry \<Rightarrow> string \<Rightarrow> string list \<Rightarrow> ServiceInfo list" where
  "Registry_FindByCapability r cap ks =
     filter (\<lambda>info. has_capability cap (si_Capabilities info)) (map_values (rg_services r) ks)"

section \<open>The registry is a keyed table\<close>

datatype registry_op = RegisterOp ServiceInfo | DeregisterOp string

fun registry_exec :: "Registry \<Rightarrow> registry_op \<Rightarrow> Registry" where
  "registry_exec r (RegisterOp info) = snd (Registry_Register r info)"
| "registry_exec r (DeregisterOp sid) = Registry_Deregister r sid"

fun registry_effect :: "registry_op \<Rightarrow> string \<Rightarrow> ServiceInfo option option" where
  "registry_effect (RegisterOp info) k = (if k = si_ServiceID info \<and> k \<noteq> '''' then Some (Some info) else None)"
| "registry_effect (DeregisterOp sid) k = (if k = sid then Some None else None)"

interpretation svc: keyed_table rg_services registry_exec registry_effect
proof
  fix r op k
  show "rg_services (registry_exec r op) k = (case registry_effect op k of None \<Rightarrow> rg_services r k | Some w \<Rightarrow> w)"
    by (cases op) (auto simp: Registry_Register_def Registry_Deregister_def)
qed

lemma has_capability_iff: "has_capability cap cs \<longleftrightarrow> cap \<in> set cs"
  by (induction cs) auto

lemma registry_key:
  assumes "rg_services (foldl registry_exec NewRegistry ops) k = Some info"
  shows "si_ServiceID info = k \<and> k \<noteq> ''''"
proof -
  have "si_ServiceID v = k \<and> k \<noteq> ''''" if "registry_effect op k = Some (Some v)" for op v
    using that by (cases op) (auto split: if_splits)
  then show ?thesis
    using svc.get_run_inv [of ops k "\<lambda>v. si_ServiceID v = k \<and> k \<noteq> ''''" NewRegistry info] assms
    by (simp add: NewRegistry_def)
qed

section \<open>Property\<close>

text \<open>
  After any sequence of registrations and removals, a service is found by \<open>Lookup\<close>
  exactly when the last call on its identifier was a registration, with the information that call gave, and
  \<open>FindByCapability\<close> returns, once each and whatever the order of the map, exactly the services that
  \<open>Lookup\<close> finds and that declare the capability.
\<close>

theorem registry_lookup_and_find:
  assumes "map_order (rg_services (foldl registry_exec NewRegistry ops)) ks"
  shows "(Registry_Lookup (foldl registry_exec NewRegistry ops) sid = Inr info
       \<longleftrightarrow> last_effect registry_effect ops sid = Some (Some info))
    \<and> distinct (Registry_FindByCapability (foldl registry_exec NewRegistry ops) cap ks)
    \<and> (info \<in> set (Registry_FindByCapability (foldl registry_exec NewRegistry ops) cap ks)
       \<longleftrightarrow> Registry_Lookup (foldl registry_exec NewRegistry ops) (si_ServiceID info) = Inr info
           \<and> cap \<in> set (si_Capabilities info))"
proof -
  let ?r = "foldl registry_exec NewRegistry ops"
  have lookup: "Registry_Lookup ?r k = Inr i \<longleftrightarrow> rg_services ?r k = Some i" for k i
    by (simp add: Registry_Lookup_def split: option.split)
  have "inj_on (rg_services ?r) (dom (rg_services ?r))"
  proof (rule inj_onI)
    fix a b assume "a \<in> dom (rg_services ?r)" "rg_services ?r a = rg_services ?r b"
    then obtain i where "rg_services ?r a = Some i" "rg_services ?r b = Some i" by (metis domD)
    then show "a = b" using registry_key by blast
  qed
  then have "distinct (map_values (rg_services ?r) ks)"
    using assms by (rule distinct_map_values)
  moreover have "info \<in> set (map_values (rg_services ?r) ks) \<longleftrightarrow> rg_services ?r (si_ServiceID info) = Some info"
    using registry_key in_map_values_iff [OF assms] by blast
  moreover have "rg_services ?r sid = Some info \<longleftrightarrow> last_effect registry_effect ops sid = Some (Some info)"
    by (simp add: svc.get_run NewRegistry_def split: option.split)
  ultimately show ?thesis
    unfolding lookup Registry_FindByCapability_def by (simp add: has_capability_iff)
qed

definition example_info :: ServiceInfo where
  "example_info = \<lparr>si_ServiceID = ''ebot.client'', si_Capabilities = [''ai:chat''], si_Versions = [1],
     si_MessageTypes = [TypeChat], si_Priority = PriorityP1\<rparr>"

theorem registry_lookup_and_find_witness:
  "example_info \<in> set (Registry_FindByCapability (foldl registry_exec NewRegistry [RegisterOp example_info]) ''ai:chat'' [''ebot.client''])"
proof -
  have "map_order (rg_services (foldl registry_exec NewRegistry [RegisterOp example_info])) [''ebot.client'']"
    by (simp add: map_order_def Registry_Register_def example_info_def NewRegistry_def)
  from registry_lookup_and_find [OF this, of "''ebot.client''" example_info "''ai:chat''"]
  show ?thesis by (simp add: example_info_def)
qed

end
