(* ===== verification/Broker.thy ===== *)
theory Broker
  imports Policy ServiceRegistry Router
begin

text \<open>
  \<^verbatim>\<open>services/broker/broker.go\<close>: routing of messages to subscribers by message type and
  priority. An endpoint is a handle of type \<open>'e\<close>; the \<open>Send\<close> and \<open>Close\<close> methods of the
  \<^verbatim>\<open>core.Endpoint\<close> interface are the arguments \<open>esend\<close> and \<open>eclose\<close>, on the state \<open>'w\<close> behind the
  endpoints. The broker's own router never gets a handler, so its handlers' state is \<open>unit\<close>.
\<close>

section \<open>State\<close>

record 'e Subscriber =
  sb_ServiceID :: string
  sb_Capabilities :: "string list"
  sb_Endpoint :: "'e option"
  sb_Priority :: Priority

record ('e, 'l) Broker =
  bk_subscribers :: "string \<rightharpoonup> 'e Subscriber"
  bk_routes :: "MessageType \<rightharpoonup> string list"
  bk_registry :: Registry
  bk_audit :: "'l Logger option"
  bk_router :: "unit Router"
  bk_running :: bool

record RouteResult =
  rr_ServiceID :: string
  rr_Err :: "error option"

definition NewBroker :: "Registry \<Rightarrow> 'l Logger option \<Rightarrow> ('e, 'l) Broker" where
  "NewBroker reg auditLogger = \<lparr>bk_subscribers = Map.empty, bk_routes = Map.empty, bk_registry = reg,
     bk_audit = auditLogger, bk_router = NewRouter, bk_running = False\<rparr>"

section \<open>Operations\<close>

definition Subscribe :: "('e, 'l) Broker \<Rightarrow> 'e Subscriber option \<Rightarrow> error option \<times> ('e, 'l) Broker" where
  "Subscribe b sub =
     (case sub of
       None \<Rightarrow> (Some (Errorf ''invalid subscriber: service_id and endpoint required'' []), b)
     | Some s \<Rightarrow>
        (if sb_ServiceID s = '''' \<or> sb_Endpoint s = None
         then (Some (Errorf ''invalid subscriber: service_id and endpoint required'' []), b)
         else (None, b\<lparr>bk_subscribers := (bk_subscribers b)(sb_ServiceID s \<mapsto> s)\<rparr>)))"

definition Unsubscribe ::
  "('e \<Rightarrow> 'w \<Rightarrow> error option \<times> 'w) \<Rightarrow> ('e, 'l) Broker \<Rightarrow> string \<Rightarrow> 'w \<Rightarrow> ('e, 'l) Broker \<times> 'w" where
  "Unsubscribe eclose b serviceID w =
     (case bk_subscribers b serviceID of
       None \<Rightarrow> (b, w)
     | Some sub \<Rightarrow>
        (b\<lparr>bk_subscribers := (bk_subscribers b)(serviceID := None)\<rparr>, snd (eclose (the (sb_Endpoint sub)) w)))"

definition route_targets :: "('e, 'l) Broker \<Rightarrow> MessageType \<Rightarrow> string list" where
  "route_targets b msgType = (case bk_routes b msgType of None \<Rightarrow> [] | Some ts \<Rightarrow> ts)"

fun add_targets :: "string list \<Rightarrow> string set \<Rightarrow> string list \<Rightarrow> string list" where
  "add_targets existing seen [] = existing"
| "add_targets existing seen (t # targets) =
     (if t \<notin> seen then add_targets (existing @ [t]) (insert t seen) targets
      else add_targets existing seen targets)"

definition AddRoute :: "('e, 'l) Broker \<Rightarrow> MessageType \<Rightarrow> string list \<Rightarrow> ('e, 'l) Broker" where
  "AddRoute b msgType targets =
     (let existing = route_targets b msgType
      in b\<lparr>bk_routes := (bk_routes b)(msgType \<mapsto> add_targets existing (set existing) targets)\<rparr>)"

text \<open>The loop of \<open>RemoveRoute\<close>: the slice without the first match, or nothing when there is none.\<close>

fun remove_target :: "string list \<Rightarrow> nat \<Rightarrow> string list \<Rightarrow> string \<Rightarrow> string list option" where
  "remove_target targets i [] target = None"
| "remove_target targets i (t # ts) target =
     (if t = target then Some (take i targets @ drop (i + 1) targets) else remove_target targets (i + 1) ts target)"

definition RemoveRoute :: "('e, 'l) Broker \<Rightarrow> MessageType \<Rightarrow> string \<Rightarrow> ('e, 'l) Broker" where
  "RemoveRoute b msgType target =
     (let targets = route_targets b msgType
      in case remove_target targets 0 targets target of
           None \<Rightarrow> b
         | Some ts \<Rightarrow> b\<lparr>bk_routes := (bk_routes b)(msgType \<mapsto> ts)\<rparr>)"

text \<open>\<open>sortByPriority\<close>: the inner loop moves the element at \<open>j\<close> to the left.\<close>

fun sift_left :: "'e Subscriber list \<Rightarrow> nat \<Rightarrow> 'e Subscriber list" where
  "sift_left subs 0 = subs"
| "sift_left subs (Suc j) =
     (if sb_Priority (subs ! Suc j) < sb_Priority (subs ! j) then sift_left (swap subs (Suc j) j) j else subs)"

definition sortByPriority :: "'e Subscriber list \<Rightarrow> 'e Subscriber list" where
  "sortByPriority subs = fold (\<lambda>i subs. sift_left subs i) [1..<length subs] subs"

definition log_delivery :: "'l Logger option \<Rightarrow> Message \<Rightarrow> string \<Rightarrow> error option \<Rightarrow> 'l \<Rightarrow> 'l" where
  "log_delivery audit msg sid err l =
     (case audit of
       None \<Rightarrow> l
     | Some log \<Rightarrow>
        (let (decision, result) = (case err of None \<Rightarrow> (''delivered'', Sprintf ''ok'' []) | Some e \<Rightarrow> (''failed'', ErrorText e))
         in snd (log \<lparr>ae_Timestamp = '''', ae_RequestID = m_RequestID msg, ae_Source = m_Source msg, ae_Target = sid,
              ae_Action = m_Type msg, ae_Decision = decision, ae_Result = result\<rparr> l)))"

fun route_loop ::
  "('e \<Rightarrow> Message \<Rightarrow> 'w \<Rightarrow> error option \<times> 'w) \<Rightarrow> 'l Logger option \<Rightarrow> Message \<Rightarrow> 'e Subscriber list \<Rightarrow> 'w \<Rightarrow> 'l
    \<Rightarrow> RouteResult list \<times> 'w \<times> 'l" where
  "route_loop esend audit msg [] w l = ([], w, l)"
| "route_loop esend audit msg (sub # subs) w l =
     (let (err, w1) = esend (the (sb_Endpoint sub)) msg w;
          l1 = log_delivery audit msg (sb_ServiceID sub) err l;
          (results, w2, l2) = route_loop esend audit msg subs w1 l1
      in (\<lparr>rr_ServiceID = sb_ServiceID sub, rr_Err = err\<rparr> # results, w2, l2))"

definition Route ::
  "('e \<Rightarrow> Message \<Rightarrow> 'w \<Rightarrow> error option \<times> 'w) \<Rightarrow> ('e, 'l) Broker \<Rightarrow> Message \<Rightarrow> 'w \<Rightarrow> 'l
    \<Rightarrow> RouteResult list \<times> 'w \<times> 'l" where
  "Route esend b msg w l =
     (let subs = List.map_filter (bk_subscribers b) (route_targets b (m_Type msg))
      in if subs = [] then ([], w, l)
         else route_loop esend (bk_audit b) msg (sortByPriority subs) w l)"

text \<open>\<open>Fanout\<close> does not sort and does not log; \<open>ks\<close> is the order in which it visits the subscribers.\<close>

fun fanout_loop ::
  "('e \<Rightarrow> Message \<Rightarrow> 'w \<Rightarrow> error option \<times> 'w) \<Rightarrow> Message \<Rightarrow> 'e Subscriber list \<Rightarrow> 'w \<Rightarrow> RouteResult list \<times> 'w" where
  "fanout_loop esend msg [] w = ([], w)"
| "fanout_loop esend msg (sub # subs) w =
     (let (err, w1) = esend (the (sb_Endpoint sub)) msg w;
          (results, w2) = fanout_loop esend msg subs w1
      in (\<lparr>rr_ServiceID = sb_ServiceID sub, rr_Err = err\<rparr> # results, w2))"

definition Fanout ::
  "('e \<Rightarrow> Message \<Rightarrow> 'w \<Rightarrow> error option \<times> 'w) \<Rightarrow> ('e, 'l) Broker \<Rightarrow> Message \<Rightarrow> string list \<Rightarrow> 'w
    \<Rightarrow> RouteResult list \<times> 'w" where
  "Fanout esend b msg ks w = fanout_loop esend msg (map_values (bk_subscribers b) ks) w"

definition Subscribers :: "('e, 'l) Broker \<Rightarrow> string list \<Rightarrow> string list" where
  "Subscribers b ks = filter (\<lambda>k. bk_subscribers b k \<noteq> None) ks"

section \<open>\<open>sortByPriority\<close> is a stable sort\<close>

lemma sift_left_inserts:
  assumes "sorted (map sb_Priority xs)"
  shows "sift_left (xs @ x # rest) (length xs) =
    filter (\<lambda>y. sb_Priority y \<le> sb_Priority x) xs @ x # filter (\<lambda>y. sb_Priority x < sb_Priority y) xs @ rest"
  using assms
proof (induction xs arbitrary: rest rule: rev_induct)
  case (snoc y xs)
  have "swap (xs @ y # x # rest) (Suc (length xs)) (length xs) = xs @ x # y # rest"
    by (simp add: swap_def list_update_append nth_append)
  moreover have "filter (\<lambda>z. sb_Priority z \<le> sb_Priority x) xs = xs" "filter (\<lambda>z. sb_Priority x < sb_Priority z) xs = []"
    if "sb_Priority y \<le> sb_Priority x"
    using that snoc.prems by (auto simp: sorted_append filter_empty_conv intro!: filter_True)
  ultimately show ?case
    using snoc by (auto simp: nth_append sorted_append not_le)
qed simp

lemma sort_key_snoc:
  fixes f :: "'a \<Rightarrow> 'k :: linorder"
  shows "sort_key f (xs @ [x]) = filter (\<lambda>y. f y \<le> f x) (sort_key f xs) @ x # filter (\<lambda>y. f x < f y) (sort_key f xs)"
proof (rule properties_for_sort_key)
  let ?zs = "sort_key f xs"
  show "mset (filter (\<lambda>y. f y \<le> f x) ?zs @ x # filter (\<lambda>y. f x < f y) ?zs) = mset (xs @ [x])"
    using multiset_partition [of "mset ?zs" "\<lambda>y. f y \<le> f x"] by (simp add: not_le)
  have "sorted (map f (filter P ?zs))" for P
    by (simp add: sorted_filter)
  then show "sorted (map f (filter (\<lambda>y. f y \<le> f x) ?zs @ x # filter (\<lambda>y. f x < f y) ?zs))"
    by (auto simp: sorted_append)
  fix k
  have "filter (\<lambda>y. f k = f y) ?zs = filter (\<lambda>y. f k = f y) xs"
    using sort_key_stable [of f "f k" xs] by (simp add: eq_commute)
  moreover have "filter (\<lambda>y. f k = f y) (filter (\<lambda>y. f y \<le> f x) zs) = (if f k \<le> f x then filter (\<lambda>y. f k = f y) zs else [])"
    "filter (\<lambda>y. f k = f y) (filter (\<lambda>y. f x < f y) zs) = (if f x < f k then filter (\<lambda>y. f k = f y) zs else [])" for zs
    by (induction zs) auto
  ultimately show "filter (\<lambda>y. f k = f y) (filter (\<lambda>y. f y \<le> f x) ?zs @ x # filter (\<lambda>y. f x < f y) ?zs)
      = filter (\<lambda>y. f k = f y) (xs @ [x])"
    by auto
qed

lemma sortByPriority_prefix:
  "n \<le> length subs \<Longrightarrow> fold (\<lambda>i subs. sift_left subs i) [1..<n] subs = sort_key sb_Priority (take n subs) @ drop n subs"
proof (induction n)
  case (Suc n)
  show ?case
  proof (cases "n = 0")
    case True
    then show ?thesis using Suc.prems by (cases subs) simp_all
  next
    case False
    have "subs ! n # drop (Suc n) subs = drop n subs"
      using Suc.prems by (simp add: Cons_nth_drop_Suc)
    moreover have "[1..<Suc n] = [1..<n] @ [n]" using False by simp
    moreover have "take (Suc n) subs = take n subs @ [subs ! n]"
      using Suc.prems by (simp add: take_Suc_conv_app_nth)
    ultimately show ?thesis
      using Suc sift_left_inserts [of "sort_key sb_Priority (take n subs)" "subs ! n" "drop (Suc n) subs"]
      by (simp add: sort_key_snoc)
  qed
qed simp

lemma sortByPriority_eq: "sortByPriority subs = sort_key sb_Priority subs"
  using sortByPriority_prefix [of "length subs" subs] by (simp add: sortByPriority_def)

section \<open>Routes\<close>

lemma add_targets_eq:
  "set existing = seen \<Longrightarrow> distinct existing \<Longrightarrow>
    distinct (add_targets existing seen ts) \<and> set (add_targets existing seen ts) = seen \<union> set ts"
  by (induction existing seen ts rule: add_targets.induct) auto

lemma remove_target_eq:
  "remove_target (pre @ ts) (length pre) ts target
    = (if target \<in> set ts then Some (pre @ remove1 target ts) else None)"
proof (induction ts arbitrary: pre)
  case (Cons t ts)
  then show ?case using Cons.IH [of "pre @ [t]"] by auto
qed simp

section \<open>Runs of the broker\<close>

datatype 'e broker_op =
    SubscribeOp "'e Subscriber option" | UnsubscribeOp string
  | AddRouteOp MessageType "string list" | RemoveRouteOp MessageType string

fun broker_exec :: "('e, 'l) Broker \<Rightarrow> 'e broker_op \<Rightarrow> ('e, 'l) Broker" where
  "broker_exec b (SubscribeOp sub) = snd (Subscribe b sub)"
| "broker_exec b (UnsubscribeOp sid) = fst (Unsubscribe (\<lambda>ep u. (None, u)) b sid ())"
| "broker_exec b (AddRouteOp mt targets) = AddRoute b mt targets"
| "broker_exec b (RemoveRouteOp mt target) = RemoveRoute b mt target"

fun subscriber_effect :: "'e broker_op \<Rightarrow> string \<Rightarrow> 'e Subscriber option option" where
  "subscriber_effect (SubscribeOp (Some s)) k =
     (if k = sb_ServiceID s \<and> k \<noteq> '''' \<and> sb_Endpoint s \<noteq> None then Some (Some s) else None)"
| "subscriber_effect (UnsubscribeOp sid) k = (if k = sid then Some None else None)"
| "subscriber_effect _ k = None"

interpretation subscribers: keyed_table "bk_subscribers :: ('e, 'l) Broker \<Rightarrow> _" broker_exec subscriber_effect
proof
  fix b :: "('e, 'l) Broker" and op k
  show "bk_subscribers (broker_exec b op) k = (case subscriber_effect op k of None \<Rightarrow> bk_subscribers b k | Some w \<Rightarrow> w)"
  proof (cases op)
    case (SubscribeOp sub)
    then show ?thesis by (cases sub) (auto simp: Subscribe_def)
  qed (auto simp: Unsubscribe_def AddRoute_def RemoveRoute_def Let_def split: option.split)
qed

text \<open>The targets of a message type after a sequence of operations, as the calls name them.\<close>

fun routed :: "MessageType \<Rightarrow> 'e broker_op list \<Rightarrow> string set \<Rightarrow> string set" where
  "routed mt [] ts = ts"
| "routed mt (AddRouteOp mt' targets # ops) ts = routed mt ops (if mt' = mt then ts \<union> set targets else ts)"
| "routed mt (RemoveRouteOp mt' target # ops) ts = routed mt ops (if mt' = mt then ts - {target} else ts)"
| "routed mt (op # ops) ts = routed mt ops ts"

lemma route_targets_step:
  assumes "distinct (route_targets b mt)"
  shows "distinct (route_targets (broker_exec b op) mt)
    \<and> set (route_targets (broker_exec b op) mt) = routed mt [op] (set (route_targets b mt))"
proof (cases op)
  case (SubscribeOp sub)
  then show ?thesis using assms by (auto simp: Subscribe_def route_targets_def split: option.split)
next
  case (UnsubscribeOp sid)
  then show ?thesis using assms by (auto simp: Unsubscribe_def route_targets_def split: option.split)
next
  case (AddRouteOp mt' targets)
  then show ?thesis
    using assms add_targets_eq [OF refl, of "route_targets b mt" targets]
    by (auto simp: AddRoute_def route_targets_def Let_def)
next
  case (RemoveRouteOp mt' target)
  have "remove_target (route_targets b mt') 0 (route_targets b mt') target
      = (if target \<in> set (route_targets b mt') then Some (remove1 target (route_targets b mt')) else None)"
    using remove_target_eq [of "[]" "route_targets b mt'" target] by simp
  with RemoveRouteOp show ?thesis using assms by (auto simp: RemoveRoute_def route_targets_def Let_def)
qed

lemma routed_Cons: "routed mt (op # ops) ts = routed mt ops (routed mt [op] ts)"
  by (cases op) simp_all

lemma route_targets_run:
  "distinct (route_targets b mt) \<Longrightarrow> distinct (route_targets (foldl broker_exec b ops) mt)
    \<and> set (route_targets (foldl broker_exec b ops) mt) = routed mt ops (set (route_targets b mt))"
proof (induction ops arbitrary: b)
  case (Cons op ops)
  from route_targets_step [OF Cons.prems, of op] Cons.IH [of "broker_exec b op"] show ?case
    by (simp only: foldl_Cons routed_Cons [of mt op ops] simp_thms)
qed simp

lemma subscriber_effect_key:
  "subscriber_effect op k = Some (Some v) \<Longrightarrow> sb_ServiceID v = k \<and> sb_Endpoint v \<noteq> None"
  by (cases "(op, k)" rule: subscriber_effect.cases) (auto split: if_splits)

text \<open>A new broker after the operations \<open>ops\<close>.\<close>

definition broker_after :: "Registry \<Rightarrow> 'l Logger option \<Rightarrow> 'e broker_op list \<Rightarrow> ('e, 'l) Broker" where
  "broker_after reg audit ops = foldl broker_exec (NewBroker reg audit) ops"

lemma subscriber_key:
  "bk_subscribers (broker_after reg audit ops) k = Some s \<Longrightarrow> sb_ServiceID s = k \<and> sb_Endpoint s \<noteq> None"
  using subscribers.get_run_inv [of ops k "\<lambda>v. sb_ServiceID v = k \<and> sb_Endpoint v \<noteq> None" "NewBroker reg audit" s]
    subscriber_effect_key by (auto simp: NewBroker_def broker_after_def)

lemma subscriber_last:
  "bk_subscribers (broker_after reg audit ops) k = Some s \<longleftrightarrow> last_effect subscriber_effect ops k = Some (Some s)"
  by (simp add: broker_after_def subscribers.get_run NewBroker_def split: option.split)

lemma routes_after:
  fixes reg and audit :: "'l Logger option" and ops :: "'e broker_op list"
  defines "b \<equiv> broker_after reg audit ops :: ('e, 'l) Broker"
  shows "distinct (route_targets b mt)" and "set (route_targets b mt) = routed mt ops {}"
proof -
  have "route_targets (NewBroker reg audit :: ('e, 'l) Broker) mt = []"
    by (simp add: route_targets_def NewBroker_def)
  then show "distinct (route_targets b mt)" and "set (route_targets b mt) = routed mt ops {}"
    using route_targets_run [of "NewBroker reg audit :: ('e, 'l) Broker" mt ops] by (simp_all add: b_def broker_after_def)
qed

lemma audit_step: "bk_audit (broker_exec b op) = bk_audit b"
  by (cases op) (simp_all add: Subscribe_def Unsubscribe_def AddRoute_def RemoveRoute_def Let_def split: option.split)

lemma audit_run: "bk_audit (foldl broker_exec b ops) = bk_audit b"
  by (induction ops arbitrary: b) (simp_all add: audit_step)

lemma audit_after: "bk_audit (broker_after reg audit ops) = audit"
  by (simp add: broker_after_def audit_run NewBroker_def)

text \<open>The subscribers a message of type \<open>mt\<close> goes to, in the order of the route.\<close>

definition targets_of :: "('e, 'l) Broker \<Rightarrow> MessageType \<Rightarrow> 'e Subscriber list" where
  "targets_of b mt = List.map_filter (bk_subscribers b) (route_targets b mt)"

lemma targets_of_after:
  fixes reg and audit :: "'l Logger option" and ops :: "'e broker_op list"
  defines "b \<equiv> broker_after reg audit ops :: ('e, 'l) Broker"
  shows "s \<in> set (targets_of b mt)
    \<longleftrightarrow> sb_ServiceID s \<in> routed mt ops {} \<and> last_effect subscriber_effect ops (sb_ServiceID s) = Some (Some s)"
    and "distinct (map sb_ServiceID (targets_of b mt))"
proof -
  let ?b = b
  have "s \<in> set (List.map_filter (bk_subscribers ?b) ks) \<longleftrightarrow> sb_ServiceID s \<in> set ks \<and> bk_subscribers ?b (sb_ServiceID s) = Some s" for ks
    by (induction ks) (auto simp: List.map_filter_simps b_def dest: subscriber_key split: option.split)
  then show "s \<in> set (targets_of ?b mt)
      \<longleftrightarrow> sb_ServiceID s \<in> routed mt ops {} \<and> last_effect subscriber_effect ops (sb_ServiceID s) = Some (Some s)"
    by (simp add: b_def targets_of_def routes_after subscriber_last)
  have "map sb_ServiceID (List.map_filter (bk_subscribers ?b) ks) = filter (\<lambda>k. bk_subscribers ?b k \<noteq> None) ks" for ks
    by (induction ks) (auto simp: List.map_filter_simps b_def dest: subscriber_key split: option.split)
  then show "distinct (map sb_ServiceID (targets_of ?b mt))"
    by (simp add: b_def targets_of_def routes_after)
qed

text \<open>What the loop does when every endpoint has a fixed outcome and sends and entries are recorded.\<close>

lemma route_loop_records:
  "route_loop (\<lambda>ep m w. (outcome ep, w @ [(ep, m)])) audit msg subs w l =
     (map (\<lambda>s. \<lparr>rr_ServiceID = sb_ServiceID s, rr_Err = outcome (the (sb_Endpoint s))\<rparr>) subs,
      w @ map (\<lambda>s. (the (sb_Endpoint s), msg)) subs,
      foldl (\<lambda>l s. log_delivery audit msg (sb_ServiceID s) (outcome (the (sb_Endpoint s))) l) l subs)"
  by (induction subs arbitrary: w l) simp_all

section \<open>Property\<close>

text \<open>
  C39: Delivery: after any sequence of subscriptions and route changes, \<open>Route\<close> sends the
  message exactly once to every subscriber that is a target of its type and to no one else, in order of
  priority with ties in the order the targets were added, and reports for each the outcome of its own \<open>Send\<close>: a
  failing endpoint does not keep the message from the others.
\<close>

theorem broker_Route_delivers:
  "\<exists>subs. subs = sort_key sb_Priority (targets_of (broker_after reg audit ops) (m_Type msg))
    \<and> distinct (map sb_ServiceID subs)
    \<and> (\<forall>s. s \<in> set subs \<longleftrightarrow> sb_ServiceID s \<in> routed (m_Type msg) ops {}
          \<and> last_effect subscriber_effect ops (sb_ServiceID s) = Some (Some s))
    \<and> Route (\<lambda>ep m w. (outcome ep, w @ [(ep, m)])) (broker_after reg audit ops) msg w l =
       (map (\<lambda>s. \<lparr>rr_ServiceID = sb_ServiceID s, rr_Err = outcome (the (sb_Endpoint s))\<rparr>) subs,
        w @ map (\<lambda>s. (the (sb_Endpoint s), msg)) subs,
        foldl (\<lambda>l s. log_delivery audit msg (sb_ServiceID s) (outcome (the (sb_Endpoint s))) l) l subs)"
proof (intro exI conjI allI)
  let ?subs = "sort_key sb_Priority (targets_of (broker_after reg audit ops) (m_Type msg))"
  show "distinct (map sb_ServiceID ?subs)"
    using targets_of_after(2) by (metis (no_types, lifting) distinct_map distinct_sort set_sort)
  show "s \<in> set ?subs \<longleftrightarrow> sb_ServiceID s \<in> routed (m_Type msg) ops {}
      \<and> last_effect subscriber_effect ops (sb_ServiceID s) = Some (Some s)" for s
    by (simp add: targets_of_after(1))
qed (auto simp: Route_def Let_def sortByPriority_eq route_loop_records audit_after targets_of_def)

end
