(* ===== verification/Health.thy ===== *)
theory Health
  imports Keyed
begin

text \<open>
  \<^verbatim>\<open>services/health/health.go\<close>: liveness of peers from their heartbeats. \<open>now\<close> is the
  clock reading of the call.
\<close>

record PeerStatus =
  ps_ServiceID :: string
  ps_Status :: string
  ps_LastSeen :: time

record Service =
  hs_peers :: "string \<rightharpoonup> PeerStatus"
  hs_interval :: duration
  hs_timeout :: duration

definition NewService :: "duration \<Rightarrow> duration \<Rightarrow> Service" where
  "NewService interval timeout =
     \<lparr>hs_peers = Map.empty,
      hs_interval = (if interval = 0 then 5 * Second else interval),
      hs_timeout = (if timeout = 0 then 15 * Second else timeout)\<rparr>"

definition RecordHeartbeat :: "Service \<Rightarrow> string \<Rightarrow> string \<Rightarrow> time \<Rightarrow> Service" where
  "RecordHeartbeat s serviceID status now =
     s\<lparr>hs_peers := (hs_peers s)(serviceID \<mapsto> \<lparr>ps_ServiceID = serviceID, ps_Status = status, ps_LastSeen = now\<rparr>)\<rparr>"

definition IsAlive :: "Service \<Rightarrow> string \<Rightarrow> time \<Rightarrow> bool" where
  "IsAlive s serviceID now =
     (case hs_peers s serviceID of
       None \<Rightarrow> False
     | Some peer \<Rightarrow> time_Sub now (ps_LastSeen peer) \<le> hs_timeout s)"

definition AllPeers :: "Service \<Rightarrow> string list \<Rightarrow> PeerStatus list" where
  "AllPeers s ks = map_values (hs_peers s) ks"

definition LivePeers :: "Service \<Rightarrow> time \<Rightarrow> string list \<Rightarrow> PeerStatus list" where
  "LivePeers s now ks = filter (\<lambda>p. time_Sub now (ps_LastSeen p) \<le> hs_timeout s) (map_values (hs_peers s) ks)"

definition Service_Interval :: "Service \<Rightarrow> duration" where
  "Service_Interval s = hs_interval s"

section \<open>The peers are a keyed table\<close>

datatype heartbeat = Beat string string time

fun health_exec :: "Service \<Rightarrow> heartbeat \<Rightarrow> Service" where
  "health_exec s (Beat sid status t) = RecordHeartbeat s sid status t"

fun health_effect :: "heartbeat \<Rightarrow> string \<Rightarrow> PeerStatus option option" where
  "health_effect (Beat sid status t) k =
     (if k = sid then Some (Some \<lparr>ps_ServiceID = sid, ps_Status = status, ps_LastSeen = t\<rparr>) else None)"

interpretation peers: keyed_table hs_peers health_exec health_effect
proof
  fix s op k
  show "hs_peers (health_exec s op) k = (case health_effect op k of None \<Rightarrow> hs_peers s k | Some w \<Rightarrow> w)"
    by (cases op) (auto simp: RecordHeartbeat_def)
qed

lemma health_timeout: "hs_timeout (foldl health_exec s beats) = hs_timeout s"
proof (induction beats arbitrary: s)
  case (Cons b beats)
  then show ?case by (cases b) (simp add: RecordHeartbeat_def)
qed simp

lemma health_key:
  assumes "hs_peers (foldl health_exec (NewService i t) beats) k = Some p"
  shows "ps_ServiceID p = k"
proof -
  have "ps_ServiceID v = k" if "health_effect op k = Some (Some v)" for op v
    using that by (cases op) (auto split: if_splits)
  then show ?thesis
    using peers.get_run_inv [of beats k "\<lambda>v. ps_ServiceID v = k" "NewService i t" p] assms
    by (simp add: NewService_def)
qed

text \<open>The saturation of \<open>Time.Sub\<close> does not matter below the longest duration.\<close>

lemma time_Sub_le: "minDuration \<le> d \<Longrightarrow> d < maxDuration \<Longrightarrow> time_Sub t u \<le> d \<longleftrightarrow> t - u \<le> d"
  by (auto simp: time_Sub_def)

section \<open>Property\<close>

text \<open>The time of the last heartbeat of a peer, if there was one.\<close>

fun last_beat :: "string \<Rightarrow> heartbeat list \<Rightarrow> time option" where
  "last_beat sid [] = None"
| "last_beat sid (Beat sid' status u # beats) =
     (case last_beat sid beats of
       Some v \<Rightarrow> Some v
     | None \<Rightarrow> if sid' = sid then Some u else None)"

lemma last_beat_effect:
  "(case last_effect health_effect beats sid of None \<Rightarrow> None | Some w \<Rightarrow> map_option ps_LastSeen w) = last_beat sid beats
   \<and> last_effect health_effect beats sid \<noteq> Some None"
  by (induction sid beats rule: last_beat.induct) (auto split: option.splits)

lemma last_seen:
  "map_option ps_LastSeen (hs_peers (foldl health_exec (NewService i t) beats) sid) = last_beat sid beats"
  using last_beat_effect [of beats sid] by (auto simp: peers.get_run NewService_def split: option.splits)

text \<open>
  A peer is alive exactly when its last heartbeat, in whatever sequence of heartbeats
  of it and others, is no older than the timeout, and \<open>LivePeers\<close> lists the peers that \<open>IsAlive\<close>
  reports at that instant, once each, in the order in which the map is visited.
\<close>

theorem health_liveness:
  assumes "minDuration \<le> hs_timeout (NewService i t)" and "hs_timeout (NewService i t) < maxDuration"
    and "map_order (hs_peers (foldl health_exec (NewService i t) beats)) ks"
  shows "(IsAlive (foldl health_exec (NewService i t) beats) sid now \<longleftrightarrow>
        (\<exists>u. last_beat sid beats = Some u \<and> now - u \<le> hs_timeout (NewService i t)))
    \<and> map ps_ServiceID (LivePeers (foldl health_exec (NewService i t) beats) now ks)
      = filter (\<lambda>k. IsAlive (foldl health_exec (NewService i t) beats) k now) ks"
proof
  let ?s = "foldl health_exec (NewService i t) beats"
  show "IsAlive ?s sid now \<longleftrightarrow> (\<exists>u. last_beat sid beats = Some u \<and> now - u \<le> hs_timeout (NewService i t))"
    using time_Sub_le [OF assms(1,2)] last_seen [of i t beats sid, symmetric]
    by (cases "hs_peers ?s sid") (auto simp: IsAlive_def health_timeout)
  have "map ps_ServiceID (filter (\<lambda>p. time_Sub now (ps_LastSeen p) \<le> hs_timeout ?s) (map (the \<circ> hs_peers ?s) js))
      = filter (\<lambda>k. IsAlive ?s k now) js" if "set js \<subseteq> dom (hs_peers ?s)" for js
    using that by (induction js) (auto simp: IsAlive_def dest: health_key)
  from this [of ks] show "map ps_ServiceID (LivePeers ?s now ks) = filter (\<lambda>k. IsAlive ?s k now) ks"
    using assms(3) by (simp add: LivePeers_def map_values_eq [OF assms(3)] map_order_def)
qed

theorem health_liveness_witness:
  "IsAlive (foldl health_exec (NewService 0 0) [Beat ''a'' ''ok'' 7, Beat ''b'' ''ok'' 9]) ''a'' 15000000007
   \<and> \<not> IsAlive (foldl health_exec (NewService 0 0) [Beat ''a'' ''ok'' 7, Beat ''b'' ''ok'' 9]) ''a'' 15000000008"
proof -
  have "map_order (hs_peers (foldl health_exec (NewService 0 0) [Beat ''a'' ''ok'' 7, Beat ''b'' ''ok'' 9])) [''a'', ''b'']"
    by (auto simp: map_order_def RecordHeartbeat_def NewService_def)
  moreover have "minDuration \<le> hs_timeout (NewService 0 0)" "hs_timeout (NewService 0 0) < maxDuration"
    by (simp_all add: NewService_def minDuration_def maxDuration_def Second_def)
  ultimately show ?thesis
    using health_liveness [of 0 0 "[Beat ''a'' ''ok'' 7, Beat ''b'' ''ok'' 9]" "[''a'', ''b'']" "''a''"]
    by (simp add: NewService_def Second_def)
qed

end
