(* ===== verification/Lifecycle.thy ===== *)
theory Lifecycle
  imports Message
begin

text \<open>
  \<^verbatim>\<open>core/lifecycle.go\<close> except for the floating-point \<open>Backoff\<close>: the heartbeat sender and
  graceful shutdown. The endpoint is a handle whose \<open>Send\<close> method is the argument \<open>esend\<close>, on the
  state \<open>'w\<close> behind it.
\<close>

section \<open>Heartbeats\<close>

record HeartbeatConfig =
  hc_Interval :: duration
  hc_ServiceID :: string

text \<open>\<open>hb_closed\<close> is whether the channel \<open>stopCh\<close> is closed.\<close>

record 'e HeartbeatSender =
  hb_endpoint :: 'e
  hb_config :: HeartbeatConfig
  hb_closed :: bool
  hb_stopped :: bool

definition NewHeartbeatSender :: "'e \<Rightarrow> HeartbeatConfig \<Rightarrow> 'e HeartbeatSender" where
  "NewHeartbeatSender endpoint config =
     \<lparr>hb_endpoint = endpoint,
      hb_config = (if hc_Interval config = 0 then config\<lparr>hc_Interval := 5 * Second\<rparr> else config),
      hb_closed = False, hb_stopped = False\<rparr>"

definition heartbeat_payload :: "string \<Rightarrow> bytes" where
  "heartbeat_payload sid =
     bytes_of_string (''{'' @ [CHR 0x22] @ ''service'' @ [CHR 0x22] @ '':'' @ [CHR 0x22] @ sid @ [CHR 0x22] @ '',''
       @ [CHR 0x22] @ ''status'' @ [CHR 0x22] @ '':'' @ [CHR 0x22] @ ''alive'' @ [CHR 0x22] @ ''}'')"

definition heartbeat_msg :: "'e HeartbeatSender \<Rightarrow> time \<Rightarrow> Message" where
  "heartbeat_msg h now =
     \<lparr>m_Version = core_ProtocolVersion, m_Type = TypeHeartbeat, m_Source = hc_ServiceID (hb_config h),
      m_Timestamp = now, m_SessionID = '''', m_RequestID = '''', m_Priority = PriorityP3, m_Capability = '''',
      m_Payload = heartbeat_payload (hc_ServiceID (hb_config h))\<rparr>"

text \<open>
  \<open>Stop\<close>; closing a closed channel panics, which is \<open>None\<close>.
\<close>

definition HeartbeatSender_Stop :: "'e HeartbeatSender \<Rightarrow> 'e HeartbeatSender option" where
  "HeartbeatSender_Stop h =
     (if \<not> hb_stopped h then (if hb_closed h then None else Some (h\<lparr>hb_closed := True, hb_stopped := True\<rparr>))
      else Some h)"

text \<open>
  The goroutine of \<open>Start\<close> next to calls of \<open>Stop\<close>: it is either in its \<open>select\<close> or has
  returned. A tick makes it send a heartbeat; the closed channel makes it return. With both ready, Go takes
  either.
\<close>

record ('e, 'w) hb_state =
  hs_sender :: "'e HeartbeatSender"
  hs_looping :: bool
  hs_world :: 'w

inductive hb_step :: "('e \<Rightarrow> Message \<Rightarrow> 'w \<Rightarrow> error option \<times> 'w) \<Rightarrow> ('e, 'w) hb_state \<Rightarrow> ('e, 'w) hb_state \<Rightarrow> bool"
  for esend where
  tick: "hs_looping s \<Longrightarrow> hb_step esend s
      (s\<lparr>hs_world := snd (esend (hb_endpoint (hs_sender s)) (heartbeat_msg (hs_sender s) now) (hs_world s))\<rparr>)"
| halt: "hs_looping s \<Longrightarrow> hb_closed (hs_sender s) \<Longrightarrow> hb_step esend s (s\<lparr>hs_looping := False\<rparr>)"
| stop: "HeartbeatSender_Stop (hs_sender s) = Some h \<Longrightarrow> hb_step esend s (s\<lparr>hs_sender := h\<rparr>)"

definition HeartbeatSender_Start :: "'e HeartbeatSender \<Rightarrow> 'w \<Rightarrow> ('e, 'w) hb_state" where
  "HeartbeatSender_Start h w = \<lparr>hs_sender = h, hs_looping = True, hs_world = w\<rparr>"

section \<open>Shutdown\<close>

text \<open>\<open>race\<close> is what the \<open>select\<close> receives first: the result of \<open>Close\<close>, or the timer.\<close>

definition GracefulShutdown :: "error option option \<Rightarrow> duration \<Rightarrow> error option" where
  "GracefulShutdown race timeout =
     (case race of
       Some err \<Rightarrow> err
     | None \<Rightarrow> Some (Errorf ''shutdown timed out after %v'' [AInt timeout]))"

section \<open>Stopping\<close>

lemma hb_reach:
  assumes "(hb_step esend)\<^sup>*\<^sup>* (HeartbeatSender_Start (NewHeartbeatSender ep config) w) s"
  shows "hb_closed (hs_sender s) = hb_stopped (hs_sender s)
    \<and> (\<not> hs_looping s \<longrightarrow> hb_stopped (hs_sender s))"
  using assms
proof (induction rule: rtranclp_induct)
  case base
  then show ?case by (simp add: HeartbeatSender_Start_def NewHeartbeatSender_def)
next
  case (step s s')
  from step(2,3) show ?case
    by cases (auto simp: HeartbeatSender_Stop_def split: if_splits)
qed

lemma hb_halted:
  assumes "(hb_step esend)\<^sup>*\<^sup>* s s'" and "\<not> hs_looping s"
  shows "\<not> hs_looping s' \<and> hs_world s' = hs_world s"
  using assms
proof (induction rule: rtranclp_induct)
  case (step s1 s2)
  from step(2) step(3) [OF step(4)] show ?case by cases simp_all
qed simp



end
