(* ===== verification/Transports.thy ===== *)
theory Transports
  imports Conn Config
begin

text \<open>
  \<^verbatim>\<open>transport/tcp/tcp.go\<close>, \<^verbatim>\<open>transport/tcp/tls_config.go\<close>, \<^verbatim>\<open>transport/unix/unix.go\<close> and
  \<^verbatim>\<open>transport/windows/pipe.go\<close>: the listeners and dialers behind the \<open>Transport\<close> interface. A
  \<open>net.Listener\<close> is its queue of pending connections. What the operating system answers to \<open>net.Listen\<close>
  and \<open>net.Dial\<close> is an argument, and so are the cryptographic routines of \<open>crypto/x509\<close> and the
  record layer of \<open>crypto/tls\<close>, which turns a connection into the stream of its plaintext. Keepalive probes do not
  change the stream and are left out.
\<close>

section \<open>Package net\<close>

record net_listener =
  nl_addr :: string
  nl_pending :: "netconn list"
  nl_closed :: bool

text \<open>\<open>Accept\<close> blocks while nothing is pending: the result is then None.\<close>

definition listener_Accept :: "net_listener \<Rightarrow> (netconn result \<times> net_listener) option" where
  "listener_Accept l =
     (if nl_closed l then Some (Inl errClosed, l)
      else case nl_pending l of
             [] \<Rightarrow> None
           | c # cs \<Rightarrow> Some (Inr c, l\<lparr>nl_pending := cs\<rparr>))"

definition listener_Close :: "net_listener \<Rightarrow> error option \<times> net_listener" where
  "listener_Close l = (if nl_closed l then (Some errClosed, l) else (None, l\<lparr>nl_closed := True\<rparr>))"

text \<open>A client connects: the kernel queues the connection.\<close>

definition listener_arrive :: "netconn \<Rightarrow> net_listener \<Rightarrow> net_listener" where
  "listener_arrive c l = (if nl_closed l then l else l\<lparr>nl_pending := nl_pending l @ [c]\<rparr>)"

section \<open>TLS configuration\<close>

text \<open>The fields of \<open>tls.Config\<close> that matter here; the others keep their zero values.\<close>

datatype ClientAuthType = NoClientCert | RequireAndVerifyClientCert

definition VersionTLS12 :: "16 word" where "VersionTLS12 = 0x0303"

record ('cert, 'pool) TLSConfig =
  tc_Certificates :: "'cert list"
  tc_MinVersion :: "16 word"
  tc_RootCAs :: "'pool option"
  tc_ClientCAs :: "'pool option"
  tc_ClientAuth :: ClientAuthType
  tc_InsecureSkipVerify :: bool

definition base_config :: "'cert \<Rightarrow> ('cert, 'pool) TLSConfig" where
  "base_config cert = \<lparr>tc_Certificates = [cert], tc_MinVersion = VersionTLS12, tc_RootCAs = None, tc_ClientCAs = None,
     tc_ClientAuth = NoClientCert, tc_InsecureSkipVerify = False\<rparr>"

text \<open>The template of the self-signed certificate.\<close>

datatype KeyUsage = DigitalSignature | KeyEncipherment
datatype ExtKeyUsage = ServerAuth | ClientAuth

record CertTemplate =
  ct_SerialNumber :: nat
  ct_Organization :: "string list"
  ct_CommonName :: string
  ct_NotBefore :: time
  ct_NotAfter :: time
  ct_KeyUsage :: "KeyUsage list"
  ct_ExtKeyUsage :: "ExtKeyUsage list"
  ct_BasicConstraintsValid :: bool
  ct_DNSNames :: "string list"

definition cert_template :: "nat \<Rightarrow> time \<Rightarrow> time \<Rightarrow> CertTemplate" where
  "cert_template serial now now' =
     \<lparr>ct_SerialNumber = serial, ct_Organization = [''EoS EIPC''], ct_CommonName = ''eipc-server'',
      ct_NotBefore = now + -1 * Hour, ct_NotAfter = now' + 365 * 24 * Hour,
      ct_KeyUsage = [DigitalSignature, KeyEncipherment], ct_ExtKeyUsage = [ServerAuth, ClientAuth],
      ct_BasicConstraintsValid = True, ct_DNSNames = [''localhost'']\<rparr>"

text \<open>
  The routines of the standard library the certificate code calls: key generation, a random number below a bound,
  signing of a template, the encodings of certificate and key, and the parsers of key pairs and of pools.
\<close>

record ('key, 'cert, 'pool) x509 =
  xl_GenerateKey :: "'key result"
  xl_randInt :: "nat \<Rightarrow> nat result"
  xl_CreateCertificate :: "CertTemplate \<Rightarrow> CertTemplate \<Rightarrow> 'key \<Rightarrow> bytes result"
  xl_MarshalECPrivateKey :: "'key \<Rightarrow> bytes result"
  xl_pemEncode :: "string \<Rightarrow> bytes \<Rightarrow> bytes"
  xl_X509KeyPair :: "bytes \<Rightarrow> bytes \<Rightarrow> 'cert result"
  xl_LoadX509KeyPair :: "string \<Rightarrow> string \<Rightarrow> 'cert result"
  xl_ReadFile :: "string \<Rightarrow> bytes result"
  xl_AppendCertsFromPEM :: "bytes \<Rightarrow> 'pool option"

definition GenerateSelfSignedCert :: "('key, 'cert, 'pool) x509 \<Rightarrow> time \<Rightarrow> time \<Rightarrow> 'cert result" where
  "GenerateSelfSignedCert lib now now' =
     (case xl_GenerateKey lib of
       Inl e \<Rightarrow> Inl (wrap_err ''generate key: %w'' e)
     | Inr key \<Rightarrow>
        (case xl_randInt lib (2 ^ 128) of
           Inl e \<Rightarrow> Inl (wrap_err ''generate serial: %w'' e)
         | Inr serial \<Rightarrow>
            (let template = cert_template serial now now'
             in case xl_CreateCertificate lib template template key of
                  Inl e \<Rightarrow> Inl (wrap_err ''create certificate: %w'' e)
                | Inr certDER \<Rightarrow>
                   (let certPEM = xl_pemEncode lib ''CERTIFICATE'' certDER
                    in case xl_MarshalECPrivateKey lib key of
                         Inl e \<Rightarrow> Inl (wrap_err ''marshal key: %w'' e)
                       | Inr keyDER \<Rightarrow>
                          (let keyPEM = xl_pemEncode lib ''EC PRIVATE KEY'' keyDER
                           in xl_X509KeyPair lib certPEM keyPEM)))))"

definition LoadTLSConfig ::
  "('key, 'cert, 'pool) x509 \<Rightarrow> string \<Rightarrow> string \<Rightarrow> string \<Rightarrow> ('cert, 'pool) TLSConfig result" where
  "LoadTLSConfig lib certFile keyFile caFile =
     (case xl_LoadX509KeyPair lib (filepath_Clean certFile) (filepath_Clean keyFile) of
       Inl e \<Rightarrow> Inl (wrap_err ''load key pair: %w'' e)
     | Inr cert \<Rightarrow>
        (let cfg = base_config cert
         in if caFile \<noteq> '''' then
              (case xl_ReadFile lib (filepath_Clean caFile) of
                 Inl e \<Rightarrow> Inl (wrap_err ''read CA file: %w'' e)
               | Inr caPEM \<Rightarrow>
                  (case xl_AppendCertsFromPEM lib caPEM of
                     None \<Rightarrow> Inl (Errorf ''failed to parse CA certificate'' [])
                   | Some pool \<Rightarrow> Inr (cfg\<lparr>tc_ClientCAs := Some pool, tc_ClientAuth := RequireAndVerifyClientCert\<rparr>)))
            else Inr cfg))"

definition AutoTLSConfig :: "('key, 'cert, 'pool) x509 \<Rightarrow> time \<Rightarrow> time \<Rightarrow> ('cert, 'pool) TLSConfig result" where
  "AutoTLSConfig lib now now' =
     (case GenerateSelfSignedCert lib now now' of
       Inl e \<Rightarrow> Inl e
     | Inr cert \<Rightarrow> Inr (base_config cert))"

section \<open>The TCP transport\<close>

record ('cert, 'pool) tcp_Transport =
  tt_listener :: "net_listener option"
  tt_listenerTLS :: "('cert, 'pool) TLSConfig option"
  tt_tlsConfig :: "('cert, 'pool) TLSConfig option"

definition tcp_New :: "('cert, 'pool) tcp_Transport" where
  "tcp_New = \<lparr>tt_listener = None, tt_listenerTLS = None, tt_tlsConfig = None\<rparr>"

definition WithTLS ::
  "('key, 'cert, 'pool) x509 \<Rightarrow> string \<Rightarrow> string \<Rightarrow> string \<Rightarrow> ('cert, 'pool) tcp_Transport \<Rightarrow> error option \<times> ('cert, 'pool) tcp_Transport" where
  "WithTLS lib certFile keyFile caFile t =
     (case LoadTLSConfig lib certFile keyFile caFile of
       Inl e \<Rightarrow> (Some e, t)
     | Inr cfg \<Rightarrow> (None, t\<lparr>tt_tlsConfig := Some cfg\<rparr>))"

definition WithTLSConfig :: "('cert, 'pool) TLSConfig option \<Rightarrow> ('cert, 'pool) tcp_Transport \<Rightarrow> ('cert, 'pool) tcp_Transport" where
  "WithTLSConfig cfg t = t\<lparr>tt_tlsConfig := cfg\<rparr>"

text \<open>
  \<open>tls.NewListener\<close> wraps the listener together with the configuration of that moment, which
  \<open>tt_listenerTLS\<close> keeps; a wrapped listener wraps what it accepts in \<open>tls.Server\<close>, the argument \<open>tlsServer\<close>.
\<close>

definition tcp_Listen ::
  "(string \<Rightarrow> string \<Rightarrow> net_listener result) \<Rightarrow> string \<Rightarrow> ('cert, 'pool) tcp_Transport \<Rightarrow> error option \<times> ('cert, 'pool) tcp_Transport" where
  "tcp_Listen netListen address t =
     (case netListen ''tcp'' address of
       Inl e \<Rightarrow> (Some (wrap_err ''tcp listen: %w'' e), t)
     | Inr ln \<Rightarrow> (None, t\<lparr>tt_listener := Some ln, tt_listenerTLS := tt_tlsConfig t\<rparr>))"

definition tcp_Dial ::
  "(string \<Rightarrow> string \<Rightarrow> netconn result) \<Rightarrow> (string \<Rightarrow> string \<Rightarrow> ('cert, 'pool) TLSConfig \<Rightarrow> netconn result) \<Rightarrow> string
    \<Rightarrow> ('cert, 'pool) tcp_Transport \<Rightarrow> ConnWrapper result" where
  "tcp_Dial netDial tlsDial address t =
     (case tt_tlsConfig t of
       Some clientTLS \<Rightarrow>
         (case tlsDial ''tcp'' address clientTLS of
            Inl e \<Rightarrow> Inl (wrap_err ''tcp tls dial: %w'' e)
          | Inr conn \<Rightarrow> Inr (NewConnWrapper conn))
     | None \<Rightarrow>
         (case netDial ''tcp'' address of
            Inl e \<Rightarrow> Inl (wrap_err ''tcp dial: %w'' e)
          | Inr conn \<Rightarrow> Inr (NewConnWrapper conn)))"

definition tcp_Accept ::
  "(('cert, 'pool) TLSConfig \<Rightarrow> netconn \<Rightarrow> netconn) \<Rightarrow> ('cert, 'pool) tcp_Transport \<Rightarrow> (ConnWrapper result \<times> ('cert, 'pool) tcp_Transport) option" where
  "tcp_Accept tlsServer t =
     (case tt_listener t of
       None \<Rightarrow> Some (Inl (Errorf ''tcp: not listening'' []), t)
     | Some ln \<Rightarrow>
        (case listener_Accept ln of
           None \<Rightarrow> None
         | Some (Inl e, ln) \<Rightarrow> Some (Inl (wrap_err ''tcp accept: %w'' e), t\<lparr>tt_listener := Some ln\<rparr>)
         | Some (Inr conn, ln) \<Rightarrow>
            Some (Inr (NewConnWrapper (case tt_listenerTLS t of None \<Rightarrow> conn | Some cfg \<Rightarrow> tlsServer cfg conn)),
                  t\<lparr>tt_listener := Some ln\<rparr>)))"

definition tcp_Close :: "('cert, 'pool) tcp_Transport \<Rightarrow> error option \<times> ('cert, 'pool) tcp_Transport" where
  "tcp_Close t =
     (case tt_listener t of
       Some ln \<Rightarrow> (let (e, ln) = listener_Close ln in (e, t\<lparr>tt_listener := Some ln\<rparr>))
     | None \<Rightarrow> (None, t))"

definition tcp_Addr :: "('cert, 'pool) tcp_Transport \<Rightarrow> string" where
  "tcp_Addr t = (case tt_listener t of Some ln \<Rightarrow> nl_addr ln | None \<Rightarrow> '''')"

definition SetupTLSFromEnv ::
  "('key, 'cert, 'pool) x509 \<Rightarrow> (string \<rightharpoonup> string) \<Rightarrow> time \<Rightarrow> time \<Rightarrow> ('cert, 'pool) tcp_Transport \<Rightarrow> error option \<times> ('cert, 'pool) tcp_Transport" where
  "SetupTLSFromEnv lib env now now' t =
     (let certFile = os_Getenv env ''EIPC_TLS_CERT''; keyFile = os_Getenv env ''EIPC_TLS_KEY''
      in if certFile \<noteq> '''' \<and> keyFile \<noteq> '''' then WithTLS lib certFile keyFile (os_Getenv env ''EIPC_TLS_CA'') t
         else if os_Getenv env ''EIPC_TLS_AUTO_CERT'' = ''true'' then
           (case AutoTLSConfig lib now now' of
              Inl e \<Rightarrow> (Some e, t)
            | Inr cfg \<Rightarrow> (None, t\<lparr>tt_tlsConfig := Some cfg\<rparr>))
         else (None, t))"

section \<open>The Unix and Windows transports\<close>

text \<open>Both are the TCP transport without TLS; the Windows one listens on TCP as well.\<close>

record unix_Transport =
  ut_listener :: "net_listener option"

definition unix_New :: unix_Transport where
  "unix_New = \<lparr>ut_listener = None\<rparr>"

definition unix_Listen :: "(string \<Rightarrow> string \<Rightarrow> net_listener result) \<Rightarrow> string \<Rightarrow> unix_Transport \<Rightarrow> error option \<times> unix_Transport" where
  "unix_Listen netListen address t =
     (case netListen ''unix'' address of
       Inl e \<Rightarrow> (Some (wrap_err ''unix listen: %w'' e), t)
     | Inr ln \<Rightarrow> (None, t\<lparr>ut_listener := Some ln\<rparr>))"

definition unix_Dial :: "(string \<Rightarrow> string \<Rightarrow> netconn result) \<Rightarrow> string \<Rightarrow> unix_Transport \<Rightarrow> ConnWrapper result" where
  "unix_Dial netDial address t =
     (case netDial ''unix'' address of
       Inl e \<Rightarrow> Inl (wrap_err ''unix dial: %w'' e)
     | Inr conn \<Rightarrow> Inr (NewConnWrapper conn))"

definition unix_Accept :: "unix_Transport \<Rightarrow> (ConnWrapper result \<times> unix_Transport) option" where
  "unix_Accept t =
     (case ut_listener t of
       None \<Rightarrow> Some (Inl (Errorf ''unix: not listening'' []), t)
     | Some ln \<Rightarrow>
        (case listener_Accept ln of
           None \<Rightarrow> None
         | Some (Inl e, ln) \<Rightarrow> Some (Inl (wrap_err ''unix accept: %w'' e), t\<lparr>ut_listener := Some ln\<rparr>)
         | Some (Inr conn, ln) \<Rightarrow> Some (Inr (NewConnWrapper conn), t\<lparr>ut_listener := Some ln\<rparr>)))"

definition unix_Close :: "unix_Transport \<Rightarrow> error option \<times> unix_Transport" where
  "unix_Close t =
     (case ut_listener t of
       Some ln \<Rightarrow> (let (e, ln) = listener_Close ln in (e, t\<lparr>ut_listener := Some ln\<rparr>))
     | None \<Rightarrow> (None, t))"

definition unix_Addr :: "unix_Transport \<Rightarrow> string" where
  "unix_Addr t = (case ut_listener t of Some ln \<Rightarrow> nl_addr ln | None \<Rightarrow> '''')"

record pipe_Transport =
  wt_listener :: "net_listener option"

definition pipe_New :: pipe_Transport where
  "pipe_New = \<lparr>wt_listener = None\<rparr>"

definition pipe_Listen :: "(string \<Rightarrow> string \<Rightarrow> net_listener result) \<Rightarrow> string \<Rightarrow> pipe_Transport \<Rightarrow> error option \<times> pipe_Transport" where
  "pipe_Listen netListen address t =
     (case netListen ''tcp'' address of
       Inl e \<Rightarrow> (Some (wrap_err ''windows pipe listen: %w'' e), t)
     | Inr ln \<Rightarrow> (None, t\<lparr>wt_listener := Some ln\<rparr>))"

definition pipe_Dial :: "(string \<Rightarrow> string \<Rightarrow> netconn result) \<Rightarrow> string \<Rightarrow> pipe_Transport \<Rightarrow> ConnWrapper result" where
  "pipe_Dial netDial address t =
     (case netDial ''tcp'' address of
       Inl e \<Rightarrow> Inl (wrap_err ''windows pipe dial: %w'' e)
     | Inr conn \<Rightarrow> Inr (NewConnWrapper conn))"

definition pipe_Accept :: "pipe_Transport \<Rightarrow> (ConnWrapper result \<times> pipe_Transport) option" where
  "pipe_Accept t =
     (case wt_listener t of
       None \<Rightarrow> Some (Inl (Errorf ''windows pipe: not listening'' []), t)
     | Some ln \<Rightarrow>
        (case listener_Accept ln of
           None \<Rightarrow> None
         | Some (Inl e, ln) \<Rightarrow> Some (Inl (wrap_err ''windows pipe accept: %w'' e), t\<lparr>wt_listener := Some ln\<rparr>)
         | Some (Inr conn, ln) \<Rightarrow> Some (Inr (NewConnWrapper conn), t\<lparr>wt_listener := Some ln\<rparr>)))"

definition pipe_Close :: "pipe_Transport \<Rightarrow> error option \<times> pipe_Transport" where
  "pipe_Close t =
     (case wt_listener t of
       Some ln \<Rightarrow> (let (e, ln) = listener_Close ln in (e, t\<lparr>wt_listener := Some ln\<rparr>))
     | None \<Rightarrow> (None, t))"

definition pipe_Addr :: "pipe_Transport \<Rightarrow> string" where
  "pipe_Addr t = (case wt_listener t of Some ln \<Rightarrow> nl_addr ln | None \<Rightarrow> '''')"

section \<open>What a transport promises\<close>

text \<open>
  What a server relies on. \<open>queue\<close> is the connections a listening transport will hand out, as the server sees them, and None when it is not
  listening; \<open>view\<close> is what the transport makes of a connection.
\<close>

datatype net_event = Connect netconn | Accept | Shutdown

fun connects :: "net_event list \<Rightarrow> netconn list" where
  "connects [] = []"
| "connects (Connect c # evs) = c # connects evs"
| "connects (_ # evs) = connects evs"

fun accepted_conns :: "netconn result list \<Rightarrow> netconn list" where
  "accepted_conns [] = []"
| "accepted_conns (Inr c # rs) = c # accepted_conns rs"
| "accepted_conns (Inl _ # rs) = accepted_conns rs"

lemma accepted_conns_append [simp]: "accepted_conns (rs @ rs') = accepted_conns rs @ accepted_conns rs'"
  by (induction rs rule: accepted_conns.induct) auto

text \<open>The results of \<open>Accept\<close> along a sequence of events; a call that would block is not made.\<close>

fun serve ::
  "('t \<Rightarrow> (netconn result \<times> 't) option) \<Rightarrow> ('t \<Rightarrow> error option \<times> 't) \<Rightarrow> (netconn \<Rightarrow> 't \<Rightarrow> 't) \<Rightarrow> net_event list \<Rightarrow> 't \<Rightarrow> netconn result list \<times> 't" where
  "serve accept close arrive [] t = ([], t)"
| "serve accept close arrive (Connect c # evs) t = serve accept close arrive evs (arrive c t)"
| "serve accept close arrive (Accept # evs) t =
     (case accept t of
       None \<Rightarrow> serve accept close arrive evs t
     | Some (r, t') \<Rightarrow> (let (rs, t'') = serve accept close arrive evs t' in (r # rs, t'')))"
| "serve accept close arrive (Shutdown # evs) t = serve accept close arrive evs (snd (close t))"

locale transport =
  fixes accept :: "'t \<Rightarrow> (netconn result \<times> 't) option" and close :: "'t \<Rightarrow> error option \<times> 't"
    and arrive :: "netconn \<Rightarrow> 't \<Rightarrow> 't" and queue :: "'t \<Rightarrow> netconn list option" and view :: "'t \<Rightarrow> netconn \<Rightarrow> netconn"
  assumes accept_empty: "queue t = Some [] \<Longrightarrow> accept t = None"
    and accept_head: "queue t = Some (c # cs) \<Longrightarrow>
      (case accept t of None \<Rightarrow> False | Some (r, t') \<Rightarrow> r = Inr c \<and> queue t' = Some cs \<and> view t' = view t)"
    and accept_stopped: "queue t = None \<Longrightarrow> (case accept t of None \<Rightarrow> False | Some (r, t') \<Rightarrow> (\<exists>e. r = Inl e) \<and> queue t' = None)"
    and close_stops: "queue (snd (close t)) = None"
    and arrive_serving: "queue t = Some cs \<Longrightarrow> queue (arrive c t) = Some (cs @ [view t c]) \<and> view (arrive c t) = view t"
    and arrive_stopped: "queue t = None \<Longrightarrow> queue (arrive c t) = None"
begin

lemma serve_stopped: "queue t = None \<Longrightarrow> accepted_conns (fst (serve accept close arrive evs t)) = []"
proof (induction evs arbitrary: t)
  case (Cons ev evs)
  then show ?case
    using accept_stopped [of t] close_stops arrive_stopped by (cases ev) (fastforce simp: split_beta split: option.splits)+
qed simp

lemma serve_order:
  "queue t = Some q \<Longrightarrow> Shutdown \<notin> set evs \<Longrightarrow>
   \<exists>q'. queue (snd (serve accept close arrive evs t)) = Some q'
     \<and> accepted_conns (fst (serve accept close arrive evs t)) @ q' = q @ map (view t) (connects evs)"
proof (induction evs arbitrary: t q)
  case (Cons ev evs)
  show ?case
  proof (cases ev)
    case (Connect c)
    then show ?thesis using Cons.IH [of "arrive c t"] Cons.prems arrive_serving [of t q c] by simp
  next
    case Accept
    show ?thesis
    proof (cases q)
      case Nil
      then show ?thesis using Accept Cons.prems Cons.IH [of t "[]"] accept_empty [of t] by simp
    next
      case (Cons c cs)
      then obtain t' where "accept t = Some (Inr c, t')" "queue t' = Some cs" "view t' = view t" 
        using accept_head [of t c cs] Cons.prems by (auto split: option.splits)
      then show ?thesis using Accept Cons Cons.prems Cons.IH [of t' cs] by (auto simp: split_beta)
    qed
  qed (use Cons.prems in simp)
qed simp

lemma serve_append:
  "serve accept close arrive (evs @ evs') t =
     (let (rs, t') = serve accept close arrive evs t; (rs', t'') = serve accept close arrive evs' t' in (rs @ rs', t''))"
  by (induction accept close arrive evs t rule: serve.induct) (auto simp: split_beta Let_def split: option.splits)

lemma serve_until_closed:
  assumes "queue t = Some []" and "Shutdown \<notin> set evs"
  shows "\<exists>waiting. accepted_conns (fst (serve accept close arrive (evs @ Shutdown # evs') t)) @ waiting = map (view t) (connects evs)"
proof -
  obtain q where "accepted_conns (fst (serve accept close arrive evs t)) @ q = map (view t) (connects evs)"
    using serve_order [OF assms] by auto
  then show ?thesis using serve_stopped [OF close_stops] by (auto simp: serve_append split_beta Let_def)
qed

end

subsection \<open>The three transports keep the promise\<close>

definition listener_queue :: "net_listener option \<Rightarrow> netconn list option" where
  "listener_queue lo = (case lo of None \<Rightarrow> None | Some ln \<Rightarrow> if nl_closed ln then None else Some (nl_pending ln))"

lemmas listener_simps = listener_queue_def listener_Accept_def listener_Close_def listener_arrive_def NewConnWrapper_def

definition tcp_arrive :: "netconn \<Rightarrow> ('cert, 'pool) tcp_Transport \<Rightarrow> ('cert, 'pool) tcp_Transport" where
  "tcp_arrive c t = t\<lparr>tt_listener := map_option (listener_arrive c) (tt_listener t)\<rparr>"

definition tcp_view :: "(('cert, 'pool) TLSConfig \<Rightarrow> netconn \<Rightarrow> netconn) \<Rightarrow> ('cert, 'pool) tcp_Transport \<Rightarrow> netconn \<Rightarrow> netconn" where
  "tcp_view tlsServer t = (case tt_listenerTLS t of None \<Rightarrow> (\<lambda>c. c) | Some cfg \<Rightarrow> tlsServer cfg)"

definition tcp_queue :: "(('cert, 'pool) TLSConfig \<Rightarrow> netconn \<Rightarrow> netconn) \<Rightarrow> ('cert, 'pool) tcp_Transport \<Rightarrow> netconn list option" where
  "tcp_queue tlsServer t = map_option (map (tcp_view tlsServer t)) (listener_queue (tt_listener t))"

interpretation tcptransport: transport "tcp_Accept tlsServer" tcp_Close tcp_arrive "tcp_queue tlsServer" "tcp_view tlsServer" for tlsServer
  by unfold_locales
    (auto simp: tcp_Accept_def tcp_Close_def tcp_arrive_def tcp_queue_def tcp_view_def listener_simps split: option.splits if_splits list.splits)

interpretation unixtransport: transport unix_Accept unix_Close
  "\<lambda>c t. t\<lparr>ut_listener := map_option (listener_arrive c) (ut_listener t)\<rparr>" "\<lambda>t. listener_queue (ut_listener t)" "\<lambda>t c. c"
  by unfold_locales (auto simp: unix_Accept_def unix_Close_def listener_simps split: option.splits if_splits list.splits)

interpretation pipetransport: transport pipe_Accept pipe_Close
  "\<lambda>c t. t\<lparr>wt_listener := map_option (listener_arrive c) (wt_listener t)\<rparr>" "\<lambda>t. listener_queue (wt_listener t)" "\<lambda>t c. c"
  by unfold_locales (auto simp: pipe_Accept_def pipe_Close_def listener_simps split: option.splits if_splits list.splits)

section \<open>Properties\<close>

text \<open>
  A TCP transport that listens hands out its connections in the order in which they arrived, each once and, when TLS was configured
  before \<open>Listen\<close>, each wrapped in TLS, and nothing once it is closed, whatever arrives and however often \<open>Accept\<close> is called.
\<close>

theorem tcp_serves_in_order:
  assumes "netListen ''tcp'' address = Inr ln" and "\<not> nl_closed ln" and "nl_pending ln = []" and "Shutdown \<notin> set evs"
  shows "\<exists>t. tcp_Listen netListen address t0 = (None, t) \<and> tcp_Addr t = nl_addr ln
    \<and> (\<exists>waiting. accepted_conns (fst (serve (tcp_Accept tlsServer) tcp_Close tcp_arrive (evs @ Shutdown # evs') t)) @ waiting
        = map (case tt_tlsConfig t0 of None \<Rightarrow> (\<lambda>c. c) | Some cfg \<Rightarrow> tlsServer cfg) (connects evs))"
proof -
  let ?t = "t0\<lparr>tt_listener := Some ln, tt_listenerTLS := tt_tlsConfig t0\<rparr>"
  have "tcp_queue tlsServer ?t = Some []" using assms(2,3) by (simp add: tcp_queue_def listener_queue_def)
  from tcptransport.serve_until_closed [OF this assms(4), of evs'] show ?thesis
    using assms(1) by (simp add: tcp_Listen_def tcp_Addr_def tcp_view_def)
qed

theorem tcp_serves_in_order_witness:
  "\<exists>t. tcp_Listen (\<lambda>_ a. Inr \<lparr>nl_addr = a, nl_pending = [], nl_closed = False\<rparr>) ''127.0.0.1:9090'' (tcp_New :: (unit, unit) tcp_Transport) = (None, t)
    \<and> tcp_Addr t = ''127.0.0.1:9090''"
  using tcp_serves_in_order [of "\<lambda>_ a. Inr \<lparr>nl_addr = a, nl_pending = [], nl_closed = False\<rparr>" "''127.0.0.1:9090''"
      "\<lparr>nl_addr = ''127.0.0.1:9090'', nl_pending = [], nl_closed = False\<rparr>" "[Accept]" "tcp_New :: (unit, unit) tcp_Transport" "\<lambda>_ c. c" "[]"]
  by auto

text \<open>
  C11: What the environment variables make of a fresh transport, when \<open>SetupTLSFromEnv\<close> succeeds. With a certificate and
  a key the transport uses TLS 1.2 or later, and it demands verified client certificates exactly when a CA file is named; with
  \<open>EIPC_TLS_AUTO_CERT=true\<close> it uses TLS without client certificates; otherwise it uses none. The server
  announces TLS by \<open>TLSEnabled\<close>, and this is right except when a certificate is named without a key: then
  it announces TLS and serves plaintext.
\<close>

theorem tls_environment:
  assumes "SetupTLSFromEnv lib env now now' tcp_New = (None, t)"
  defines "cert \<equiv> os_Getenv env ''EIPC_TLS_CERT'' \<noteq> []" and "key \<equiv> os_Getenv env ''EIPC_TLS_KEY'' \<noteq> []"
    and "auto \<equiv> os_Getenv env ''EIPC_TLS_AUTO_CERT'' = ''true''"
  shows "(tt_tlsConfig t \<noteq> None \<longleftrightarrow> cert \<and> key \<or> auto)
    \<and> (case tt_tlsConfig t of None \<Rightarrow> True | Some cfg \<Rightarrow> tc_MinVersion cfg = VersionTLS12
        \<and> tc_ClientAuth cfg = (if cert \<and> key \<and> os_Getenv env ''EIPC_TLS_CA'' \<noteq> [] then RequireAndVerifyClientCert else NoClientCert))
    \<and> (TLSEnabled env = (tt_tlsConfig t \<noteq> None) \<longleftrightarrow> \<not> (cert \<and> \<not> key \<and> \<not> auto))"
proof (intro conjI)
  show "tt_tlsConfig t \<noteq> None \<longleftrightarrow> cert \<and> key \<or> auto"
    "TLSEnabled env = (tt_tlsConfig t \<noteq> None) \<longleftrightarrow> \<not> (cert \<and> \<not> key \<and> \<not> auto)"
    using assms(1)
    by (auto simp: SetupTLSFromEnv_def WithTLS_def AutoTLSConfig_def TLSEnabled_def tcp_New_def Let_def cert_def key_def auto_def
        split: if_splits sum.splits)
  show "case tt_tlsConfig t of None \<Rightarrow> True | Some cfg \<Rightarrow> tc_MinVersion cfg = VersionTLS12
      \<and> tc_ClientAuth cfg = (if cert \<and> key \<and> os_Getenv env ''EIPC_TLS_CA'' \<noteq> [] then RequireAndVerifyClientCert else NoClientCert)"
    using assms(1)
    by (auto simp: SetupTLSFromEnv_def WithTLS_def LoadTLSConfig_def AutoTLSConfig_def base_config_def tcp_New_def Let_def cert_def key_def auto_def
        split: if_splits sum.splits option.splits)
qed

text \<open>A certificate without a key, with routines that all succeed.\<close>

definition x509_ok :: "(unit, unit, unit) x509" where
  "x509_ok = \<lparr>xl_GenerateKey = Inr (), xl_randInt = \<lambda>_. Inr 7, xl_CreateCertificate = \<lambda>_ _ _. Inr [], xl_MarshalECPrivateKey = \<lambda>_. Inr [],
     xl_pemEncode = \<lambda>_ b. b, xl_X509KeyPair = \<lambda>_ _. Inr (), xl_LoadX509KeyPair = \<lambda>_ _. Inr (), xl_ReadFile = \<lambda>_. Inr [],
     xl_AppendCertsFromPEM = \<lambda>_. Some ()\<rparr>"

theorem tls_environment_witness:
  "tt_tlsConfig (snd (SetupTLSFromEnv x509_ok [''EIPC_TLS_CERT'' \<mapsto> ''cert.pem''] 0 0 tcp_New)) = None
   \<and> TLSEnabled [''EIPC_TLS_CERT'' \<mapsto> ''cert.pem'']"
  using tls_environment [of x509_ok "[''EIPC_TLS_CERT'' \<mapsto> ''cert.pem'']" 0 0 tcp_New]
  by (simp add: SetupTLSFromEnv_def os_Getenv_def tcp_New_def split: if_splits)

text \<open>
  The trust a dialling transport needs: a server certificate is checked against \<open>tc_RootCAs\<close>, or the roots of the system when
  there are none. No configuration from the environment sets it, so the CA file plays no part in what a client accepts.
\<close>

lemma client_roots:
  "SetupTLSFromEnv lib env now now' tcp_New = (None, t) \<Longrightarrow> tt_tlsConfig t = Some cfg \<Longrightarrow> tc_RootCAs cfg = None \<and> \<not> tc_InsecureSkipVerify cfg"
  by (auto simp: SetupTLSFromEnv_def WithTLS_def LoadTLSConfig_def AutoTLSConfig_def base_config_def tcp_New_def Let_def
      split: if_splits sum.splits option.splits)

text \<open>The self-signed certificate is valid from an hour before its creation for a year, and names \<open>localhost\<close> only.\<close>

lemma self_signed_template:
  assumes "GenerateSelfSignedCert lib now now' = Inr cert"
  shows "\<exists>serial key der. xl_CreateCertificate lib (cert_template serial now now') (cert_template serial now now') key = Inr der
    \<and> ct_NotBefore (cert_template serial now now') < now \<and> now' < ct_NotAfter (cert_template serial now now')
    \<and> ct_DNSNames (cert_template serial now now') = [''localhost'']"
  using assms
  by (auto simp: GenerateSelfSignedCert_def cert_template_def Hour_def Minute_def Second_def Let_def split: sum.splits)

end
