(* ===== verification/Encryption.thy ===== *)
theory Encryption
  imports Prelude
begin

text \<open>
  \<^verbatim>\<open>security/encryption/aes.go\<close>: \<open>Encrypt\<close> and \<open>Decrypt\<close> with AES-256 in Galois/counter mode. The routines of
  the standard library are defined as the standards have them: the block cipher (FIPS 197) and GCM with 12-byte nonces and 16-byte
  tags (NIST SP 800-38D). \<open>crypto/rand\<close> is an argument: the bytes it delivers, or its error.
\<close>

section \<open>The block cipher\<close>

definition aes_sbox :: "bytes" where
  "aes_sbox =
     [0x63, 0x7C, 0x77, 0x7B, 0xF2, 0x6B, 0x6F, 0xC5, 0x30, 0x01, 0x67, 0x2B, 0xFE, 0xD7, 0xAB, 0x76,
      0xCA, 0x82, 0xC9, 0x7D, 0xFA, 0x59, 0x47, 0xF0, 0xAD, 0xD4, 0xA2, 0xAF, 0x9C, 0xA4, 0x72, 0xC0,
      0xB7, 0xFD, 0x93, 0x26, 0x36, 0x3F, 0xF7, 0xCC, 0x34, 0xA5, 0xE5, 0xF1, 0x71, 0xD8, 0x31, 0x15,
      0x04, 0xC7, 0x23, 0xC3, 0x18, 0x96, 0x05, 0x9A, 0x07, 0x12, 0x80, 0xE2, 0xEB, 0x27, 0xB2, 0x75,
      0x09, 0x83, 0x2C, 0x1A, 0x1B, 0x6E, 0x5A, 0xA0, 0x52, 0x3B, 0xD6, 0xB3, 0x29, 0xE3, 0x2F, 0x84,
      0x53, 0xD1, 0x00, 0xED, 0x20, 0xFC, 0xB1, 0x5B, 0x6A, 0xCB, 0xBE, 0x39, 0x4A, 0x4C, 0x58, 0xCF,
      0xD0, 0xEF, 0xAA, 0xFB, 0x43, 0x4D, 0x33, 0x85, 0x45, 0xF9, 0x02, 0x7F, 0x50, 0x3C, 0x9F, 0xA8,
      0x51, 0xA3, 0x40, 0x8F, 0x92, 0x9D, 0x38, 0xF5, 0xBC, 0xB6, 0xDA, 0x21, 0x10, 0xFF, 0xF3, 0xD2,
      0xCD, 0x0C, 0x13, 0xEC, 0x5F, 0x97, 0x44, 0x17, 0xC4, 0xA7, 0x7E, 0x3D, 0x64, 0x5D, 0x19, 0x73,
      0x60, 0x81, 0x4F, 0xDC, 0x22, 0x2A, 0x90, 0x88, 0x46, 0xEE, 0xB8, 0x14, 0xDE, 0x5E, 0x0B, 0xDB,
      0xE0, 0x32, 0x3A, 0x0A, 0x49, 0x06, 0x24, 0x5C, 0xC2, 0xD3, 0xAC, 0x62, 0x91, 0x95, 0xE4, 0x79,
      0xE7, 0xC8, 0x37, 0x6D, 0x8D, 0xD5, 0x4E, 0xA9, 0x6C, 0x56, 0xF4, 0xEA, 0x65, 0x7A, 0xAE, 0x08,
      0xBA, 0x78, 0x25, 0x2E, 0x1C, 0xA6, 0xB4, 0xC6, 0xE8, 0xDD, 0x74, 0x1F, 0x4B, 0xBD, 0x8B, 0x8A,
      0x70, 0x3E, 0xB5, 0x66, 0x48, 0x03, 0xF6, 0x0E, 0x61, 0x35, 0x57, 0xB9, 0x86, 0xC1, 0x1D, 0x9E,
      0xE1, 0xF8, 0x98, 0x11, 0x69, 0xD9, 0x8E, 0x94, 0x9B, 0x1E, 0x87, 0xE9, 0xCE, 0x55, 0x28, 0xDF,
      0x8C, 0xA1, 0x89, 0x0D, 0xBF, 0xE6, 0x42, 0x68, 0x41, 0x99, 0x2D, 0x0F, 0xB0, 0x54, 0xBB, 0x16]"

definition sub_bytes :: "bytes \<Rightarrow> bytes" where
  "sub_bytes s = map (\<lambda>b. aes_sbox ! unat b) s"

text \<open>A state or a block is its sixteen bytes, column by column.\<close>

definition shift_rows :: "bytes \<Rightarrow> bytes" where
  "shift_rows s = map ((!) s) [0, 5, 10, 15, 4, 9, 14, 3, 8, 13, 2, 7, 12, 1, 6, 11]"

definition xtime :: "8 word \<Rightarrow> 8 word" where
  "xtime b = push_bit 1 b XOR (if bit b 7 then 0x1B else 0)"

definition mix_column :: "8 word \<Rightarrow> 8 word \<Rightarrow> 8 word \<Rightarrow> 8 word \<Rightarrow> bytes" where
  "mix_column a b c d =
     [xtime a XOR xtime b XOR b XOR c XOR d, a XOR xtime b XOR xtime c XOR c XOR d,
      a XOR b XOR xtime c XOR xtime d XOR d, xtime a XOR a XOR b XOR c XOR xtime d]"

fun mix_columns :: "bytes \<Rightarrow> bytes" where
  "mix_columns (a # b # c # d # rest) = mix_column a b c d @ mix_columns rest"
| "mix_columns _ = []"

definition xor_bytes :: "bytes \<Rightarrow> bytes \<Rightarrow> bytes" where
  "xor_bytes = map2 (XOR)"

text \<open>The key schedule: \<open>ws\<close> are the words so far, \<open>nk\<close> the number of words of the key.\<close>

fun rcon :: "nat \<Rightarrow> 8 word" where
  "rcon 0 = 1"
| "rcon (Suc n) = xtime (rcon n)"

definition next_word :: "nat \<Rightarrow> bytes list \<Rightarrow> bytes" where
  "next_word nk ws =
     (let i = length ws; t = ws ! (i - 1);
          t = (if i mod nk = 0 then xor_bytes (sub_bytes (tl t @ [hd t])) [rcon (i div nk - 1), 0, 0, 0]
               else if nk > 6 \<and> i mod nk = 4 then sub_bytes t else t)
      in xor_bytes (ws ! (i - nk)) t)"

primrec expand_key :: "nat \<Rightarrow> nat \<Rightarrow> bytes list \<Rightarrow> bytes list" where
  "expand_key nk 0 ws = ws"
| "expand_key nk (Suc n) ws = expand_key nk n (ws @ [next_word nk ws])"

fun chunks :: "nat \<Rightarrow> nat \<Rightarrow> bytes \<Rightarrow> bytes list" where
  "chunks k 0 b = []"
| "chunks k (Suc n) b = take k b # chunks k n (drop k b)"

definition round_keys :: "bytes \<Rightarrow> bytes list" where
  "round_keys key =
     (let nk = length key div 4
      in chunks 16 (nk + 7) (concat (expand_key nk (4 * (nk + 7) - nk) (chunks 4 nk key))))"

fun aes_rounds :: "bytes list \<Rightarrow> bytes \<Rightarrow> bytes" where
  "aes_rounds [] s = s"
| "aes_rounds [k] s = xor_bytes (shift_rows (sub_bytes s)) k"
| "aes_rounds (k # ks) s = aes_rounds ks (xor_bytes (mix_columns (shift_rows (sub_bytes s))) k)"

definition aes_encrypt :: "bytes \<Rightarrow> bytes \<Rightarrow> bytes" where
  "aes_encrypt key block = (let ks = round_keys key in aes_rounds (tl ks) (xor_bytes block (hd ks)))"

text \<open>\<open>aes.NewCipher\<close>: the encryption function of a key of one of the three sizes.\<close>

definition aes_NewCipher :: "bytes \<Rightarrow> (bytes \<Rightarrow> bytes) result" where
  "aes_NewCipher key =
     (if length key \<in> {16, 24, 32} then Inr (aes_encrypt key)
      else Inl (Errorf ''crypto/aes: invalid key size %d'' [AInt (int (length key))]))"

section \<open>Galois/counter mode\<close>

definition Uint128 :: "bytes \<Rightarrow> 128 word" where
  "Uint128 b = foldl (\<lambda>acc x. push_bit 8 acc OR ucast x) 0 b"

definition PutUint128 :: "128 word \<Rightarrow> bytes" where
  "PutUint128 v = map (\<lambda>i. ucast (drop_bit (120 - 8 * i) v)) [0..<16]"

text \<open>Multiplication in the field of 2^128 elements, the bits of the first factor from the most significant one.\<close>

primrec gf_mult :: "nat \<Rightarrow> 128 word \<Rightarrow> 128 word \<Rightarrow> 128 word \<Rightarrow> 128 word" where
  "gf_mult 0 x v z = z"
| "gf_mult (Suc n) x v z =
     gf_mult n x (if bit v 0 then drop_bit 1 v XOR push_bit 120 0xE1 else drop_bit 1 v) (if bit x n then z XOR v else z)"

definition ghash_step :: "128 word \<Rightarrow> 128 word \<Rightarrow> bytes \<Rightarrow> 128 word" where
  "ghash_step h y blk = gf_mult 128 (y XOR Uint128 blk) h 0"

definition pad16 :: "bytes \<Rightarrow> bytes" where
  "pad16 b = b @ replicate ((16 - length b mod 16) mod 16) 0"

definition ghash :: "128 word \<Rightarrow> bytes \<Rightarrow> 128 word" where
  "ghash h b = foldl (ghash_step h) 0 (chunks 16 (length b div 16) b)"

text \<open>The key stream: the cipher on the nonce and a 32-bit counter, which starts at 2 for the data and is 1 for the tag.\<close>

definition gcm_block :: "(bytes \<Rightarrow> bytes) \<Rightarrow> bytes \<Rightarrow> nat \<Rightarrow> bytes" where
  "gcm_block E nonce i = E (nonce @ PutUint32 (of_nat i))"

definition gcm_stream :: "(bytes \<Rightarrow> bytes) \<Rightarrow> bytes \<Rightarrow> nat \<Rightarrow> bytes" where
  "gcm_stream E nonce n = concat (map (\<lambda>i. gcm_block E nonce (i + 2)) [0..<n])"

definition gcm_crypt :: "(bytes \<Rightarrow> bytes) \<Rightarrow> bytes \<Rightarrow> bytes \<Rightarrow> bytes" where
  "gcm_crypt E nonce b = xor_bytes b (gcm_stream E nonce ((length b + 15) div 16))"

text \<open>The tag, without additional data.\<close>

definition gcm_tag :: "(bytes \<Rightarrow> bytes) \<Rightarrow> bytes \<Rightarrow> bytes \<Rightarrow> bytes" where
  "gcm_tag E nonce c =
     (let h = Uint128 (E (replicate 16 0));
          s = ghash h (pad16 c @ PutUint64 0 @ PutUint64 (of_nat (length c) * 8))
      in xor_bytes (PutUint128 s) (gcm_block E nonce 1))"

definition gcm_limit :: int where "gcm_limit = (2 ^ 32 - 2) * 16"

text \<open>\<open>Seal\<close> panics on a plaintext that is too long: the result is then None.\<close>

definition gcm_Seal :: "(bytes \<Rightarrow> bytes) \<Rightarrow> bytes \<Rightarrow> bytes \<Rightarrow> bytes \<Rightarrow> bytes option" where
  "gcm_Seal E dst nonce plaintext =
     (if int (length plaintext) > gcm_limit then None
      else let c = gcm_crypt E nonce plaintext in Some (dst @ c @ gcm_tag E nonce c))"

definition errOpen :: error where
  "errOpen = Errorf ''cipher: message authentication failed'' []"

definition gcm_Open :: "(bytes \<Rightarrow> bytes) \<Rightarrow> bytes \<Rightarrow> bytes \<Rightarrow> bytes result" where
  "gcm_Open E nonce ciphertext =
     (if length ciphertext < 16 \<or> int (length ciphertext) > gcm_limit + 16 then Inl errOpen
      else let c = take (length ciphertext - 16) ciphertext; tag = drop (length ciphertext - 16) ciphertext
           in if tag \<noteq> gcm_tag E nonce c then Inl errOpen else Inr (gcm_crypt E nonce c))"

section \<open>The package\<close>

definition KeySize :: nat where "KeySize = 32"
definition NonceSize :: nat where "NonceSize = 12"

definition Encrypt :: "(nat \<Rightarrow> bytes result) \<Rightarrow> bytes \<Rightarrow> bytes \<Rightarrow> bytes result option" where
  "Encrypt readRand key plaintext =
     (if length key \<noteq> KeySize then Some (Inl (Sentinel ErrInvalidKeySize))
      else case aes_NewCipher key of
        Inl e \<Rightarrow> Some (Inl (wrap_err ''create cipher: %w'' e))
      | Inr block \<Rightarrow>
         (case readRand NonceSize of
            Inl e \<Rightarrow> Some (Inl (wrap_err ''generate nonce: %w'' e))
          | Inr nonce \<Rightarrow> map_option Inr (gcm_Seal block nonce nonce plaintext)))"

definition Decrypt :: "bytes \<Rightarrow> bytes \<Rightarrow> bytes result" where
  "Decrypt key ciphertext =
     (if length key \<noteq> KeySize then Inl (Sentinel ErrInvalidKeySize)
      else if length ciphertext < NonceSize then Inl (Sentinel ErrCiphertextTooShort)
      else case aes_NewCipher key of
        Inl e \<Rightarrow> Inl (wrap_err ''create cipher: %w'' e)
      | Inr block \<Rightarrow>
         (case gcm_Open block (take NonceSize ciphertext) (drop NonceSize ciphertext) of
            Inl e \<Rightarrow> Inl (wrap_err ''decrypt: %w'' e)
          | Inr plaintext \<Rightarrow> Inr plaintext))"

section \<open>Lengths\<close>

lemma length_xor_bytes [simp]: "length (xor_bytes a b) = min (length a) (length b)"
  by (simp add: xor_bytes_def)

lemma length_sub_bytes [simp]: "length (sub_bytes s) = length s"
  by (simp add: sub_bytes_def)

lemma length_shift_rows [simp]: "length (shift_rows s) = 16"
  by (simp add: shift_rows_def)

lemma length_PutUint128 [simp]: "length (PutUint128 v) = 16"
  by (simp add: PutUint128_def)

lemma chunks_lengths: "k * n \<le> length b \<Longrightarrow> c \<in> set (chunks k n b) \<Longrightarrow> length c = k"
  by (induction k n b rule: chunks.induct) auto

lemma length_chunks [simp]: "length (chunks k n b) = n"
  by (induction k n b rule: chunks.induct) auto

lemma length_concat_const: "(\<And>x. x \<in> set xs \<Longrightarrow> length x = k) \<Longrightarrow> length (concat xs) = length xs * k"
  by (induction xs) auto

text \<open>Every word of the key schedule has four bytes.\<close>

lemma expand_key_words:
  assumes "0 < nk" and "nk \<le> length ws" and "\<And>w. w \<in> set ws \<Longrightarrow> length w = 4"
  shows "length (expand_key nk n ws) = length ws + n \<and> (\<forall>w \<in> set (expand_key nk n ws). length w = 4)"
  using assms
proof (induction n arbitrary: ws)
  case (Suc n)
  have "ws ! (length ws - 1) \<in> set ws" "ws ! (length ws - nk) \<in> set ws" using Suc.prems(1,2) by (auto intro!: nth_mem)
  then have "length (ws ! (length ws - 1)) = 4" "length (ws ! (length ws - nk)) = 4" using Suc.prems(3) by auto
  then have "length (next_word nk ws) = 4" by (auto simp: next_word_def Let_def)
  then show ?case using Suc.IH [of "ws @ [next_word nk ws]"] Suc.prems by auto
qed simp

lemma round_keys_lengths:
  assumes "length key = 32"
  shows "length (round_keys key) = 15" and "k \<in> set (round_keys key) \<Longrightarrow> length k = 16"
proof -
  have "length (expand_key 8 52 (chunks 4 8 key)) = 60 \<and> (\<forall>w \<in> set (expand_key 8 52 (chunks 4 8 key)). length w = 4)"
    using expand_key_words [of 8 "chunks 4 8 key" 52] chunks_lengths [of 4 8 key] assms by auto
  then have "length (concat (expand_key 8 52 (chunks 4 8 key))) = 240"
    using length_concat_const [of "expand_key 8 52 (chunks 4 8 key)" 4] by auto
  then show "length (round_keys key) = 15" "k \<in> set (round_keys key) \<Longrightarrow> length k = 16"
    using assms chunks_lengths [of 16 15 "concat (expand_key 8 52 (chunks 4 8 key))" k] by (simp_all add: round_keys_def Let_def)
qed

lemma length_aes_rounds: "ks \<noteq> [] \<Longrightarrow> (\<And>k. k \<in> set ks \<Longrightarrow> length k = 16) \<Longrightarrow> length (aes_rounds ks s) = 16"
  by (induction ks s rule: aes_rounds.induct) auto

lemma length_aes_encrypt:
  assumes "length key = 32"
  shows "length (aes_encrypt key block) = 16"
proof -
  obtain k ks where "round_keys key = k # ks" "ks \<noteq> []"
    using round_keys_lengths(1) [OF assms] by (cases "round_keys key"; cases "tl (round_keys key)") auto
  then show ?thesis using length_aes_rounds [of ks] round_keys_lengths(2) [OF assms] by (simp add: aes_encrypt_def)
qed

section \<open>Counter mode is an involution\<close>

lemma length_gcm_stream: "(\<And>b. length (E b) = 16) \<Longrightarrow> length (gcm_stream E nonce n) = n * 16"
  using length_concat_const [of "map (\<lambda>i. gcm_block E nonce (i + 2)) [0..<n]" 16] by (auto simp: gcm_stream_def gcm_block_def)

lemma xor_bytes_twice: "length a \<le> length k \<Longrightarrow> xor_bytes (xor_bytes a k) k = a"
  by (induction a k rule: list_induct2') (auto simp: xor_bytes_def xor.assoc)

lemma gcm_crypt_lemmas:
  assumes "\<And>b. length (E b) = 16"
  shows length_gcm_crypt: "length (gcm_crypt E nonce b) = length b"
    and gcm_crypt_twice: "gcm_crypt E nonce (gcm_crypt E nonce b) = b"
proof -
  have len: "length b \<le> length (gcm_stream E nonce ((length b + 15) div 16))" using length_gcm_stream [OF assms] by simp
  then show eq: "length (gcm_crypt E nonce b) = length b" by (simp add: gcm_crypt_def)
  have "gcm_crypt E nonce (gcm_crypt E nonce b) = xor_bytes (gcm_crypt E nonce b) (gcm_stream E nonce ((length b + 15) div 16))"
    using eq by (subst gcm_crypt_def) simp
  then show "gcm_crypt E nonce (gcm_crypt E nonce b) = b" using xor_bytes_twice [OF len] by (simp add: gcm_crypt_def)
qed

lemma length_gcm_tag: "(\<And>b. length (E b) = 16) \<Longrightarrow> length (gcm_tag E nonce c) = 16"
  by (simp add: gcm_tag_def gcm_block_def Let_def)

text \<open>\<open>Open\<close> accepts exactly what \<open>Seal\<close> makes under the same key and nonce.\<close>

lemma gcm_Open_exact:
  assumes "\<And>b. length (E b) = 16"
  shows "gcm_Open E nonce c = Inr p \<longleftrightarrow> gcm_Seal E [] nonce p = Some c"
proof
  assume "gcm_Seal E [] nonce p = Some c"
  then show "gcm_Open E nonce c = Inr p"
    using length_gcm_crypt [OF assms] length_gcm_tag [OF assms] gcm_crypt_twice [OF assms]
    by (auto simp: gcm_Seal_def gcm_Open_def Let_def split: if_splits)
next
  assume open_ok: "gcm_Open E nonce c = Inr p"
  let ?c = "take (length c - 16) c"
  have len: "16 \<le> length c" "int (length c) \<le> gcm_limit + 16" and p: "p = gcm_crypt E nonce ?c"
    and tag: "drop (length c - 16) c = gcm_tag E nonce ?c"
    using open_ok by (auto simp: gcm_Open_def Let_def split: if_splits)
  have crypt: "gcm_crypt E nonce p = ?c" using p gcm_crypt_twice [OF assms] by simp
  have "?c @ gcm_tag E nonce ?c = c" unfolding tag [symmetric] by (rule append_take_drop_id)
  moreover have "int (length p) \<le> gcm_limit" using p len length_gcm_crypt [OF assms] by simp
  ultimately show "gcm_Seal E [] nonce p = Some c" by (simp add: gcm_Seal_def Let_def crypt)
qed

section \<open>Properties\<close>

lemma aes_NewCipher_256: "length key = 32 \<Longrightarrow> aes_NewCipher key = Inr (aes_encrypt key)"
  by (simp add: aes_NewCipher_def)

lemma gcm_Seal_prefix: "gcm_Seal E dst nonce p = map_option ((@) dst) (gcm_Seal E [] nonce p)"
  by (simp add: gcm_Seal_def Let_def)

text \<open>
  \<open>Decrypt\<close> inverts \<open>Encrypt\<close>, for every key of 32 bytes, every nonce and every plaintext within the limit of GCM; the ciphertext is
  the nonce, as many bytes as the plaintext, and a tag of 16 bytes.
\<close>

theorem encryption_round_trip:
  assumes "length key = KeySize" and "readRand NonceSize = Inr nonce" and "length nonce = NonceSize" and "int (length plaintext) \<le> gcm_limit"
  shows "\<exists>c. Encrypt readRand key plaintext = Some (Inr c) \<and> Decrypt key c = Inr plaintext
    \<and> take NonceSize c = nonce \<and> length c = NonceSize + length plaintext + 16"
proof -
  have key: "length key = 32" using assms(1) by (simp add: KeySize_def)
  note len = length_aes_encrypt [OF key]
  obtain c where c: "gcm_Seal (aes_encrypt key) [] nonce plaintext = Some c" "length c = length plaintext + 16"
    using assms(4) by (simp add: gcm_Seal_def Let_def length_gcm_crypt [of "aes_encrypt key", OF len] length_gcm_tag [of "aes_encrypt key", OF len])
  then have "gcm_Open (aes_encrypt key) nonce c = Inr plaintext" using gcm_Open_exact [of "aes_encrypt key", OF len] by blast
  then show ?thesis
    using assms c(2) gcm_Seal_prefix [of "aes_encrypt key" nonce nonce plaintext] c(1)
    by (simp add: Encrypt_def Decrypt_def aes_NewCipher_256 key KeySize_def)
qed

theorem encryption_round_trip_witness:
  "\<exists>c. Encrypt (\<lambda>n. Inr (replicate n 7)) (replicate 32 1) [1, 2, 3] = Some (Inr c) \<and> Decrypt (replicate 32 1) c = Inr [1, 2, 3]"
  using encryption_round_trip [of "replicate 32 1" "\<lambda>n. Inr (replicate n 7)" "replicate 12 7" "[1, 2, 3]"]
  by (auto simp: KeySize_def NonceSize_def gcm_limit_def)

text \<open>
  C10: \<open>Decrypt\<close> accepts exactly the ciphertexts that \<open>Encrypt\<close> makes: it returns \<open>plaintext\<close> if and only if \<open>Encrypt\<close> with
  the same key, drawing the first twelve bytes as its nonce, returns this very ciphertext. Every other input, however it was altered,
  is an error.
\<close>

theorem decryption_exact:
  "Decrypt key c = Inr plaintext \<longleftrightarrow>
     NonceSize \<le> length c \<and> length key = KeySize \<and> Encrypt (\<lambda>n. Inr (take n c)) key plaintext = Some (Inr c)"
proof (cases "length key = KeySize \<and> NonceSize \<le> length c")
  case True
  then have key: "length key = 32" by (simp add: KeySize_def)
  have "gcm_Seal (aes_encrypt key) (take NonceSize c) (take NonceSize c) plaintext = Some c
      \<longleftrightarrow> gcm_Seal (aes_encrypt key) [] (take NonceSize c) plaintext = Some (drop NonceSize c)"
    unfolding gcm_Seal_prefix [of "aes_encrypt key" "take NonceSize c"]
    by (cases "gcm_Seal (aes_encrypt key) [] (take NonceSize c) plaintext")
      (use True in \<open>auto simp: append_eq_conv_conj min_absorb2\<close>)
  then show ?thesis
    using True gcm_Open_exact [of "aes_encrypt key", OF length_aes_encrypt [OF key], of "take NonceSize c" "drop NonceSize c" plaintext]
    by (auto simp: Decrypt_def Encrypt_def aes_NewCipher_256 key split: sum.split)
next
  case False
  then show ?thesis by (auto simp: Decrypt_def Encrypt_def)
qed

end
