(* ===== verification/KnownAnswers.thy ===== *)
theory KnownAnswers
  imports Integrity Encryption
begin

text \<open>
  The published test vectors of the cryptographic standard library routines, evaluated in the logic: SHA-256 (FIPS 180-4, the
  message abc) and AES-256 (FIPS 197, appendix C.3).
\<close>

lemma sha256_abc:
  "sha256_Sum [0x61, 0x62, 0x63] =
     [0xBA, 0x78, 0x16, 0xBF, 0x8F, 0x01, 0xCF, 0xEA, 0x41, 0x41, 0x40, 0xDE, 0x5D, 0xAE, 0x22, 0x23,
      0xB0, 0x03, 0x61, 0xA3, 0x96, 0x17, 0x7A, 0x9C, 0xB4, 0x10, 0xFF, 0x61, 0xF2, 0x00, 0x15, 0xAD]"
  by code_simp

lemma aes256_fips197:
  "aes_encrypt (map of_nat [0..<32])
     [0x00, 0x11, 0x22, 0x33, 0x44, 0x55, 0x66, 0x77, 0x88, 0x99, 0xAA, 0xBB, 0xCC, 0xDD, 0xEE, 0xFF] =
     [0x8E, 0xA2, 0xB7, 0xCA, 0x51, 0x67, 0x45, 0xBF, 0xEA, 0xFC, 0x49, 0x90, 0x4B, 0x49, 0x60, 0x89]"
  by code_simp

end
