(* ===== verification/Endpoint.thy ===== *)
theory Endpoint
  imports Codec Conn Replay Integrity Shm
begin

text \<open>
  \<^verbatim>\<open>core/endpoint.go\<close>: the client and the server side of a connection. An endpoint turns
  messages into signed frames with a JSON header and a sequence number, and frames back
  into messages after checking the MAC and, on the server, the sequence number. The
  connection is reached through \<open>transport.Connection\<close>, whose \<open>Send\<close>, \<open>Receive\<close> and \<open>Close\<close> are
  arguments; what the endpoints need of it is the locale \<open>channel\<close>.
\<close>

section \<open>State\<close>

record 'c ClientEndpoint =
  ce_conn :: 'c
  ce_codec :: HeaderCodec
  ce_hmacKey :: bytes
  ce_sessionID :: string
  ce_sequence :: "64 word"

record 'c ServerEndpoint =
  se_conn :: 'c
  se_codec :: HeaderCodec
  se_hmacKey :: bytes
  se_replay :: Tracker
  se_seq :: "64 word"
  se_peerCapabilities :: "string list"

definition NewClientEndpoint :: "'c \<Rightarrow> HeaderCodec \<Rightarrow> bytes \<Rightarrow> string \<Rightarrow> 'c ClientEndpoint" where
  "NewClientEndpoint conn codec hmacKey sessionID =
     \<lparr>ce_conn = conn, ce_codec = codec, ce_hmacKey = hmacKey, ce_sessionID = sessionID, ce_sequence = 0\<rparr>"

definition NewServerEndpoint :: "'c \<Rightarrow> HeaderCodec \<Rightarrow> bytes \<Rightarrow> 'c ServerEndpoint" where
  "NewServerEndpoint conn codec hmacKey =
     \<lparr>se_conn = conn, se_codec = codec, se_hmacKey = hmacKey, se_replay = NewTracker 0, se_seq = 0,
      se_peerCapabilities = []\<rparr>"

section \<open>Frames and messages\<close>

text \<open>The header and the signed frame both \<open>Send\<close> methods build.\<close>

definition endpoint_header :: "64 word \<Rightarrow> Message \<Rightarrow> Header" where
  "endpoint_header seq msg =
     \<lparr>hd_ServiceID = m_Source msg, hd_SessionID = m_SessionID msg, hd_RequestID = m_RequestID msg,
      hd_Sequence = seq, hd_Timestamp = Format_RFC3339Nano (m_Timestamp msg), hd_Priority = m_Priority msg,
      hd_Capability = m_Capability msg, hd_Route = '''', hd_PayloadFormat = PayloadJSON\<rparr>"

definition signed_frame :: "bytes \<Rightarrow> Message \<Rightarrow> bytes \<Rightarrow> frame" where
  "signed_frame key msg hdrBytes =
     (let f = \<lparr>f_Version = core_ProtocolVersion, f_MsgType = MsgTypeToByte (m_Type msg), f_Flags = FlagHMAC,
               f_Header = hdrBytes, f_Payload = m_Payload msg, f_MAC = []\<rparr>
      in f\<lparr>f_MAC := Sign key (SignableBytes f)\<rparr>)"

definition endpoint_frame :: "HeaderCodec \<Rightarrow> bytes \<Rightarrow> 64 word \<Rightarrow> Message \<Rightarrow> frame result" where
  "endpoint_frame codec key seq msg =
     (case hc_Marshal codec (endpoint_header seq msg) of
       Inl e \<Rightarrow> Inl (wrap_err ''marshal header: %w'' e)
     | Inr hdrBytes \<Rightarrow> Inr (signed_frame key msg hdrBytes))"

text \<open>The checks both \<open>Receive\<close> methods make on a frame, and the message they return for it.\<close>

definition open_frame :: "HeaderCodec \<Rightarrow> bytes \<Rightarrow> frame \<Rightarrow> Header result" where
  "open_frame codec key f =
     (if has_flag (f_Flags f) FlagHMAC \<and> \<not> Verify key (SignableBytes f) (f_MAC f) then Inl (Sentinel ErrIntegrity)
      else case hc_Unmarshal codec (f_Header f) of
             (Some e, hdr) \<Rightarrow> Inl (wrap_err ''unmarshal header: %w'' e)
           | (None, hdr) \<Rightarrow> Inr hdr)"

definition frame_message :: "frame \<Rightarrow> Header \<Rightarrow> Message" where
  "frame_message f hdr =
     \<lparr>m_Version = f_Version f, m_Type = msgTypeFromByte (f_MsgType f), m_Source = hd_ServiceID hdr,
      m_Timestamp = (case Parse_RFC3339Nano (hd_Timestamp hdr) of Some t \<Rightarrow> t | None \<Rightarrow> 0),
      m_SessionID = hd_SessionID hdr, m_RequestID = hd_RequestID hdr, m_Priority = hd_Priority hdr,
      m_Capability = hd_Capability hdr, m_Payload = f_Payload f\<rparr>"

section \<open>The client side\<close>

definition ClientEndpoint_Send ::
  "(frame \<Rightarrow> 'c \<Rightarrow> (error option \<times> 'c) option) \<Rightarrow> Message \<Rightarrow> 'c ClientEndpoint \<Rightarrow> (error option \<times> 'c ClientEndpoint) option" where
  "ClientEndpoint_Send csend msg e =
     (let seq = ce_sequence e + 1; e1 = e\<lparr>ce_sequence := seq\<rparr>
      in case endpoint_frame (ce_codec e1) (ce_hmacKey e1) seq msg of
           Inl err \<Rightarrow> Some (Some err, e1)
         | Inr f \<Rightarrow> map_option (\<lambda>(r, c). (r, e1\<lparr>ce_conn := c\<rparr>)) (csend f (ce_conn e1)))"

definition ClientEndpoint_Receive ::
  "('c \<Rightarrow> (frame result \<times> 'c) option) \<Rightarrow> 'c ClientEndpoint \<Rightarrow> (Message result \<times> 'c ClientEndpoint) option" where
  "ClientEndpoint_Receive crecv e =
     (case crecv (ce_conn e) of
       None \<Rightarrow> None
     | Some (Inl err, c) \<Rightarrow> Some (Inl err, e\<lparr>ce_conn := c\<rparr>)
     | Some (Inr f, c) \<Rightarrow>
        (let e1 = e\<lparr>ce_conn := c\<rparr>
         in case open_frame (ce_codec e1) (ce_hmacKey e1) f of
              Inl err \<Rightarrow> Some (Inl err, e1)
            | Inr hdr \<Rightarrow> Some (Inr (frame_message f hdr), e1)))"

definition ClientEndpoint_Close ::
  "('c \<Rightarrow> error option \<times> 'c) \<Rightarrow> 'c ClientEndpoint \<Rightarrow> error option \<times> 'c ClientEndpoint" where
  "ClientEndpoint_Close cclose e = (case cclose (ce_conn e) of (r, c) \<Rightarrow> (r, e\<lparr>ce_conn := c\<rparr>))"

section \<open>The server side\<close>

definition SetPeerCapabilities :: "string list \<Rightarrow> 'c ServerEndpoint \<Rightarrow> 'c ServerEndpoint" where
  "SetPeerCapabilities caps e = e\<lparr>se_peerCapabilities := caps\<rparr>"

definition ValidateCapability :: "string \<Rightarrow> 'c ServerEndpoint \<Rightarrow> error option" where
  "ValidateCapability msgCap e =
     (if msgCap = '''' then None
      else if msgCap \<in> set (se_peerCapabilities e) then None
      else Some (Errorf ''%w: peer lacks capability %q'' [AErr (Sentinel ErrCapability), AStr msgCap]))"

definition ServerEndpoint_Send ::
  "(frame \<Rightarrow> 'c \<Rightarrow> (error option \<times> 'c) option) \<Rightarrow> Message \<Rightarrow> 'c ServerEndpoint \<Rightarrow> (error option \<times> 'c ServerEndpoint) option" where
  "ServerEndpoint_Send csend msg e =
     (let seq = se_seq e + 1; e1 = e\<lparr>se_seq := seq\<rparr>
      in case endpoint_frame (se_codec e1) (se_hmacKey e1) seq msg of
           Inl err \<Rightarrow> Some (Some err, e1)
         | Inr f \<Rightarrow> map_option (\<lambda>(r, c). (r, e1\<lparr>se_conn := c\<rparr>)) (csend f (se_conn e1)))"

definition ServerEndpoint_Receive ::
  "('c \<Rightarrow> (frame result \<times> 'c) option) \<Rightarrow> 'c ServerEndpoint \<Rightarrow> (Message result \<times> 'c ServerEndpoint) option" where
  "ServerEndpoint_Receive crecv e =
     (case crecv (se_conn e) of
       None \<Rightarrow> None
     | Some (Inl err, c) \<Rightarrow> Some (Inl err, e\<lparr>se_conn := c\<rparr>)
     | Some (Inr f, c) \<Rightarrow>
        (let e1 = e\<lparr>se_conn := c\<rparr>
         in case open_frame (se_codec e1) (se_hmacKey e1) f of
              Inl err \<Rightarrow> Some (Inl err, e1)
            | Inr hdr \<Rightarrow>
               (case Tracker_Check (se_replay e1) (hd_Sequence hdr) of
                  (Some err, t) \<Rightarrow> Some (Inl err, e1\<lparr>se_replay := t\<rparr>)
                | (None, t) \<Rightarrow> Some (Inr (frame_message f hdr), e1\<lparr>se_replay := t\<rparr>))))"

definition ServerEndpoint_Close ::
  "('c \<Rightarrow> error option \<times> 'c) \<Rightarrow> 'c ServerEndpoint \<Rightarrow> error option \<times> 'c ServerEndpoint" where
  "ServerEndpoint_Close cclose e = (case cclose (se_conn e) of (r, c) \<Rightarrow> (r, e\<lparr>se_conn := c\<rparr>))"

definition ServerEndpoint_RemoteAddr :: "('c \<Rightarrow> string) \<Rightarrow> 'c ServerEndpoint \<Rightarrow> string" where
  "ServerEndpoint_RemoteAddr addr e = addr (se_conn e)"

section \<open>A pair of endpoints is a channel of messages\<close>

text \<open>The frames of a sequence of messages whose numbers follow \<open>n\<close>.\<close>

fun numbered_frames :: "HeaderCodec \<Rightarrow> bytes \<Rightarrow> 64 word \<Rightarrow> Message list \<Rightarrow> frame list" where
  "numbered_frames codec key n [] = []"
| "numbered_frames codec key n (m # ms) = projr (endpoint_frame codec key (n + 1) m) # numbered_frames codec key (n + 1) ms"

text \<open>What arrives of a message: the version is the protocol's, the type has passed through its code, the header through the codec.\<close>

definition delivered :: "(Header \<Rightarrow> Header) \<Rightarrow> Message \<Rightarrow> Message" where
  "delivered carried m =
     (let hdr = carried (endpoint_header 0 m)
      in \<lparr>m_Version = core_ProtocolVersion, m_Type = msgTypeFromByte (MsgTypeToByte (m_Type m)), m_Source = hd_ServiceID hdr,
          m_Timestamp = (case Parse_RFC3339Nano (hd_Timestamp hdr) of Some t \<Rightarrow> t | None \<Rightarrow> 0),
          m_SessionID = hd_SessionID hdr, m_RequestID = hd_RequestID hdr, m_Priority = hd_Priority hdr,
          m_Capability = hd_Capability hdr, m_Payload = m_Payload m\<rparr>)"

lemma signed_frame_simps [simp]:
  "f_Version (signed_frame key m h) = core_ProtocolVersion" "f_MsgType (signed_frame key m h) = MsgTypeToByte (m_Type m)"
  "f_Flags (signed_frame key m h) = FlagHMAC" "f_Header (signed_frame key m h) = h" "f_Payload (signed_frame key m h) = m_Payload m"
  by (simp_all add: signed_frame_def Let_def)

lemma signed_frame_MAC: "f_MAC (signed_frame key m h) = Sign key (SignableBytes (signed_frame key m h))"
  unfolding signed_frame_def Let_def SignableBytes_MAC by simp

locale endpoint_link =
  channel csend crecv accepts carry outbox inbox + header_codec marshal unmarshal carried
  for csend :: "frame \<Rightarrow> 's \<Rightarrow> (error option \<times> 's) option"
    and crecv :: "'r \<Rightarrow> (frame result \<times> 'r) option"
    and accepts :: "'s \<Rightarrow> frame list \<Rightarrow> bool"
    and carry :: "frame \<Rightarrow> frame"
    and outbox :: "'s \<Rightarrow> frame list \<Rightarrow> bool"
    and inbox :: "'r \<Rightarrow> frame list \<Rightarrow> bool"
    and marshal :: "Header \<Rightarrow> bytes result"
    and unmarshal :: "bytes \<Rightarrow> error option \<times> Header"
    and carried :: "Header \<Rightarrow> Header" +
  fixes key :: bytes
    and good :: "Message \<Rightarrow> bool"
  assumes carry_frame: "carry f = f"
    and carried_Sequence: "hd_Sequence (carried h) = hd_Sequence h"
    and carried_rest: "carried (h\<lparr>hd_Sequence := n\<rparr>) = (carried h)\<lparr>hd_Sequence := n\<rparr>"
    and good_delivered: "good m \<Longrightarrow> delivered carried m = m"
begin

definition codec :: HeaderCodec where
  "codec = \<lparr>hc_Marshal = marshal, hc_Unmarshal = unmarshal\<rparr>"

lemma endpoint_header_carried: "carried (endpoint_header n m) = (carried (endpoint_header 0 m))\<lparr>hd_Sequence := n\<rparr>"
proof -
  have "endpoint_header n m = (endpoint_header 0 m)\<lparr>hd_Sequence := n\<rparr>" by (simp add: endpoint_header_def)
  then show ?thesis using carried_rest by metis
qed

lemma frame_of: "\<exists>h. endpoint_frame codec key n m = Inr (signed_frame key m h) \<and> unmarshal h = (None, carried (endpoint_header n m))"
  using round_trip [of "endpoint_header n m"] by (auto simp: endpoint_frame_def codec_def)

lemma open_frame_of:
  assumes "endpoint_frame codec key n m = Inr f"
  shows "open_frame codec key f = Inr (carried (endpoint_header n m))"
    and "frame_message f (carried (endpoint_header n m)) = delivered carried m"
  using assms frame_of [of n m]
  by (auto simp: open_frame_def signed_frame_MAC codec_def frame_message_def delivered_def Let_def endpoint_header_carried [of n])

text \<open>Client to server: the states of both ends while messages are on their way.\<close>

definition req_out :: "'s ClientEndpoint \<Rightarrow> Message list \<Rightarrow> bool" where
  "req_out e ms \<longleftrightarrow> ce_codec e = codec \<and> ce_hmacKey e = key \<and> ce_sequence e = of_nat (length ms)
     \<and> list_all good ms \<and> outbox (ce_conn e) (numbered_frames codec key 0 ms)"

definition req_accepts :: "'s ClientEndpoint \<Rightarrow> Message list \<Rightarrow> bool" where
  "req_accepts e ms \<longleftrightarrow> list_all good ms \<and> accepts (ce_conn e) (numbered_frames codec key (ce_sequence e) ms)"

definition req_in :: "'r ServerEndpoint \<Rightarrow> Message list \<Rightarrow> bool" where
  "req_in e ms \<longleftrightarrow> se_codec e = codec \<and> se_hmacKey e = key
     \<and> list_all good ms \<and> (\<exists>H n. tracks (se_replay e) H \<and> hist_max H \<le> unat n
          \<and> unat n + length ms < 2 ^ 64 \<and> inbox (se_conn e) (numbered_frames codec key n ms))"

lemma numbered_frames_snoc:
  "numbered_frames codec key n (ms @ [m]) =
     numbered_frames codec key n ms @ [projr (endpoint_frame codec key (n + of_nat (length ms) + 1) m)]"
  by (induction ms arbitrary: n) (simp_all add: add_ac)

lemma client_send:
  assumes "req_out e gs" and "req_accepts e (m # ms)"
  shows "\<exists>e'. ClientEndpoint_Send csend m e = Some (None, e') \<and> req_out e' (gs @ [delivered carried m]) \<and> req_accepts e' ms"
proof -
  have e: "ce_codec e = codec" "ce_hmacKey e = key" "ce_sequence e = of_nat (length gs)" "list_all good gs" "good m"
    "outbox (ce_conn e) (numbered_frames codec key 0 gs)"
    using assms by (simp_all add: req_out_def req_accepts_def)
  obtain f where f: "endpoint_frame codec key (ce_sequence e + 1) m = Inr f" using frame_of by blast
  with assms(2) have "accepts (ce_conn e) (f # numbered_frames codec key (ce_sequence e + 1) ms)"
    by (simp add: req_accepts_def)
  from send_accepted [OF e(6) this] obtain c' where "csend f (ce_conn e) = Some (None, c')"
    "outbox c' (numbered_frames codec key 0 (gs @ [m]))" "accepts c' (numbered_frames codec key (ce_sequence e + 1) ms)"
    using f e(3) by (auto simp: carry_frame numbered_frames_snoc)
  then show ?thesis
    using e f assms(2) by (auto simp: ClientEndpoint_Send_def req_out_def req_accepts_def good_delivered)
qed

lemma server_receive:
  assumes "req_in e (m # ms)"
  shows "\<exists>e'. ServerEndpoint_Receive crecv e = Some (Inr m, e') \<and> req_in e' ms"
proof -
  obtain H n where e: "se_codec e = codec" "se_hmacKey e = key" "tracks (se_replay e) H" "hist_max H \<le> unat n"
    "unat n + Suc (length ms) < 2 ^ 64" "inbox (se_conn e) (numbered_frames codec key n (m # ms))"
    "good m" "list_all good ms"
    using assms by (auto simp: req_in_def)
  obtain f where f: "endpoint_frame codec key (n + 1) m = Inr f" using frame_of by blast
  with e(6) recv_next obtain c' where c': "crecv (se_conn e) = Some (Inr f, c')" "inbox c' (numbered_frames codec key (n + 1) ms)"
    by (metis numbered_frames.simps(2) sum.sel(2))
  have fin: "finite H" using e(3) unfolding tracks_def by (rule conjunct1)
  have n: "unat (n + 1) = unat n + 1" using e(5) unat_add_lem [of n 1] by simp
  have "replay_accepts (unat (t_windowSize (se_replay e))) H (n + 1)"
    unfolding replay_accepts_def
  proof (intro conjI notI)
    show False if "n + 1 = 0" using n that by simp
    show False if "n + 1 \<in> H" using hist_max_ge [OF fin that] e(4) n by linarith
    show "hist_max H \<le> unat (n + 1) + unat (t_windowSize (se_replay e))" using e(4) n by linarith
  qed
  from Tracker_Check_accept [OF e(3) this] obtain t' where
    t': "Tracker_Check (se_replay e) (n + 1) = (None, t')" "tracks t' (insert (n + 1) H)" by blast
  have "hist_max (insert (n + 1) H) \<le> unat (n + 1)"
    using e(4) n by (simp add: hist_max_insert fin)
  moreover have "hd_Sequence (carried (endpoint_header (n + 1) m)) = n + 1"
    by (simp add: carried_Sequence endpoint_header_def)
  ultimately show ?thesis
    using e c' t' n open_frame_of [OF f]
    by (auto simp: ServerEndpoint_Receive_def req_in_def good_delivered intro!: exI [of _ "insert (n + 1) H"] exI [of _ "n + 1"])
qed

text \<open>Server to client: the client keeps no history.\<close>

definition rep_out :: "'s ServerEndpoint \<Rightarrow> Message list \<Rightarrow> bool" where
  "rep_out e ms \<longleftrightarrow> se_codec e = codec \<and> se_hmacKey e = key \<and> se_seq e = of_nat (length ms)
     \<and> list_all good ms \<and> outbox (se_conn e) (numbered_frames codec key 0 ms)"

definition rep_accepts :: "'s ServerEndpoint \<Rightarrow> Message list \<Rightarrow> bool" where
  "rep_accepts e ms \<longleftrightarrow> list_all good ms \<and> accepts (se_conn e) (numbered_frames codec key (se_seq e) ms)"

definition rep_in :: "'r ClientEndpoint \<Rightarrow> Message list \<Rightarrow> bool" where
  "rep_in e ms \<longleftrightarrow> ce_codec e = codec \<and> ce_hmacKey e = key
     \<and> list_all good ms \<and> (\<exists>n. inbox (ce_conn e) (numbered_frames codec key n ms))"

lemma server_send:
  assumes "rep_out e gs" and "rep_accepts e (m # ms)"
  shows "\<exists>e'. ServerEndpoint_Send csend m e = Some (None, e') \<and> rep_out e' (gs @ [delivered carried m]) \<and> rep_accepts e' ms"
proof -
  have e: "se_codec e = codec" "se_hmacKey e = key" "se_seq e = of_nat (length gs)" "list_all good gs" "good m"
    "outbox (se_conn e) (numbered_frames codec key 0 gs)"
    using assms by (simp_all add: rep_out_def rep_accepts_def)
  obtain f where f: "endpoint_frame codec key (se_seq e + 1) m = Inr f" using frame_of by blast
  with assms(2) have "accepts (se_conn e) (f # numbered_frames codec key (se_seq e + 1) ms)"
    by (simp add: rep_accepts_def)
  from send_accepted [OF e(6) this] obtain c' where "csend f (se_conn e) = Some (None, c')"
    "outbox c' (numbered_frames codec key 0 (gs @ [m]))" "accepts c' (numbered_frames codec key (se_seq e + 1) ms)"
    using f e(3) by (auto simp: carry_frame numbered_frames_snoc)
  then show ?thesis
    using e f assms(2) by (auto simp: ServerEndpoint_Send_def rep_out_def rep_accepts_def good_delivered)
qed

lemma client_receive:
  assumes "rep_in e (m # ms)"
  shows "\<exists>e'. ClientEndpoint_Receive crecv e = Some (Inr m, e') \<and> rep_in e' ms"
proof -
  obtain n where e: "ce_codec e = codec" "ce_hmacKey e = key"
    "inbox (ce_conn e) (numbered_frames codec key n (m # ms))" "good m" "list_all good ms"
    using assms by (auto simp: rep_in_def)
  obtain f where f: "endpoint_frame codec key (n + 1) m = Inr f" using frame_of by blast
  with e(3) recv_next obtain c' where "crecv (ce_conn e) = Some (Inr f, c')" "inbox c' (numbered_frames codec key (n + 1) ms)"
    by (metis numbered_frames.simps(2) sum.sel(2))
  then show ?thesis
    using e open_frame_of [OF f]
    by (auto simp: ClientEndpoint_Receive_def rep_in_def good_delivered intro!: exI [of _ "n + 1"])
qed

end

sublocale endpoint_link \<subseteq> requests: channel "ClientEndpoint_Send csend" "ServerEndpoint_Receive crecv" req_accepts "delivered carried" req_out req_in
  by unfold_locales (fact client_send server_receive)+

sublocale endpoint_link \<subseteq> replies: channel "ServerEndpoint_Send csend" "ClientEndpoint_Receive crecv" rep_accepts "delivered carried" rep_out rep_in
  by unfold_locales (fact server_send client_receive)+

section \<open>Messages that arrive unchanged\<close>

abbreviation tcp_send :: "frame \<Rightarrow> netconn \<Rightarrow> (error option \<times> netconn) option" where
  "tcp_send \<equiv> \<lambda>f c. Some (ConnWrapper_Send f c)"

abbreviation tcp_recv :: "netconn \<Rightarrow> (frame result \<times> netconn) option" where
  "tcp_recv \<equiv> \<lambda>c. Some (ConnWrapper_Receive c)"

text \<open>A message of the protocol: a known type, UTF-8 strings, a timestamp with a four-digit year, and a size within the frame limit.\<close>

definition message_ok :: "Message \<Rightarrow> bool" where
  "message_ok m \<longleftrightarrow> m_Version m = core_ProtocolVersion \<and> m_Type m \<in> set known_types
     \<and> list_all utf8_string [m_Source m, m_SessionID m, m_RequestID m, m_Capability m]
     \<and> 0 \<le> m_Timestamp m \<and> m_Timestamp m < year10000
     \<and> 6 * (length (m_Source m) + length (m_SessionID m) + length (m_RequestID m) + length (m_Capability m))
        + length (m_Payload m) + 1100 \<le> unat MaxFrameSize"

lemma message_ok_delivered: "message_ok m \<Longrightarrow> delivered (map_header clean) m = m"
  by (cases m)
    (simp add: message_ok_def delivered_def Let_def map_header_def endpoint_header_def clean_utf8 known_type_round_trip
      timestamp_round_trip)

interpretation tcplink: endpoint_link "\<lambda>f c. Some (ConnWrapper_Send f c)" "\<lambda>c. Some (ConnWrapper_Receive c)" conn_accepts "\<lambda>f. f"
  conn_outbox conn_inbox JSONCodec_Marshal JSONCodec_Unmarshal "map_header clean" key message_ok for key
  by unfold_locales (simp_all add: map_header_def message_ok_delivered)

lemma tcplink_codec: "tcplink.codec = DefaultCodec"
  by (simp add: tcplink.codec_def DefaultCodec_def)

lemma endpoint_frame_json:
  "endpoint_frame DefaultCodec key n m = Inr (signed_frame key m (json_struct (header_members (endpoint_header n m))))"
  by (simp add: endpoint_frame_def DefaultCodec_def JSONCodec_Marshal_def json_Marshal_def)

lemma message_ok_frame:
  assumes "message_ok m"
  shows "conn_ok (projr (endpoint_frame DefaultCodec key n m))"
proof -
  let ?h = "json_struct (header_members (endpoint_header n m))"
  have "length ?h \<le> 6 * (length (m_Source m) + length (m_SessionID m) + length (m_RequestID m) + length (m_Capability m)) + 980"
    using header_size [of "endpoint_header n m"] timestamp_size [of "m_Timestamp m"] assms
    by (simp add: endpoint_header_def message_ok_def)
  then have "length ?h + length (m_Payload m) + 120 \<le> unat MaxFrameSize" using assms by (simp add: message_ok_def)
  then show ?thesis
    by (simp add: endpoint_frame_json conn_ok_def frame_wf_def frame_fits_def wire_def mac_part_def signed_frame_MAC
        MACSize_def core_ProtocolVersion_def ProtocolVersion_def has_flag_def FlagHMAC_def)
qed

lemma numbered_frames_ok:
  "\<forall>m \<in> set ms. message_ok m \<Longrightarrow> f \<in> set (numbered_frames DefaultCodec key n ms) \<Longrightarrow> conn_ok f"
  by (induction ms arbitrary: n) (auto simp: message_ok_frame)

lemma map_delivered: "\<forall>m \<in> set ms. message_ok m \<Longrightarrow> map (delivered (map_header clean)) ms = ms"
  by (simp add: map_idI message_ok_delivered)

section \<open>Properties\<close>


lemma ascii_utf8: "ascii s \<Longrightarrow> utf8_string s"
proof -
  have "list_all (\<lambda>b. unat b < 0x80) bs \<Longrightarrow> valid_utf8 bs" for bs
    by (induction bs) (simp_all add: decode_rune_def)
  then show "ascii s \<Longrightarrow> utf8_string s"
    by (simp add: utf8_string_def ascii_def bytes_of_string_def list_all_iff unat_of_char)
qed

definition example_message :: Message where
  "example_message = (NewMessage (63918028800 * Second) TypeIntent ''eni.min'' (bytes_of_string ''{}''))\<lparr>m_RequestID := ''req-1''\<rparr>"

lemma example_message_ok: "message_ok example_message"
  by (simp add: message_ok_def example_message_def NewMessage_def ascii_utf8 ascii_def of_char_def known_types_def
      year10000_def days_before_year_def dayNanos_def Second_def)


text \<open>The message of an accepted frame, and the checks it has passed.\<close>

lemma ServerEndpoint_Receive_accepts:
  assumes "ServerEndpoint_Receive crecv e = Some (Inr m, e')" and "crecv (se_conn e) = Some (Inr f, c)"
  obtains hdr t where "open_frame (se_codec e) (se_hmacKey e) f = Inr hdr"
    "Tracker_Check (se_replay e) (hd_Sequence hdr) = (None, t)" "m = frame_message f hdr" "e' = e\<lparr>se_conn := c, se_replay := t\<rparr>"
  using assms by (auto simp: ServerEndpoint_Receive_def Let_def split: sum.splits prod.splits option.splits)

lemma open_frame_MAC:
  "open_frame codec key f = Inr hdr \<Longrightarrow> has_flag (f_Flags f) FlagHMAC \<Longrightarrow> f_MAC f = Sign key (SignableBytes f)"
  by (auto simp: open_frame_def split: if_splits)


text \<open>The message comes out of a frame with its header, signed or not, when the sequence number is new.\<close>

definition unsigned_frame :: "Message \<Rightarrow> bytes \<Rightarrow> frame" where
  "unsigned_frame m h = \<lparr>f_Version = core_ProtocolVersion, f_MsgType = MsgTypeToByte (m_Type m), f_Flags = 0,
     f_Header = h, f_Payload = m_Payload m, f_MAC = []\<rparr>"

lemma open_unsigned_frame:
  assumes "message_ok m"
  shows "\<exists>hdr. open_frame DefaultCodec key (unsigned_frame m (json_struct (header_members (endpoint_header n m)))) = Inr hdr
    \<and> hd_Sequence hdr = n \<and> frame_message (unsigned_frame m (json_struct (header_members (endpoint_header n m)))) hdr = m"
proof -
  let ?f = "unsigned_frame m (json_struct (header_members (endpoint_header n m)))"
  have "open_frame DefaultCodec key ?f = Inr (map_header clean (endpoint_header n m))"
    by (simp add: open_frame_def unsigned_frame_def has_flag_def DefaultCodec_def JSONCodec_round_trip)
  moreover have "frame_message ?f (map_header clean (endpoint_header n m)) = delivered (map_header clean) m"
    by (simp add: frame_message_def unsigned_frame_def delivered_def Let_def map_header_def endpoint_header_def)
  moreover have "hd_Sequence (map_header clean (endpoint_header n m)) = n" by (simp add: map_header_def endpoint_header_def)
  ultimately show ?thesis using message_ok_delivered [OF assms] by simp
qed

lemma replay_accepts_newer: "tracks t H \<Longrightarrow> hist_max H < unat n \<Longrightarrow> \<exists>t'. Tracker_Check t n = (None, t')"
  using Tracker_Check_newer by blast



text \<open>The sequence numbers of the messages that \<open>n\<close> calls of \<open>Receive\<close> return.\<close>

fun accepted_seqs :: "('c \<Rightarrow> (frame result \<times> 'c) option) \<Rightarrow> nat \<Rightarrow> 'c ServerEndpoint \<Rightarrow> 64 word list" where
  "accepted_seqs crecv 0 e = []"
| "accepted_seqs crecv (Suc n) e =
     (case (ServerEndpoint_Receive crecv e, crecv (se_conn e)) of
        (Some (Inr m, e'), Some (Inr f, c)) \<Rightarrow>
          hd_Sequence (snd (hc_Unmarshal (se_codec e) (f_Header f))) # accepted_seqs crecv n e'
      | (Some (r, e'), _) \<Rightarrow> accepted_seqs crecv n e'
      | (None, _) \<Rightarrow> [])"

lemma open_frame_header: "open_frame codec key f = Inr hdr \<Longrightarrow> snd (hc_Unmarshal codec (f_Header f)) = hdr"
  by (auto simp: open_frame_def split: if_splits prod.splits option.splits)

lemma accepted_seqs_fresh:
  "tracks (se_replay e) H \<Longrightarrow> distinct (accepted_seqs crecv n e) \<and> set (accepted_seqs crecv n e) \<inter> insert 0 H = {}"
proof (induction n arbitrary: e H)
  case (Suc n)
  show ?case
  proof (cases "ServerEndpoint_Receive crecv e")
    case None
    then show ?thesis by simp
  next
    case (Some res)
    obtain r e' where res: "res = (r, e')" by (cases res)
    show ?thesis
    proof (cases r)
      case (Inl err)
      then have "tracks (se_replay e') H"
        using Some res Suc.prems tracker.refuse_keeps
        by (fastforce simp: ServerEndpoint_Receive_def Let_def split: option.splits prod.splits sum.splits)
      then show ?thesis using Suc.IH Some res Inl by simp
    next
      case (Inr m)
      obtain f c where f: "crecv (se_conn e) = Some (Inr f, c)"
        using Some res Inr by (auto simp: ServerEndpoint_Receive_def split: option.splits prod.splits sum.splits)
      from ServerEndpoint_Receive_accepts [OF Some [unfolded res Inr] f] obtain hdr t where
        h: "open_frame (se_codec e) (se_hmacKey e) f = Inr hdr" "Tracker_Check (se_replay e) (hd_Sequence hdr) = (None, t)"
          "e' = e\<lparr>se_conn := c, se_replay := t\<rparr>" by blast
      have new: "hd_Sequence hdr \<notin> H" "tracks t (insert (hd_Sequence hdr) H)" using tracker.accept_fresh Suc.prems h(2) by blast+
      moreover have "hd_Sequence hdr \<noteq> 0" using h(2) by (auto simp: Tracker_Check_def)
      ultimately show ?thesis
        using Suc.IH [of e' "insert (hd_Sequence hdr) H"] Some res Inr f h(3) open_frame_header [OF h(1)] by auto
    qed
  qed
qed simp

text \<open>
  C5: No replay reaches the application. Whatever frames a connection delivers, signed or not,
  in any number of calls of \<open>Receive\<close> the server endpoint returns no two messages with the same sequence number, and
  none with number 0.
\<close>

theorem endpoint_no_replay:
  "distinct (accepted_seqs crecv n (NewServerEndpoint c codec key))
   \<and> 0 \<notin> set (accepted_seqs crecv n (NewServerEndpoint c codec key))"
  using accepted_seqs_fresh [of "NewServerEndpoint c codec key" "{}" crecv n] tracks_new [of 0]
  by (simp add: NewServerEndpoint_def)

lemma example_accepted:
  "\<exists>f e'. endpoint_frame DefaultCodec [1, 2] 1 example_message = Inr f \<and> conn_ok f
    \<and> ServerEndpoint_Receive (\<lambda>c. Some (Inr f, c)) (NewServerEndpoint () DefaultCodec [1, 2]) = Some (Inr example_message, e')"
proof -
  obtain f where f: "endpoint_frame DefaultCodec [1, 2] 1 example_message = Inr f" "conn_ok f"
    using message_ok_frame [OF example_message_ok, of "[1, 2]" 1] by (simp add: endpoint_frame_json)
  obtain t where "Tracker_Check (NewTracker 0) 1 = (None, t)" using replay_accepts_newer [OF tracks_new, of 1] by auto
  moreover have "hd_Sequence (map_header clean (endpoint_header 1 example_message)) = 1"
    by (simp add: map_header_def endpoint_header_def)
  ultimately show ?thesis
    using f tcplink.open_frame_of [of "[1, 2]" 1 example_message f] message_ok_delivered [OF example_message_ok]
    by (simp add: tcplink_codec ServerEndpoint_Receive_def NewServerEndpoint_def)
qed



definition big_shm :: ShmConfig where
  "big_shm = \<lparr>sc_Name = ''ring'', sc_BufferSize = 65536, sc_SlotCount = 8\<rparr>"


end
