(* ===== verification/Events.thy ===== *)
theory Events
  imports Json
begin

text \<open>
  \<^verbatim>\<open>core/events.go\<close>: the payloads of the protocol's messages, as the records of the source with
  the members \<open>json.Marshal\<close> prints for them and the fields \<open>json.Unmarshal\<close> fills. A
  \<open>float64\<close> is the literal it is written with; a \<open>map[string]interface{}\<close> maps keys to JSON values.
\<close>

section \<open>Integers\<close>

definition int_text :: "int \<Rightarrow> bytes" where
  "int_text i = (if i < 0 then 0x2D # itoa (nat (- i)) else itoa (nat i))"

text \<open>An \<open>int\<close> field with \<open>omitempty\<close> is left out when it is zero.\<close>

definition omit_zero :: "string \<Rightarrow> int \<Rightarrow> (string \<times> fval) list" where
  "omit_zero name i = (if i = 0 then [] else [(name, FLit (int_text i))])"

section \<open>Events\<close>

record IntentEvent =
  ie_Intent :: string
  ie_Confidence :: bytes
  ie_SessionID :: string

definition intent_members :: "IntentEvent \<Rightarrow> (string \<times> fval) list" where
  "intent_members e =
     [(''intent'', FStr (ie_Intent e)), (''confidence'', FLit (ie_Confidence e)), (''session_id'', FStr (ie_SessionID e))]"

definition intent_fields :: "(string \<times> IntentEvent setter) list" where
  "intent_fields =
     [(''intent'', set_string (\<lambda>s r. r\<lparr>ie_Intent := s\<rparr>)), (''confidence'', set_float (\<lambda>l r. r\<lparr>ie_Confidence := l\<rparr>)),
      (''session_id'', set_string (\<lambda>s r. r\<lparr>ie_SessionID := s\<rparr>))]"

definition zeroIntentEvent :: IntentEvent where
  "zeroIntentEvent = \<lparr>ie_Intent = [], ie_Confidence = [0x30], ie_SessionID = []\<rparr>"

record FeatureStreamEvent =
  fs_Features :: "string \<rightharpoonup> json"

record ToolRequestEvent =
  tr_Tool :: string
  tr_Args :: "string \<rightharpoonup> json"
  tr_Permission :: string
  tr_AuditID :: string

record AckEvent =
  ak_RequestID :: string
  ak_Status :: string
  ak_Error :: string

definition ack_members :: "AckEvent \<Rightarrow> (string \<times> fval) list" where
  "ack_members e =
     [(''request_id'', FStr (ak_RequestID e)), (''status'', FStr (ak_Status e))] @ omitempty ''error'' (ak_Error e)"

definition ack_fields :: "(string \<times> AckEvent setter) list" where
  "ack_fields =
     [(''request_id'', set_string (\<lambda>s r. r\<lparr>ak_RequestID := s\<rparr>)), (''status'', set_string (\<lambda>s r. r\<lparr>ak_Status := s\<rparr>)),
      (''error'', set_string (\<lambda>s r. r\<lparr>ak_Error := s\<rparr>))]"

definition zeroAckEvent :: AckEvent where
  "zeroAckEvent = \<lparr>ak_RequestID = [], ak_Status = [], ak_Error = []\<rparr>"

record PolicyResultEvent =
  pr_RequestID :: string
  pr_Allowed :: bool
  pr_Reason :: string

record HeartbeatEvent =
  hb_Service :: string
  hb_Status :: string

definition heartbeat_members :: "HeartbeatEvent \<Rightarrow> (string \<times> fval) list" where
  "heartbeat_members e = [(''service'', FStr (hb_Service e)), (''status'', FStr (hb_Status e))]"

definition heartbeat_fields :: "(string \<times> HeartbeatEvent setter) list" where
  "heartbeat_fields =
     [(''service'', set_string (\<lambda>s r. r\<lparr>hb_Service := s\<rparr>)), (''status'', set_string (\<lambda>s r. r\<lparr>hb_Status := s\<rparr>))]"

definition zeroHeartbeatEvent :: HeartbeatEvent where
  "zeroHeartbeatEvent = \<lparr>hb_Service = [], hb_Status = []\<rparr>"

record AuditEvent =
  av_RequestID :: string
  av_Actor :: string
  av_Action :: string
  av_Target :: string
  av_Decision :: string
  av_Result :: string
  av_Payload :: "string \<rightharpoonup> json"

record ChatRequestEvent =
  cq_SessionID :: string
  cq_UserPrompt :: string
  cq_Model :: string
  cq_MaxTokens :: int

definition chat_request_members :: "ChatRequestEvent \<Rightarrow> (string \<times> fval) list" where
  "chat_request_members e =
     [(''session_id'', FStr (cq_SessionID e)), (''user_prompt'', FStr (cq_UserPrompt e))]
     @ omitempty ''model'' (cq_Model e) @ omit_zero ''max_tokens'' (cq_MaxTokens e)"

definition chat_request_fields :: "(string \<times> ChatRequestEvent setter) list" where
  "chat_request_fields =
     [(''session_id'', set_string (\<lambda>s r. r\<lparr>cq_SessionID := s\<rparr>)), (''user_prompt'', set_string (\<lambda>s r. r\<lparr>cq_UserPrompt := s\<rparr>)),
      (''model'', set_string (\<lambda>s r. r\<lparr>cq_Model := s\<rparr>)), (''max_tokens'', set_int (\<lambda>n r. r\<lparr>cq_MaxTokens := n\<rparr>))]"

definition zeroChatRequestEvent :: ChatRequestEvent where
  "zeroChatRequestEvent = \<lparr>cq_SessionID = [], cq_UserPrompt = [], cq_Model = [], cq_MaxTokens = 0\<rparr>"

record ChatResponseEvent =
  cr_SessionID :: string
  cr_Response :: string
  cr_Model :: string
  cr_TokensUsed :: int

definition chat_response_members :: "ChatResponseEvent \<Rightarrow> (string \<times> fval) list" where
  "chat_response_members e =
     [(''session_id'', FStr (cr_SessionID e)), (''response'', FStr (cr_Response e))]
     @ omitempty ''model'' (cr_Model e) @ omit_zero ''tokens_used'' (cr_TokensUsed e)"

definition chat_response_fields :: "(string \<times> ChatResponseEvent setter) list" where
  "chat_response_fields =
     [(''session_id'', set_string (\<lambda>s r. r\<lparr>cr_SessionID := s\<rparr>)), (''response'', set_string (\<lambda>s r. r\<lparr>cr_Response := s\<rparr>)),
      (''model'', set_string (\<lambda>s r. r\<lparr>cr_Model := s\<rparr>)), (''tokens_used'', set_int (\<lambda>n r. r\<lparr>cr_TokensUsed := n\<rparr>))]"

definition zeroChatResponseEvent :: ChatResponseEvent where
  "zeroChatResponseEvent = \<lparr>cr_SessionID = [], cr_Response = [], cr_Model = [], cr_TokensUsed = 0\<rparr>"

record CompleteRequestEvent =
  pq_SessionID :: string
  pq_Prompt :: string
  pq_Model :: string
  pq_MaxTokens :: int

definition complete_request_members :: "CompleteRequestEvent \<Rightarrow> (string \<times> fval) list" where
  "complete_request_members e =
     [(''session_id'', FStr (pq_SessionID e)), (''prompt'', FStr (pq_Prompt e))]
     @ omitempty ''model'' (pq_Model e) @ omit_zero ''max_tokens'' (pq_MaxTokens e)"

definition complete_request_fields :: "(string \<times> CompleteRequestEvent setter) list" where
  "complete_request_fields =
     [(''session_id'', set_string (\<lambda>s r. r\<lparr>pq_SessionID := s\<rparr>)), (''prompt'', set_string (\<lambda>s r. r\<lparr>pq_Prompt := s\<rparr>)),
      (''model'', set_string (\<lambda>s r. r\<lparr>pq_Model := s\<rparr>)), (''max_tokens'', set_int (\<lambda>n r. r\<lparr>pq_MaxTokens := n\<rparr>))]"

definition zeroCompleteRequestEvent :: CompleteRequestEvent where
  "zeroCompleteRequestEvent = \<lparr>pq_SessionID = [], pq_Prompt = [], pq_Model = [], pq_MaxTokens = 0\<rparr>"

record CompleteResponseEvent =
  ps_SessionID :: string
  ps_Completion :: string
  ps_Model :: string
  ps_TokensUsed :: int

definition complete_response_members :: "CompleteResponseEvent \<Rightarrow> (string \<times> fval) list" where
  "complete_response_members e =
     [(''session_id'', FStr (ps_SessionID e)), (''completion'', FStr (ps_Completion e))]
     @ omitempty ''model'' (ps_Model e) @ omit_zero ''tokens_used'' (ps_TokensUsed e)"

definition complete_response_fields :: "(string \<times> CompleteResponseEvent setter) list" where
  "complete_response_fields =
     [(''session_id'', set_string (\<lambda>s r. r\<lparr>ps_SessionID := s\<rparr>)), (''completion'', set_string (\<lambda>s r. r\<lparr>ps_Completion := s\<rparr>)),
      (''model'', set_string (\<lambda>s r. r\<lparr>ps_Model := s\<rparr>)), (''tokens_used'', set_int (\<lambda>n r. r\<lparr>ps_TokensUsed := n\<rparr>))]"

definition zeroCompleteResponseEvent :: CompleteResponseEvent where
  "zeroCompleteResponseEvent = \<lparr>ps_SessionID = [], ps_Completion = [], ps_Model = [], ps_TokensUsed = 0\<rparr>"

section \<open>Lemmas\<close>

lemma itoa_head: "\<exists>b bs. itoa n = b # bs \<and> is_digit b \<and> list_all is_digit bs"
  using itoa_digits [of n] by (cases "itoa n") auto

lemma number_lit_int: "number_lit (int_text i)"
proof (cases "i < 0")
  case True
  obtain b bs where b: "itoa (nat (- i)) = b # bs" "is_digit b" "list_all is_digit bs" using itoa_head by blast
  have n: "b \<noteq> 0x2D" using b(2) by (auto simp: is_digit_def)
  have "is_number (b # bs)" using is_number_itoa [of "nat (- i)"] b(1) by simp
  then have "is_number (0x2D # b # bs)" using n by (simp add: is_number_def Let_def)
  with b show ?thesis using True by (auto simp: number_lit_def int_text_def num_char_def list_all_iff)
next
  case False
  obtain b bs where "itoa (nat i) = b # bs" "is_digit b" "list_all is_digit bs" using itoa_head by blast
  then show ?thesis using False is_number_itoa [of "nat i"] by (auto simp: number_lit_def int_text_def num_char_def list_all_iff)
qed

lemma parse_int_text [simp]: "parse_int (int_text i) = Some i"
proof (cases "i < 0")
  case True
  then show ?thesis by (simp add: parse_int_def int_text_def)
next
  case False
  obtain b bs where b: "itoa (nat i) = b # bs" "is_digit b" using itoa_head by blast
  then have "b \<noteq> 0x2D" by (auto simp: is_digit_def)
  then show ?thesis using False b parse_digits_itoa [of "nat i"] by (simp add: parse_int_def int_text_def)
qed

text \<open>Every event comes back from its text, with its strings cleaned up as UTF-8.\<close>

lemmas event_simps = struct_simps omit_zero_def number_lit_int

lemma ack_round_trip:
  "json_Unmarshal ack_fields (json_struct (ack_members e)) zeroAckEvent =
     (None, \<lparr>ak_RequestID = clean (ak_RequestID e), ak_Status = clean (ak_Status e), ak_Error = clean (ak_Error e)\<rparr>)"
  by (subst json_Unmarshal_struct)
    (simp_all add: event_simps ack_members_def ack_fields_def zeroAckEvent_def)

lemma heartbeat_round_trip:
  "json_Unmarshal heartbeat_fields (json_struct (heartbeat_members e)) zeroHeartbeatEvent =
     (None, \<lparr>hb_Service = clean (hb_Service e), hb_Status = clean (hb_Status e)\<rparr>)"
  by (subst json_Unmarshal_struct)
    (simp_all add: event_simps heartbeat_members_def heartbeat_fields_def zeroHeartbeatEvent_def)

lemma intent_round_trip:
  "number_lit (ie_Confidence e) \<Longrightarrow> \<not> float_overflows (ie_Confidence e) \<Longrightarrow>
   json_Unmarshal intent_fields (json_struct (intent_members e)) zeroIntentEvent =
     (None, \<lparr>ie_Intent = clean (ie_Intent e), ie_Confidence = ie_Confidence e, ie_SessionID = clean (ie_SessionID e)\<rparr>)"
  by (subst json_Unmarshal_struct)
    (simp_all add: event_simps intent_members_def intent_fields_def zeroIntentEvent_def)

lemma chat_request_round_trip:
  "- (2 ^ 63) \<le> cq_MaxTokens e \<Longrightarrow> cq_MaxTokens e < 2 ^ 63 \<Longrightarrow>
   json_Unmarshal chat_request_fields (json_struct (chat_request_members e)) zeroChatRequestEvent =
     (None, e\<lparr>cq_SessionID := clean (cq_SessionID e), cq_UserPrompt := clean (cq_UserPrompt e), cq_Model := clean (cq_Model e)\<rparr>)"
  by (subst json_Unmarshal_struct, simp_all add: event_simps chat_request_members_def chat_request_fields_def)
    (cases e, simp add: zeroChatRequestEvent_def)

lemma chat_response_round_trip:
  "- (2 ^ 63) \<le> cr_TokensUsed e \<Longrightarrow> cr_TokensUsed e < 2 ^ 63 \<Longrightarrow>
   json_Unmarshal chat_response_fields (json_struct (chat_response_members e)) zeroChatResponseEvent =
     (None, e\<lparr>cr_SessionID := clean (cr_SessionID e), cr_Response := clean (cr_Response e), cr_Model := clean (cr_Model e)\<rparr>)"
  by (subst json_Unmarshal_struct, simp_all add: event_simps chat_response_members_def chat_response_fields_def)
    (cases e, simp add: zeroChatResponseEvent_def)

end
