(* ===== verification/Server.thy ===== *)
theory Server
  imports Endpoint Events AuditLog Auth Capability Health Router ServiceRegistry
begin

text \<open>
  \<^verbatim>\<open>cmd/eipc-server/main.go\<close>: the configuration tables, the handlers the server registers with its
  router, and \<open>handleConnection\<close>, cut at its calls of \<open>endpoint.Receive\<close> into the phases of
  a connection. The state of the process is the record \<open>Server\<close>; the clock and \<^verbatim>\<open>crypto/rand\<close> are the
  sequences of readings the calls will get. \<open>log.Printf\<close> output is not modelled. \<open>render\<close> is the text of an error.
\<close>

section \<open>Configuration\<close>

definition server_services :: "string \<rightharpoonup> string list" where
  "server_services =
     [''nia.min'' \<mapsto> [''ui:control'', ''device:read''],
      ''nia.framework'' \<mapsto> [''ui:control'', ''device:read'', ''device:write''],
      ''ail.min.agent'' \<mapsto> [''ui:control''],
      ''ail.framework'' \<mapsto> [''ui:control'', ''device:read'', ''device:write'', ''system:restricted''],
      ''ebot.client'' \<mapsto> [''ai:chat'']]"

definition server_allowlist :: "string \<rightharpoonup> string list" where
  "server_allowlist =
     [''ui:control'' \<mapsto> [''ui.cursor.move'', ''ui.click'', ''ui.scroll''],
      ''device:read'' \<mapsto> [''device.sensor.read'', ''device.status''],
      ''device:write'' \<mapsto> [''device.actuator.write''],
      ''system:restricted'' \<mapsto> [''system.reboot'', ''system.update''],
      ''ai:chat'' \<mapsto> [''ai.chat.send'', ''ai.complete.send'']]"

definition server_checker :: Checker where
  "server_checker = NewChecker server_allowlist"

definition eipc_server_info :: ServiceInfo where
  "eipc_server_info =
     \<lparr>si_ServiceID = ''eipc-server'', si_Capabilities = [''ui:control'', ''device:read'', ''device:write'', ''ai:chat''],
      si_Versions = [1],
      si_MessageTypes = [TypeIntent, TypeAck, TypeHeartbeat, TypeAudit, TypeChat, TypeComplete, TypeAuth, TypeChallenge, TypeAuthResponse],
      si_Priority = PriorityP0\<rparr>"

definition ebot_client_info :: ServiceInfo where
  "ebot_client_info =
     \<lparr>si_ServiceID = ''ebot.client'', si_Capabilities = [''ai:chat''], si_Versions = [1],
      si_MessageTypes = [TypeChat, TypeComplete, TypeAck, TypeAuth, TypeAuthResponse], si_Priority = PriorityP1\<rparr>"

definition server_registry :: Registry where
  "server_registry = snd (Registry_Register (snd (Registry_Register NewRegistry eipc_server_info)) ebot_client_info)"

section \<open>State\<close>

text \<open>
  What the program did that a statement about it may refer to: authentication events and messages handed to the
  router. \<open>sv_history\<close> lists them latest first. It is a history variable: the
  code has no such variable and no operation reads it.
\<close>

datatype server_event = EAuth auth_event | EDispatch PeerIdentity Message time

record 'l Server =
  sv_auth :: Authenticator
  sv_audit :: 'l
  sv_health :: Service
  sv_clock :: "nat \<Rightarrow> time"
  sv_rand :: "nat \<Rightarrow> bytes result"
  sv_history :: "server_event list"

definition new_server :: "bytes \<Rightarrow> duration \<Rightarrow> 'l \<Rightarrow> (nat \<Rightarrow> time) \<Rightarrow> (nat \<Rightarrow> bytes result) \<Rightarrow> 'l Server" where
  "new_server secret sessionTTL lg clock rnd =
     \<lparr>sv_auth = SetSessionTTL (NewAuthenticator secret server_services) sessionTTL, sv_audit = lg,
      sv_health = NewService (5 * Second) (15 * Second), sv_clock = clock, sv_rand = rnd, sv_history = []\<rparr>"

definition time_Now :: "'l Server \<Rightarrow> time \<times> 'l Server" where
  "time_Now s = (sv_clock s 0, s\<lparr>sv_clock := \<lambda>n. sv_clock s (Suc n)\<rparr>)"

definition rand_Read :: "'l Server \<Rightarrow> bytes result \<times> 'l Server" where
  "rand_Read s = (sv_rand s 0, s\<lparr>sv_rand := \<lambda>n. sv_rand s (Suc n)\<rparr>)"

text \<open>A failure of the audit logger is only printed.\<close>

definition audit :: "'l Logger \<Rightarrow> string \<Rightarrow> string \<Rightarrow> string \<Rightarrow> string \<Rightarrow> string \<Rightarrow> gotext \<Rightarrow> 'l Server \<Rightarrow> 'l Server" where
  "audit alog requestID source target action decision res s =
     s\<lparr>sv_audit := snd (alog \<lparr>ae_Timestamp = '''', ae_RequestID = requestID, ae_Source = source, ae_Target = target,
        ae_Action = action, ae_Decision = decision, ae_Result = res\<rparr> (sv_audit s))\<rparr>"

definition record_event :: "server_event \<Rightarrow> 'l Server \<Rightarrow> 'l Server" where
  "record_event ev s = s\<lparr>sv_history := ev # sv_history s\<rparr>"

definition server_message :: "time \<Rightarrow> MessageType \<Rightarrow> string \<Rightarrow> string \<Rightarrow> Priority \<Rightarrow> bytes \<Rightarrow> Message" where
  "server_message now t sessionID requestID prio payload =
     \<lparr>m_Version = core_ProtocolVersion, m_Type = t, m_Source = ''eipc-server'', m_Timestamp = now, m_SessionID = sessionID,
      m_RequestID = requestID, m_Priority = prio, m_Capability = '''', m_Payload = payload\<rparr>"

section \<open>Handlers\<close>

definition intent_handler :: "'l Logger \<Rightarrow> Checker \<Rightarrow> 'l Server HandlerFunc" where
  "intent_handler alog capChecker msg s =
     (case json_Unmarshal intent_fields (m_Payload msg) zeroIntentEvent of
       (Some e, _) \<Rightarrow> ((None, Some (wrap_err ''unmarshal intent: %w'' e)), s)
     | (None, intent) \<Rightarrow>
        (case Checker_Check capChecker [m_Capability msg] ''ui.cursor.move'' of
           Some err \<Rightarrow>
             ((None, Some err),
              audit alog (m_RequestID msg) (m_Source msg) ''eipc-server'' (ie_Intent intent) ''denied'' (ErrorText err) s)
         | None \<Rightarrow>
            (let s = audit alog (m_RequestID msg) (m_Source msg) ''eipc-server'' (ie_Intent intent) ''allowed''
                       (Sprintf ''success'' []) s
             in case json_Marshal (ack_members \<lparr>ak_RequestID = m_RequestID msg, ak_Status = ''ok'', ak_Error = ''''\<rparr>) of
                  Inl e \<Rightarrow> ((None, Some (wrap_err ''marshal ack: %w'' e)), s)
                | Inr ackPayload \<Rightarrow>
                   (let (now, s) = time_Now s
                    in ((Some (server_message now TypeAck (m_SessionID msg) (m_RequestID msg) PriorityP0 ackPayload), None), s)))))"

definition heartbeat_handler :: "'l Server HandlerFunc" where
  "heartbeat_handler msg s =
     (case json_Unmarshal heartbeat_fields (m_Payload msg) zeroHeartbeatEvent of
       (Some e, _) \<Rightarrow> ((None, Some e), s)
     | (None, hb) \<Rightarrow>
        (let (now, s) = time_Now s
         in ((None, None), s\<lparr>sv_health := RecordHeartbeat (sv_health s) (hb_Service hb) (hb_Status hb) now\<rparr>)))"

definition chat_handler :: "'l Logger \<Rightarrow> Checker \<Rightarrow> 'l Server HandlerFunc" where
  "chat_handler alog capChecker msg s =
     (case json_Unmarshal chat_request_fields (m_Payload msg) zeroChatRequestEvent of
       (Some e, _) \<Rightarrow> ((None, Some (wrap_err ''unmarshal chat request: %w'' e)), s)
     | (None, chatReq) \<Rightarrow>
        (case Checker_Check capChecker [m_Capability msg] ''ai.chat.send'' of
           Some err \<Rightarrow>
             ((None, Some err),
              audit alog (m_RequestID msg) (m_Source msg) ''eipc-server'' ''ai.chat.send'' ''denied'' (ErrorText err) s)
         | None \<Rightarrow>
            (let s = audit alog (m_RequestID msg) (m_Source msg) ''eai'' ''ai.chat.send'' ''allowed'' (Sprintf ''forwarded'' []) s
             in case json_Marshal (chat_response_members
                       \<lparr>cr_SessionID = cq_SessionID chatReq, cr_Response = ''[EIPC] Chat received: '' @ cq_UserPrompt chatReq,
                        cr_Model = cq_Model chatReq, cr_TokensUsed = 0\<rparr>) of
                  Inl e \<Rightarrow> ((None, Some (wrap_err ''marshal chat response: %w'' e)), s)
                | Inr respPayload \<Rightarrow>
                   (let (now, s) = time_Now s
                    in ((Some (server_message now TypeChat (m_SessionID msg) (m_RequestID msg) PriorityP1 respPayload), None), s)))))"

definition complete_handler :: "'l Logger \<Rightarrow> Checker \<Rightarrow> 'l Server HandlerFunc" where
  "complete_handler alog capChecker msg s =
     (case json_Unmarshal complete_request_fields (m_Payload msg) zeroCompleteRequestEvent of
       (Some e, _) \<Rightarrow> ((None, Some (wrap_err ''unmarshal complete request: %w'' e)), s)
     | (None, completeReq) \<Rightarrow>
        (case Checker_Check capChecker [m_Capability msg] ''ai.complete.send'' of
           Some err \<Rightarrow>
             ((None, Some err),
              audit alog (m_RequestID msg) (m_Source msg) ''eipc-server'' ''ai.complete.send'' ''denied'' (ErrorText err) s)
         | None \<Rightarrow>
            (let s = audit alog (m_RequestID msg) (m_Source msg) ''eai'' ''ai.complete.send'' ''allowed'' (Sprintf ''forwarded'' []) s
             in case json_Marshal (complete_response_members
                       \<lparr>ps_SessionID = pq_SessionID completeReq,
                        ps_Completion = ''[EIPC] Completion received: '' @ pq_Prompt completeReq,
                        ps_Model = pq_Model completeReq, ps_TokensUsed = 0\<rparr>) of
                  Inl e \<Rightarrow> ((None, Some (wrap_err ''marshal complete response: %w'' e)), s)
                | Inr respPayload \<Rightarrow>
                   (let (now, s) = time_Now s
                    in ((Some (server_message now TypeComplete (m_SessionID msg) (m_RequestID msg) PriorityP1 respPayload), None), s)))))"

definition server_router :: "'l Logger \<Rightarrow> Checker \<Rightarrow> 'l Server Router" where
  "server_router alog capChecker =
     Router_Handle (Router_Handle (Router_Handle (Router_Handle NewRouter
       TypeIntent (intent_handler alog capChecker))
       TypeHeartbeat heartbeat_handler)
       TypeChat (chat_handler alog capChecker))
       TypeComplete (complete_handler alog capChecker)"

section \<open>A connection\<close>

text \<open>Where \<open>handleConnection\<close> stands: at its first \<open>Receive\<close>, at the second, in its loop, or returning.\<close>

datatype conn_phase = AwaitAuth | AwaitResponse string string | Live PeerIdentity | Closed

definition auth_request_fields :: "(string \<times> string setter) list" where
  "auth_request_fields = [(''service_id'', set_string (\<lambda>s r. s))]"

definition auth_response_members :: "string \<Rightarrow> string \<Rightarrow> (string \<times> fval) list" where
  "auth_response_members status err = [(''status'', FStr status)] @ omitempty ''error'' err"

definition challenge_members :: "string \<Rightarrow> string \<Rightarrow> (string \<times> fval) list" where
  "challenge_members status nonce = [(''status'', FStr status), (''nonce'', FStr nonce)]"

record challengeResponse =
  xr_ServiceID :: string
  xr_Response :: string

definition challenge_response_fields :: "(string \<times> challengeResponse setter) list" where
  "challenge_response_fields =
     [(''service_id'', set_string (\<lambda>s r. r\<lparr>xr_ServiceID := s\<rparr>)), (''response'', set_string (\<lambda>s r. r\<lparr>xr_Response := s\<rparr>))]"

definition zeroChallengeResponse :: challengeResponse where
  "zeroChallengeResponse = \<lparr>xr_ServiceID = '''', xr_Response = ''''\<rparr>"

definition auth_result_members :: "string \<Rightarrow> string \<Rightarrow> string list \<Rightarrow> (string \<times> fval) list" where
  "auth_result_members status token caps =
     [(''status'', FStr status), (''session_token'', FStr token), (''capabilities'', FStrs caps)]"

text \<open>The answer to a peer that is turned away; a failure to send it is only printed.\<close>

definition deny_auth ::
  "(gotext \<Rightarrow> string) \<Rightarrow> 'l Logger \<Rightarrow> (frame \<Rightarrow> 'c \<Rightarrow> (error option \<times> 'c) option) \<Rightarrow> string \<Rightarrow> string \<Rightarrow> gotext \<Rightarrow> error
    \<Rightarrow> 'c ServerEndpoint \<Rightarrow> 'l Server \<Rightarrow> ('c ServerEndpoint \<times> 'l Server) option" where
  "deny_auth render alog csend serviceID requestID res err ep s =
     (let s = audit alog requestID serviceID ''eipc-server'' ''authenticate'' ''denied'' res s
      in case json_Marshal (auth_response_members ''denied'' (render (ErrorText err))) of
           Inl _ \<Rightarrow> Some (ep, s)
         | Inr respPayload \<Rightarrow>
            (let (now, s) = time_Now s
             in case ServerEndpoint_Send csend (server_message now TypeAuthResponse '''' requestID 0 respPayload) ep of
                  None \<Rightarrow> None
                | Some (_, ep) \<Rightarrow> Some (ep, s)))"

text \<open>From the first \<open>Receive\<close> to the second.\<close>

definition on_auth ::
  "(gotext \<Rightarrow> string) \<Rightarrow> 'l Logger \<Rightarrow> (frame \<Rightarrow> 'c \<Rightarrow> (error option \<times> 'c) option) \<Rightarrow> Message result
    \<Rightarrow> 'c ServerEndpoint \<Rightarrow> 'l Server \<Rightarrow> (conn_phase \<times> 'c ServerEndpoint \<times> 'l Server) option" where
  "on_auth render alog csend received ep s =
     (case received of
       Inl _ \<Rightarrow> Some (Closed, ep, s)
     | Inr authMsg \<Rightarrow>
        (if m_Type authMsg \<noteq> TypeAuth then Some (Closed, ep, s)
         else case json_Unmarshal auth_request_fields (m_Payload authMsg) '''' of
           (Some _, _) \<Rightarrow> Some (Closed, ep, s)
         | (None, serviceID) \<Rightarrow>
            (let (rnd, s) = rand_Read s; (now, s) = time_Now s
             in case CreateChallenge (sv_auth s) serviceID rnd now of
                  (Inl err, a) \<Rightarrow>
                    (case deny_auth render alog csend serviceID (m_RequestID authMsg) (ErrorText err) err ep (s\<lparr>sv_auth := a\<rparr>) of
                       None \<Rightarrow> None
                     | Some (ep, s) \<Rightarrow> Some (Closed, ep, s))
                | (Inr challenge, a) \<Rightarrow>
                    (let s = record_event (EAuth (Challenged serviceID (ch_Nonce challenge))) (s\<lparr>sv_auth := a\<rparr>)
                     in case json_Marshal (challenge_members ''challenge'' (hex_EncodeToString (ch_Nonce challenge))) of
                          Inl _ \<Rightarrow> Some (Closed, ep, s)
                        | Inr challengePayload \<Rightarrow>
                           (let (now, s) = time_Now s
                            in case ServerEndpoint_Send csend
                                      (server_message now TypeChallenge '''' (m_RequestID authMsg) 0 challengePayload) ep of
                                 None \<Rightarrow> None
                               | Some (Some _, ep) \<Rightarrow> Some (Closed, ep, s)
                               | Some (None, ep) \<Rightarrow> Some (AwaitResponse serviceID (m_RequestID authMsg), ep, s))))))"

text \<open>From the second \<open>Receive\<close> to the loop.\<close>

definition on_response ::
  "(gotext \<Rightarrow> string) \<Rightarrow> 'l Logger \<Rightarrow> (frame \<Rightarrow> 'c \<Rightarrow> (error option \<times> 'c) option) \<Rightarrow> string \<Rightarrow> string \<Rightarrow> Message result
    \<Rightarrow> 'c ServerEndpoint \<Rightarrow> 'l Server \<Rightarrow> (conn_phase \<times> 'c ServerEndpoint \<times> 'l Server) option" where
  "on_response render alog csend serviceID requestID received ep s =
     (case received of
       Inl _ \<Rightarrow> Some (Closed, ep, s)
     | Inr responseMsg \<Rightarrow>
        (if m_Type responseMsg \<noteq> TypeAuthResponse then Some (Closed, ep, s)
         else case json_Unmarshal challenge_response_fields (m_Payload responseMsg) zeroChallengeResponse of
           (Some _, _) \<Rightarrow> Some (Closed, ep, s)
         | (None, chalResp) \<Rightarrow>
            (case hex_DecodeString (xr_Response chalResp) of
               Inl _ \<Rightarrow> Some (Closed, ep, s)
             | Inr responseBytes \<Rightarrow>
                (let (rnd, s) = rand_Read s; (now, s) = time_Now s
                 in case VerifyResponse (sv_auth s) serviceID responseBytes rnd now of
                      (Inl err, a) \<Rightarrow>
                        (case deny_auth render alog csend serviceID requestID (Sprintf ''challenge-response failed'' []) err ep
                                (record_event (EAuth (Rejected serviceID)) (s\<lparr>sv_auth := a\<rparr>)) of
                           None \<Rightarrow> None
                         | Some (ep, s) \<Rightarrow> Some (Closed, ep, s))
                    | (Inr peer, a) \<Rightarrow>
                        (let s = record_event (EAuth (Accepted serviceID responseBytes (pe_SessionToken peer))) (s\<lparr>sv_auth := a\<rparr>);
                             s = audit alog requestID (pe_ServiceID peer) ''eipc-server'' ''authenticate'' ''allowed''
                                   (Sprintf ''session created'' []) s;
                             ep = SetPeerCapabilities (pe_Capabilities peer) ep
                         in case json_Marshal (auth_result_members ''ok'' (pe_SessionToken peer) (pe_Capabilities peer)) of
                              Inl _ \<Rightarrow> Some (Closed, ep, s)
                            | Inr respPayload \<Rightarrow>
                               (let (now, s) = time_Now s
                                in case ServerEndpoint_Send csend
                                          (server_message now TypeAuthResponse '''' requestID 0 respPayload) ep of
                                     None \<Rightarrow> None
                                   | Some (Some _, ep) \<Rightarrow> Some (Closed, ep, s)
                                   | Some (None, ep) \<Rightarrow> Some (Live peer, ep, s)))))))"

text \<open>The error acknowledgment of the loop; a failure to send it is only printed.\<close>

definition send_error ::
  "(gotext \<Rightarrow> string) \<Rightarrow> (frame \<Rightarrow> 'c \<Rightarrow> (error option \<times> 'c) option) \<Rightarrow> Message \<Rightarrow> error
    \<Rightarrow> 'c ServerEndpoint \<Rightarrow> 'l Server \<Rightarrow> ('c ServerEndpoint \<times> 'l Server) option" where
  "send_error render csend msg err ep s =
     (case json_Marshal (ack_members \<lparr>ak_RequestID = m_RequestID msg, ak_Status = ''error'', ak_Error = render (ErrorText err)\<rparr>) of
       Inl _ \<Rightarrow> Some (ep, s)
     | Inr errPayload \<Rightarrow>
        (let (now, s) = time_Now s
         in case ServerEndpoint_Send csend
                   (server_message now TypeAck (m_SessionID msg) (m_RequestID msg) PriorityP0 errPayload) ep of
              None \<Rightarrow> None
            | Some (_, ep) \<Rightarrow> Some (ep, s)))"

text \<open>One turn of the loop.\<close>

definition on_message ::
  "(gotext \<Rightarrow> string) \<Rightarrow> 'l Logger \<Rightarrow> (frame \<Rightarrow> 'c \<Rightarrow> (error option \<times> 'c) option) \<Rightarrow> 'l Server Router \<Rightarrow> PeerIdentity
    \<Rightarrow> Message result \<Rightarrow> 'c ServerEndpoint \<Rightarrow> 'l Server \<Rightarrow> (conn_phase \<times> 'c ServerEndpoint \<times> 'l Server) option" where
  "on_message render alog csend router peer received ep s =
     (case received of
       Inl _ \<Rightarrow> Some (Closed, ep, s)
     | Inr msg \<Rightarrow>
        (let (now, s) = time_Now s
         in if IsExpired peer now then
              Some (Closed, ep, audit alog '''' (pe_ServiceID peer) ''eipc-server'' ''session_check'' ''denied''
                (Sprintf ''session expired'' []) s)
            else case ValidateCapability (m_Capability msg) ep of
              Some err \<Rightarrow>
                (case send_error render csend msg err ep
                        (audit alog (m_RequestID msg) (pe_ServiceID peer) ''eipc-server'' (m_Capability msg) ''denied''
                          (Sprintf ''capability violation'' []) s) of
                   None \<Rightarrow> None
                 | Some (ep, s) \<Rightarrow> Some (Live peer, ep, s))
            | None \<Rightarrow>
                (case Router_Dispatch router msg (record_event (EDispatch peer msg now) s) of
                   ((_, Some err), s) \<Rightarrow>
                     (case send_error render csend msg err ep s of
                        None \<Rightarrow> None
                      | Some (ep, s) \<Rightarrow> Some (Live peer, ep, s))
                 | ((Some resp, None), s) \<Rightarrow>
                     (case ServerEndpoint_Send csend resp ep of
                        None \<Rightarrow> None
                      | Some (Some _, ep) \<Rightarrow> Some (Closed, ep, s)
                      | Some (None, ep) \<Rightarrow> Some (Live peer, ep, s))
                 | ((None, None), s) \<Rightarrow> Some (Live peer, ep, s))))"

definition on_received ::
  "(gotext \<Rightarrow> string) \<Rightarrow> 'l Logger \<Rightarrow> (frame \<Rightarrow> 'c \<Rightarrow> (error option \<times> 'c) option) \<Rightarrow> 'l Server Router \<Rightarrow> conn_phase
    \<Rightarrow> Message result \<Rightarrow> 'c ServerEndpoint \<Rightarrow> 'l Server \<Rightarrow> (conn_phase \<times> 'c ServerEndpoint \<times> 'l Server) option" where
  "on_received render alog csend router phase received ep s =
     (case phase of
        AwaitAuth \<Rightarrow> on_auth render alog csend received ep s
      | AwaitResponse serviceID requestID \<Rightarrow> on_response render alog csend serviceID requestID received ep s
      | Live peer \<Rightarrow> on_message render alog csend router peer received ep s
      | Closed \<Rightarrow> Some (Closed, ep, s))"

definition conn_step ::
  "(gotext \<Rightarrow> string) \<Rightarrow> 'l Logger \<Rightarrow> (frame \<Rightarrow> 'c \<Rightarrow> (error option \<times> 'c) option) \<Rightarrow> ('c \<Rightarrow> (frame result \<times> 'c) option) \<Rightarrow> 'l Server Router
    \<Rightarrow> conn_phase \<times> 'c ServerEndpoint \<times> 'l Server \<Rightarrow> (conn_phase \<times> 'c ServerEndpoint \<times> 'l Server) option" where
  "conn_step render alog csend crecv router = (\<lambda>(phase, ep, s).
     (case ServerEndpoint_Receive crecv ep of
       None \<Rightarrow> None
     | Some (received, ep) \<Rightarrow> on_received render alog csend router phase received ep s))"

text \<open>The whole of \<open>handleConnection\<close>: it ends when a phase returns, and closes the connection.\<close>

partial_function (option) conn_loop ::
  "(gotext \<Rightarrow> string) \<Rightarrow> 'l Logger \<Rightarrow> (frame \<Rightarrow> 'c \<Rightarrow> (error option \<times> 'c) option) \<Rightarrow> ('c \<Rightarrow> (frame result \<times> 'c) option) \<Rightarrow> 'l Server Router
    \<Rightarrow> conn_phase \<times> 'c ServerEndpoint \<times> 'l Server \<Rightarrow> ('c ServerEndpoint \<times> 'l Server) option" where
  "conn_loop render alog csend crecv router st =
     (if fst st = Closed then Some (snd st)
      else Option.bind (conn_step render alog csend crecv router st) (conn_loop render alog csend crecv router))"

definition handleConnection ::
  "(gotext \<Rightarrow> string) \<Rightarrow> 'l Logger \<Rightarrow> (frame \<Rightarrow> 'c \<Rightarrow> (error option \<times> 'c) option) \<Rightarrow> ('c \<Rightarrow> (frame result \<times> 'c) option)
    \<Rightarrow> ('c \<Rightarrow> error option \<times> 'c) \<Rightarrow> HeaderCodec \<Rightarrow> bytes \<Rightarrow> 'l Server Router \<Rightarrow> 'c \<Rightarrow> 'l Server \<Rightarrow> ('c \<times> 'l Server) option" where
  "handleConnection render alog csend crecv cclose codec hmacKey router conn s =
     map_option (\<lambda>(ep, s). (snd (cclose (se_conn ep)), s))
       (conn_loop render alog csend crecv router (AwaitAuth, NewServerEndpoint conn codec hmacKey, s))"

end
