(* ===== verification/ServerRun.thy ===== *)
theory ServerRun
  imports Server
begin

text \<open>
  What \<^verbatim>\<open>cmd/eipc-server/main.go\<close> guarantees. The first part follows one connection through its
  phases: every phase keeps the invariant that ties a live connection to an accepted
  challenge response, and \<open>handleConnection\<close> returns. The second part is the accept loop with its
  connection limit: any number of connections, their phases interleaved, over a network that may deliver anything.
\<close>

section \<open>Effects on the state\<close>

lemma server_effects [simp]:
  "sv_auth (snd (time_Now s)) = sv_auth s" "sv_history (snd (time_Now s)) = sv_history s"
  "sv_auth (snd (rand_Read s)) = sv_auth s" "sv_history (snd (rand_Read s)) = sv_history s"
  "sv_auth (audit alog a b c d e f s) = sv_auth s" "sv_history (audit alog a b c d e f s) = sv_history s"
  "sv_auth (record_event ev s) = sv_auth s" "sv_history (record_event ev s) = ev # sv_history s"
  by (simp_all add: time_Now_def rand_Read_def audit_def record_event_def)

lemma handler_effects:
  "sv_auth (snd (intent_handler alog ck msg s)) = sv_auth s \<and> sv_history (snd (intent_handler alog ck msg s)) = sv_history s"
  "sv_auth (snd (heartbeat_handler msg s)) = sv_auth s \<and> sv_history (snd (heartbeat_handler msg s)) = sv_history s"
  "sv_auth (snd (chat_handler alog ck msg s)) = sv_auth s \<and> sv_history (snd (chat_handler alog ck msg s)) = sv_history s"
  "sv_auth (snd (complete_handler alog ck msg s)) = sv_auth s \<and> sv_history (snd (complete_handler alog ck msg s)) = sv_history s"
  by (simp_all add: intent_handler_def heartbeat_handler_def chat_handler_def complete_handler_def Let_def split_beta
      split: option.split sum.split prod.split)

lemma server_router_handlers:
  "rt_handlers (server_router alog ck) = [TypeIntent \<mapsto> intent_handler alog ck, TypeHeartbeat \<mapsto> heartbeat_handler,
     TypeChat \<mapsto> chat_handler alog ck, TypeComplete \<mapsto> complete_handler alog ck]"
  by (simp add: server_router_def Router_Handle_def NewRouter_def)

lemma dispatch_effects:
  "sv_auth (snd (Router_Dispatch (server_router alog ck) msg s)) = sv_auth s"
  "sv_history (snd (Router_Dispatch (server_router alog ck) msg s)) = sv_history s"
  by (simp_all add: Router_Dispatch_def server_router_handlers handler_effects split: option.split)

lemma ServerEndpoint_Send_keeps:
  "ServerEndpoint_Send csend m ep = Some (r, ep') \<Longrightarrow> se_peerCapabilities ep' = se_peerCapabilities ep \<and> se_hmacKey ep' = se_hmacKey ep
     \<and> se_codec ep' = se_codec ep \<and> se_replay ep' = se_replay ep"
  by (auto simp: ServerEndpoint_Send_def Let_def split: sum.splits)

lemma ServerEndpoint_Receive_keeps:
  "ServerEndpoint_Receive crecv ep = Some (r, ep') \<Longrightarrow> se_peerCapabilities ep' = se_peerCapabilities ep \<and> se_hmacKey ep' = se_hmacKey ep
     \<and> se_codec ep' = se_codec ep"
  by (auto simp: ServerEndpoint_Receive_def Let_def split: option.splits prod.splits sum.splits)

lemma deny_auth_effects:
  "deny_auth render alog csend sid rid res err ep s = Some (ep', s') \<Longrightarrow> sv_auth s' = sv_auth s \<and> sv_history s' = sv_history s"
  by (auto simp: deny_auth_def Let_def split_beta json_Marshal_def split: option.splits)

lemma send_error_effects:
  "send_error render csend msg err ep s = Some (ep', s') \<Longrightarrow>
     sv_auth s' = sv_auth s \<and> sv_history s' = sv_history s \<and> se_peerCapabilities ep' = se_peerCapabilities ep"
  by (auto simp: send_error_def Let_def split_beta json_Marshal_def dest: ServerEndpoint_Send_keeps split: option.splits)

section \<open>The invariant\<close>

fun auth_events :: "server_event list \<Rightarrow> auth_event list" where
  "auth_events [] = []"
| "auth_events (EAuth e # evs) = e # auth_events evs"
| "auth_events (EDispatch p m now # evs) = auth_events evs"

text \<open>The peer answered its challenge, under its own name and capabilities.\<close>

definition authenticated :: "PeerIdentity \<Rightarrow> server_event list \<Rightarrow> bool" where
  "authenticated p evs \<longleftrightarrow> (\<exists>resp. Accepted (pe_ServiceID p) resp (pe_SessionToken p) \<in> set (auth_events evs))
     \<and> server_services (pe_ServiceID p) = Some (pe_Capabilities p)"

definition authorised :: "PeerIdentity \<Rightarrow> Message \<Rightarrow> time \<Rightarrow> bool" where
  "authorised p m now \<longleftrightarrow> \<not> IsExpired p now \<and> (m_Capability m = [] \<or> m_Capability m \<in> set (pe_Capabilities p))"

fun history_ok :: "server_event list \<Rightarrow> bool" where
  "history_ok [] = True"
| "history_ok (EAuth e # evs) = history_ok evs"
| "history_ok (EDispatch p m now # evs) = (history_ok evs \<and> authenticated p evs \<and> authorised p m now)"

definition server_inv :: "bytes \<Rightarrow> 'l Server \<Rightarrow> bool" where
  "server_inv secret s \<longleftrightarrow> auth_run secret server_services (sv_auth s) (auth_events (sv_history s)) \<and> history_ok (sv_history s)"

definition conn_inv :: "'l Server \<Rightarrow> conn_phase \<Rightarrow> 'c ServerEndpoint \<Rightarrow> bool" where
  "conn_inv s phase ep =
     (case phase of Live p \<Rightarrow> authenticated p (sv_history s) \<and> se_peerCapabilities ep = pe_Capabilities p | _ \<Rightarrow> True)"

lemma conn_inv_simps [simp]:
  "conn_inv s AwaitAuth ep" "conn_inv s (AwaitResponse a b) ep" "conn_inv s Closed ep"
  "conn_inv s (Live p) ep \<longleftrightarrow> authenticated p (sv_history s) \<and> se_peerCapabilities ep = pe_Capabilities p"
  by (simp_all add: conn_inv_def)

lemma conn_inv_audit [simp]: "conn_inv (audit alog a b c d e f s) phase ep = conn_inv s phase ep"
  by (simp add: conn_inv_def split: conn_phase.split)

lemma conn_inv_auth [simp]: "conn_inv (s\<lparr>sv_auth := a\<rparr>) phase ep = conn_inv s phase ep"
  by (simp add: conn_inv_def split: conn_phase.split)

lemma authenticated_mono: "authenticated p evs \<Longrightarrow> authenticated p (new @ evs)"
proof -
  have "set (auth_events evs) \<subseteq> set (auth_events (new @ evs))"
    by (induction new rule: auth_events.induct) auto
  then show "authenticated p evs \<Longrightarrow> authenticated p (new @ evs)" by (auto simp: authenticated_def)
qed

lemma authenticated_Cons: "authenticated p evs \<Longrightarrow> authenticated p (e # evs)"
  using authenticated_mono [of p evs "[e]"] by simp

text \<open>What a step may do: keep the invariant and extend the history.\<close>

definition step_ok :: "bytes \<Rightarrow> 'l Server \<Rightarrow> conn_phase \<times> 'c ServerEndpoint \<times> 'l Server \<Rightarrow> bool" where
  "step_ok secret s = (\<lambda>(phase, ep, s'). server_inv secret s' \<and> conn_inv s' phase ep \<and> (\<exists>new. sv_history s' = new @ sv_history s))"

lemma step_ok_same:
  "server_inv secret s \<Longrightarrow> sv_auth s' = sv_auth s \<Longrightarrow> sv_history s' = sv_history s \<Longrightarrow> conn_inv s' phase ep \<Longrightarrow>
     step_ok secret s (phase, ep, s')"
  by (simp add: step_ok_def server_inv_def)

lemma server_inv_event:
  "server_inv secret s \<Longrightarrow> auth_run secret server_services (sv_auth s') (e # auth_events (sv_history s)) \<Longrightarrow>
     sv_history s' = EAuth e # sv_history s \<Longrightarrow> server_inv secret s'"
  by (simp add: server_inv_def)

section \<open>Every phase keeps the invariant\<close>

lemma on_auth_ok:
  assumes inv: "server_inv secret s" and step: "on_auth render alog csend received ep s = Some st"
  shows "step_ok secret s st"
proof (cases received)
  case (Inl e)
  then show ?thesis using step inv by (auto simp: on_auth_def step_ok_same)
next
  case (Inr m)
  obtain e sid where u: "json_Unmarshal auth_request_fields (m_Payload m) [] = (e, sid)" by fastforce
  show ?thesis
  proof (cases "m_Type m \<noteq> TypeAuth \<or> e \<noteq> None")
    case True
    then show ?thesis using step inv Inr u by (auto simp: on_auth_def step_ok_same split: if_splits)
  next
    case False
    let ?s = "snd (time_Now (snd (rand_Read s)))"
    obtain res a where c: "CreateChallenge (sv_auth ?s) sid (fst (rand_Read s)) (fst (time_Now (snd (rand_Read s)))) = (res, a)" by fastforce
    show ?thesis
    proof (cases res)
      case (Inl err)
      then have "a = sv_auth s" using c CreateChallenge_Inl by fastforce
      then show ?thesis
        using step inv Inr u False c Inl
        by (auto simp: on_auth_def Let_def split_beta intro!: step_ok_same dest!: deny_auth_effects split: option.splits)
    next
      case chal: (Inr ch)
      have run: "auth_run secret server_services a (Challenged sid (ch_Nonce ch) # auth_events (sv_history s))"
        using auth_run.challenged [of secret server_services "sv_auth s"] inv c chal by (auto simp: server_inv_def)
      have "\<exists>phase ep'. st = (phase, ep', snd (time_Now (record_event (EAuth (Challenged sid (ch_Nonce ch))) (?s\<lparr>sv_auth := a\<rparr>))))
          \<and> (\<forall>p. phase \<noteq> Live p)"
        using step Inr u False c chal
        by (auto simp: on_auth_def Let_def split_beta json_Marshal_def split: option.splits)
      then show ?thesis
        using run server_inv_event [OF inv, of _ "Challenged sid (ch_Nonce ch)"]
        by (auto simp: step_ok_def conn_inv_def split: conn_phase.splits)
    qed
  qed
qed

lemma on_response_ok:
  assumes inv: "server_inv secret s" and step: "on_response render alog csend sid rid received ep s = Some st"
  shows "step_ok secret s st"
proof (cases received)
  case (Inl e)
  then show ?thesis using step inv by (auto simp: on_response_def step_ok_same)
next
  case (Inr m)
  obtain e cr where u: "json_Unmarshal challenge_response_fields (m_Payload m) zeroChallengeResponse = (e, cr)" by fastforce
  show ?thesis
  proof (cases "m_Type m \<noteq> TypeAuthResponse \<or> e \<noteq> None \<or> (\<exists>err. hex_DecodeString (xr_Response cr) = Inl err)")
    case True
    then show ?thesis using step inv Inr u by (auto simp: on_response_def step_ok_same split: if_splits option.splits)
  next
    case False
    then obtain resp where resp: "hex_DecodeString (xr_Response cr) = Inr resp" by (cases "hex_DecodeString (xr_Response cr)") auto
    let ?s = "snd (time_Now (snd (rand_Read s)))"
    obtain res a where v: "VerifyResponse (sv_auth ?s) sid resp (fst (rand_Read s)) (fst (time_Now (snd (rand_Read s)))) = (res, a)" by fastforce
    show ?thesis
    proof (cases res)
      case (Inl err)
      have run: "auth_run secret server_services a (Rejected sid # auth_events (sv_history s))"
        using auth_run.rejected [of secret server_services "sv_auth s"] inv v Inl by (auto simp: server_inv_def)
      have "\<exists>ep' s'. st = (Closed, ep', s') \<and> sv_auth s' = a \<and> sv_history s' = EAuth (Rejected sid) # sv_history s"
        using step Inr u False resp v Inl
        by (auto simp: on_response_def Let_def split_beta dest!: deny_auth_effects split: option.splits)
      then show ?thesis using run server_inv_event [OF inv, of _ "Rejected sid"] by (auto simp: step_ok_def)
    next
      case ok: (Inr peer)
      let ?e = "Accepted sid resp (pe_SessionToken peer)"
      have run: "auth_run secret server_services a (?e # auth_events (sv_history s))"
        using auth_run.accepted [of secret server_services "sv_auth s"] inv v ok by (auto simp: server_inv_def)
      have peer: "pe_ServiceID peer = sid" "au_activeSessions a (pe_SessionToken peer) = Some peer"
        using v ok by (auto simp: VerifyResponse_Inr new_peer_def)
      have "server_services (pe_ServiceID peer) = Some (pe_Capabilities peer)"
        using auth_run_inv [OF run] peer(2) by (auto simp: auth_inv_def session_ok_def)
      then have auth: "authenticated peer (EAuth ?e # sv_history s)" using peer(1) by (auto simp: authenticated_def)
      have "\<exists>phase ep' s'. st = (phase, ep', s') \<and> sv_auth s' = a \<and> sv_history s' = EAuth ?e # sv_history s
          \<and> (phase = Closed \<or> phase = Live peer \<and> se_peerCapabilities ep' = pe_Capabilities peer)"
        using step Inr u False resp v ok
        by (auto simp: on_response_def Let_def split_beta json_Marshal_def SetPeerCapabilities_def dest!: ServerEndpoint_Send_keeps split: option.splits)
      then show ?thesis using run auth server_inv_event [OF inv, of _ ?e] by (auto simp: step_ok_def)
    qed
  qed
qed

lemma on_message_ok:
  assumes inv: "server_inv secret s" and live: "conn_inv s (Live peer) ep"
    and step: "on_message render alog csend (server_router alog ck) peer received ep s = Some st"
  shows "step_ok secret s st"
proof (cases received)
  case (Inl e)
  then show ?thesis using step inv by (auto simp: on_message_def step_ok_same)
next
  case (Inr m)
  let ?now = "fst (time_Now s)" and ?s = "snd (time_Now s)"
  show ?thesis
  proof (cases "IsExpired peer ?now")
    case True
    then show ?thesis using step inv Inr by (auto simp: on_message_def Let_def split_beta step_ok_same)
  next
    case fresh: False
    show ?thesis
    proof (cases "ValidateCapability (m_Capability m) ep")
      case (Some err)
      then show ?thesis
        using step inv Inr fresh live
        by (auto simp: on_message_def Let_def split_beta intro!: step_ok_same dest!: send_error_effects split: option.splits)
    next
      case None
      let ?d = "Router_Dispatch (server_router alog ck) m (record_event (EDispatch peer m ?now) ?s)"
      have cap: "m_Capability m = [] \<or> m_Capability m \<in> set (pe_Capabilities peer)"
        using None live by (auto simp: ValidateCapability_def split: if_splits)
      have hist: "history_ok (EDispatch peer m ?now # sv_history s)"
        using inv live fresh cap by (simp add: server_inv_def authorised_def)
      have "\<exists>phase ep' s'. st = (phase, ep', s') \<and> sv_auth s' = sv_auth (snd ?d) \<and> sv_history s' = sv_history (snd ?d)
          \<and> (phase = Closed \<or> phase = Live peer \<and> se_peerCapabilities ep' = se_peerCapabilities ep)"
        using step Inr fresh None
        by (auto simp: on_message_def Let_def split_beta dest!: send_error_effects ServerEndpoint_Send_keeps split: option.splits prod.splits)
      then show ?thesis
        using hist inv live by (auto simp: step_ok_def server_inv_def dispatch_effects authenticated_Cons)
    qed
  qed
qed

lemma conn_step_ok:
  assumes "server_inv secret s" and "conn_inv s phase ep"
    and "conn_step render alog csend crecv (server_router alog ck) (phase, ep, s) = Some st"
  shows "step_ok secret s st"
proof -
  obtain received ep1 where r: "ServerEndpoint_Receive crecv ep = Some (received, ep1)"
    using assms(3) by (auto simp: conn_step_def split: option.splits)
  have caps: "se_peerCapabilities ep1 = se_peerCapabilities ep" using ServerEndpoint_Receive_keeps [OF r] by blast
  show ?thesis
  proof (cases phase)
    case AwaitAuth
    then show ?thesis using assms(3) r on_auth_ok [OF assms(1)] by (simp add: conn_step_def on_received_def)
  next
    case (AwaitResponse sid rid)
    then show ?thesis using assms(3) r on_response_ok [OF assms(1)] by (simp add: conn_step_def on_received_def)
  next
    case (Live peer)
    then have "conn_inv s (Live peer) ep1" using assms(2) caps by simp
    then show ?thesis using Live assms(3) r on_message_ok [OF assms(1)] by (simp add: conn_step_def on_received_def)
  next
    case Closed
    then show ?thesis using assms(1,3) r by (auto simp: conn_step_def on_received_def step_ok_same)
  qed
qed

section \<open>The accept loop\<close>

text \<open>The goroutines of the process, by a number given at \<open>Accept\<close>, and the tokens in \<open>connSem\<close>.\<close>

record ('c, 'l) World =
  wd_conns :: "nat \<rightharpoonup> conn_phase \<times> 'c ServerEndpoint"
  wd_next :: nat
  wd_slots :: nat
  wd_server :: "'l Server"

definition accept_conn :: "'l Logger \<Rightarrow> ('c \<Rightarrow> string) \<Rightarrow> nat \<Rightarrow> bytes \<Rightarrow> 'c \<Rightarrow> ('c, 'l) World \<Rightarrow> ('c, 'l) World" where
  "accept_conn alog remoteAddr maxConns sharedSecret conn w =
     (if wd_slots w < maxConns
      then w\<lparr>wd_conns := (wd_conns w)(wd_next w \<mapsto> (AwaitAuth, NewServerEndpoint conn DefaultCodec sharedSecret)),
             wd_next := wd_next w + 1, wd_slots := wd_slots w + 1\<rparr>
      else w\<lparr>wd_server := audit alog [] (remoteAddr conn) ''eipc-server'' ''connect'' ''denied''
               (Sprintf ''connection limit exceeded'' []) (wd_server w)\<rparr>)"

text \<open>The return of \<open>handleConnection\<close>: the deferred functions close the connection and take a token.\<close>

definition finish_conn :: "nat \<Rightarrow> ('c, 'l) World \<Rightarrow> ('c, 'l) World" where
  "finish_conn i w = w\<lparr>wd_conns := (wd_conns w)(i := None), wd_slots := wd_slots w - 1\<rparr>"

text \<open>The goroutine that closes a connection whose peer has not authenticated in time.\<close>

definition auth_timeout :: "('c \<Rightarrow> error option \<times> 'c) \<Rightarrow> conn_phase \<Rightarrow> 'c ServerEndpoint \<Rightarrow> 'c ServerEndpoint" where
  "auth_timeout cclose phase ep =
     (case phase of
        AwaitAuth \<Rightarrow> ep\<lparr>se_conn := snd (cclose (se_conn ep))\<rparr>
      | AwaitResponse _ _ \<Rightarrow> ep\<lparr>se_conn := snd (cclose (se_conn ep))\<rparr>
      | _ \<Rightarrow> ep)"

text \<open>One tick of the goroutine that removes expired sessions.\<close>

definition session_cleanup :: "time \<Rightarrow> string list \<Rightarrow> 'l Server \<Rightarrow> 'l Server" where
  "session_cleanup now ks s = s\<lparr>sv_auth := snd (CleanupExpired (sv_auth s) now ks)\<rparr>"

text \<open>
  The reachable states. A phase runs without interruption; everything else interleaves. The
  network may put any connection into any state at any time.
\<close>

inductive server_run ::
  "(gotext \<Rightarrow> string) \<Rightarrow> 'l Logger \<Rightarrow> (frame \<Rightarrow> 'c \<Rightarrow> (error option \<times> 'c) option) \<Rightarrow> ('c \<Rightarrow> (frame result \<times> 'c) option)
    \<Rightarrow> nat \<Rightarrow> bytes \<Rightarrow> ('c, 'l) World \<Rightarrow> bool"
  for render alog csend crecv maxConns secret where
  start: "server_run render alog csend crecv maxConns secret
     \<lparr>wd_conns = Map.empty, wd_next = 0, wd_slots = 0, wd_server = new_server secret ttl lg clock rnd\<rparr>"
| accepted: "server_run render alog csend crecv maxConns secret w \<Longrightarrow>
     server_run render alog csend crecv maxConns secret (accept_conn alog remoteAddr maxConns secret conn w)"
| stepped: "server_run render alog csend crecv maxConns secret w \<Longrightarrow> wd_conns w i = Some (phase, ep) \<Longrightarrow> phase \<noteq> Closed \<Longrightarrow>
     conn_step render alog csend crecv (server_router alog server_checker) (phase, ep, wd_server w) = Some (phase', ep', s') \<Longrightarrow>
     server_run render alog csend crecv maxConns secret (w\<lparr>wd_conns := (wd_conns w)(i \<mapsto> (phase', ep')), wd_server := s'\<rparr>)"
| network: "server_run render alog csend crecv maxConns secret w \<Longrightarrow> wd_conns w i = Some (phase, ep) \<Longrightarrow>
     server_run render alog csend crecv maxConns secret (w\<lparr>wd_conns := (wd_conns w)(i \<mapsto> (phase, ep\<lparr>se_conn := c\<rparr>))\<rparr>)"
| timeout: "server_run render alog csend crecv maxConns secret w \<Longrightarrow> wd_conns w i = Some (phase, ep) \<Longrightarrow>
     server_run render alog csend crecv maxConns secret (w\<lparr>wd_conns := (wd_conns w)(i \<mapsto> (phase, auth_timeout cclose phase ep))\<rparr>)"
| finished: "server_run render alog csend crecv maxConns secret w \<Longrightarrow> wd_conns w i = Some (Closed, ep) \<Longrightarrow>
     server_run render alog csend crecv maxConns secret (finish_conn i w)"
| cleaned: "server_run render alog csend crecv maxConns secret w \<Longrightarrow> map_order (au_activeSessions (sv_auth (wd_server w))) ks \<Longrightarrow>
     server_run render alog csend crecv maxConns secret (w\<lparr>wd_server := session_cleanup now ks (wd_server w)\<rparr>)"

definition world_inv :: "nat \<Rightarrow> bytes \<Rightarrow> ('c, 'l) World \<Rightarrow> bool" where
  "world_inv maxConns secret w \<longleftrightarrow> server_inv secret (wd_server w)
     \<and> (\<forall>i phase ep. wd_conns w i = Some (phase, ep) \<longrightarrow> i < wd_next w \<and> conn_inv (wd_server w) phase ep)
     \<and> card (dom (wd_conns w)) = wd_slots w \<and> wd_slots w \<le> maxConns"

lemma world_inv_finite: "world_inv maxConns secret w \<Longrightarrow> finite (dom (wd_conns w))"
proof -
  assume "world_inv maxConns secret w"
  then have "dom (wd_conns w) \<subseteq> {..<wd_next w}" by (auto simp: world_inv_def)
  then show ?thesis using finite_subset by blast
qed

lemma conn_inv_mono: "conn_inv s phase ep \<Longrightarrow> sv_history s' = new @ sv_history s \<Longrightarrow> conn_inv s' phase ep"
  by (auto simp: conn_inv_def authenticated_mono split: conn_phase.splits)

lemma server_run_inv: "server_run render alog csend crecv maxConns secret w \<Longrightarrow> world_inv maxConns secret w"
proof (induction rule: server_run.induct)
  case (start ttl lg clock rnd)
  have "auth_run secret server_services (SetSessionTTL (NewAuthenticator secret server_services) ttl) []"
    by (rule auth_run.set_ttl [OF auth_run.start])
  then show ?case by (simp add: world_inv_def server_inv_def new_server_def)
next
  case (accepted w remoteAddr conn)
  show ?case
  proof (cases "wd_slots w < maxConns")
    case True
    have "wd_next w \<notin> dom (wd_conns w)" using accepted.IH by (force simp: world_inv_def)
    then show ?thesis
      using accepted.IH True world_inv_finite [OF accepted.IH] by (auto simp: world_inv_def accept_conn_def intro: less_SucI)
  next
    case False
    then show ?thesis
      using accepted.IH by (auto simp: world_inv_def accept_conn_def server_inv_def)
  qed
next
  case (stepped w i phase ep phase' ep' s')
  have "server_inv secret (wd_server w)" "conn_inv (wd_server w) phase ep"
    using stepped.IH stepped.hyps(2) unfolding world_inv_def by blast+
  from conn_step_ok [OF this stepped.hyps(4)] have ok: "step_ok secret (wd_server w) (phase', ep', s')" .
  then obtain new where new: "sv_history s' = new @ sv_history (wd_server w)" by (auto simp: step_ok_def)
  have "dom ((wd_conns w)(i \<mapsto> (phase', ep'))) = dom (wd_conns w)" using stepped.hyps(2) by auto
  moreover have "conn_inv s' ph e" if "wd_conns w j = Some (ph, e)" for j ph e
    using stepped.IH that conn_inv_mono [OF _ new] unfolding world_inv_def by blast
  ultimately show ?case
    using stepped.IH stepped.hyps(2) ok by (auto simp: world_inv_def step_ok_def)
next
  case (network w i phase ep c)
  have "dom ((wd_conns w)(i \<mapsto> (phase, ep\<lparr>se_conn := c\<rparr>))) = dom (wd_conns w)" using network.hyps(2) by auto
  then show ?case using network by (auto simp: world_inv_def conn_inv_def split: conn_phase.splits)
next
  case (timeout w i phase ep cclose)
  have "dom ((wd_conns w)(i \<mapsto> (phase, auth_timeout cclose phase ep))) = dom (wd_conns w)" using timeout.hyps(2) by auto
  then show ?case using timeout by (auto simp: world_inv_def conn_inv_def auth_timeout_def split: conn_phase.splits)
next
  case (finished w i ep)
  then have "i \<in> dom (wd_conns w)" by auto
  then show ?case using finished.IH world_inv_finite [OF finished.IH] by (auto simp: world_inv_def finish_conn_def)
next
  case (cleaned w ks now)
  obtain n a where "CleanupExpired (sv_auth (wd_server w)) now ks = (n, a)" by fastforce
  then have "auth_run secret server_services a (auth_events (sv_history (wd_server w)))"
    using auth_run.cleaned cleaned by (auto simp: world_inv_def server_inv_def)
  then show ?case
    using cleaned \<open>CleanupExpired _ _ _ = _\<close> by (auto simp: world_inv_def server_inv_def session_cleanup_def)
qed

lemma history_ok_split:
  "history_ok (later @ EDispatch p m now # earlier) \<Longrightarrow> authenticated p earlier \<and> authorised p m now"
  by (induction later rule: history_ok.induct) auto

lemma agrees_later: "agrees secret (later @ earlier) \<Longrightarrow> agrees secret earlier"
  by (induction later) auto

lemma auth_events_append: "auth_events (xs @ ys) = auth_events xs @ auth_events ys"
  by (induction xs rule: auth_events.induct) simp_all

section \<open>Properties\<close>


text \<open>
  C7: The connection limit holds: never more than \<open>maxConns\<close> connections are open at once, and the
  tokens in the semaphore count them exactly, so a closed connection makes room for a new one.
\<close>

theorem server_connection_limit:
  assumes "server_run render alog csend crecv maxConns secret w"
  shows "finite (dom (wd_conns w)) \<and> card (dom (wd_conns w)) \<le> maxConns \<and> wd_slots w = card (dom (wd_conns w))"
  using server_run_inv [OF assms] world_inv_finite by (auto simp: world_inv_def)

theorem server_connection_limit_witness:
  "let w = accept_conn (\<lambda>_ l. (None, l)) (\<lambda>_. []) 1 [1] (open_conn [])
        (accept_conn (\<lambda>_ l. (None, l)) (\<lambda>_. []) 1 [1] (open_conn [])
          \<lparr>wd_conns = Map.empty, wd_next = 0, wd_slots = 0, wd_server = new_server [1] Hour () (\<lambda>_. 0) (\<lambda>_. Inr [])\<rparr>)
   in server_run (\<lambda>_. []) (\<lambda>_ l. (None, l)) tcp_send tcp_recv 1 [1] w \<and> card (dom (wd_conns w)) \<le> 1 \<and> wd_slots w = 1"
proof -
  let ?w = "accept_conn (\<lambda>_ l. (None, l)) (\<lambda>_. []) 1 [1] (open_conn [])
      \<lparr>wd_conns = Map.empty, wd_next = 0, wd_slots = 0, wd_server = new_server [1] Hour () (\<lambda>_. 0) (\<lambda>_. Inr [])\<rparr>"
  have run: "server_run (\<lambda>_. []) (\<lambda>_ l. (None, l)) tcp_send tcp_recv 1 [1] (accept_conn (\<lambda>_ l. (None, l)) (\<lambda>_. []) 1 [1] (open_conn []) ?w)"
    by (intro server_run.accepted server_run.start)
  from server_connection_limit [OF this] run show ?thesis by (simp add: Let_def accept_conn_def audit_def)
qed

text \<open>The capability each action of the handlers needs.\<close>

lemma server_checker_actions:
  "Checker_Check server_checker [cap] ''ui.cursor.move'' = None \<longleftrightarrow> cap = ''ui:control''"
  "Checker_Check server_checker [cap] ''ai.chat.send'' = None \<longleftrightarrow> cap = ''ai:chat''"
  "Checker_Check server_checker [cap] ''ai.complete.send'' = None \<longleftrightarrow> cap = ''ai:chat''"
  by (auto simp: server_checker_def NewChecker_def server_allowlist_def)

lemma chat_reply_capability:
  "fst (chat_handler alog server_checker m s) = (Some reply, None) \<Longrightarrow> m_Capability m = ''ai:chat''"
  "fst (complete_handler alog server_checker m s) = (Some reply, None) \<Longrightarrow> m_Capability m = ''ai:chat''"
  "fst (intent_handler alog server_checker m s) = (Some reply, None) \<Longrightarrow> m_Capability m = ''ui:control''"
proof -
  show "fst (chat_handler alog server_checker m s) = (Some reply, None) \<Longrightarrow> m_Capability m = ''ai:chat''"
    by (rule server_checker_actions(2) [THEN iffD1]) (auto simp: chat_handler_def simp del: Checker_Check.simps split: option.splits prod.splits)
  show "fst (complete_handler alog server_checker m s) = (Some reply, None) \<Longrightarrow> m_Capability m = ''ai:chat''"
    by (rule server_checker_actions(3) [THEN iffD1]) (auto simp: complete_handler_def simp del: Checker_Check.simps split: option.splits prod.splits)
  show "fst (intent_handler alog server_checker m s) = (Some reply, None) \<Longrightarrow> m_Capability m = ''ui:control''"
    by (rule server_checker_actions(1) [THEN iffD1]) (auto simp: intent_handler_def simp del: Checker_Check.simps split: option.splits prod.splits)
qed

lemma services_with_chat: "server_services sid = Some caps \<Longrightarrow> ''ai:chat'' \<in> set caps \<Longrightarrow> sid = ''ebot.client''"
  "server_services sid = Some caps \<Longrightarrow> ''ui:control'' \<in> set caps \<Longrightarrow> sid \<noteq> ''ebot.client''"
  by (auto simp: server_services_def split: if_splits)


section \<open>Connections end\<close>

text \<open>Over TCP a call of \<open>Send\<close> returns and leaves the input alone; \<open>Receive\<close> returns and consumes input or fails.\<close>

definition tcp_sent :: "Message \<Rightarrow> netconn ServerEndpoint \<Rightarrow> error option \<times> netconn ServerEndpoint" where
  "tcp_sent m ep = the (ServerEndpoint_Send tcp_send m ep)"

lemma ConnWrapper_Send_input: "nc_in (snd (ConnWrapper_Send f c)) = nc_in c"
  by (auto simp: ConnWrapper_Send_def netconn_Write_def Let_def split: prod.split option.split)

lemma tcp_send_total:
  "ServerEndpoint_Send tcp_send m ep = Some (tcp_sent m ep)" "nc_in (se_conn (snd (tcp_sent m ep))) = nc_in (se_conn ep)"
  by (auto simp: tcp_sent_def ServerEndpoint_Send_def Let_def ConnWrapper_Send_input split_beta split: sum.split)

lemma stream_Receive_consumes: "stream_Receive s = (Inr f, s') \<Longrightarrow> length s' < length s"
  by (auto simp: stream_Receive_def stream_ReadFull_def Let_def split: if_splits sum.splits prod.splits)

lemma tcp_receive_consumes:
  assumes "ConnWrapper_Receive c = (Inr f, c')"
  shows "length (concat (nc_in c')) < length (concat (nc_in c))"
proof (cases "nc_closed c")
  case True
  then show ?thesis using assms by (simp add: ConnWrapper_Receive_def io_ReadFull_def netconn_Read_def eval_nat_numeral)
next
  case False
  from ConnWrapper_Receive_stream [OF this] assms stream_Receive_consumes show ?thesis
    by (metis Pair_inject prod.collapse)
qed

definition tcp_input :: "netconn ServerEndpoint \<Rightarrow> nat" where
  "tcp_input ep = length (concat (nc_in (se_conn ep)))"

lemma tcp_input_sent [simp]: "tcp_input (snd (tcp_sent m ep)) = tcp_input ep"
  by (simp add: tcp_input_def tcp_send_total)

lemma tcp_ServerEndpoint_Receive:
  "\<exists>r ep'. ServerEndpoint_Receive tcp_recv ep = Some (r, ep') \<and> (\<forall>m. r = Inr m \<longrightarrow> tcp_input ep' < tcp_input ep)"
proof -
  obtain r c where rc: "ConnWrapper_Receive (se_conn ep) = (r, c)" by fastforce
  show ?thesis
    using rc tcp_receive_consumes [of "se_conn ep"]
    by (auto simp: ServerEndpoint_Receive_def tcp_input_def Let_def split: sum.split prod.split option.split)
qed

text \<open>A phase returns; a failed \<open>Receive\<close> ends the connection, and no phase touches the input.\<close>

definition phase_ends :: "Message result \<Rightarrow> netconn ServerEndpoint \<Rightarrow> (conn_phase \<times> netconn ServerEndpoint \<times> 'l Server) option \<Rightarrow> bool" where
  "phase_ends received ep res \<longleftrightarrow> (\<exists>phase ep' s. res = Some (phase, ep', s)
     \<and> (phase = Closed \<or> received \<in> range Inr \<and> tcp_input ep' = tcp_input ep))"

lemmas phase_simps = Let_def split_beta json_Marshal_def tcp_send_total(1) phase_ends_def

lemma deny_auth_tcp: "\<exists>ep' s'. deny_auth render alog tcp_send sid rid res err ep s = Some (ep', s') \<and> tcp_input ep' = tcp_input ep"
  by (simp add: deny_auth_def phase_simps)

lemma send_error_tcp: "\<exists>ep' s'. send_error render tcp_send msg err ep s = Some (ep', s') \<and> tcp_input ep' = tcp_input ep"
  by (simp add: send_error_def phase_simps)

lemma on_auth_tcp: "phase_ends received ep (on_auth render alog tcp_send received ep s)"
proof (cases received)
  case (Inr m)
  obtain e sid where u: "json_Unmarshal auth_request_fields (m_Payload m) [] = (e, sid)" by fastforce
  let ?s = "snd (time_Now (snd (rand_Read s)))"
  obtain res a where c: "CreateChallenge (sv_auth ?s) sid (fst (rand_Read s)) (fst (time_Now (snd (rand_Read s)))) = (res, a)" by fastforce
  show ?thesis
  proof (cases res)
    case (Inl err)
    then show ?thesis
      using Inr u c deny_auth_tcp [of render alog sid "m_RequestID m" "ErrorText err" err ep "?s\<lparr>sv_auth := a\<rparr>"]
      by (cases e) (auto simp: on_auth_def phase_simps)
  next
    case chal: (Inr ch)
    then show ?thesis using Inr u c by (cases e) (auto simp: on_auth_def phase_simps split: option.split)
  qed
qed (simp add: on_auth_def phase_ends_def)

lemma on_response_tcp: "phase_ends received ep (on_response render alog tcp_send sid rid received ep s)"
proof (cases received)
  case (Inr m)
  obtain e cr where u: "json_Unmarshal challenge_response_fields (m_Payload m) zeroChallengeResponse = (e, cr)" by fastforce
  let ?s = "snd (time_Now (snd (rand_Read s)))"
  show ?thesis
  proof (cases "hex_DecodeString (xr_Response cr)")
    case (Inl err)
    then show ?thesis using Inr u by (cases e) (auto simp: on_response_def phase_simps)
  next
    case resp: (Inr resp)
    obtain res a where v: "VerifyResponse (sv_auth ?s) sid resp (fst (rand_Read s)) (fst (time_Now (snd (rand_Read s)))) = (res, a)" by fastforce
    have caps: "tcp_input (SetPeerCapabilities caps ep) = tcp_input ep" for caps by (simp add: tcp_input_def SetPeerCapabilities_def)
    show ?thesis
    proof (cases res)
      case (Inl err)
      then show ?thesis
        using Inr u v resp deny_auth_tcp [of render alog sid rid "Sprintf ''challenge-response failed'' []" err ep
            "record_event (EAuth (Rejected sid)) (?s\<lparr>sv_auth := a\<rparr>)"]
        by (cases e) (auto simp: on_response_def phase_simps)
    next
      case ok: (Inr peer)
      then show ?thesis using Inr u v resp caps by (cases e) (auto simp: on_response_def phase_simps split: option.split)
    qed
  qed
qed (simp add: on_response_def phase_ends_def)

lemma on_message_tcp: "phase_ends received ep (on_message render alog tcp_send router peer received ep s)"
proof (cases received)
  case (Inr m)
  let ?now = "fst (time_Now s)" and ?s = "snd (time_Now s)"
  let ?d = "Router_Dispatch router m (record_event (EDispatch peer m ?now) ?s)"
  obtain resp err s' where d: "?d = ((resp, err), s')" by (metis prod.collapse)
  show ?thesis
  proof (cases "ValidateCapability (m_Capability m) ep")
    case (Some e)
    then show ?thesis
      using Inr send_error_tcp [of render m e ep "audit alog (m_RequestID m) (pe_ServiceID peer) ''eipc-server'' (m_Capability m) ''denied''
        (Sprintf ''capability violation'' []) ?s"]
      by (auto simp: on_message_def phase_simps)
  next
    case None
    show ?thesis
    proof (cases err)
      case (Some e)
      then show ?thesis using Inr None d send_error_tcp [of render m e ep s'] by (cases resp) (auto simp: on_message_def phase_simps)
    next
      case ok: None
      then show ?thesis using Inr None d by (cases resp) (auto simp: on_message_def phase_simps split: option.split)
    qed
  qed
qed (simp add: on_message_def phase_ends_def)

lemma conn_step_tcp:
  assumes "phase \<noteq> Closed"
  shows "\<exists>phase' ep' s'. conn_step render alog tcp_send tcp_recv router (phase, ep, s) = Some (phase', ep', s')
    \<and> (phase' = Closed \<or> tcp_input ep' < tcp_input ep)"
proof -
  obtain r ep1 where r: "ServerEndpoint_Receive tcp_recv ep = Some (r, ep1)" "\<And>m. r = Inr m \<Longrightarrow> tcp_input ep1 < tcp_input ep"
    using tcp_ServerEndpoint_Receive by blast
  have "phase_ends r ep1 (conn_step render alog tcp_send tcp_recv router (phase, ep, s))"
    using assms r(1) on_auth_tcp on_response_tcp on_message_tcp by (cases phase) (auto simp: conn_step_def on_received_def)
  then show ?thesis using r(2) by (auto simp: phase_ends_def)
qed

lemma conn_loop_tcp: "\<exists>st. conn_loop render alog tcp_send tcp_recv router (phase, ep, s) = Some st"
proof (induction "tcp_input ep" arbitrary: phase ep s rule: less_induct)
  case less
  show ?case
  proof (cases "phase = Closed")
    case True
    then show ?thesis by (simp add: conn_loop.simps)
  next
    case False
    from conn_step_tcp [OF this] obtain phase' ep' s' where
      st: "conn_step render alog tcp_send tcp_recv router (phase, ep, s) = Some (phase', ep', s')"
        "phase' = Closed \<or> tcp_input ep' < tcp_input ep" by blast
    have "\<exists>st. conn_loop render alog tcp_send tcp_recv router (phase', ep', s') = Some st"
      using st(2) less by (cases "phase' = Closed") (auto simp: conn_loop.simps [of _ _ _ _ _ "(Closed, _)"])
    then show ?thesis using st(1) False by (subst conn_loop.simps) simp
  qed
qed


end
