(* ===== verification/Client.thy ===== *)
theory Client
  imports Endpoint Events Hex
begin

text \<open>
  \<^verbatim>\<open>cmd/eipc-client/main.go\<close> and \<^verbatim>\<open>cmd/eipc-cli/main.go\<close>: the demonstration client, cut at its calls
  of \<open>endpoint.Receive\<close>, and the commands of the debugging tool once the connection is
  dialled. \<open>log.Fatalf\<close> ends the process with an error; printed output is not modelled beyond the outcome.
\<close>

section \<open>The demonstration client\<close>

text \<open>The phases of \<open>main\<close>: what it waits for, the end of the run, or the error that stopped it.\<close>

datatype client_phase = CChallenge | CResult | CAck string | CDone AckEvent | CFatal error

record 'c Client =
  cl_endpoint :: "'c ClientEndpoint"
  cl_clock :: "nat \<Rightarrow> time"

definition client_Now :: "'c Client \<Rightarrow> time \<times> 'c Client" where
  "client_Now cl = (cl_clock cl 0, cl\<lparr>cl_clock := \<lambda>n. cl_clock cl (Suc n)\<rparr>)"

definition client_serviceID :: string where "client_serviceID = ''nia.min''"

definition client_message :: "time \<Rightarrow> MessageType \<Rightarrow> string \<Rightarrow> string \<Rightarrow> Priority \<Rightarrow> string \<Rightarrow> bytes \<Rightarrow> Message" where
  "client_message now t sessionID requestID prio cap payload =
     \<lparr>m_Version = core_ProtocolVersion, m_Type = t, m_Source = client_serviceID, m_Timestamp = now, m_SessionID = sessionID,
      m_RequestID = requestID, m_Priority = prio, m_Capability = cap, m_Payload = payload\<rparr>"

text \<open>Send a message, then wait in the given phase; an error of \<open>Send\<close> is fatal.\<close>

definition client_send ::
  "(frame \<Rightarrow> 'c \<Rightarrow> (error option \<times> 'c) option) \<Rightarrow> string \<Rightarrow> Message \<Rightarrow> client_phase \<Rightarrow> 'c Client \<Rightarrow> (client_phase \<times> 'c Client) option" where
  "client_send csend what msg next cl =
     (case ClientEndpoint_Send csend msg (cl_endpoint cl) of
       None \<Rightarrow> None
     | Some (Some e, ep) \<Rightarrow> Some (CFatal (wrap_err what e), cl\<lparr>cl_endpoint := ep\<rparr>)
     | Some (None, ep) \<Rightarrow> Some (next, cl\<lparr>cl_endpoint := ep\<rparr>))"

text \<open>Step 1: the authentication request.\<close>

definition client_start ::
  "(frame \<Rightarrow> 'c \<Rightarrow> (error option \<times> 'c) option) \<Rightarrow> 'c Client \<Rightarrow> (client_phase \<times> 'c Client) option" where
  "client_start csend cl =
     (case json_Marshal [(''service_id'', FStr client_serviceID)] of
       Inl e \<Rightarrow> Some (CFatal (wrap_err ''marshal auth request: %v'' e), cl)
     | Inr authPayload \<Rightarrow>
        (let (now, cl) = client_Now cl
         in client_send csend ''send auth request: %v'' (client_message now TypeAuth '''' '''' 0 '''' authPayload) CChallenge cl))"

record clientChallenge =
  xc_Status :: string
  xc_Nonce :: string
  xc_Error :: string

definition client_challenge_fields :: "(string \<times> clientChallenge setter) list" where
  "client_challenge_fields =
     [(''status'', set_string (\<lambda>s r. r\<lparr>xc_Status := s\<rparr>)), (''nonce'', set_string (\<lambda>s r. r\<lparr>xc_Nonce := s\<rparr>)),
      (''error'', set_string (\<lambda>s r. r\<lparr>xc_Error := s\<rparr>))]"

definition zeroClientChallenge :: clientChallenge where
  "zeroClientChallenge = \<lparr>xc_Status = '''', xc_Nonce = '''', xc_Error = ''''\<rparr>"

text \<open>Steps 2 and 3: the challenge, and its HMAC.\<close>

definition client_on_challenge ::
  "(frame \<Rightarrow> 'c \<Rightarrow> (error option \<times> 'c) option) \<Rightarrow> bytes \<Rightarrow> Message result \<Rightarrow> 'c Client \<Rightarrow> (client_phase \<times> 'c Client) option" where
  "client_on_challenge csend sharedSecret received cl =
     (case received of
       Inl e \<Rightarrow> Some (CFatal (wrap_err ''receive challenge: %v'' e), cl)
     | Inr challengeMsg \<Rightarrow>
        (if m_Type challengeMsg \<noteq> TypeChallenge
         then Some (CFatal (Errorf ''[AUTH] expected TypeChallenge, got %s'' [AStr (m_Type challengeMsg)]), cl)
         else case json_Unmarshal client_challenge_fields (m_Payload challengeMsg) zeroClientChallenge of
           (Some e, _) \<Rightarrow> Some (CFatal (wrap_err ''unmarshal challenge: %v'' e), cl)
         | (None, challenge) \<Rightarrow>
            (if xc_Status challenge = ''denied'' then Some (CFatal (Errorf ''[AUTH] rejected: %s'' [AStr (xc_Error challenge)]), cl)
             else case hex_DecodeString (xc_Nonce challenge) of
               Inl e \<Rightarrow> Some (CFatal (wrap_err ''decode nonce: %v'' e), cl)
             | Inr nonceBytes \<Rightarrow>
                (let response = hmac_Sum sharedSecret nonceBytes
                 in case json_Marshal [(''service_id'', FStr client_serviceID), (''response'', FStr (hex_EncodeToString response))] of
                      Inl e \<Rightarrow> Some (CFatal (wrap_err ''marshal challenge response: %v'' e), cl)
                    | Inr chalRespPayload \<Rightarrow>
                       (let (now, cl) = client_Now cl
                        in client_send csend ''send auth response: %v''
                             (client_message now TypeAuthResponse '''' '''' 0 '''' chalRespPayload) CResult cl)))))"

record authResult =
  xa_Status :: string
  xa_SessionToken :: string
  xa_Capabilities :: "string list"
  xa_Error :: string

definition auth_result_fields :: "(string \<times> authResult setter) list" where
  "auth_result_fields =
     [(''status'', set_string (\<lambda>s r. r\<lparr>xa_Status := s\<rparr>)), (''session_token'', set_string (\<lambda>s r. r\<lparr>xa_SessionToken := s\<rparr>)),
      (''capabilities'', set_strings (\<lambda>s r. r\<lparr>xa_Capabilities := s\<rparr>)), (''error'', set_string (\<lambda>s r. r\<lparr>xa_Error := s\<rparr>))]"

definition zeroAuthResult :: authResult where
  "zeroAuthResult = \<lparr>xa_Status = '''', xa_SessionToken = '''', xa_Capabilities = [], xa_Error = ''''\<rparr>"

text \<open>Steps 4 and 5: the session token, whatever the status, and the intent.\<close>

definition client_on_result ::
  "(frame \<Rightarrow> 'c \<Rightarrow> (error option \<times> 'c) option) \<Rightarrow> Message result \<Rightarrow> 'c Client \<Rightarrow> (client_phase \<times> 'c Client) option" where
  "client_on_result csend received cl =
     (case received of
       Inl e \<Rightarrow> Some (CFatal (wrap_err ''receive auth response: %v'' e), cl)
     | Inr authResp \<Rightarrow>
        (if m_Type authResp \<noteq> TypeAuthResponse
         then Some (CFatal (Errorf ''[AUTH] expected TypeAuthResponse, got %s'' [AStr (m_Type authResp)]), cl)
         else case json_Unmarshal auth_result_fields (m_Payload authResp) zeroAuthResult of
           (Some e, _) \<Rightarrow> Some (CFatal (wrap_err ''unmarshal auth response: %v'' e), cl)
         | (None, authRes) \<Rightarrow>
            (let sessionToken = xa_SessionToken authRes
             in case json_Marshal (intent_members \<lparr>ie_Intent = ''move_left'', ie_Confidence = bytes_of_string ''0.91'',
                        ie_SessionID = sessionToken\<rparr>) of
                  Inl e \<Rightarrow> Some (CFatal (wrap_err ''marshal intent: %v'' e), cl)
                | Inr intentPayload \<Rightarrow>
                   (let (now, cl) = client_Now cl
                    in client_send csend ''send intent: %v''
                         (client_message now TypeIntent sessionToken ''req-1'' PriorityP0 ''ui:control'' intentPayload)
                         (CAck sessionToken) cl))))"

text \<open>Steps 6 and 7: the acknowledgment, the heartbeat and the end.\<close>

definition client_on_ack ::
  "(frame \<Rightarrow> 'c \<Rightarrow> (error option \<times> 'c) option) \<Rightarrow> ('c \<Rightarrow> error option \<times> 'c) \<Rightarrow> string \<Rightarrow> Message result \<Rightarrow> 'c Client
    \<Rightarrow> (client_phase \<times> 'c Client) option" where
  "client_on_ack csend cclose sessionToken received cl =
     (case received of
       Inl e \<Rightarrow> Some (CFatal (wrap_err ''receive ack: %v'' e), cl)
     | Inr ackMsg \<Rightarrow>
        (case json_Unmarshal ack_fields (m_Payload ackMsg) zeroAckEvent of
           (Some e, _) \<Rightarrow> Some (CFatal (wrap_err ''unmarshal ack: %v'' e), cl)
         | (None, ack) \<Rightarrow>
            (case json_Marshal (heartbeat_members \<lparr>hb_Service = client_serviceID, hb_Status = ''ready''\<rparr>) of
               Inl e \<Rightarrow> Some (CFatal (wrap_err ''marshal heartbeat: %v'' e), cl)
             | Inr hbPayload \<Rightarrow>
                (let (now, cl) = client_Now cl
                 in case client_send csend ''send heartbeat: %v''
                           (client_message now TypeHeartbeat sessionToken ''hb-1'' PriorityP2 '''' hbPayload) (CDone ack) cl of
                      None \<Rightarrow> None
                    | Some (phase, cl) \<Rightarrow>
                       Some (phase, if phase = CDone ack then cl\<lparr>cl_endpoint := snd (ClientEndpoint_Close cclose (cl_endpoint cl))\<rparr> else cl)))))"

definition client_received ::
  "(frame \<Rightarrow> 'c \<Rightarrow> (error option \<times> 'c) option) \<Rightarrow> ('c \<Rightarrow> error option \<times> 'c) \<Rightarrow> bytes \<Rightarrow> client_phase \<Rightarrow> Message result \<Rightarrow> 'c Client
    \<Rightarrow> (client_phase \<times> 'c Client) option" where
  "client_received csend cclose sharedSecret phase received cl =
     (case phase of
        CChallenge \<Rightarrow> client_on_challenge csend sharedSecret received cl
      | CResult \<Rightarrow> client_on_result csend received cl
      | CAck sessionToken \<Rightarrow> client_on_ack csend cclose sessionToken received cl
      | _ \<Rightarrow> Some (phase, cl))"

text \<open>One step of the client: the next \<open>Receive\<close> and what follows it.\<close>

definition client_step ::
  "(frame \<Rightarrow> 'c \<Rightarrow> (error option \<times> 'c) option) \<Rightarrow> ('c \<Rightarrow> (frame result \<times> 'c) option) \<Rightarrow> ('c \<Rightarrow> error option \<times> 'c) \<Rightarrow> bytes
    \<Rightarrow> client_phase \<times> 'c Client \<Rightarrow> (client_phase \<times> 'c Client) option" where
  "client_step csend crecv cclose sharedSecret = (\<lambda>(phase, cl).
     (case ClientEndpoint_Receive crecv (cl_endpoint cl) of
       None \<Rightarrow> None
     | Some (received, ep) \<Rightarrow> client_received csend cclose sharedSecret phase received (cl\<lparr>cl_endpoint := ep\<rparr>)))"

section \<open>The debugging tool\<close>

datatype cli_outcome = CliFatal error | CliNoResponse | CliResponse Message

text \<open>\<open>UnixNano\<close>, which wraps around outside the years 1678 to 2262, in decimal.\<close>

definition unixEpoch :: time where "unixEpoch = 62135596800 * Second"

definition UnixNano :: "time \<Rightarrow> 64 word" where
  "UnixNano t = word_of_int (t - unixEpoch)"

record SendFlags =
  sf_msgType :: string
  sf_payload :: string
  sf_source :: string
  sf_capability :: string

definition defaultSendFlags :: SendFlags where
  "defaultSendFlags = \<lparr>sf_msgType = ''chat'', sf_payload = ''{}'', sf_source = ''eipc-cli'', sf_capability = ''''\<rparr>"

definition cmdSend ::
  "(frame \<Rightarrow> 'c \<Rightarrow> (error option \<times> 'c) option) \<Rightarrow> ('c \<Rightarrow> (frame result \<times> 'c) option) \<Rightarrow> SendFlags \<Rightarrow> bytes \<Rightarrow> time \<Rightarrow> time \<Rightarrow> 'c
    \<Rightarrow> (cli_outcome \<times> 'c ClientEndpoint) option" where
  "cmdSend csend crecv flags hmacKey now now' conn =
     (let ep = NewClientEndpoint conn DefaultCodec hmacKey '''';
          msg = \<lparr>m_Version = core_ProtocolVersion, m_Type = sf_msgType flags, m_Source = sf_source flags, m_Timestamp = now,
                 m_SessionID = '''', m_RequestID = ''cli-'' @ string_of_bytes (int_text (sint (UnixNano now'))),
                 m_Priority = PriorityP1, m_Capability = sf_capability flags, m_Payload = bytes_of_string (sf_payload flags)\<rparr>
      in case ClientEndpoint_Send csend msg ep of
           None \<Rightarrow> None
         | Some (Some e, ep) \<Rightarrow> Some (CliFatal (wrap_err ''send: %v'' e), ep)
         | Some (None, ep) \<Rightarrow>
            (case ClientEndpoint_Receive crecv ep of
               None \<Rightarrow> None
             | Some (Inl e, ep) \<Rightarrow> Some (CliNoResponse, ep)
             | Some (Inr resp, ep) \<Rightarrow> Some (CliResponse resp, ep)))"

definition ping_message :: "time \<Rightarrow> Message" where
  "ping_message now =
     \<lparr>m_Version = core_ProtocolVersion, m_Type = TypeHeartbeat, m_Source = ''eipc-cli'', m_Timestamp = now, m_SessionID = '''',
      m_RequestID = ''ping'', m_Priority = PriorityP0, m_Capability = '''',
      m_Payload = bytes_of_string ''{\"service\":\"eipc-cli\",\"status\":\"ping\"}''\<rparr>"

definition cmdPing ::
  "(frame \<Rightarrow> 'c \<Rightarrow> (error option \<times> 'c) option) \<Rightarrow> ('c \<Rightarrow> (frame result \<times> 'c) option) \<Rightarrow> bytes \<Rightarrow> time \<Rightarrow> 'c
    \<Rightarrow> (cli_outcome \<times> 'c ClientEndpoint) option" where
  "cmdPing csend crecv hmacKey now conn =
     (case ClientEndpoint_Send csend (ping_message now) (NewClientEndpoint conn DefaultCodec hmacKey '''') of
       None \<Rightarrow> None
     | Some (Some e, ep) \<Rightarrow> Some (CliFatal (wrap_err ''send ping: %v'' e), ep)
     | Some (None, ep) \<Rightarrow>
        (case ClientEndpoint_Receive crecv ep of
           None \<Rightarrow> None
         | Some (Inl e, ep) \<Rightarrow> Some (CliNoResponse, ep)
         | Some (Inr resp, ep) \<Rightarrow> Some (CliResponse resp, ep)))"

text \<open>
  The loop of \<open>cmdListen\<close>: the messages printed, and the error that ends it when \<open>n\<close> messages have not come before. It
  may go on as long as messages come.
\<close>

partial_function (option) listen_loop ::
  "('c \<Rightarrow> (frame result \<times> 'c) option) \<Rightarrow> int \<Rightarrow> Message list \<Rightarrow> 'c ClientEndpoint
    \<Rightarrow> (Message list \<times> error option \<times> 'c ClientEndpoint) option" where
  "listen_loop crecv n printed ep =
     (case ClientEndpoint_Receive crecv ep of
       None \<Rightarrow> None
     | Some (res, ep) \<Rightarrow>
        (case res of
           Inl e \<Rightarrow> Some (printed, Some (wrap_err ''receive: %v'' e), ep)
         | Inr msg \<Rightarrow>
            (let printed = printed @ [msg]
             in if n > 0 \<and> int (length printed) \<ge> n then Some (printed, None, ep)
                else listen_loop crecv n printed ep)))"

definition cmdListen ::
  "('c \<Rightarrow> (frame result \<times> 'c) option) \<Rightarrow> int \<Rightarrow> bytes \<Rightarrow> 'c \<Rightarrow> (Message list \<times> error option \<times> 'c ClientEndpoint) option" where
  "cmdListen crecv n hmacKey conn = listen_loop crecv n [] (NewClientEndpoint conn DefaultCodec hmacKey '''')"

end
