(* ===== verification/Session.thy ===== *)
theory Session
  imports ServerRun Client
begin

text \<open>
  A client and a server joined by a TCP connection: the demonstration client of
  \<^verbatim>\<open>cmd/eipc-client\<close> against the connection handler of \<^verbatim>\<open>cmd/eipc-server\<close>, and the debugging tool against
  the same handler. Bytes written by one side arrive at the other cut into segments in any way.
\<close>

section \<open>The connection between two endpoints\<close>

text \<open>Receiving touches nothing but the input.\<close>

lemma ReadFull_loop_input:
  "ReadFull_loop fuel netconn_Read need acc c = Some (r, c') \<Longrightarrow> \<exists>i. c' = c\<lparr>nc_in := i\<rparr>"
proof (induction fuel arbitrary: acc c)
  case 0
  then show ?case by (auto split: if_splits intro: exI [of _ "nc_in c"])
next
  case (Suc fuel)
  obtain bs err c1 where rd: "netconn_Read c (need - length acc) = ((bs, err), c1)" by (metis prod.collapse)
  have "\<exists>i. c1 = c\<lparr>nc_in := i\<rparr>"
  proof (cases "nc_closed c")
    case True
    then have "c1 = c\<lparr>nc_in := nc_in c\<rparr>" using rd by (simp add: netconn_Read_def)
    then show ?thesis ..
  next
    case False
    then show ?thesis using rd by (auto simp: netconn_Read_def split: prod.splits)
  qed
  then obtain i where i: "c1 = c\<lparr>nc_in := i\<rparr>" ..
  show ?case
  proof (cases "need \<le> length acc")
    case True
    then show ?thesis using Suc.prems by (auto intro: exI [of _ "nc_in c"])
  next
    case False
    then show ?thesis
      using Suc.prems rd i Suc.IH [of "acc @ bs" c1] by (auto simp: Let_def split: if_splits option.splits)
  qed
qed

lemma io_ReadFull_input: "\<exists>i. snd (io_ReadFull netconn_Read c n) = c\<lparr>nc_in := i\<rparr>"
  using ReadFull_loop_input [of n n "[]" c]
  by (auto simp: io_ReadFull_def split: option.split intro: exI [of _ "nc_in c"])

lemma ConnWrapper_Receive_input: "\<exists>i. snd (ConnWrapper_Receive c) = c\<lparr>nc_in := i\<rparr>"
proof -
  obtain r1 c1 where c1: "io_ReadFull netconn_Read c 4 = (r1, c1)" by fastforce
  then obtain i where i: "c1 = c\<lparr>nc_in := i\<rparr>" using io_ReadFull_input [of c 4] by auto
  have "\<exists>j. snd (io_ReadFull netconn_Read c1 n) = c\<lparr>nc_in := j\<rparr>" for n using io_ReadFull_input [of c1 n] i by auto
  then show ?thesis
    using c1 i by (cases r1) (auto simp: ConnWrapper_Receive_def Let_def split_beta split: sum.split)
qed

text \<open>What one side has written arrives at the other.\<close>

definition transmit :: "(bytes \<Rightarrow> bytes list) \<Rightarrow> netconn \<Rightarrow> netconn \<Rightarrow> netconn \<times> netconn" where
  "transmit segs c d = (c\<lparr>nc_out := []\<rparr>, d\<lparr>nc_in := nc_in d @ segs (nc_out c)\<rparr>)"

abbreviation frame_of :: "bytes \<Rightarrow> nat \<Rightarrow> Message \<Rightarrow> frame" where
  "frame_of key n m \<equiv> projr (endpoint_frame DefaultCodec key (of_nat n) m)"

text \<open>The two endpoints between messages, having sent \<open>n\<close> and \<open>k\<close>, and with a message on its way.\<close>

definition tcp_quiet :: "netconn \<Rightarrow> bool" where
  "tcp_quiet c \<longleftrightarrow> conn_open c \<and> concat (nc_in c) = []"

definition client_at :: "bytes \<Rightarrow> nat \<Rightarrow> bytes \<Rightarrow> netconn ClientEndpoint \<Rightarrow> bool" where
  "client_at key n out e \<longleftrightarrow> ce_codec e = DefaultCodec \<and> ce_hmacKey e = key \<and> ce_sequence e = of_nat n
     \<and> tcp_quiet (ce_conn e) \<and> nc_out (ce_conn e) = out"

definition server_at :: "bytes \<Rightarrow> nat \<Rightarrow> nat \<Rightarrow> bytes \<Rightarrow> netconn ServerEndpoint \<Rightarrow> bool" where
  "server_at key n k out e \<longleftrightarrow> se_codec e = DefaultCodec \<and> se_hmacKey e = key \<and> se_seq e = of_nat k
     \<and> tcp_quiet (se_conn e) \<and> nc_out (se_conn e) = out
     \<and> (\<exists>H. tracks (se_replay e) H \<and> hist_max H \<le> n)"

lemma client_sends:
  assumes "client_at key n [] e" and "message_ok m"
  shows "\<exists>e'. ClientEndpoint_Send tcp_send m e = Some (None, e') \<and> client_at key (Suc n) (conn_wire (frame_of key (Suc n) m)) e'"
proof -
  obtain f where f: "endpoint_frame DefaultCodec key (of_nat (Suc n)) m = Inr f" by (simp add: endpoint_frame_json)
  then have "frame_fits f" using message_ok_frame [OF assms(2), of key "of_nat (Suc n)"] by (simp add: conn_ok_def frame_wf_def)
  then have "ConnWrapper_Send f (ce_conn e) = (None, (ce_conn e)\<lparr>nc_out := conn_wire f\<rparr>)"
    using assms(1) by (simp add: client_at_def tcp_quiet_def ConnWrapper_Send_open del: of_nat_Suc)
  moreover have "ce_sequence e + 1 = of_nat (Suc n)" using assms(1) by (simp add: client_at_def)
  ultimately show ?thesis
    using assms(1) f by (auto simp: client_at_def ClientEndpoint_Send_def tcp_quiet_def conn_open_def Let_def simp del: of_nat_Suc)
qed

lemma server_sends:
  assumes "server_at key n k [] e" and "message_ok m"
  shows "\<exists>e'. ServerEndpoint_Send tcp_send m e = Some (None, e') \<and> server_at key n (Suc k) (conn_wire (frame_of key (Suc k) m)) e'
    \<and> se_peerCapabilities e' = se_peerCapabilities e"
proof -
  obtain f where f: "endpoint_frame DefaultCodec key (of_nat (Suc k)) m = Inr f" by (simp add: endpoint_frame_json)
  then have "frame_fits f" using message_ok_frame [OF assms(2), of key "of_nat (Suc k)"] by (simp add: conn_ok_def frame_wf_def)
  then have "ConnWrapper_Send f (se_conn e) = (None, (se_conn e)\<lparr>nc_out := conn_wire f\<rparr>)"
    using assms(1) by (simp add: server_at_def tcp_quiet_def ConnWrapper_Send_open del: of_nat_Suc)
  moreover have "se_seq e + 1 = of_nat (Suc k)" using assms(1) by (simp add: server_at_def)
  ultimately show ?thesis
    using assms(1) f by (auto simp: server_at_def ServerEndpoint_Send_def tcp_quiet_def conn_open_def Let_def simp del: of_nat_Suc)
qed

lemma transmit_Receive:
  assumes "tcp_quiet d" and "conn_ok f" and "nc_out c = conn_wire f" and "\<And>b. concat (segs b) = b"
  shows "\<exists>i. ConnWrapper_Receive (snd (transmit segs c d)) = (Inr f, d\<lparr>nc_in := i\<rparr>) \<and> concat i = []"
proof -
  let ?d = "snd (transmit segs c d)"
  have "concat (nc_in ?d) = conn_wire f @ []" "\<not> nc_closed ?d"
    using assms by (simp_all add: transmit_def tcp_quiet_def conn_open_def)
  moreover have "stream_Receive (conn_wire f @ []) = (Inr f, [])"
    using stream_Receive_wire [of f "[]"] assms(2) by (simp add: conn_ok_def)
  ultimately obtain c' where "ConnWrapper_Receive ?d = (Inr f, c')" "concat (nc_in c') = []"
    using ConnWrapper_Receive_stream [of ?d] by auto
  moreover from this obtain i where "c' = ?d\<lparr>nc_in := i\<rparr>" using ConnWrapper_Receive_input [of ?d] by auto
  ultimately show ?thesis by (auto simp: transmit_def)
qed

lemma server_takes:
  assumes "nc_out c = conn_wire (frame_of key (Suc n) m)" and "server_at key n k [] d" and "message_ok m"
    and "Suc n < 2 ^ 64" and "\<And>b. concat (segs b) = b" and "transmit segs c (se_conn d) = (c', d')"
  shows "\<exists>d1. ServerEndpoint_Receive tcp_recv (d\<lparr>se_conn := d'\<rparr>) = Some (Inr m, d1) \<and> server_at key (Suc n) k [] d1
    \<and> se_peerCapabilities d1 = se_peerCapabilities d"
proof -
  have f: "endpoint_frame DefaultCodec key (of_nat (Suc n)) m = Inr (frame_of key (Suc n) m)" by (simp add: endpoint_frame_json)
  obtain i where i: "ConnWrapper_Receive d' = (Inr (frame_of key (Suc n) m), (se_conn d)\<lparr>nc_in := i\<rparr>)" "concat i = []"
    using transmit_Receive [OF _ message_ok_frame [OF assms(3), of key "of_nat (Suc n)"] _ assms(5), of "se_conn d" c] assms(1,2,6)
    by (auto simp: server_at_def simp del: of_nat_Suc)
  obtain H where H: "tracks (se_replay d) H" "hist_max H \<le> n" using assms(2) by (auto simp: server_at_def)
  have n: "unat (of_nat (Suc n) :: 64 word) = Suc n" using assms(4) by (intro unat_of_nat_small) simp
  have fin: "finite H" using H(1) unfolding tracks_def by (rule conjunct1)
  have "replay_accepts (unat (t_windowSize (se_replay d))) H (of_nat (Suc n))"
    unfolding replay_accepts_def
  proof (intro conjI notI)
    show False if "of_nat (Suc n) = (0 :: 64 word)" using n that by simp
    show False if "of_nat (Suc n) \<in> H" using hist_max_ge [OF fin that] H(2) n by linarith
    show "hist_max H \<le> unat (of_nat (Suc n) :: 64 word) + unat (t_windowSize (se_replay d))" using H(2) n by linarith
  qed
  from Tracker_Check_accept [OF H(1) this] obtain t where
    t: "Tracker_Check (se_replay d) (of_nat (Suc n)) = (None, t)" "tracks t (insert (of_nat (Suc n)) H)" by blast
  moreover have "hist_max (insert (of_nat (Suc n)) H) \<le> Suc n" using H(2) n by (simp add: hist_max_insert fin)
  moreover have "hd_Sequence (map_header clean (endpoint_header (of_nat (Suc n)) m)) = of_nat (Suc n)"
    by (simp add: map_header_def endpoint_header_def)
  moreover note tcplink.open_frame_of [OF f [folded tcplink_codec]] message_ok_delivered [OF assms(3)]
  ultimately show ?thesis
    using i assms(1,2,6)
    by (auto simp: ServerEndpoint_Receive_def server_at_def tcp_quiet_def conn_open_def transmit_def tcplink_codec
        simp del: of_nat_Suc)
qed

lemma server_receives:
  assumes "client_at key (Suc n) (conn_wire (frame_of key (Suc n) m)) e" and "server_at key n k [] d" and "message_ok m"
    and "Suc n < 2 ^ 64" and "\<And>b. concat (segs b) = b" and "transmit segs (ce_conn e) (se_conn d) = (c', d')"
  shows "\<exists>d1. ServerEndpoint_Receive tcp_recv (d\<lparr>se_conn := d'\<rparr>) = Some (Inr m, d1) \<and> server_at key (Suc n) k [] d1
    \<and> client_at key (Suc n) [] (e\<lparr>ce_conn := c'\<rparr>) \<and> se_peerCapabilities d1 = se_peerCapabilities d"
proof -
  have "client_at key (Suc n) [] (e\<lparr>ce_conn := c'\<rparr>)"
    using assms(1,6) by (auto simp: client_at_def tcp_quiet_def conn_open_def transmit_def)
  moreover have "nc_out (ce_conn e) = conn_wire (frame_of key (Suc n) m)" using assms(1) by (simp add: client_at_def)
  ultimately show ?thesis using server_takes [OF _ assms(2-6)] by blast
qed

lemma client_receives:
  assumes "server_at key n k (conn_wire (frame_of key j m)) d" and "client_at key n' [] e" and "message_ok m"
    and "\<And>b. concat (segs b) = b" and "transmit segs (se_conn d) (ce_conn e) = (d', c')"
  shows "\<exists>e1. ClientEndpoint_Receive tcp_recv (e\<lparr>ce_conn := c'\<rparr>) = Some (Inr m, e1) \<and> client_at key n' [] e1
    \<and> server_at key n k [] (d\<lparr>se_conn := d'\<rparr>)"
proof -
  have f: "endpoint_frame DefaultCodec key (of_nat j) m = Inr (frame_of key j m)" by (simp add: endpoint_frame_json)
  obtain i where i: "ConnWrapper_Receive c' = (Inr (frame_of key j m), (ce_conn e)\<lparr>nc_in := i\<rparr>)" "concat i = []"
    using transmit_Receive [OF _ message_ok_frame [OF assms(3), of key "of_nat j"] _ assms(4), of "ce_conn e" "se_conn d"] assms(1,2,5)
    by (auto simp: client_at_def server_at_def)
  show ?thesis
    using i assms(1,2,5) tcplink.open_frame_of [OF f [folded tcplink_codec]] message_ok_delivered [OF assms(3)]
    by (auto simp: ClientEndpoint_Receive_def server_at_def client_at_def tcp_quiet_def conn_open_def transmit_def tcplink_codec)
qed

section \<open>Messages of a session\<close>

lemma ascii_hex: "ascii (hex_EncodeToString bs)"
proof -
  have "\<forall>n \<in> set [0..<16]. ascii [hex_digit n]" by code_simp
  then have "ascii [hex_digit n]" if "n < 16" for n using that by simp
  then have "ascii [hex_digit (unat b div 16), hex_digit (unat b mod 16)]" for b :: byte
    using ascii_append [of "[hex_digit (unat b div 16)]" "[hex_digit (unat b mod 16)]"] by simp
  then show ?thesis by (induction bs) (simp_all add: hex_EncodeToString_def ascii_def)
qed

lemma clean_hex [simp]: "clean (hex_EncodeToString bs) = hex_EncodeToString bs"
  by (simp add: clean_utf8 ascii_utf8 ascii_hex)

definition short :: "string \<Rightarrow> bool" where
  "short s \<longleftrightarrow> utf8_string s \<and> length s \<le> 1000"

lemma short_simps [simp]: "short []" "short s \<Longrightarrow> clean s = s"
  by (simp_all add: short_def utf8_string_def clean_utf8 bytes_of_string_def)

lemma short_ascii: "ascii s \<Longrightarrow> length s \<le> 1000 \<Longrightarrow> short s"
  by (simp add: short_def ascii_utf8)

lemma session_message_ok:
  assumes "t \<in> set known_types" and "short sess" and "short rid" and "short cap" and "0 \<le> now" and "now < year10000"
    and "length payload \<le> 500000"
  shows "message_ok (server_message now t sess rid prio payload)" and "message_ok (client_message now t sess rid prio cap payload)"
  using assms
  by (simp_all add: message_ok_def server_message_def client_message_def client_serviceID_def short_def ascii_utf8 ascii_def
      of_char_def utf8_string_def bytes_of_string_def)

lemma length_json_elems: "length (json_elems vs) \<le> sum_list (map length vs) + length vs"
  by (induction vs rule: json_elems.induct) simp_all

lemma length_fval_strings: "length (fval_text (FStrs ss)) \<le> sum_list (map (\<lambda>s. 6 * length s + 3) ss) + 2"
proof -
  have "sum_list (map length (map (\<lambda>s. json_string (bytes_of_string s)) ss)) + length ss \<le> sum_list (map (\<lambda>s. 6 * length s + 3) ss)"
  proof (induction ss)
    case (Cons s ss)
    then show ?case using length_quote_body [of "bytes_of_string s"] by (simp add: json_string_def)
  qed simp
  then show ?thesis
    using length_json_elems [of "map (\<lambda>s. json_string (bytes_of_string s)) ss"] by (simp add: json_array_def)
qed

lemma payload_sizes:
  "length nonce \<le> 1000 \<Longrightarrow> length (json_struct (challenge_members ''challenge'' (hex_EncodeToString nonce))) \<le> 500000"
  "length tok \<le> 1000 \<Longrightarrow> sum_list (map (\<lambda>s. 6 * length s + 3) caps) \<le> 10000 \<Longrightarrow>
     length (json_struct (auth_result_members ''ok'' (hex_EncodeToString tok) caps)) \<le> 500000"
  "short rid \<Longrightarrow> length (json_struct (ack_members \<lparr>ak_RequestID = rid, ak_Status = ''ok'', ak_Error = []\<rparr>)) \<le> 500000"
  "length resp \<le> 1000 \<Longrightarrow>
     length (json_struct [(''service_id'', FStr client_serviceID), (''response'', FStr (hex_EncodeToString resp))]) \<le> 500000"
  "length (json_struct [(''service_id'', FStr client_serviceID)]) \<le> 500000"
  "length sess \<le> 2000 \<Longrightarrow> length (json_struct (intent_members \<lparr>ie_Intent = ''move_left'', ie_Confidence = bytes_of_string ''0.91'', ie_SessionID = sess\<rparr>)) \<le> 500000"
  "length (json_struct (heartbeat_members \<lparr>hb_Service = client_serviceID, hb_Status = ''ready''\<rparr>)) \<le> 500000"
  using length_json_struct [of "challenge_members ''challenge'' (hex_EncodeToString nonce)"] length_fval_string [of "hex_EncodeToString nonce"]
    length_fval_string [of "''challenge''"]
  subgoal by (simp add: challenge_members_def members_size_def del: fval_text.simps)
  subgoal
    using length_json_struct [of "auth_result_members ''ok'' (hex_EncodeToString tok) caps"] length_fval_string [of "hex_EncodeToString tok"]
      length_fval_string [of "''ok''"] length_fval_strings [of caps]
    by (simp add: auth_result_members_def members_size_def del: fval_text.simps)
  subgoal
    using length_json_struct [of "ack_members \<lparr>ak_RequestID = rid, ak_Status = ''ok'', ak_Error = []\<rparr>"] length_fval_string [of rid]
      length_fval_string [of "''ok''"]
    by (simp add: ack_members_def omitempty_def members_size_def short_def del: fval_text.simps)
  subgoal
    using length_json_struct [of "[(''service_id'', FStr client_serviceID), (''response'', FStr (hex_EncodeToString resp))]"]
      length_fval_string [of client_serviceID] length_fval_string [of "hex_EncodeToString resp"]
    by (simp add: members_size_def client_serviceID_def del: fval_text.simps)
  subgoal
    using length_json_struct [of "[(''service_id'', FStr client_serviceID)]"] length_fval_string [of client_serviceID]
    by (simp add: members_size_def client_serviceID_def del: fval_text.simps)
  subgoal
    using length_json_struct [of "intent_members \<lparr>ie_Intent = ''move_left'', ie_Confidence = bytes_of_string ''0.91'', ie_SessionID = sess\<rparr>"]
      length_fval_string [of "''move_left''"] length_fval_string [of sess]
    by (simp add: intent_members_def members_size_def del: fval_text.simps(1,2,4))
  subgoal
    using length_json_struct [of "heartbeat_members \<lparr>hb_Service = client_serviceID, hb_Status = ''ready''\<rparr>"]
      length_fval_string [of client_serviceID] length_fval_string [of "''ready''"]
    by (simp add: heartbeat_members_def members_size_def client_serviceID_def del: fval_text.simps)
  done

section \<open>The server's side of a session\<close>

definition clock_ok :: "(nat \<Rightarrow> time) \<Rightarrow> bool" where
  "clock_ok clock \<longleftrightarrow> (\<forall>n. 0 \<le> clock n \<and> clock n < year10000)"

lemma clock_ok_shift: "clock_ok clock \<Longrightarrow> clock_ok (\<lambda>n. clock (Suc n))"
  by (simp add: clock_ok_def)

lemma known_types_session:
  "TypeAuth \<in> set known_types" "TypeChallenge \<in> set known_types" "TypeAuthResponse \<in> set known_types"
  "TypeIntent \<in> set known_types" "TypeAck \<in> set known_types" "TypeHeartbeat \<in> set known_types"
  by (simp_all add: known_types_def)

lemma read_struct:
  "short sid \<Longrightarrow> json_Unmarshal auth_request_fields (json_struct [(''service_id'', FStr sid)]) [] = (None, sid)"
  "short sid \<Longrightarrow> json_Unmarshal challenge_response_fields (json_struct [(''service_id'', FStr sid), (''response'', FStr (hex_EncodeToString r))])
     zeroChallengeResponse = (None, \<lparr>xr_ServiceID = sid, xr_Response = hex_EncodeToString r\<rparr>)"
  "json_Unmarshal client_challenge_fields (json_struct (challenge_members ''challenge'' (hex_EncodeToString r))) zeroClientChallenge
     = (None, \<lparr>xc_Status = clean ''challenge'', xc_Nonce = hex_EncodeToString r, xc_Error = []\<rparr>)"
  "json_Unmarshal auth_result_fields (json_struct (auth_result_members ''ok'' (hex_EncodeToString r) caps)) zeroAuthResult
     = (None, \<lparr>xa_Status = clean ''ok'', xa_SessionToken = hex_EncodeToString r, xa_Capabilities = map clean caps, xa_Error = []\<rparr>)"
  by (subst json_Unmarshal_struct;
      simp add: struct_simps auth_request_fields_def challenge_response_fields_def zeroChallengeResponse_def
        client_challenge_fields_def challenge_members_def zeroClientChallenge_def auth_result_fields_def auth_result_members_def zeroAuthResult_def)+

lemma on_auth_challenges:
  assumes "server_at key n k [] ep" and "m_Type m = TypeAuth" and "m_Payload m = json_struct [(''service_id'', FStr sid)]"
    and "short sid" and "short (m_RequestID m)" and "au_knownServices (sv_auth s) sid = Some caps"
    and "sv_rand s 0 = Inr nonce" and "length nonce \<le> 1000" and "clock_ok (sv_clock s)"
  defines "r \<equiv> server_message (sv_clock s 1) TypeChallenge [] (m_RequestID m) 0
      (json_struct (challenge_members ''challenge'' (hex_EncodeToString nonce)))"
  shows "\<exists>ep' s'. on_auth render alog tcp_send (Inr m) ep s = Some (AwaitResponse sid (m_RequestID m), ep', s')
    \<and> server_at key n (Suc k) (conn_wire (frame_of key (Suc k) r)) ep' \<and> message_ok r
    \<and> sv_auth s' = (sv_auth s)\<lparr>au_pendingChallenges := (au_pendingChallenges (sv_auth s))
        (sid \<mapsto> \<lparr>ch_ServiceID = sid, ch_Nonce = nonce, ch_CreatedAt = sv_clock s 0\<rparr>)\<rparr>
    \<and> sv_clock s' = (\<lambda>i. sv_clock s (i + 2)) \<and> sv_rand s' = (\<lambda>i. sv_rand s (Suc i)) \<and> sv_health s' = sv_health s
    \<and> sv_history s' = EAuth (Challenged sid nonce) # sv_history s"
proof -
  have ok: "message_ok r"
    unfolding r_def using assms(5,8,9) payload_sizes(1) known_types_session
    by (intro session_message_ok(1) [where cap = "[]"]) (simp_all add: clock_ok_def)
  obtain ep' where "ServerEndpoint_Send tcp_send r ep = Some (None, ep')" "server_at key n (Suc k) (conn_wire (frame_of key (Suc k) r)) ep'"
    using server_sends [OF assms(1) ok] by blast
  then show ?thesis
    using ok assms(2-7)
    by (simp add: Let_def on_auth_def read_struct CreateChallenge_def rand_Read_def time_Now_def json_Marshal_def record_event_def r_def)
qed

lemma on_response_accepts:
  assumes "server_at key n k [] ep" and "m_Type m = TypeAuthResponse"
    and "m_Payload m = json_struct [(''service_id'', FStr sid), (''response'', FStr (hex_EncodeToString (hmac_Sum (au_sharedSecret (sv_auth s)) nonce)))]"
    and "short sid" and "short rid" and "au_pendingChallenges (sv_auth s) sid = Some \<lparr>ch_ServiceID = sid, ch_Nonce = nonce, ch_CreatedAt = t\<rparr>"
    and "sv_rand s 0 = Inr tok" and "length tok \<le> 1000" and "clock_ok (sv_clock s)"
  defines "peer \<equiv> new_peer (sv_auth s) sid tok (sv_clock s 0)"
  defines "r \<equiv> server_message (sv_clock s 1) TypeAuthResponse [] rid 0
      (json_struct (auth_result_members ''ok'' (hex_EncodeToString tok) (pe_Capabilities peer)))"
  assumes "sum_list (map (\<lambda>s. 6 * length s + 3) (pe_Capabilities peer)) \<le> 10000"
  shows "\<exists>ep' s'. on_response render alog tcp_send sid rid (Inr m) ep s = Some (Live peer, ep', s')
    \<and> server_at key n (Suc k) (conn_wire (frame_of key (Suc k) r)) ep' \<and> message_ok r
    \<and> se_peerCapabilities ep' = pe_Capabilities peer
    \<and> sv_clock s' = (\<lambda>i. sv_clock s (i + 2)) \<and> sv_health s' = sv_health s
    \<and> sv_history s' = EAuth (Accepted sid (hmac_Sum (au_sharedSecret (sv_auth s)) nonce) (hex_EncodeToString tok)) # sv_history s"
proof -
  have ok: "message_ok r"
    unfolding r_def using assms(5,8,9,12) payload_sizes(2) known_types_session
    by (intro session_message_ok(1) [where cap = "[]"]) (simp_all add: clock_ok_def)
  have at: "server_at key n k [] (SetPeerCapabilities (pe_Capabilities peer) ep)"
    using assms(1) by (simp add: server_at_def SetPeerCapabilities_def)
  obtain ep' where "ServerEndpoint_Send tcp_send r (SetPeerCapabilities (pe_Capabilities peer) ep) = Some (None, ep')"
    "server_at key n (Suc k) (conn_wire (frame_of key (Suc k) r)) ep'" "se_peerCapabilities ep' = pe_Capabilities peer"
    using server_sends [OF at ok] by (auto simp: SetPeerCapabilities_def)
  moreover have "pe_SessionToken peer = hex_EncodeToString tok" by (simp add: peer_def new_peer_def)
  moreover have "VerifyResponse (sv_auth s) sid (hmac_Sum (au_sharedSecret (sv_auth s)) nonce) (Inr tok) (sv_clock s 0)
      = (Inr peer, (sv_auth s)\<lparr>au_pendingChallenges := (au_pendingChallenges (sv_auth s))(sid := None),
           au_activeSessions := (au_activeSessions (sv_auth s))(hex_EncodeToString tok \<mapsto> peer)\<rparr>)"
    using assms(6) by (subst VerifyResponse_Inr) (simp add: peer_def new_peer_def)
  ultimately show ?thesis
    using ok assms(2-7)
    by (simp add: Let_def on_response_def read_struct rand_Read_def time_Now_def json_Marshal_def record_event_def audit_def r_def)
qed

lemma on_message_live:
  assumes "server_at key n k [] ep" and "\<not> IsExpired peer (sv_clock s 0)"
    and "m_Capability m = [] \<or> m_Capability m \<in> set (se_peerCapabilities ep)"
  shows "on_message render alog tcp_send router peer (Inr m) ep s =
    (case Router_Dispatch router m (record_event (EDispatch peer m (sv_clock s 0)) (snd (time_Now s))) of
       ((_, Some err), s) \<Rightarrow>
         (case send_error render tcp_send m err ep s of None \<Rightarrow> None | Some (ep, s) \<Rightarrow> Some (Live peer, ep, s))
     | ((Some resp, None), s) \<Rightarrow>
         (case ServerEndpoint_Send tcp_send resp ep of
            None \<Rightarrow> None
          | Some (Some _, ep) \<Rightarrow> Some (Closed, ep, s)
          | Some (None, ep) \<Rightarrow> Some (Live peer, ep, s))
     | ((None, None), s) \<Rightarrow> Some (Live peer, ep, s))"
  using assms(2,3) by (auto simp: Let_def on_message_def time_Now_def ValidateCapability_def split: option.split)

lemma intent_dispatch:
  assumes "m_Type m = TypeIntent" and "m_Capability m = ''ui:control''"
    and "json_Unmarshal intent_fields (m_Payload m) zeroIntentEvent = (None, intent)"
  shows "\<exists>s'. Router_Dispatch (server_router alog server_checker) m s =
      ((Some (server_message (sv_clock s 0) TypeAck (m_SessionID m) (m_RequestID m) PriorityP0
         (json_struct (ack_members \<lparr>ak_RequestID = m_RequestID m, ak_Status = ''ok'', ak_Error = []\<rparr>))), None), s')
    \<and> sv_clock s' = (\<lambda>i. sv_clock s (Suc i)) \<and> sv_health s' = sv_health s \<and> sv_history s' = sv_history s"
proof -
  have "Checker_Check server_checker [m_Capability m] ''ui.cursor.move'' = None"
    using assms(2) by (subst server_checker_actions(1)) simp
  then show ?thesis
    using assms(1,3)
    by (simp add: Router_Dispatch_def server_router_handlers message_types intent_handler_def Let_def json_Marshal_def
        time_Now_def audit_def del: Checker_Check.simps)
qed

lemma heartbeat_dispatch:
  assumes "m_Type m = TypeHeartbeat" and "json_Unmarshal heartbeat_fields (m_Payload m) zeroHeartbeatEvent = (None, hb)"
  shows "\<exists>s'. Router_Dispatch (server_router alog ck) m s = ((None, None), s')
    \<and> sv_health s' = RecordHeartbeat (sv_health s) (hb_Service hb) (hb_Status hb) (sv_clock s 0) \<and> sv_history s' = sv_history s"
  using assms
  by (simp add: Router_Dispatch_def server_router_handlers message_types heartbeat_handler_def Let_def time_Now_def)

lemma on_message_intent:
  assumes "server_at key n k [] ep" and "\<not> IsExpired peer (sv_clock s 0)" and "''ui:control'' \<in> set (se_peerCapabilities ep)"
    and "m_Type m = TypeIntent" and "m_Capability m = ''ui:control''" and "short (m_SessionID m)" and "short (m_RequestID m)"
    and "json_Unmarshal intent_fields (m_Payload m) zeroIntentEvent = (None, intent)" and "clock_ok (sv_clock s)"
  defines "r \<equiv> server_message (sv_clock s 1) TypeAck (m_SessionID m) (m_RequestID m) PriorityP0
      (json_struct (ack_members \<lparr>ak_RequestID = m_RequestID m, ak_Status = ''ok'', ak_Error = []\<rparr>))"
  shows "\<exists>ep' s'. on_message render alog tcp_send (server_router alog server_checker) peer (Inr m) ep s = Some (Live peer, ep', s')
    \<and> server_at key n (Suc k) (conn_wire (frame_of key (Suc k) r)) ep' \<and> message_ok r
    \<and> se_peerCapabilities ep' = se_peerCapabilities ep
    \<and> sv_clock s' = (\<lambda>i. sv_clock s (i + 2)) \<and> sv_health s' = sv_health s
    \<and> sv_history s' = EDispatch peer m (sv_clock s 0) # sv_history s"
proof -
  have ok: "message_ok r"
    unfolding r_def using assms(6,7,9) payload_sizes(3) known_types_session
    by (intro session_message_ok(1) [where cap = "[]"]) (simp_all add: clock_ok_def)
  let ?s = "record_event (EDispatch peer m (sv_clock s 0)) (snd (time_Now s))"
  obtain s' where s': "Router_Dispatch (server_router alog server_checker) m ?s = ((Some r, None), s')"
    "sv_clock s' = (\<lambda>i. sv_clock s (i + 2))" "sv_health s' = sv_health s" "sv_history s' = EDispatch peer m (sv_clock s 0) # sv_history s"
    using intent_dispatch [OF assms(4,5,8), of alog ?s] by (auto simp: r_def record_event_def time_Now_def)
  obtain ep' where "ServerEndpoint_Send tcp_send r ep = Some (None, ep')" "server_at key n (Suc k) (conn_wire (frame_of key (Suc k) r)) ep'"
    "se_peerCapabilities ep' = se_peerCapabilities ep"
    using server_sends [OF assms(1) ok] by blast
  then show ?thesis using ok s' on_message_live [OF assms(1,2)] assms(3,5) by simp
qed

lemma on_message_heartbeat:
  assumes "server_at key n k [] ep" and "\<not> IsExpired peer (sv_clock s 0)" and "m_Capability m = []"
    and "m_Type m = TypeHeartbeat" and "json_Unmarshal heartbeat_fields (m_Payload m) zeroHeartbeatEvent = (None, hb)"
  shows "\<exists>s'. on_message render alog tcp_send (server_router alog ck) peer (Inr m) ep s = Some (Live peer, ep, s')
    \<and> sv_health s' = RecordHeartbeat (sv_health s) (hb_Service hb) (hb_Status hb) (sv_clock s 1)
    \<and> sv_history s' = EDispatch peer m (sv_clock s 0) # sv_history s"
proof -
  let ?s = "record_event (EDispatch peer m (sv_clock s 0)) (snd (time_Now s))"
  obtain s' where "Router_Dispatch (server_router alog ck) m ?s = ((None, None), s')"
    "sv_health s' = RecordHeartbeat (sv_health s) (hb_Service hb) (hb_Status hb) (sv_clock s 1)" "sv_history s' = EDispatch peer m (sv_clock s 0) # sv_history s"
    using heartbeat_dispatch [OF assms(4,5), of alog ck ?s] by (auto simp: record_event_def time_Now_def)
  then show ?thesis using on_message_live [OF assms(1,2)] assms(3) by simp
qed

section \<open>The client's side of a session\<close>

definition client_state :: "bytes \<Rightarrow> nat \<Rightarrow> Message \<Rightarrow> 'a \<Rightarrow> (nat \<Rightarrow> time) \<Rightarrow> ('a \<times> netconn Client) option \<Rightarrow> bool" where
  "client_state key n m phase clock res \<longleftrightarrow> message_ok m \<and> (\<exists>cl. res = Some (phase, cl)
     \<and> client_at key n (conn_wire (frame_of key n m)) (cl_endpoint cl) \<and> cl_clock cl = clock)"

lemma client_send_state:
  assumes "client_at key n [] (cl_endpoint cl)" and "message_ok m"
  shows "client_state key (Suc n) m phase (cl_clock cl) (client_send tcp_send what m phase cl)"
  using client_sends [OF assms] assms(2) by (auto simp: client_state_def client_send_def)

lemma client_starts:
  assumes "client_at key 0 [] (cl_endpoint cl)" and "clock_ok (cl_clock cl)"
  shows "client_state key 1 (client_message (cl_clock cl 0) TypeAuth [] [] 0 [] (json_struct [(''service_id'', FStr client_serviceID)]))
    CChallenge (\<lambda>i. cl_clock cl (Suc i)) (client_start tcp_send cl)"
proof -
  have "message_ok (client_message (cl_clock cl 0) TypeAuth [] [] 0 [] (json_struct [(''service_id'', FStr client_serviceID)]))"
    using assms(2) payload_sizes(5) known_types_session by (intro session_message_ok(2)) (simp_all add: clock_ok_def)
  from client_send_state [OF _ this, of key 0 "cl\<lparr>cl_clock := \<lambda>i. cl_clock cl (Suc i)\<rparr>"] assms(1) show ?thesis
    by (simp add: client_start_def json_Marshal_def client_Now_def)
qed

lemma client_answers:
  assumes "client_at key n [] (cl_endpoint cl)" and "clock_ok (cl_clock cl)" and "m_Type m = TypeChallenge"
    and "m_Payload m = json_struct (challenge_members ''challenge'' (hex_EncodeToString nonce))"
  shows "client_state key (Suc n) (client_message (cl_clock cl 0) TypeAuthResponse [] [] 0 []
      (json_struct [(''service_id'', FStr client_serviceID), (''response'', FStr (hex_EncodeToString (hmac_Sum secret nonce)))]))
    CResult (\<lambda>i. cl_clock cl (Suc i)) (client_on_challenge tcp_send secret (Inr m) cl)"
proof -
  have "length (hmac_Sum secret nonce) \<le> 1000" using length_Sign [of secret nonce] by (simp add: Sign_def)
  then have "message_ok (client_message (cl_clock cl 0) TypeAuthResponse [] [] 0 []
      (json_struct [(''service_id'', FStr client_serviceID), (''response'', FStr (hex_EncodeToString (hmac_Sum secret nonce)))]))"
    using assms(2) payload_sizes(4) known_types_session by (intro session_message_ok(2)) (simp_all add: clock_ok_def)
  moreover have "clean ''challenge'' = ''challenge''" by (simp add: clean_utf8 ascii_utf8 ascii_def of_char_def)
  ultimately show ?thesis
    using client_send_state [of key n "cl\<lparr>cl_clock := \<lambda>i. cl_clock cl (Suc i)\<rparr>"] assms(1,3,4)
    by (simp add: client_on_challenge_def read_struct json_Marshal_def client_Now_def Let_def)
qed

lemma client_requests:
  assumes "client_at key n [] (cl_endpoint cl)" and "clock_ok (cl_clock cl)" and "m_Type m = TypeAuthResponse"
    and "m_Payload m = json_struct (auth_result_members ''ok'' (hex_EncodeToString tok) caps)" and "length tok \<le> 500"
  shows "client_state key (Suc n) (client_message (cl_clock cl 0) TypeIntent (hex_EncodeToString tok) ''req-1'' PriorityP0 ''ui:control''
      (json_struct (intent_members \<lparr>ie_Intent = ''move_left'', ie_Confidence = bytes_of_string ''0.91'', ie_SessionID = hex_EncodeToString tok\<rparr>)))
    (CAck (hex_EncodeToString tok)) (\<lambda>i. cl_clock cl (Suc i)) (client_on_result tcp_send (Inr m) cl)"
proof -
  have "short ''req-1''" "short ''ui:control''" "short (hex_EncodeToString tok)"
    using assms(5) by (simp_all add: short_def ascii_utf8 ascii_hex) (simp_all add: ascii_utf8 ascii_def of_char_def)
  then have "message_ok (client_message (cl_clock cl 0) TypeIntent (hex_EncodeToString tok) ''req-1'' PriorityP0 ''ui:control''
      (json_struct (intent_members \<lparr>ie_Intent = ''move_left'', ie_Confidence = bytes_of_string ''0.91'', ie_SessionID = hex_EncodeToString tok\<rparr>)))"
    using assms(2,5) payload_sizes(6) known_types_session by (intro session_message_ok(2)) (simp_all add: clock_ok_def)
  then show ?thesis
    using client_send_state [of key n "cl\<lparr>cl_clock := \<lambda>i. cl_clock cl (Suc i)\<rparr>"] assms(1,3,4)
    by (simp add: client_on_result_def read_struct json_Marshal_def client_Now_def Let_def)
qed

lemma client_finishes:
  assumes "client_at key n [] (cl_endpoint cl)" and "clock_ok (cl_clock cl)" and "short tok"
    and "json_Unmarshal ack_fields (m_Payload m) zeroAckEvent = (None, ack)"
  defines "hb \<equiv> client_message (cl_clock cl 0) TypeHeartbeat tok ''hb-1'' PriorityP2 []
      (json_struct (heartbeat_members \<lparr>hb_Service = client_serviceID, hb_Status = ''ready''\<rparr>))"
  shows "message_ok hb \<and> (\<exists>cl'. client_on_ack tcp_send ConnWrapper_Close tok (Inr m) cl = Some (CDone ack, cl')
    \<and> nc_out (ce_conn (cl_endpoint cl')) = conn_wire (frame_of key (Suc n) hb))"
proof -
  have "short ''hb-1''" by (simp add: short_def ascii_utf8 ascii_def of_char_def)
  then have ok: "message_ok hb"
    unfolding hb_def using assms(2,3) payload_sizes(7) known_types_session by (intro session_message_ok(2)) (simp_all add: clock_ok_def)
  have "client_at key n [] (cl_endpoint (cl\<lparr>cl_clock := \<lambda>i. cl_clock cl (Suc i)\<rparr>))" using assms(1) by simp
  from client_send_state [OF this ok, of "CDone ack" "''send heartbeat: %v''"] obtain cl' where
    "client_send tcp_send ''send heartbeat: %v'' hb (CDone ack) (cl\<lparr>cl_clock := \<lambda>i. cl_clock cl (Suc i)\<rparr>) = Some (CDone ack, cl')"
    "nc_out (ce_conn (cl_endpoint cl')) = conn_wire (frame_of key (Suc n) hb)"
    by (auto simp: client_state_def client_at_def)
  then show ?thesis
    using ok assms(4)
    by (simp add: client_on_ack_def json_Marshal_def client_Now_def hb_def ClientEndpoint_Close_def ConnWrapper_Close_def
        netconn_Close_def split_beta)
qed

section \<open>A whole session\<close>

text \<open>One exchange: what the client wrote reaches the server, which takes a step, and what it wrote reaches the client, which takes a step.\<close>

type_synonym 'l session = "(client_phase \<times> netconn Client) \<times> (conn_phase \<times> netconn ServerEndpoint \<times> 'l Server)"

definition exchange :: "(gotext \<Rightarrow> string) \<Rightarrow> 'l Logger \<Rightarrow> (bytes \<Rightarrow> bytes list) \<Rightarrow> bytes \<Rightarrow> 'l session \<Rightarrow> 'l session option" where
  "exchange render alog segs secret = (\<lambda>((cphase, cl), (sphase, ep, s)).
     (let (c, d) = transmit segs (ce_conn (cl_endpoint cl)) (se_conn ep);
          cl = cl\<lparr>cl_endpoint := (cl_endpoint cl)\<lparr>ce_conn := c\<rparr>\<rparr>
      in case conn_step render alog tcp_send tcp_recv (server_router alog server_checker) (sphase, ep\<lparr>se_conn := d\<rparr>, s) of
           None \<Rightarrow> None
         | Some (sphase, ep, s) \<Rightarrow>
            (let (d, c) = transmit segs (se_conn ep) (ce_conn (cl_endpoint cl));
                 cl = cl\<lparr>cl_endpoint := (cl_endpoint cl)\<lparr>ce_conn := c\<rparr>\<rparr>
             in map_option (\<lambda>client. (client, (sphase, ep\<lparr>se_conn := d\<rparr>, s)))
                  (client_step tcp_send tcp_recv ConnWrapper_Close secret (cphase, cl)))))"

text \<open>The server's reaction to the client's last message, which gets no answer.\<close>

definition last_step :: "(gotext \<Rightarrow> string) \<Rightarrow> 'l Logger \<Rightarrow> (bytes \<Rightarrow> bytes list) \<Rightarrow> 'l session \<Rightarrow> (conn_phase \<times> netconn ServerEndpoint \<times> 'l Server) option" where
  "last_step render alog segs = (\<lambda>((cphase, cl), (sphase, ep, s)).
     conn_step render alog tcp_send tcp_recv (server_router alog server_checker)
       (sphase, ep\<lparr>se_conn := snd (transmit segs (ce_conn (cl_endpoint cl)) (se_conn ep))\<rparr>, s))"

text \<open>An exchange in which the server takes \<open>m\<close> and answers \<open>r\<close>.\<close>

lemma exchange_answers:
  assumes cl: "client_at key (Suc n) (conn_wire (frame_of key (Suc n) m)) (cl_endpoint cl)" and sv: "server_at key n k [] ep"
    and m: "message_ok m" and n: "Suc n < 2 ^ 64" and segs: "\<And>b. concat (segs b) = b"
  shows "\<exists>ep1. server_at key (Suc n) k [] ep1 \<and> se_peerCapabilities ep1 = se_peerCapabilities ep
    \<and> (\<forall>sphase2 ep2 s2 r. on_received render alog tcp_send (server_router alog server_checker) sphase (Inr m) ep1 s = Some (sphase2, ep2, s2) \<longrightarrow>
        server_at key (Suc n) (Suc k) (conn_wire (frame_of key (Suc k) r)) ep2 \<longrightarrow> message_ok r \<longrightarrow>
        (\<exists>e2 d2. client_at key (Suc n) [] e2 \<and> server_at key (Suc n) (Suc k) [] (ep2\<lparr>se_conn := d2\<rparr>)
          \<and> exchange render alog segs secret ((cphase, cl), (sphase, ep, s)) =
            map_option (\<lambda>client. (client, (sphase2, ep2\<lparr>se_conn := d2\<rparr>, s2)))
              (client_received tcp_send ConnWrapper_Close secret cphase (Inr r) (cl\<lparr>cl_endpoint := e2\<rparr>))))"
proof -
  obtain c d where cd: "transmit segs (ce_conn (cl_endpoint cl)) (se_conn ep) = (c, d)" by fastforce
  from server_receives [OF cl sv m n segs cd] obtain ep1 where
    ep1: "ServerEndpoint_Receive tcp_recv (ep\<lparr>se_conn := d\<rparr>) = Some (Inr m, ep1)" "server_at key (Suc n) k [] ep1"
      "client_at key (Suc n) [] ((cl_endpoint cl)\<lparr>ce_conn := c\<rparr>)" "se_peerCapabilities ep1 = se_peerCapabilities ep" by blast
  have "\<exists>e2 d2. client_at key (Suc n) [] e2 \<and> server_at key (Suc n) (Suc k) [] (ep2\<lparr>se_conn := d2\<rparr>)
      \<and> exchange render alog segs secret ((cphase, cl), (sphase, ep, s)) =
        map_option (\<lambda>client. (client, (sphase2, ep2\<lparr>se_conn := d2\<rparr>, s2)))
          (client_received tcp_send ConnWrapper_Close secret cphase (Inr r) (cl\<lparr>cl_endpoint := e2\<rparr>))"
    if step: "on_received render alog tcp_send (server_router alog server_checker) sphase (Inr m) ep1 s = Some (sphase2, ep2, s2)"
      "server_at key (Suc n) (Suc k) (conn_wire (frame_of key (Suc k) r)) ep2" "message_ok r" for sphase2 ep2 s2 r
  proof -
    obtain d2 c2 where dc: "transmit segs (se_conn ep2) (ce_conn ((cl_endpoint cl)\<lparr>ce_conn := c\<rparr>)) = (d2, c2)" by fastforce
    from client_receives [OF step(2) ep1(3) step(3) segs dc] obtain e2 where
      "ClientEndpoint_Receive tcp_recv ((cl_endpoint cl)\<lparr>ce_conn := c2\<rparr>) = Some (Inr r, e2)" "client_at key (Suc n) [] e2"
      "server_at key (Suc n) (Suc k) [] (ep2\<lparr>se_conn := d2\<rparr>)" by auto
    then show ?thesis
      using cd dc ep1(1) step(1) by (auto simp: exchange_def conn_step_def client_step_def Let_def)
  qed
  with ep1 show ?thesis by blast
qed

definition new_client :: "bytes \<Rightarrow> (nat \<Rightarrow> time) \<Rightarrow> netconn Client" where
  "new_client secret clock = \<lparr>cl_endpoint = NewClientEndpoint (open_conn []) DefaultCodec secret [], cl_clock = clock\<rparr>"

lemma session_start:
  "client_at secret 0 [] (cl_endpoint (new_client secret clock))" "cl_clock (new_client secret clock) = clock"
  "server_at secret 0 0 [] (NewServerEndpoint (open_conn []) DefaultCodec secret)"
  using tracks_new [of 0]
  by (auto simp: client_at_def server_at_def new_client_def NewClientEndpoint_def NewServerEndpoint_def tcp_quiet_def
      intro!: exI [of _ "{}"])

definition client_peer :: "duration \<Rightarrow> bytes \<Rightarrow> time \<Rightarrow> PeerIdentity" where
  "client_peer ttl tok now = \<lparr>pe_ServiceID = client_serviceID, pe_Capabilities = [''ui:control'', ''device:read''],
     pe_SessionToken = hex_EncodeToString tok, pe_CreatedAt = now, pe_SessionTTL = ttl\<rparr>"

lemma session_constants:
  "short client_serviceID" "short ''req-1''" "clean ''ok'' = ''ok''" "clean ''req-1'' = ''req-1''" "clean client_serviceID = client_serviceID"
  "clean ''ready'' = ''ready''" "server_services client_serviceID = Some [''ui:control'', ''device:read'']"
  by (simp_all add: short_def client_serviceID_def clean_utf8 ascii_utf8 ascii_def of_char_def server_services_def)

lemma confidence_literal: "number_lit (bytes_of_string ''0.91'')" "\<not> float_overflows (bytes_of_string ''0.91'')"
proof -
  have b: "bytes_of_string ''0.91'' = [0x30, 0x2E, 0x39, 0x31]" by (simp add: bytes_of_string_def)
  show "number_lit (bytes_of_string ''0.91'')"
    by (simp add: b number_lit_def is_digit_def is_number_def num_char_def exp_ok_def)
  show "\<not> float_overflows (bytes_of_string ''0.91'')"
    by (simp add: b float_overflows_def is_digit_def digits_nat_def)
qed

text \<open>The two messages the client sends in its session.\<close>

abbreviation intent_message :: "time \<Rightarrow> string \<Rightarrow> Message" where
  "intent_message t tok \<equiv> client_message t TypeIntent tok ''req-1'' PriorityP0 ''ui:control''
     (json_struct (intent_members \<lparr>ie_Intent = ''move_left'', ie_Confidence = bytes_of_string ''0.91'', ie_SessionID = tok\<rparr>))"

abbreviation heartbeat_message :: "time \<Rightarrow> string \<Rightarrow> Message" where
  "heartbeat_message t tok \<equiv> client_message t TypeHeartbeat tok ''hb-1'' PriorityP2 []
     (json_struct (heartbeat_members \<lparr>hb_Service = client_serviceID, hb_Status = ''ready''\<rparr>))"

abbreviation intent_ack :: AckEvent where
  "intent_ack \<equiv> \<lparr>ak_RequestID = ''req-1'', ak_Status = ''ok'', ak_Error = []\<rparr>"

text \<open>The state between two exchanges: the client's message \<open>m\<close>, its \<open>n\<close>th, is on its way.\<close>

definition session_at :: "bytes \<Rightarrow> nat \<Rightarrow> Message \<Rightarrow> netconn Client \<Rightarrow> netconn ServerEndpoint \<Rightarrow> bool" where
  "session_at key n m cl ep \<longleftrightarrow> client_at key (Suc n) (conn_wire (frame_of key (Suc n) m)) (cl_endpoint cl) \<and> message_ok m
     \<and> clock_ok (cl_clock cl) \<and> server_at key n n [] ep"

lemma session_atI:
  assumes "client_state key (Suc n) m phase clock res" and "clock_ok clock" and "server_at key n n [] ep"
  obtains cl where "res = Some (phase, cl)" "session_at key n m cl ep" "cl_clock cl = clock"
  using assms by (auto simp: client_state_def session_at_def)

lemma round_challenge:
  assumes at: "session_at secret 0 m cl ep" and m: "m_Type m = TypeAuth" "m_Payload m = json_struct [(''service_id'', FStr client_serviceID)]"
    "m_RequestID m = []" and segs: "\<And>b. concat (segs b) = b"
    and s: "au_knownServices (sv_auth s) = server_services" "sv_rand s 0 = Inr nonce" "length nonce \<le> 1000" "clock_ok (sv_clock s)"
  shows "\<exists>cl' ep' s' m'. exchange render alog segs secret ((CChallenge, cl), (AwaitAuth, ep, s))
      = Some ((CResult, cl'), (AwaitResponse client_serviceID [], ep', s'))
    \<and> session_at secret 1 m' cl' ep' \<and> m_Type m' = TypeAuthResponse
    \<and> m_Payload m' = json_struct [(''service_id'', FStr client_serviceID), (''response'', FStr (hex_EncodeToString (hmac_Sum secret nonce)))]
    \<and> sv_auth s' = (sv_auth s)\<lparr>au_pendingChallenges := (au_pendingChallenges (sv_auth s))
        (client_serviceID \<mapsto> \<lparr>ch_ServiceID = client_serviceID, ch_Nonce = nonce, ch_CreatedAt = sv_clock s 0\<rparr>)\<rparr>
    \<and> sv_clock s' = (\<lambda>i. sv_clock s (i + 2)) \<and> sv_rand s' = (\<lambda>i. sv_rand s (Suc i)) \<and> sv_health s' = sv_health s
    \<and> sv_history s' = EAuth (Challenged client_serviceID nonce) # sv_history s"
proof -
  have cl: "client_at secret (Suc 0) (conn_wire (frame_of secret (Suc 0) m)) (cl_endpoint cl)" "message_ok m" "clock_ok (cl_clock cl)"
    and sv: "server_at secret 0 0 [] ep" using at by (simp_all add: session_at_def)
  obtain ep1 where ep1: "server_at secret (Suc 0) 0 [] ep1"
    and ex: "\<And>sphase2 ep2 s2 r. on_received render alog tcp_send (server_router alog server_checker) AwaitAuth (Inr m) ep1 s = Some (sphase2, ep2, s2) \<Longrightarrow>
      server_at secret (Suc 0) (Suc 0) (conn_wire (frame_of secret (Suc 0) r)) ep2 \<Longrightarrow> message_ok r \<Longrightarrow>
      (\<exists>e2 d2. client_at secret (Suc 0) [] e2 \<and> server_at secret (Suc 0) (Suc 0) [] (ep2\<lparr>se_conn := d2\<rparr>)
        \<and> exchange render alog segs secret ((CChallenge, cl), (AwaitAuth, ep, s)) =
          map_option (\<lambda>client. (client, (sphase2, ep2\<lparr>se_conn := d2\<rparr>, s2)))
            (client_received tcp_send ConnWrapper_Close secret CChallenge (Inr r) (cl\<lparr>cl_endpoint := e2\<rparr>)))"
    using exchange_answers [OF cl(1) sv cl(2) _ segs, of render alog AwaitAuth s secret CChallenge] by auto
  have short: "short (m_RequestID m)" by (simp add: m(3))
  define r where "r = server_message (sv_clock s 1) TypeChallenge [] (m_RequestID m) 0
      (json_struct (challenge_members ''challenge'' (hex_EncodeToString nonce)))"
  have known: "au_knownServices (sv_auth s) client_serviceID = Some [''ui:control'', ''device:read'']"
    using s(1) session_constants by simp
  from on_auth_challenges [OF ep1 m(1,2) session_constants(1) short known s(2-4), of render alog] obtain ep2 s2 where
    on: "on_auth render alog tcp_send (Inr m) ep1 s = Some (AwaitResponse client_serviceID [], ep2, s2)"
      "server_at secret (Suc 0) (Suc 0) (conn_wire (frame_of secret (Suc 0) r)) ep2" "message_ok r"
    and s2: "sv_auth s2 = (sv_auth s)\<lparr>au_pendingChallenges := (au_pendingChallenges (sv_auth s))
        (client_serviceID \<mapsto> \<lparr>ch_ServiceID = client_serviceID, ch_Nonce = nonce, ch_CreatedAt = sv_clock s 0\<rparr>)\<rparr>"
      "sv_clock s2 = (\<lambda>i. sv_clock s (i + 2))" "sv_rand s2 = (\<lambda>i. sv_rand s (Suc i))" "sv_health s2 = sv_health s"
      "sv_history s2 = EAuth (Challenged client_serviceID nonce) # sv_history s"
    unfolding r_def m(3) by blast
  from ex [OF _ on(2,3)] on(1) obtain e2 d2 where
    e2: "client_at secret (Suc 0) [] e2" "server_at secret (Suc 0) (Suc 0) [] (ep2\<lparr>se_conn := d2\<rparr>)"
      "exchange render alog segs secret ((CChallenge, cl), (AwaitAuth, ep, s)) =
        map_option (\<lambda>client. (client, (AwaitResponse client_serviceID [], ep2\<lparr>se_conn := d2\<rparr>, s2)))
          (client_on_challenge tcp_send secret (Inr r) (cl\<lparr>cl_endpoint := e2\<rparr>))"
    by (auto simp: on_received_def client_received_def)
  have "client_at secret (Suc 0) [] (cl_endpoint (cl\<lparr>cl_endpoint := e2\<rparr>))" "clock_ok (cl_clock (cl\<lparr>cl_endpoint := e2\<rparr>))"
    "m_Type r = TypeChallenge" "m_Payload r = json_struct (challenge_members ''challenge'' (hex_EncodeToString nonce))"
    using e2(1) cl(3) by (simp_all add: r_def server_message_def)
  from session_atI [OF client_answers [OF this, of secret] _ e2(2)] clock_ok_shift [OF cl(3)] obtain cl' where
    "client_on_challenge tcp_send secret (Inr r) (cl\<lparr>cl_endpoint := e2\<rparr>) = Some (CResult, cl')"
    "session_at secret (Suc 0) (client_message (cl_clock cl 0) TypeAuthResponse [] [] 0 []
      (json_struct [(''service_id'', FStr client_serviceID), (''response'', FStr (hex_EncodeToString (hmac_Sum secret nonce)))])) cl' (ep2\<lparr>se_conn := d2\<rparr>)"
    by auto
  then show ?thesis using e2(3) s2
    by (intro exI [of _ cl'] exI [of _ "ep2\<lparr>se_conn := d2\<rparr>"] exI [of _ s2]) (auto simp: client_message_def intro!: exI)
qed

lemma round_result:
  assumes at: "session_at secret 1 m cl ep" and m: "m_Type m = TypeAuthResponse"
    "m_Payload m = json_struct [(''service_id'', FStr client_serviceID), (''response'', FStr (hex_EncodeToString (hmac_Sum secret nonce)))]"
    and segs: "\<And>b. concat (segs b) = b"
    and s: "au_sharedSecret (sv_auth s) = secret" "au_knownServices (sv_auth s) = server_services" "au_sessionTTL (sv_auth s) = ttl"
      "au_pendingChallenges (sv_auth s) client_serviceID = Some \<lparr>ch_ServiceID = client_serviceID, ch_Nonce = nonce, ch_CreatedAt = t\<rparr>"
      "sv_rand s 0 = Inr tok" "length tok \<le> 500" "clock_ok (sv_clock s)"
  defines "peer \<equiv> client_peer ttl tok (sv_clock s 0)"
  shows "\<exists>cl' ep' s' m'. exchange render alog segs secret ((CResult, cl), (AwaitResponse client_serviceID [], ep, s))
      = Some ((CAck (hex_EncodeToString tok), cl'), (Live peer, ep', s'))
    \<and> session_at secret 2 m' cl' ep' \<and> se_peerCapabilities ep' = [''ui:control'', ''device:read'']
    \<and> m' = intent_message (cl_clock cl 0) (hex_EncodeToString tok)
    \<and> sv_clock s' = (\<lambda>i. sv_clock s (i + 2)) \<and> sv_health s' = sv_health s
    \<and> sv_history s' = EAuth (Accepted client_serviceID (hmac_Sum secret nonce) (hex_EncodeToString tok)) # sv_history s"
proof -
  have cl: "client_at secret (Suc 1) (conn_wire (frame_of secret (Suc 1) m)) (cl_endpoint cl)" "message_ok m" "clock_ok (cl_clock cl)"
    and sv: "server_at secret 1 1 [] ep" using at by (simp_all add: session_at_def)
  obtain ep1 where ep1: "server_at secret (Suc 1) 1 [] ep1"
    and ex: "\<And>sphase2 ep2 s2 r. on_received render alog tcp_send (server_router alog server_checker) (AwaitResponse client_serviceID []) (Inr m) ep1 s
        = Some (sphase2, ep2, s2) \<Longrightarrow>
      server_at secret (Suc 1) (Suc 1) (conn_wire (frame_of secret (Suc 1) r)) ep2 \<Longrightarrow> message_ok r \<Longrightarrow>
      (\<exists>e2 d2. client_at secret (Suc 1) [] e2 \<and> server_at secret (Suc 1) (Suc 1) [] (ep2\<lparr>se_conn := d2\<rparr>)
        \<and> exchange render alog segs secret ((CResult, cl), (AwaitResponse client_serviceID [], ep, s)) =
          map_option (\<lambda>client. (client, (sphase2, ep2\<lparr>se_conn := d2\<rparr>, s2)))
            (client_received tcp_send ConnWrapper_Close secret CResult (Inr r) (cl\<lparr>cl_endpoint := e2\<rparr>)))"
    using exchange_answers [OF cl(1) sv cl(2) _ segs, of render alog "AwaitResponse client_serviceID []" s secret CResult] by auto
  have peer: "new_peer (sv_auth s) client_serviceID tok (sv_clock s 0) = peer"
    using s(2,3) by (simp add: new_peer_def peer_def client_peer_def session_constants)
  define r where "r = server_message (sv_clock s 1) TypeAuthResponse [] [] 0
      (json_struct (auth_result_members ''ok'' (hex_EncodeToString tok) (pe_Capabilities peer)))"
  have tok: "length tok \<le> 1000" using s(6) by simp
  have "sum_list (map (\<lambda>s. 6 * length s + 3) (pe_Capabilities (new_peer (sv_auth s) client_serviceID tok (sv_clock s 0)))) \<le> 10000"
    by (simp add: peer) (simp add: peer_def client_peer_def)
  from on_response_accepts [OF ep1 m(1) _ session_constants(1) _ s(4,5) tok s(7) this, of "[]" render alog] obtain ep2 s2 where
    on: "on_response render alog tcp_send client_serviceID [] (Inr m) ep1 s = Some (Live peer, ep2, s2)"
      "server_at secret (Suc 1) (Suc 1) (conn_wire (frame_of secret (Suc 1) r)) ep2" "message_ok r"
      "se_peerCapabilities ep2 = pe_Capabilities peer"
    and s2: "sv_clock s2 = (\<lambda>i. sv_clock s (i + 2))" "sv_health s2 = sv_health s"
      "sv_history s2 = EAuth (Accepted client_serviceID (hmac_Sum secret nonce) (hex_EncodeToString tok)) # sv_history s"
    unfolding peer r_def s(1) using m(2) by auto
  from ex [OF _ on(2,3)] on(1) obtain e2 d2 where
    e2: "client_at secret (Suc 1) [] e2" "server_at secret (Suc 1) (Suc 1) [] (ep2\<lparr>se_conn := d2\<rparr>)"
      "exchange render alog segs secret ((CResult, cl), (AwaitResponse client_serviceID [], ep, s)) =
        map_option (\<lambda>client. (client, (Live peer, ep2\<lparr>se_conn := d2\<rparr>, s2)))
          (client_on_result tcp_send (Inr r) (cl\<lparr>cl_endpoint := e2\<rparr>))"
    by (auto simp: on_received_def client_received_def)
  have "client_at secret (Suc 1) [] (cl_endpoint (cl\<lparr>cl_endpoint := e2\<rparr>))" "clock_ok (cl_clock (cl\<lparr>cl_endpoint := e2\<rparr>))"
    "m_Type r = TypeAuthResponse" "m_Payload r = json_struct (auth_result_members ''ok'' (hex_EncodeToString tok) (pe_Capabilities peer))"
    using e2(1) cl(3) by (simp_all add: r_def server_message_def)
  from session_atI [OF client_requests [OF this s(6)] _ e2(2)] clock_ok_shift [OF cl(3)] obtain cl' where
    "client_on_result tcp_send (Inr r) (cl\<lparr>cl_endpoint := e2\<rparr>) = Some (CAck (hex_EncodeToString tok), cl')"
    "session_at secret (Suc 1) (intent_message (cl_clock cl 0) (hex_EncodeToString tok))
      cl' (ep2\<lparr>se_conn := d2\<rparr>)"
    by auto
  moreover have "pe_Capabilities peer = [''ui:control'', ''device:read'']" by (simp add: peer_def client_peer_def)
  ultimately show ?thesis using e2(3) s2 on(4)
    by (intro exI [of _ cl'] exI [of _ "ep2\<lparr>se_conn := d2\<rparr>"] exI [of _ s2]) (auto simp: numeral_2_eq_2)
qed

lemma round_intent:
  assumes at: "session_at secret 2 m cl ep" and caps: "''ui:control'' \<in> set (se_peerCapabilities ep)"
    and m: "m = intent_message t (hex_EncodeToString tok)"
    and segs: "\<And>b. concat (segs b) = b" and live: "\<not> IsExpired peer (sv_clock s 0)"
    and s: "length tok \<le> 500" "clock_ok (sv_clock s)"
  defines "hb \<equiv> heartbeat_message (cl_clock cl 0) (hex_EncodeToString tok)"
  shows "message_ok hb \<and> (\<exists>cl' ep' s'. exchange render alog segs secret ((CAck (hex_EncodeToString tok), cl), (Live peer, ep, s))
      = Some ((CDone intent_ack, cl'), (Live peer, ep', s'))
    \<and> nc_out (ce_conn (cl_endpoint cl')) = conn_wire (frame_of secret (Suc 3) hb) \<and> server_at secret 3 3 [] ep'
    \<and> sv_clock s' = (\<lambda>i. sv_clock s (i + 2)) \<and> sv_health s' = sv_health s
    \<and> sv_history s' = EDispatch peer m (sv_clock s 0) # sv_history s)"
proof -
  have cl: "client_at secret (Suc 2) (conn_wire (frame_of secret (Suc 2) m)) (cl_endpoint cl)" "message_ok m" "clock_ok (cl_clock cl)"
    and sv: "server_at secret 2 2 [] ep" using at by (simp_all add: session_at_def)
  obtain ep1 where ep1: "server_at secret (Suc 2) 2 [] ep1" "se_peerCapabilities ep1 = se_peerCapabilities ep"
    and ex: "\<And>sphase2 ep2 s2 r. on_received render alog tcp_send (server_router alog server_checker) (Live peer) (Inr m) ep1 s
        = Some (sphase2, ep2, s2) \<Longrightarrow>
      server_at secret (Suc 2) (Suc 2) (conn_wire (frame_of secret (Suc 2) r)) ep2 \<Longrightarrow> message_ok r \<Longrightarrow>
      (\<exists>e2 d2. client_at secret (Suc 2) [] e2 \<and> server_at secret (Suc 2) (Suc 2) [] (ep2\<lparr>se_conn := d2\<rparr>)
        \<and> exchange render alog segs secret ((CAck (hex_EncodeToString tok), cl), (Live peer, ep, s)) =
          map_option (\<lambda>client. (client, (sphase2, ep2\<lparr>se_conn := d2\<rparr>, s2)))
            (client_received tcp_send ConnWrapper_Close secret (CAck (hex_EncodeToString tok)) (Inr r) (cl\<lparr>cl_endpoint := e2\<rparr>)))"
    using exchange_answers [OF cl(1) sv cl(2) _ segs, of render alog "Live peer" s secret "CAck (hex_EncodeToString tok)"] by auto
  have tok: "short (hex_EncodeToString tok)" using s(1) by (intro short_ascii ascii_hex) simp
  have mf: "m_Type m = TypeIntent" "m_Capability m = ''ui:control''" "m_SessionID m = hex_EncodeToString tok" "m_RequestID m = ''req-1''"
    by (simp_all add: m client_message_def)
  define r where "r = server_message (sv_clock s 1) TypeAck (hex_EncodeToString tok) ''req-1'' PriorityP0 (json_struct (ack_members intent_ack))"
  have "\<exists>intent. json_Unmarshal intent_fields (m_Payload m) zeroIntentEvent = (None, intent)"
    unfolding m client_message_def using intent_round_trip confidence_literal by simp
  then obtain intent where intent: "json_Unmarshal intent_fields (m_Payload m) zeroIntentEvent = (None, intent)" by blast
  from on_message_intent [OF ep1(1) live _ mf(1,2) _ _ intent s(2), unfolded mf ep1(2), OF caps tok session_constants(2), of render alog]
  obtain ep2 s2 where
    on: "on_message render alog tcp_send (server_router alog server_checker) peer (Inr m) ep1 s = Some (Live peer, ep2, s2)"
      "server_at secret (Suc 2) (Suc 2) (conn_wire (frame_of secret (Suc 2) r)) ep2" "message_ok r"
    and s2: "sv_clock s2 = (\<lambda>i. sv_clock s (i + 2))" "sv_health s2 = sv_health s" "sv_history s2 = EDispatch peer m (sv_clock s 0) # sv_history s"
    unfolding r_def by blast
  from ex [OF _ on(2,3)] on(1) obtain e2 d2 where
    e2: "client_at secret (Suc 2) [] e2" "server_at secret (Suc 2) (Suc 2) [] (ep2\<lparr>se_conn := d2\<rparr>)"
      "exchange render alog segs secret ((CAck (hex_EncodeToString tok), cl), (Live peer, ep, s)) =
        map_option (\<lambda>client. (client, (Live peer, ep2\<lparr>se_conn := d2\<rparr>, s2)))
          (client_on_ack tcp_send ConnWrapper_Close (hex_EncodeToString tok) (Inr r) (cl\<lparr>cl_endpoint := e2\<rparr>))"
    by (auto simp: on_received_def client_received_def)
  have "client_at secret (Suc 2) [] (cl_endpoint (cl\<lparr>cl_endpoint := e2\<rparr>))" "clock_ok (cl_clock (cl\<lparr>cl_endpoint := e2\<rparr>))"
    "json_Unmarshal ack_fields (m_Payload r) zeroAckEvent = (None, intent_ack)"
    using e2(1) cl(3) ack_round_trip session_constants by (simp_all add: r_def server_message_def)
  from client_finishes [OF this(1,2) tok this(3)] e2 s2 show ?thesis
    by (auto simp: hb_def numeral_3_eq_3 numeral_2_eq_2)
qed

section \<open>A whole session\<close>

text \<open>The two programs connected by a TCP connection that delivers what one side has written before the other
  side reads: the client starts, and \<open>n\<close> exchanges follow.\<close>

primrec exchanges :: "(gotext \<Rightarrow> string) \<Rightarrow> 'l Logger \<Rightarrow> (bytes \<Rightarrow> bytes list) \<Rightarrow> bytes \<Rightarrow> nat \<Rightarrow> 'l session \<Rightarrow> 'l session option" where
  "exchanges render alog segs secret 0 w = Some w"
| "exchanges render alog segs secret (Suc n) w = Option.bind (exchanges render alog segs secret n w) (exchange render alog segs secret)"

definition run_session ::
  "(gotext \<Rightarrow> string) \<Rightarrow> 'l Logger \<Rightarrow> (bytes \<Rightarrow> bytes list) \<Rightarrow> bytes \<Rightarrow> (nat \<Rightarrow> time) \<Rightarrow> 'l Server \<Rightarrow> nat \<Rightarrow> 'l session option" where
  "run_session render alog segs secret clock s n =
     Option.bind (client_start tcp_send (new_client secret clock))
       (\<lambda>client. exchanges render alog segs secret n (client, (AwaitAuth, NewServerEndpoint (open_conn []) DefaultCodec secret, s)))"

lemma last_heartbeat:
  assumes out: "nc_out (ce_conn (cl_endpoint cl)) = conn_wire (frame_of secret (Suc 3) m)" and ok: "message_ok m"
    and sv: "server_at secret 3 3 [] ep" and segs: "\<And>b. concat (segs b) = b" and live: "\<not> IsExpired peer (sv_clock s 0)"
    and m: "m = heartbeat_message t tok"
  shows "\<exists>ep' s'. last_step render alog segs ((cphase, cl), (Live peer, ep, s)) = Some (Live peer, ep', s')
    \<and> hs_peers (sv_health s') client_serviceID = Some \<lparr>ps_ServiceID = client_serviceID, ps_Status = ''ready'', ps_LastSeen = sv_clock s 1\<rparr>
    \<and> sv_history s' = EDispatch peer m (sv_clock s 0) # sv_history s"
proof -
  obtain c d where cd: "transmit segs (ce_conn (cl_endpoint cl)) (se_conn ep) = (c, d)" by fastforce
  have "Suc 3 < 2 ^ 64" by simp
  from server_takes [OF out sv ok this segs cd] obtain ep1 where
    ep1: "ServerEndpoint_Receive tcp_recv (ep\<lparr>se_conn := d\<rparr>) = Some (Inr m, ep1)" "server_at secret (Suc 3) 3 [] ep1" by blast
  have "m_Capability m = []" "m_Type m = TypeHeartbeat"
    "json_Unmarshal heartbeat_fields (m_Payload m) zeroHeartbeatEvent = (None, \<lparr>hb_Service = client_serviceID, hb_Status = ''ready''\<rparr>)"
    using heartbeat_round_trip session_constants by (simp_all add: m client_message_def)
  from on_message_heartbeat [OF ep1(2) live this, of render alog server_checker] ep1(1) cd show ?thesis
    by (auto simp: last_step_def conn_step_def on_received_def RecordHeartbeat_def)
qed

lemma run_session_Suc:
  "run_session render alog segs secret clock s (Suc n) =
     Option.bind (run_session render alog segs secret clock s n) (exchange render alog segs secret)"
  by (simp add: run_session_def)

lemma session_authenticates:
  assumes segs: "\<And>b. concat (segs b) = b" and clocks: "clock_ok sclock" "clock_ok cclock"
    and nonce: "rnd 0 = Inr nonce" "length nonce = 32" and tok: "rnd 1 = Inr tok" "length tok = 32"
  shows "\<exists>cl ep s t. run_session render alog segs secret cclock (new_server secret ttl lg sclock rnd) 2 =
      Some ((CAck (hex_EncodeToString tok), cl), (Live (client_peer ttl tok (sclock 2)), ep, s))
    \<and> session_at secret 2 (intent_message t (hex_EncodeToString tok)) cl ep
    \<and> ''ui:control'' \<in> set (se_peerCapabilities ep) \<and> sv_clock s = (\<lambda>i. sclock (i + 4))
    \<and> sv_history s = [EAuth (Accepted client_serviceID (hmac_Sum secret nonce) (hex_EncodeToString tok)), EAuth (Challenged client_serviceID nonce)]"
proof -
  let ?s = "new_server secret ttl lg sclock rnd"
  let ?ep = "NewServerEndpoint (open_conn []) DefaultCodec secret"
  from session_atI [OF client_starts [OF session_start(1), unfolded session_start(2), OF clocks(2), unfolded One_nat_def]
      clock_ok_shift [OF clocks(2)] session_start(3)] obtain cl0 where
    start: "client_start tcp_send (new_client secret cclock) = Some (CChallenge, cl0)"
      "session_at secret 0 (client_message (cclock 0) TypeAuth [] [] 0 [] (json_struct [(''service_id'', FStr client_serviceID)])) cl0 ?ep" .
  have s0: "au_knownServices (sv_auth ?s) = server_services" "sv_rand ?s 0 = Inr nonce" "length nonce \<le> 1000" "clock_ok (sv_clock ?s)"
    "sv_clock ?s = sclock" "sv_rand ?s = rnd" "au_sharedSecret (sv_auth ?s) = secret" "au_sessionTTL (sv_auth ?s) = ttl" "sv_history ?s = []"
    using clocks(1) nonce by (simp_all add: new_server_def SetSessionTTL_def NewAuthenticator_def)
  from round_challenge [OF start(2) _ _ _ segs s0(1-4), of render alog] obtain cl1 ep1 s1 m1 where
    r1: "exchange render alog segs secret ((CChallenge, cl0), (AwaitAuth, ?ep, ?s)) = Some ((CResult, cl1), (AwaitResponse client_serviceID [], ep1, s1))"
      "session_at secret 1 m1 cl1 ep1" "m_Type m1 = TypeAuthResponse"
      "m_Payload m1 = json_struct [(''service_id'', FStr client_serviceID), (''response'', FStr (hex_EncodeToString (hmac_Sum secret nonce)))]"
    and s1: "au_sharedSecret (sv_auth s1) = secret" "au_knownServices (sv_auth s1) = server_services" "au_sessionTTL (sv_auth s1) = ttl"
      "au_pendingChallenges (sv_auth s1) client_serviceID = Some \<lparr>ch_ServiceID = client_serviceID, ch_Nonce = nonce, ch_CreatedAt = sclock 0\<rparr>"
      "sv_rand s1 0 = Inr tok" "length tok \<le> 500" "clock_ok (sv_clock s1)"
      "sv_clock s1 = (\<lambda>i. sclock (i + 2))" "sv_history s1 = [EAuth (Challenged client_serviceID nonce)]"
    using s0 clocks(1) tok by (auto simp: client_message_def clock_ok_def)
  from round_result [OF r1(2-4) segs s1(1-7), of render alog] obtain cl2 ep2 s2 where
    r2: "exchange render alog segs secret ((CResult, cl1), (AwaitResponse client_serviceID [], ep1, s1)) =
        Some ((CAck (hex_EncodeToString tok), cl2), (Live (client_peer ttl tok (sclock 2)), ep2, s2))"
      "session_at secret 2 (intent_message (cl_clock cl1 0) (hex_EncodeToString tok)) cl2 ep2"
      "''ui:control'' \<in> set (se_peerCapabilities ep2)"
    and s2: "sv_clock s2 = (\<lambda>i. sclock (i + 4))" "clock_ok (sv_clock s2)"
      "sv_history s2 = [EAuth (Accepted client_serviceID (hmac_Sum secret nonce) (hex_EncodeToString tok)), EAuth (Challenged client_serviceID nonce)]"
    using s1 clocks(1) by (auto simp: clock_ok_def numeral_2_eq_2 numeral_eq_Suc)
  moreover have "run_session render alog segs secret cclock ?s 2 = Some ((CAck (hex_EncodeToString tok), cl2), (Live (client_peer ttl tok (sclock 2)), ep2, s2))"
    by (simp add: run_session_def numeral_2_eq_2 start(1) r1(1) r2(1))
  ultimately show ?thesis by blast
qed

lemma session_acknowledged:
  assumes segs: "\<And>b. concat (segs b) = b" and clocks: "clock_ok sclock" "clock_ok cclock"
    and nonce: "rnd 0 = Inr nonce" "length nonce = 32" and tok: "rnd 1 = Inr tok" "length tok = 32"
    and live: "ttl \<le> 0 \<or> time_Sub (sclock 4) (sclock 2) \<le> ttl"
  defines "peer \<equiv> client_peer ttl tok (sclock 2)"
  shows "\<exists>cl ep s t u. run_session render alog segs secret cclock (new_server secret ttl lg sclock rnd) 3 =
      Some ((CDone intent_ack, cl), (Live peer, ep, s))
    \<and> message_ok (heartbeat_message u (hex_EncodeToString tok))
    \<and> nc_out (ce_conn (cl_endpoint cl)) = conn_wire (frame_of secret (Suc 3) (heartbeat_message u (hex_EncodeToString tok)))
    \<and> server_at secret 3 3 [] ep \<and> sv_clock s = (\<lambda>i. sclock (i + 6))
    \<and> sv_history s = [EDispatch peer (intent_message t (hex_EncodeToString tok)) (sclock 4),
        EAuth (Accepted client_serviceID (hmac_Sum secret nonce) (hex_EncodeToString tok)), EAuth (Challenged client_serviceID nonce)]"
proof -
  let ?s = "new_server secret ttl lg sclock rnd"
  from session_authenticates [OF assms(1-7), of render alog secret ttl lg] obtain cl2 ep2 s2 t where
    r2: "run_session render alog segs secret cclock ?s 2 = Some ((CAck (hex_EncodeToString tok), cl2), (Live peer, ep2, s2))"
      "session_at secret 2 (intent_message t (hex_EncodeToString tok)) cl2 ep2" "''ui:control'' \<in> set (se_peerCapabilities ep2)"
    and s2: "sv_clock s2 = (\<lambda>i. sclock (i + 4))"
      "sv_history s2 = [EAuth (Accepted client_serviceID (hmac_Sum secret nonce) (hex_EncodeToString tok)), EAuth (Challenged client_serviceID nonce)]"
    unfolding peer_def by blast
  have "\<not> IsExpired peer (sv_clock s2 0)" "length tok \<le> 500" "clock_ok (sv_clock s2)"
    using clocks(1) tok live by (auto simp: IsExpired_def peer_def client_peer_def s2 clock_ok_def)
  from round_intent [OF r2(2,3) refl segs this, of render alog] show ?thesis
    using run_session_Suc [of render alog segs secret cclock ?s 2] s2 by (fastforce simp: r2(1) add.commute add.left_commute)
qed

text \<open>
  C2: The client program and the server program complete a whole session: started against a fresh server over
  TCP, whatever way the connection splits the bytes into reads, the client authenticates by challenge and
  response, sends its intent and gets the acknowledgement of request \<open>req-1\<close> with status ok; its connection is
  then live under the identity the server's table gives it, the heartbeat it sends last is recorded by the
  health service, and the server has dispatched exactly the intent and the heartbeat, in this order, after
  exactly one challenge and one acceptance. The hypotheses: both clocks give times a timestamp can carry, the
  random generator works, and the session does not outlive its time to live.
\<close>

theorem session_succeeds:
  assumes "\<And>b. concat (segs b) = b" and "clock_ok sclock" and "clock_ok cclock"
    and "rnd 0 = Inr nonce" and "length nonce = 32" and "rnd 1 = Inr tok" and "length tok = 32"
    and "ttl \<le> 0 \<or> time_Sub (sclock 4) (sclock 2) \<le> ttl \<and> time_Sub (sclock 6) (sclock 2) \<le> ttl"
  defines "peer \<equiv> client_peer ttl tok (sclock 2)"
  shows "\<exists>cl ep s ep' s' intent hb.
    run_session render alog segs secret cclock (new_server secret ttl lg sclock rnd) 3 =
      Some ((CDone intent_ack, cl), (Live peer, ep, s))
    \<and> last_step render alog segs ((CDone intent_ack, cl), (Live peer, ep, s))
      = Some (Live peer, ep', s')
    \<and> hs_peers (sv_health s') client_serviceID = Some \<lparr>ps_ServiceID = client_serviceID, ps_Status = ''ready'', ps_LastSeen = sclock 7\<rparr>
    \<and> rev (sv_history s') = [EAuth (Challenged client_serviceID nonce),
        EAuth (Accepted client_serviceID (hmac_Sum secret nonce) (hex_EncodeToString tok)),
        EDispatch peer intent (sclock 4), EDispatch peer hb (sclock 6)]
    \<and> m_Type intent = TypeIntent \<and> m_Type hb = TypeHeartbeat"
proof -
  let ?s = "new_server secret ttl lg sclock rnd"
  from assms(8) have "ttl \<le> 0 \<or> time_Sub (sclock 4) (sclock 2) \<le> ttl" by blast
  from session_acknowledged [OF assms(1-7) this, of render alog secret lg] obtain cl ep s t u where
    run: "run_session render alog segs secret cclock ?s 3 = Some ((CDone intent_ack, cl), (Live peer, ep, s))"
    and hb: "nc_out (ce_conn (cl_endpoint cl)) = conn_wire (frame_of secret (Suc 3) (heartbeat_message u (hex_EncodeToString tok)))"
      "message_ok (heartbeat_message u (hex_EncodeToString tok))" "server_at secret 3 3 [] ep"
    and s: "sv_clock s = (\<lambda>i. sclock (i + 6))" "sv_history s = [EDispatch peer (intent_message t (hex_EncodeToString tok)) (sclock 4),
        EAuth (Accepted client_serviceID (hmac_Sum secret nonce) (hex_EncodeToString tok)), EAuth (Challenged client_serviceID nonce)]"
    unfolding peer_def by blast
  have "\<not> IsExpired peer (sv_clock s 0)"
    using assms(8) by (auto simp: IsExpired_def peer_def client_peer_def s(1))
  from last_heartbeat [OF hb assms(1) this refl, of render alog "CDone intent_ack"] obtain ep' s' where
    "last_step render alog segs ((CDone intent_ack, cl), (Live peer, ep, s)) = Some (Live peer, ep', s')"
    "hs_peers (sv_health s') client_serviceID = Some \<lparr>ps_ServiceID = client_serviceID, ps_Status = ''ready'', ps_LastSeen = sclock 7\<rparr>"
    "sv_history s' = EDispatch peer (heartbeat_message u (hex_EncodeToString tok)) (sclock 6) # sv_history s"
    using s(1) by auto
  with run s(2) show ?thesis
    by (intro exI conjI) (auto simp: client_message_def)
qed

text \<open>A session at concrete clocks and random numbers, over a network that delivers a message in one piece.\<close>

theorem session_succeeds_witness:
  "\<exists>cl ep s. run_session (\<lambda>_. []) (\<lambda>_ l. (None, l)) (\<lambda>b. [b]) [1, 2, 3] (\<lambda>_. 0)
      (new_server [1, 2, 3] Hour () (\<lambda>i. int (min i 7) * Second) (\<lambda>i. Inr (replicate 32 (of_nat i)))) 3 =
    Some ((CDone intent_ack, cl), (Live (client_peer Hour (replicate 32 1) (2 * Second)), ep, s))"
proof -
  let ?clock = "\<lambda>i. int (min i 7) * Second" and ?rnd = "\<lambda>i. Inr (replicate 32 (of_nat i)) :: bytes result"
  have ok: "clock_ok ?clock" "clock_ok (\<lambda>_. 0)" by (simp_all add: clock_ok_def year10000_bound Second_def min_def)
  have ttl: "Hour \<le> 0 \<or> time_Sub (?clock 4) (?clock 2) \<le> Hour \<and> time_Sub (?clock 6) (?clock 2) \<le> Hour"
    by (simp add: time_Sub_def Hour_def Minute_def Second_def minDuration_def maxDuration_def)
  have rnd: "?rnd 0 = Inr (replicate 32 0)" "?rnd 1 = Inr (replicate 32 1)" by simp_all
  from session_succeeds [of "\<lambda>b. [b]", OF _ ok rnd(1) _ rnd(2) _ ttl, of "\<lambda>_. []" "\<lambda>_ l. (None, l)" "[1, 2, 3]" "()"]
  show ?thesis by (simp; blast)
qed

section \<open>Reachable server states\<close>

text \<open>A session's server is a state of the whole server with one connection.\<close>

definition session_world :: "conn_phase \<Rightarrow> netconn ServerEndpoint \<Rightarrow> 'l Server \<Rightarrow> (netconn, 'l) World" where
  "session_world phase ep s = \<lparr>wd_conns = [0 \<mapsto> (phase, ep)], wd_next = 1, wd_slots = 1, wd_server = s\<rparr>"

lemma exchange_reachable:
  assumes "server_run render alog tcp_send tcp_recv maxConns secret (session_world sphase ep s)"
    and "exchange render alog segs secret ((cphase, cl), (sphase, ep, s)) = Some ((cphase', cl'), (sphase', ep', s'))"
    and "sphase' \<noteq> Closed"
  shows "server_run render alog tcp_send tcp_recv maxConns secret (session_world sphase' ep' s')"
proof -
  obtain c d where cd: "transmit segs (ce_conn (cl_endpoint cl)) (se_conn ep) = (c, d)" by fastforce
  from assms(2) cd obtain ep1 d' where
    step: "conn_step render alog tcp_send tcp_recv (server_router alog server_checker) (sphase, ep\<lparr>se_conn := d\<rparr>, s) = Some (sphase', ep1, s')"
      "ep' = ep1\<lparr>se_conn := d'\<rparr>"
    by (auto simp: exchange_def Let_def split: option.splits prod.splits)
  then have "sphase \<noteq> Closed" using assms(3) by (auto simp: conn_step_def on_received_def split: option.splits)
  have "server_run render alog tcp_send tcp_recv maxConns secret (session_world sphase (ep\<lparr>se_conn := d\<rparr>) s)"
    using server_run.network [OF assms(1), of 0 sphase ep d] by (simp add: session_world_def)
  from server_run.stepped [OF this _ \<open>sphase \<noteq> Closed\<close>, of 0 "ep\<lparr>se_conn := d\<rparr>" sphase' ep1 s'] step(1)
  have "server_run render alog tcp_send tcp_recv maxConns secret (session_world sphase' ep1 s')" by (simp add: session_world_def)
  from server_run.network [OF this, of 0 sphase' ep1 d'] step(2) show ?thesis by (simp add: session_world_def)
qed

lemma exchange_not_closed:
  "exchange render alog segs secret ((cphase, cl), (Closed, ep, s)) = Some (client, (sphase', ep', s')) \<Longrightarrow> sphase' = Closed"
  by (auto simp: exchange_def Let_def conn_step_def on_received_def split: option.splits prod.splits)

lemma session_reachable:
  assumes "0 < maxConns"
  shows "run_session render alog segs secret clock (new_server secret ttl lg sclock rnd) n = Some (client, (sphase, ep, s)) \<Longrightarrow>
    sphase \<noteq> Closed \<Longrightarrow> server_run render alog tcp_send tcp_recv maxConns secret (session_world sphase ep s)"
proof (induction n arbitrary: client sphase ep s)
  case 0
  have "accept_conn alog (\<lambda>_. []) maxConns secret (open_conn [])
      \<lparr>wd_conns = Map.empty, wd_next = 0, wd_slots = 0, wd_server = new_server secret ttl lg sclock rnd\<rparr> =
    session_world AwaitAuth (NewServerEndpoint (open_conn []) DefaultCodec secret) (new_server secret ttl lg sclock rnd)"
    using assms by (simp add: accept_conn_def session_world_def)
  with server_run.accepted [OF server_run.start [of render alog tcp_send tcp_recv maxConns secret ttl lg sclock rnd],
      of "\<lambda>_. []" "open_conn []"] 0 show ?case
    by (auto simp: run_session_def split: Option.bind_splits)
next
  case (Suc n)
  then obtain cphase cl sphase1 ep1 s1 where
    prev: "run_session render alog segs secret clock (new_server secret ttl lg sclock rnd) n = Some ((cphase, cl), (sphase1, ep1, s1))"
      "exchange render alog segs secret ((cphase, cl), (sphase1, ep1, s1)) = Some (client, (sphase, ep, s))"
    by (auto simp: run_session_Suc split: Option.bind_splits)
  moreover from this have "sphase1 \<noteq> Closed" using Suc.prems(2) exchange_not_closed by blast
  ultimately show ?case
    using Suc.IH Suc.prems(2) exchange_reachable [of render alog maxConns secret sphase1 ep1 s1 segs cphase cl "fst client" "snd client"] by auto
qed

text \<open>A concrete session, for the witnesses of the properties of the server.\<close>

abbreviation example_server :: "unit Server" where
  "example_server \<equiv> new_server [1, 2, 3] Hour () (\<lambda>_. 0) (\<lambda>i. Inr (replicate 32 (of_nat i)))"

lemma example_conditions:
  "clock_ok (\<lambda>_. 0)" "(\<lambda>i. Inr (replicate 32 (of_nat i)) :: bytes result) 0 = Inr (replicate 32 0)"
  "(\<lambda>i. Inr (replicate 32 (of_nat i)) :: bytes result) 1 = Inr (replicate 32 1)" "Hour \<le> 0 \<or> time_Sub 0 0 \<le> Hour"
  by (simp_all add: clock_ok_def year10000_bound time_Sub_def Hour_def Minute_def Second_def minDuration_def maxDuration_def)



section \<open>Clients that do not authenticate\<close>

lemma server_drops_unauthenticated:
  assumes "nc_out c = conn_wire (frame_of key 1 m)" and "message_ok m" and "m_Type m \<noteq> TypeAuth" and "\<And>b. concat (segs b) = b"
    and "d = snd (transmit segs c (open_conn []))"
  shows "\<exists>d'. handleConnection render alog tcp_send tcp_recv ConnWrapper_Close DefaultCodec key router d s = Some (d', s) \<and> nc_out d' = []"
proof -
  have "transmit segs c (se_conn (NewServerEndpoint (open_conn []) DefaultCodec key)) = (fst (transmit segs c (open_conn [])), d)"
    using assms(5) by (simp add: NewServerEndpoint_def)
  from server_takes [OF _ session_start(3) assms(2) _ assms(4) this] assms(1) obtain ep where
    "ServerEndpoint_Receive tcp_recv (NewServerEndpoint d DefaultCodec key) = Some (Inr m, ep)" "nc_out (se_conn ep) = []"
    by (auto simp: NewServerEndpoint_def server_at_def)
  then show ?thesis
    using assms(3)
    by (simp add: handleConnection_def conn_loop.simps [of _ _ _ _ _ "(AwaitAuth, _)"] conn_loop.simps [of _ _ _ _ _ "(Closed, _)"]
        conn_step_def on_received_def on_auth_def ConnWrapper_Close_def netconn_Close_def)
qed

text \<open>What the client of a server sees: its output goes to a new connection, the server handles it, and what it wrote comes back.\<close>

definition served ::
  "(gotext \<Rightarrow> string) \<Rightarrow> 'l Logger \<Rightarrow> (bytes \<Rightarrow> bytes list) \<Rightarrow> bytes \<Rightarrow> 'l Server \<Rightarrow> netconn \<Rightarrow> (frame result \<times> netconn) option" where
  "served render alog segs key s c =
     (let (c, d) = transmit segs c (open_conn [])
      in case handleConnection render alog tcp_send tcp_recv ConnWrapper_Close DefaultCodec key (server_router alog server_checker) d s of
           None \<Rightarrow> None
         | Some (d, s) \<Rightarrow> tcp_recv (snd (transmit segs d c)))"

lemma ping_message_ok: "0 \<le> now \<Longrightarrow> now < year10000 \<Longrightarrow> message_ok (ping_message now)"
  by (simp add: message_ok_def ping_message_def ascii_utf8 ascii_def of_char_def known_types_def)

lemma silent_connection: "\<not> nc_closed c \<Longrightarrow> concat (nc_in c) = [] \<Longrightarrow> \<exists>e c'. ConnWrapper_Receive c = (Inl e, c')"
  using ConnWrapper_Receive_stream [of c] by (auto simp: stream_Receive_def stream_ReadFull_def simp del: concat_eq_Nil_conv)

text \<open>
  The \<^verbatim>\<open>ping\<close> command of the command line tool gets no answer from the server, even with the right key: it sends a heartbeat without
  the handshake, and a connection whose first message is not an authentication request is closed, whatever the server's state.
\<close>

theorem cli_ping_unanswered:
  assumes "\<And>b. concat (segs b) = b" and "0 \<le> now" and "now < year10000"
  shows "\<exists>ep. cmdPing tcp_send (served render alog segs key s) key now (open_conn []) = Some (CliNoResponse, ep)"
proof -
  from client_sends [OF session_start(1) ping_message_ok [OF assms(2,3)], of key "\<lambda>_. 0"] obtain e where
    e: "ClientEndpoint_Send tcp_send (ping_message now) (NewClientEndpoint (open_conn []) DefaultCodec key []) = Some (None, e)"
      "client_at key 1 (conn_wire (frame_of key 1 (ping_message now))) e"
    by (auto simp: new_client_def)
  then have c: "nc_out (ce_conn e) = conn_wire (frame_of key 1 (ping_message now))" "\<not> nc_closed (ce_conn e)" "concat (nc_in (ce_conn e)) = []"
    by (simp_all add: client_at_def tcp_quiet_def conn_open_def)
  have "m_Type (ping_message now) \<noteq> TypeAuth" by (simp add: ping_message_def message_types)
  from server_drops_unauthenticated [OF c(1) ping_message_ok [OF assms(2,3)] this assms(1) refl, of render alog "server_router alog server_checker" s]
  obtain d where "handleConnection render alog tcp_send tcp_recv ConnWrapper_Close DefaultCodec key (server_router alog server_checker)
      (snd (transmit segs (ce_conn e) (open_conn []))) s = Some (d, s)" "nc_out d = []" by blast
  then have "served render alog segs key s (ce_conn e) = tcp_recv ((ce_conn e)\<lparr>nc_out := [], nc_in := nc_in (ce_conn e) @ segs []\<rparr>)"
    by (simp add: served_def transmit_def)
  moreover obtain err c' where "ConnWrapper_Receive ((ce_conn e)\<lparr>nc_out := [], nc_in := nc_in (ce_conn e) @ segs []\<rparr>) = (Inl err, c')"
    using silent_connection [of "(ce_conn e)\<lparr>nc_out := [], nc_in := nc_in (ce_conn e) @ segs []\<rparr>"] c(2,3) assms(1) [of "[]"]
    by (auto simp del: concat_eq_Nil_conv)
  ultimately show ?thesis using e(1) by (simp add: cmdPing_def ClientEndpoint_Receive_def)
qed

theorem cli_ping_unanswered_witness:
  "\<exists>ep. cmdPing tcp_send (served (\<lambda>_. []) (\<lambda>_ l. (None, l)) (\<lambda>b. [b]) [7] example_server) [7] 0 (open_conn []) = Some (CliNoResponse, ep)"
  using cli_ping_unanswered [of "\<lambda>b. [b]" 0 "\<lambda>_. []" "\<lambda>_ l. (None, l)" "[7]" example_server] by (simp add: year10000_bound)

section \<open>Listening\<close>

lemma tcp_ClientEndpoint_Receive:
  "\<exists>r ep'. ClientEndpoint_Receive tcp_recv ep = Some (r, ep')
    \<and> (\<forall>m. r = Inr m \<longrightarrow> length (concat (nc_in (ce_conn ep'))) < length (concat (nc_in (ce_conn ep))))"
proof -
  obtain r c where rc: "ConnWrapper_Receive (ce_conn ep) = (r, c)" by fastforce
  show ?thesis
    using rc tcp_receive_consumes [of "ce_conn ep"]
    by (auto simp: ClientEndpoint_Receive_def Let_def split: sum.split)
qed

lemma listen_loop_tcp:
  assumes "n \<le> 0 \<or> int (length printed) < n"
  shows "\<exists>ms e ep'. listen_loop tcp_recv n printed ep = Some (ms, e, ep') \<and> (e = None \<longleftrightarrow> 0 < n \<and> int (length ms) = n)"
  using assms
proof (induction "length (concat (nc_in (ce_conn ep)))" arbitrary: printed ep rule: less_induct)
  case less
  obtain r ep' where r: "ClientEndpoint_Receive tcp_recv ep = Some (r, ep')"
    "\<And>m. r = Inr m \<Longrightarrow> length (concat (nc_in (ce_conn ep'))) < length (concat (nc_in (ce_conn ep)))"
    using tcp_ClientEndpoint_Receive by blast
  show ?case
  proof (cases r)
    case (Inl err)
    then show ?thesis using r(1) less.prems by (subst listen_loop.simps) auto
  next
    case (Inr m)
    show ?thesis
    proof (cases "n > 0 \<and> int (length (printed @ [m])) \<ge> n")
      case True
      then show ?thesis using r(1) Inr less.prems by (subst listen_loop.simps) (auto simp: Let_def)
    next
      case False
      then have "n \<le> 0 \<or> int (length (printed @ [m])) < n" by linarith
      from less.hyps [OF r(2) [OF Inr] this] show ?thesis
        using r(1) Inr False by (subst listen_loop.simps) (auto simp: Let_def)
    qed
  qed
qed

text \<open>
  The \<open>listen\<close> command returns on every finite input, and without an error exactly when it was given a number
  of messages and has printed that many.
\<close>

theorem cmdListen_returns:
  "\<exists>ms e ep. cmdListen tcp_recv n key conn = Some (ms, e, ep) \<and> (e = None \<longleftrightarrow> 0 < n \<and> int (length ms) = n)"
  unfolding cmdListen_def by (rule listen_loop_tcp) auto

end
