(* ===== verification/Hello.thy ===== *)
theory Hello
  imports Session
begin

text \<open>
  \<^verbatim>\<open>examples/hello-eipc\<close>: the minimal client and server. What they print is left out; \<open>log.Fatal\<close> ends the client with an error.
\<close>

section \<open>The programs\<close>

definition hello_secret :: bytes where
  "hello_secret = bytes_of_string ''hello-eipc-demo-secret-key-32b!''"

definition hello_message :: "time \<Rightarrow> Message" where
  "hello_message now =
     \<lparr>m_Version = core_ProtocolVersion, m_Type = TypeChat, m_Source = ''hello-client'', m_Timestamp = now, m_SessionID = '''',
      m_RequestID = ''hello-1'', m_Priority = PriorityP1, m_Capability = '''',
      m_Payload = bytes_of_string ''{\"text\":\"Hello, EIPC!\"}''\<rparr>"

definition hello_client ::
  "(frame \<Rightarrow> 'c \<Rightarrow> (error option \<times> 'c) option) \<Rightarrow> ('c \<Rightarrow> (frame result \<times> 'c) option) \<Rightarrow> time \<Rightarrow> 'c
    \<Rightarrow> (bytes result \<times> 'c ClientEndpoint) option" where
  "hello_client csend crecv now conn =
     (case ClientEndpoint_Send csend (hello_message now) (NewClientEndpoint conn DefaultCodec hello_secret '''') of
       None \<Rightarrow> None
     | Some (Some e, ep) \<Rightarrow> Some (Inl e, ep)
     | Some (None, ep) \<Rightarrow>
        (case ClientEndpoint_Receive crecv ep of
           None \<Rightarrow> None
         | Some (Inl e, ep) \<Rightarrow> Some (Inl e, ep)
         | Some (Inr resp, ep) \<Rightarrow> Some (Inr (m_Payload resp), ep)))"

definition hello_ack :: "time \<Rightarrow> string \<Rightarrow> Message" where
  "hello_ack now requestID =
     \<lparr>m_Version = core_ProtocolVersion, m_Type = TypeAck, m_Source = ''hello-server'', m_Timestamp = now, m_SessionID = '''',
      m_RequestID = requestID, m_Priority = PriorityP0, m_Capability = '''',
      m_Payload = bytes_of_string ''{\"status\":\"ok\",\"message\":\"Hello from EIPC!\"}''\<rparr>"

text \<open>What the server does with one connection; the error of \<open>Send\<close> is dropped.\<close>

definition hello_serve ::
  "(frame \<Rightarrow> 'c \<Rightarrow> (error option \<times> 'c) option) \<Rightarrow> ('c \<Rightarrow> (frame result \<times> 'c) option) \<Rightarrow> ('c \<Rightarrow> error option \<times> 'c) \<Rightarrow> time \<Rightarrow> 'c \<Rightarrow> 'c option" where
  "hello_serve csend crecv cclose now conn =
     map_option (\<lambda>ep. snd (cclose (se_conn ep)))
       (case ServerEndpoint_Receive crecv (NewServerEndpoint conn DefaultCodec hello_secret) of
          None \<Rightarrow> None
        | Some (Inl _, ep) \<Rightarrow> Some ep
        | Some (Inr msg, ep) \<Rightarrow> map_option snd (ServerEndpoint_Send csend (hello_ack now (m_RequestID msg)) ep))"

section \<open>Properties\<close>

lemma hello_messages_ok:
  assumes "0 \<le> now" and "now < year10000"
  shows "message_ok (hello_message now)" and "message_ok (hello_ack now ''hello-1'')"
  using assms
  by (simp_all add: message_ok_def hello_message_def hello_ack_def ascii_utf8 ascii_def of_char_def known_types_def)

text \<open>The connection as the client sees it, with the server behind it.\<close>

definition hello_served :: "(bytes \<Rightarrow> bytes list) \<Rightarrow> time \<Rightarrow> netconn \<Rightarrow> (frame result \<times> netconn) option" where
  "hello_served segs now c =
     (let (c, d) = transmit segs c (open_conn [])
      in case hello_serve tcp_send tcp_recv ConnWrapper_Close now d of
           None \<Rightarrow> None
         | Some d \<Rightarrow> tcp_recv (snd (transmit segs d c)))"

text \<open>
  The minimal example works: over TCP, however the connection splits the bytes, the client gets the server's greeting.
\<close>

theorem hello_exchange:
  assumes "\<And>b. concat (segs b) = b" and "0 \<le> now" and "now < year10000" and "0 \<le> now'" and "now' < year10000"
  shows "\<exists>ep. hello_client tcp_send (hello_served segs now') now (open_conn [])
    = Some (Inr (bytes_of_string ''{\"status\":\"ok\",\"message\":\"Hello from EIPC!\"}''), ep)"
proof -
  let ?ack = "hello_ack now' ''hello-1''"
  note ok = hello_messages_ok(1) [OF assms(2,3)] hello_messages_ok(2) [OF assms(4,5)]
  from client_sends [OF session_start(1) ok(1), of hello_secret "\<lambda>_. 0"] obtain e where
    e: "ClientEndpoint_Send tcp_send (hello_message now) (NewClientEndpoint (open_conn []) DefaultCodec hello_secret []) = Some (None, e)"
      "client_at hello_secret 1 (conn_wire (frame_of hello_secret 1 (hello_message now))) e"
    by (auto simp: new_client_def)
  obtain c d where cd: "transmit segs (ce_conn e) (open_conn []) = (c, d)" by fastforce
  have "transmit segs (ce_conn e) (se_conn (NewServerEndpoint (open_conn []) DefaultCodec hello_secret)) = (c, d)"
    using cd by (simp add: NewServerEndpoint_def)
  from server_receives [OF e(2) [unfolded One_nat_def] session_start(3) ok(1) _ assms(1) this] obtain ep where
    ep: "ServerEndpoint_Receive tcp_recv (NewServerEndpoint d DefaultCodec hello_secret) = Some (Inr (hello_message now), ep)"
      "server_at hello_secret 1 0 [] ep" "client_at hello_secret 1 [] (e\<lparr>ce_conn := c\<rparr>)"
    by (auto simp: NewServerEndpoint_def)
  from server_sends [OF ep(2) ok(2)] obtain ep2 where
    ep2: "ServerEndpoint_Send tcp_send ?ack ep = Some (None, ep2)" "server_at hello_secret 1 1 (conn_wire (frame_of hello_secret 1 ?ack)) ep2"
    by auto
  let ?d = "snd (ConnWrapper_Close (se_conn ep2))"
  have "nc_out ?d = nc_out (se_conn ep2)" by (simp add: ConnWrapper_Close_def netconn_Close_def)
  then have same: "snd (transmit segs ?d c) = snd (transmit segs (se_conn ep2) c)" by (simp add: transmit_def)
  obtain d2 c2 where dc: "transmit segs (se_conn ep2) (ce_conn (e\<lparr>ce_conn := c\<rparr>)) = (d2, c2)" by fastforce
  from client_receives [OF ep2(2) ep(3) ok(2) assms(1) dc] obtain e2 where
    "ClientEndpoint_Receive tcp_recv (e\<lparr>ce_conn := c2\<rparr>) = Some (Inr ?ack, e2)" by auto
  moreover have "hello_served segs now' (ce_conn e) = tcp_recv c2"
    using cd dc ep(1) ep2(1) same by (simp add: hello_served_def hello_serve_def hello_message_def)
  ultimately show ?thesis
    using e(1) by (auto simp: hello_client_def ClientEndpoint_Receive_def hello_ack_def split: prod.splits sum.splits)
qed

theorem hello_exchange_witness:
  "\<exists>ep. hello_client tcp_send (hello_served (map (\<lambda>b. [b])) 0) 0 (open_conn [])
    = Some (Inr (bytes_of_string ''{\"status\":\"ok\",\"message\":\"Hello from EIPC!\"}''), ep)"
  using hello_exchange [of "map (\<lambda>b. [b])" 0 0] by (simp add: year10000_bound)

end
