(* ===== verification/CMemory.thy ===== *)
theory CMemory
  imports Prelude "HOL-Library.Monad_Syntax"
begin

text \<open>
  Memory as the C code of the SDK uses it: an object is the list of its bytes, and an access outside of it, which C leaves undefined, is
  the result None. A \<open>char\<close> array that holds a string ends it with a zero byte. Sizes of type \<open>size_t\<close> are natural
  numbers: every sum the code forms is far below \<open>SIZE_MAX\<close> on any platform.
\<close>

definition c_get :: "bytes \<Rightarrow> nat \<Rightarrow> byte option" where
  "c_get b i = (if i < length b then Some (b ! i) else None)"

definition c_set :: "bytes \<Rightarrow> nat \<Rightarrow> byte \<Rightarrow> bytes option" where
  "c_set b i v = (if i < length b then Some (b[i := v]) else None)"

text \<open>\<open>memcpy(dst + i, src + j, n)\<close>.\<close>

definition c_memcpy :: "bytes \<Rightarrow> nat \<Rightarrow> bytes \<Rightarrow> nat \<Rightarrow> nat \<Rightarrow> bytes option" where
  "c_memcpy dst i src j n =
     (if i + n \<le> length dst \<and> j + n \<le> length src
      then Some (take i dst @ take n (drop j src) @ drop (i + n) dst) else None)"

text \<open>Assignments \<open>buf[pos++] = v\<close> in sequence.\<close>

primrec c_puts :: "bytes \<Rightarrow> bytes \<times> nat \<Rightarrow> (bytes \<times> nat) option" where
  "c_puts [] st = Some st"
| "c_puts (v # vs) st = do { buf \<leftarrow> c_set (fst st) (snd st) v; c_puts vs (buf, snd st + 1) }"

text \<open>A big-endian 32-bit number at an offset.\<close>

definition c_be32 :: "bytes \<Rightarrow> nat \<Rightarrow> 32 word option" where
  "c_be32 b i =
     do { w \<leftarrow> c_get b i; x \<leftarrow> c_get b (i + 1); y \<leftarrow> c_get b (i + 2); z \<leftarrow> c_get b (i + 3);
          Some (push_bit 24 (ucast w) OR push_bit 16 (ucast x) OR push_bit 8 (ucast y) OR ucast z) }"

section \<open>Lemmas\<close>

definition overwrite :: "bytes \<Rightarrow> nat \<Rightarrow> bytes \<Rightarrow> bytes" where
  "overwrite b i vs = take i b @ vs @ drop (i + length vs) b"

lemma overwrite_Nil [simp]: "overwrite b i [] = b"
  by (simp add: overwrite_def)

lemma length_overwrite [simp]: "i + length vs \<le> length b \<Longrightarrow> length (overwrite b i vs) = length b"
  by (simp add: overwrite_def)

lemma overwrite_append:
  "i + length vs + length ws \<le> length b \<Longrightarrow> overwrite (overwrite b i vs) (i + length vs) ws = overwrite b i (vs @ ws)"
  by (simp add: overwrite_def ac_simps)

lemma overwrite_step: "i < length b \<Longrightarrow> b[i := v] = overwrite b i [v]"
  by (simp add: overwrite_def upd_conv_take_nth_drop)

lemma take_overwrite [simp]: "length vs \<le> length b \<Longrightarrow> take (length vs) (overwrite b 0 vs) = vs"
  by (simp add: overwrite_def)

lemma c_puts_eq: "pos + length vs \<le> length buf \<Longrightarrow> c_puts vs (buf, pos) = Some (overwrite buf pos vs, pos + length vs)"
proof (induction vs arbitrary: buf pos)
  case (Cons v vs)
  then show ?case using overwrite_append [of pos "[v]" vs buf] by (simp add: c_set_def overwrite_step)
qed simp

lemma c_memcpy_eq:
  "i + n \<le> length dst \<Longrightarrow> j + n \<le> length src \<Longrightarrow> c_memcpy dst i src j n = Some (overwrite dst i (take n (drop j src)))"
  by (simp add: c_memcpy_def overwrite_def)

lemma c_be32_eq: "i + 4 \<le> length b \<Longrightarrow> c_be32 b i = Some (Uint32 (take 4 (drop i b)))"
  by (simp add: c_be32_def c_get_def Uint32_def or.commute or.left_commute)

end
