(* ===== verification/CString.thy ===== *)
theory CString
  imports CMemory Json
begin

text \<open>
  The functions of \<^verbatim>\<open>string.h\<close>, \<^verbatim>\<open>stdio.h\<close> and \<^verbatim>\<open>stdlib.h\<close> the C SDK uses, on the objects of theory CMemory. A string is the
  part of an object before its first zero byte; reading the string of an object without one runs over its end, which is None.
  A pointer into a string is the rest of the string it points at.
\<close>

section \<open>Strings\<close>

definition c_str :: "bytes \<Rightarrow> bytes option" where
  "c_str b = (if 0 \<in> set b then Some (takeWhile (\<lambda>c. c \<noteq> 0) b) else None)"

text \<open>\<open>strncpy(dst, src, n)\<close> copies at most \<open>n\<close> characters and fills up with zeroes.\<close>

definition c_strncpy :: "bytes \<Rightarrow> bytes \<Rightarrow> nat \<Rightarrow> bytes option" where
  "c_strncpy dst src n =
     (if n \<le> length dst \<and> (0 \<in> set (take n src) \<or> n \<le> length src)
      then (let s = takeWhile (\<lambda>c. c \<noteq> 0) (take n src) in Some (s @ replicate (n - length s) 0 @ drop n dst))
      else None)"

text \<open>\<open>strstr\<close>: the rest of the string from the first occurrence of the pattern.\<close>

primrec starts_with :: "bytes \<Rightarrow> bytes \<Rightarrow> bool" where
  "starts_with [] s \<longleftrightarrow> True"
| "starts_with (c # p) s \<longleftrightarrow> (case s of [] \<Rightarrow> False | d # s' \<Rightarrow> c = d \<and> starts_with p s')"

fun c_strstr :: "bytes \<Rightarrow> bytes \<Rightarrow> bytes option" where
  "c_strstr [] p = (if starts_with p [] then Some [] else None)"
| "c_strstr (c # s) p = (if starts_with p (c # s) then Some (c # s) else c_strstr s p)"

text \<open>
  \<open>snprintf(buf + i, sz, ...)\<close> for the formatted text. It returns the length of the text; the SDK takes a negative result, for a text
  of more than \<open>INT_MAX\<close> characters, the same way as one that does not fit.
\<close>

definition c_snprintf :: "bytes \<Rightarrow> nat \<Rightarrow> nat \<Rightarrow> bytes \<Rightarrow> (nat \<times> bytes) option" where
  "c_snprintf buf i sz text =
     (if sz = 0 then Some (length text, buf)
      else do { st \<leftarrow> c_puts (take (sz - 1) text @ [0]) (buf, i); Some (length text, fst st) })"

text \<open>The conversions \<open>%d\<close> and \<open>%s\<close> between quotes.\<close>

definition fmt_int :: "32 word \<Rightarrow> bytes" where
  "fmt_int n = (if sint n < 0 then 0x2D # itoa (nat (- sint n)) else itoa (nat (sint n)))"

definition quoted :: "bytes \<Rightarrow> bytes" where
  "quoted s = 0x22 # s @ [0x22]"

text \<open>\<open>strtoull(s, NULL, 10)\<close>.\<close>

definition c_isspace :: "byte \<Rightarrow> bool" where
  "c_isspace c \<longleftrightarrow> c \<in> {0x20, 0x09, 0x0A, 0x0B, 0x0C, 0x0D}"

definition c_strtoull :: "bytes \<Rightarrow> 64 word" where
  "c_strtoull s =
     (let s1 = dropWhile c_isspace s;
          sign = (case s1 of [] \<Rightarrow> 0 | c # _ \<Rightarrow> if c \<in> {0x2B, 0x2D} then c else 0);
          n = digits_nat (takeWhile is_digit (if sign = 0 then s1 else tl s1))
      in if n \<ge> 2 ^ 64 then - 1 else if sign = 0x2D then - of_nat n else of_nat n)"

section \<open>Lemmas\<close>

text \<open>The array of \<open>n\<close> bytes that holds a string and zeroes behind it.\<close>

definition c_array :: "nat \<Rightarrow> bytes \<Rightarrow> bytes" where
  "c_array n s = s @ replicate (n - length s) 0"

lemma length_c_array [simp]: "length s \<le> n \<Longrightarrow> length (c_array n s) = n"
  by (simp add: c_array_def)

lemma takeWhile_zero [simp]: "0 \<notin> set s \<Longrightarrow> takeWhile (\<lambda>c. c \<noteq> (0 :: byte)) (s @ 0 # t) = s"
  by (induction s) auto

lemma c_str_terminated: "0 \<notin> set s \<Longrightarrow> c_str (s @ 0 # t) = Some s"
  by (simp add: c_str_def)

lemma c_str_array [simp]: "0 \<notin> set s \<Longrightarrow> length s < n \<Longrightarrow> c_str (c_array n s) = Some s"
proof -
  assume s: "0 \<notin> set s" "length s < n"
  then have "replicate (n - length s) 0 = 0 # replicate (n - length s - 1) (0 :: byte)" by (cases "n - length s") auto
  with s show ?thesis by (simp add: c_array_def c_str_terminated)
qed

lemma c_str_split: "c_str b = Some s \<longleftrightarrow> 0 \<notin> set s \<and> (\<exists>t. b = s @ 0 # t)"
proof
  assume "c_str b = Some s"
  then have s: "s = takeWhile (\<lambda>c. c \<noteq> 0) b" and z: "0 \<in> set b" by (auto simp: c_str_def split: if_splits)
  obtain u v where b: "b = u @ 0 # v" "0 \<notin> set u" using split_list_first [OF z] by blast
  then show "0 \<notin> set s \<and> (\<exists>t. b = s @ 0 # t)" by (simp add: s)
qed (auto simp: c_str_def)

lemma c_str_length: "c_str b = Some s \<Longrightarrow> length s < length b \<and> 0 \<notin> set s"
  by (auto simp: c_str_split)

lemma c_str_None: "c_str b = None \<longleftrightarrow> 0 \<notin> set b"
  by (simp add: c_str_def)

lemma c_snprintf_eq:
  assumes "length text < sz" and "i + length text < length buf"
  shows "c_snprintf buf i sz text = Some (length text, overwrite buf i (text @ [0]))"
  using assms by (simp add: c_snprintf_def c_puts_eq)

lemma c_snprintf_total:
  "i + sz \<le> length buf \<Longrightarrow> \<exists>buf'. c_snprintf buf i sz text = Some (length text, buf') \<and> length buf' = length buf"
  by (simp add: c_snprintf_def c_puts_eq)

lemma starts_with_append [simp]: "starts_with p (p @ s)"
  by (induction p) simp_all

lemma starts_with_iff: "starts_with p s \<longleftrightarrow> (\<exists>t. s = p @ t)"
  by (induction p arbitrary: s) (auto split: list.splits)

lemma c_strstr_skip: "c \<notin> set pre \<Longrightarrow> c_strstr (pre @ s) (c # p) = c_strstr s (c # p)"
  by (induction pre) auto

lemma c_strncpy_array:
  assumes "0 \<notin> set s" and "length s < n" and "n \<le> length dst" and "length s < m"
  shows "c_strncpy dst (c_array m s) n = Some (c_array n s @ drop n dst)"
proof -
  obtain k where "m - length s = Suc k" using assms(4) by (metis Suc_diff_Suc)
  moreover obtain l where "n - length s = Suc l" using assms(2) by (metis Suc_diff_Suc)
  ultimately have "takeWhile (\<lambda>c. c \<noteq> 0) (take n (c_array m s)) = s" "0 \<in> set (take n (c_array m s))"
    using assms(1,2) by (simp_all add: c_array_def)
  then show ?thesis using assms by (simp add: c_strncpy_def Let_def) (simp add: c_array_def)
qed

end
