(* ===== verification/CFrame.thy ===== *)
theory CFrame
  imports CMemory Frame
begin

text \<open>
  \<^verbatim>\<open>sdk/c/src/eipc_frame.c\<close> and the frame types of \<^verbatim>\<open>sdk/c/include/eipc_types.h\<close>: the frame codec of the C SDK. Pointer arguments are
  references, so the tests for NULL at the start of each function, which return \<open>EIPC_ERR_INVALID\<close>, have no counterpart.
  An output parameter is passed in and returned.
\<close>

section \<open>Types\<close>

definition EIPC_MAGIC :: "32 word" where "EIPC_MAGIC = 0x45495043"
definition EIPC_PROTOCOL_VER :: "16 word" where "EIPC_PROTOCOL_VER = 1"
definition EIPC_MAC_SIZE :: nat where "EIPC_MAC_SIZE = 32"
definition EIPC_MAX_FRAME :: nat where "EIPC_MAX_FRAME = 2 ^ 20"
definition EIPC_MAX_PAYLOAD :: nat where "EIPC_MAX_PAYLOAD = 4096"
definition EIPC_MAX_HEADER :: nat where "EIPC_MAX_HEADER = 1024"
definition EIPC_FRAME_FIXED_SIZE :: nat where "EIPC_FRAME_FIXED_SIZE = 16"
definition EIPC_FRAME_BUF_SIZE :: nat where
  "EIPC_FRAME_BUF_SIZE = EIPC_FRAME_FIXED_SIZE + EIPC_MAX_HEADER + EIPC_MAX_PAYLOAD + EIPC_MAC_SIZE"
definition EIPC_FLAG_HMAC :: byte where "EIPC_FLAG_HMAC = push_bit 0 1"

datatype eipc_status_t =
    EIPC_OK | EIPC_ERR_NOMEM | EIPC_ERR_INVALID | EIPC_ERR_IO | EIPC_ERR_TIMEOUT | EIPC_ERR_AUTH | EIPC_ERR_CAPABILITY
  | EIPC_ERR_INTEGRITY | EIPC_ERR_REPLAY | EIPC_ERR_BACKPRESSURE | EIPC_ERR_CONNECT | EIPC_ERR_PROTOCOL
  | EIPC_ERR_FRAME_TOO_LARGE | EIPC_ERR_BAD_MAGIC | EIPC_ERR_BAD_VERSION | EIPC_ERR_NOT_FOUND | EIPC_ERR_BUFFER

record eipc_frame_t =
  cf_version :: "16 word"
  cf_msg_type :: byte
  cf_flags :: byte
  cf_header :: bytes
  cf_header_len :: "32 word"
  cf_payload :: bytes
  cf_payload_len :: "32 word"
  cf_mac :: bytes

definition zero_frame :: eipc_frame_t where
  "zero_frame = \<lparr>cf_version = 0, cf_msg_type = 0, cf_flags = 0, cf_header = replicate EIPC_MAX_HEADER 0, cf_header_len = 0,
     cf_payload = replicate EIPC_MAX_PAYLOAD 0, cf_payload_len = 0, cf_mac = replicate EIPC_MAC_SIZE 0\<rparr>"

section \<open>Operations\<close>

text \<open>The sixteen bytes both encoders write first.\<close>

definition c_preamble :: "eipc_frame_t \<Rightarrow> bytes" where
  "c_preamble f =
     [ucast (drop_bit 24 EIPC_MAGIC), ucast (drop_bit 16 EIPC_MAGIC), ucast (drop_bit 8 EIPC_MAGIC), ucast EIPC_MAGIC,
      ucast (drop_bit 8 (cf_version f)), ucast (cf_version f), cf_msg_type f, cf_flags f,
      ucast (drop_bit 24 (cf_header_len f)), ucast (drop_bit 16 (cf_header_len f)), ucast (drop_bit 8 (cf_header_len f)), ucast (cf_header_len f),
      ucast (drop_bit 24 (cf_payload_len f)), ucast (drop_bit 16 (cf_payload_len f)), ucast (drop_bit 8 (cf_payload_len f)), ucast (cf_payload_len f)]"

definition has_mac :: "eipc_frame_t \<Rightarrow> bool" where
  "has_mac f \<longleftrightarrow> cf_flags f AND EIPC_FLAG_HMAC \<noteq> 0"

text \<open>\<open>if (n > 0) { memcpy(buf + pos, src, n); pos += n; }\<close>\<close>

definition c_append :: "bytes \<Rightarrow> nat \<Rightarrow> bytes \<times> nat \<Rightarrow> (bytes \<times> nat) option" where
  "c_append src n st =
     (if n > 0 then do { buf \<leftarrow> c_memcpy (fst st) (snd st) src 0 n; Some (buf, snd st + n) } else Some st)"

definition eipc_frame_encode :: "eipc_frame_t \<Rightarrow> bytes \<Rightarrow> nat \<Rightarrow> nat \<Rightarrow> (eipc_status_t \<times> bytes \<times> nat) option" where
  "eipc_frame_encode f buf buf_size out_len =
     (if unat (cf_header_len f) > EIPC_MAX_HEADER \<or> unat (cf_payload_len f) > EIPC_MAX_PAYLOAD
      then Some (EIPC_ERR_FRAME_TOO_LARGE, buf, out_len)
      else let total = EIPC_FRAME_FIXED_SIZE + unat (cf_header_len f) + unat (cf_payload_len f);
               total = (if has_mac f then total + EIPC_MAC_SIZE else total)
      in if total > buf_size \<or> total > EIPC_MAX_FRAME then Some (EIPC_ERR_FRAME_TOO_LARGE, buf, out_len)
         else do {
           st \<leftarrow> c_puts (c_preamble f) (buf, 0);
           st \<leftarrow> c_append (cf_header f) (unat (cf_header_len f)) st;
           st \<leftarrow> c_append (cf_payload f) (unat (cf_payload_len f)) st;
           st \<leftarrow> (if has_mac f then c_append (cf_mac f) EIPC_MAC_SIZE st else Some st);
           Some (EIPC_OK, fst st, snd st)
         })"

text \<open>
  The variable parts of a frame: the length is checked against what is left of the buffer, then the bytes are copied into the array.
\<close>

definition c_field :: "bytes \<Rightarrow> nat \<Rightarrow> nat \<Rightarrow> nat \<Rightarrow> bytes \<Rightarrow> bytes option option" where
  "c_field buf buf_len pos n arr =
     (if n > 0 then (if pos + n > buf_len then Some None else map_option Some (c_memcpy arr 0 buf pos n)) else Some (Some arr))"

definition eipc_frame_decode :: "bytes \<Rightarrow> nat \<Rightarrow> eipc_frame_t \<Rightarrow> (eipc_status_t \<times> eipc_frame_t) option" where
  "eipc_frame_decode buf buf_len frame =
     (if buf_len < EIPC_FRAME_FIXED_SIZE then Some (EIPC_ERR_PROTOCOL, frame)
      else do {
        let f = zero_frame;
        magic \<leftarrow> c_be32 buf 0;
        if magic \<noteq> EIPC_MAGIC then Some (EIPC_ERR_BAD_MAGIC, f)
        else do {
          v1 \<leftarrow> c_get buf 4; v0 \<leftarrow> c_get buf 5;
          let f = f\<lparr>cf_version := push_bit 8 (ucast v1) OR ucast v0\<rparr>;
          if cf_version f \<noteq> EIPC_PROTOCOL_VER then Some (EIPC_ERR_BAD_VERSION, f)
          else do {
            t \<leftarrow> c_get buf 6; fl \<leftarrow> c_get buf 7; hl \<leftarrow> c_be32 buf 8; pl \<leftarrow> c_be32 buf 12;
            let f = f\<lparr>cf_msg_type := t, cf_flags := fl, cf_header_len := hl, cf_payload_len := pl\<rparr>;
            if unat hl > EIPC_MAX_HEADER then Some (EIPC_ERR_FRAME_TOO_LARGE, f)
            else if unat pl > EIPC_MAX_PAYLOAD then Some (EIPC_ERR_FRAME_TOO_LARGE, f)
            else do {
              h \<leftarrow> c_field buf buf_len EIPC_FRAME_FIXED_SIZE (unat hl) (cf_header f);
              case h of None \<Rightarrow> Some (EIPC_ERR_PROTOCOL, f)
              | Some h \<Rightarrow> do {
                let f = f\<lparr>cf_header := h\<rparr>;
                p \<leftarrow> c_field buf buf_len (EIPC_FRAME_FIXED_SIZE + unat hl) (unat pl) (cf_payload f);
                case p of None \<Rightarrow> Some (EIPC_ERR_PROTOCOL, f)
                | Some p \<Rightarrow> do {
                  let f = f\<lparr>cf_payload := p\<rparr>;
                  let pos = EIPC_FRAME_FIXED_SIZE + unat hl + unat pl;
                  if has_mac f then
                    (if pos + EIPC_MAC_SIZE > buf_len then Some (EIPC_ERR_PROTOCOL, f)
                     else do { m \<leftarrow> c_memcpy (cf_mac f) 0 buf pos EIPC_MAC_SIZE; Some (EIPC_OK, f\<lparr>cf_mac := m\<rparr>) })
                  else Some (EIPC_OK, f)
                }
              }
            }
          }
        }
      })"

text \<open>The result is the number of bytes written, 0 when there is no room.\<close>

definition eipc_frame_signable_bytes :: "eipc_frame_t \<Rightarrow> bytes \<Rightarrow> nat \<Rightarrow> (nat \<times> bytes) option" where
  "eipc_frame_signable_bytes f buf buf_size =
     (if unat (cf_header_len f) > EIPC_MAX_HEADER \<or> unat (cf_payload_len f) > EIPC_MAX_PAYLOAD then Some (0, buf)
      else let total = EIPC_FRAME_FIXED_SIZE + unat (cf_header_len f) + unat (cf_payload_len f)
      in if total > buf_size then Some (0, buf)
         else do {
           st \<leftarrow> c_puts (c_preamble f) (buf, 0);
           st \<leftarrow> c_append (cf_header f) (unat (cf_header_len f)) st;
           st \<leftarrow> c_append (cf_payload f) (unat (cf_payload_len f)) st;
           Some (snd st, fst st)
         })"

section \<open>The two codecs agree\<close>

text \<open>Frames with arrays of the declared sizes, as every \<open>eipc_frame_t\<close> has, and lengths within them.\<close>

definition c_frame_typed :: "eipc_frame_t \<Rightarrow> bool" where
  "c_frame_typed f \<longleftrightarrow> length (cf_header f) = EIPC_MAX_HEADER \<and> length (cf_payload f) = EIPC_MAX_PAYLOAD \<and> length (cf_mac f) = EIPC_MAC_SIZE"

definition c_frame_ok :: "eipc_frame_t \<Rightarrow> bool" where
  "c_frame_ok f \<longleftrightarrow> c_frame_typed f \<and> unat (cf_header_len f) \<le> EIPC_MAX_HEADER \<and> unat (cf_payload_len f) \<le> EIPC_MAX_PAYLOAD"

text \<open>The frame of the Go package a C frame stands for, and the C frame with zeroes behind its contents.\<close>

definition go_frame :: "eipc_frame_t \<Rightarrow> frame" where
  "go_frame f = \<lparr>f_Version = cf_version f, f_MsgType = cf_msg_type f, f_Flags = cf_flags f,
     f_Header = take (unat (cf_header_len f)) (cf_header f), f_Payload = take (unat (cf_payload_len f)) (cf_payload f),
     f_MAC = (if has_mac f then cf_mac f else [])\<rparr>"

definition c_frame :: "frame \<Rightarrow> eipc_frame_t" where
  "c_frame g = \<lparr>cf_version = f_Version g, cf_msg_type = f_MsgType g, cf_flags = f_Flags g,
     cf_header = overwrite (replicate EIPC_MAX_HEADER 0) 0 (f_Header g), cf_header_len = of_nat (length (f_Header g)),
     cf_payload = overwrite (replicate EIPC_MAX_PAYLOAD 0) 0 (f_Payload g), cf_payload_len = of_nat (length (f_Payload g)),
     cf_mac = overwrite (replicate EIPC_MAC_SIZE 0) 0 (f_MAC g)\<rparr>"

definition c_fits :: "frame \<Rightarrow> bool" where
  "c_fits g \<longleftrightarrow> frame_wf g \<and> length (f_Header g) \<le> EIPC_MAX_HEADER \<and> length (f_Payload g) \<le> EIPC_MAX_PAYLOAD"

lemmas c_sizes = EIPC_MAC_SIZE_def EIPC_MAX_FRAME_def EIPC_MAX_PAYLOAD_def EIPC_MAX_HEADER_def EIPC_FRAME_FIXED_SIZE_def EIPC_FRAME_BUF_SIZE_def

lemma has_mac_go: "has_mac f \<longleftrightarrow> has_flag (cf_flags f) FlagHMAC"
  by (simp add: has_mac_def has_flag_def FlagHMAC_def EIPC_FLAG_HMAC_def)

lemma c_append_eq:
  "n \<le> length src \<Longrightarrow> pos + n \<le> length buf \<Longrightarrow> c_append src n (buf, pos) = Some (overwrite buf pos (take n src), pos + n)"
  by (simp add: c_append_def c_memcpy_eq)

lemma c_preamble_go: "c_frame_ok f \<Longrightarrow> c_preamble f = preamble (go_frame f)"
  by (simp add: c_preamble_def preamble_def go_frame_def c_frame_ok_def c_frame_typed_def PutUint32_def PutUint16_def EIPC_MAGIC_def MagicBytes_def
      min_absorb2)

lemma length_c_preamble [simp]: "length (c_preamble f) = 16"
  by (simp add: c_preamble_def)

text \<open>Both encoders fill the buffer from its start.\<close>

lemma c_fill:
  assumes "c_frame_typed f" and "unat (cf_header_len f) \<le> EIPC_MAX_HEADER" and "unat (cf_payload_len f) \<le> EIPC_MAX_PAYLOAD"
    and "16 + unat (cf_header_len f) + unat (cf_payload_len f) \<le> length buf"
  shows "do { st \<leftarrow> c_puts (c_preamble f) (buf, 0); st \<leftarrow> c_append (cf_header f) (unat (cf_header_len f)) st;
              c_append (cf_payload f) (unat (cf_payload_len f)) st } =
    Some (overwrite buf 0 (preamble (go_frame f) @ f_Header (go_frame f) @ f_Payload (go_frame f)),
          16 + unat (cf_header_len f) + unat (cf_payload_len f))"
proof -
  let ?h = "take (unat (cf_header_len f)) (cf_header f)" and ?p = "take (unat (cf_payload_len f)) (cf_payload f)"
  have len: "length ?h = unat (cf_header_len f)" "length ?p = unat (cf_payload_len f)" using assms(1-3) by (simp_all add: c_frame_typed_def)
  have "c_puts (c_preamble f) (buf, 0) = Some (overwrite buf 0 (c_preamble f), 16)" using assms(4) by (simp add: c_puts_eq)
  moreover have "c_append (cf_header f) (unat (cf_header_len f)) (overwrite buf 0 (c_preamble f), 16) =
      Some (overwrite buf 0 (c_preamble f @ ?h), 16 + unat (cf_header_len f))"
    using assms len overwrite_append [of 0 "c_preamble f" ?h buf] by (simp add: c_append_eq c_frame_typed_def)
  moreover have "c_append (cf_payload f) (unat (cf_payload_len f)) (overwrite buf 0 (c_preamble f @ ?h), 16 + unat (cf_header_len f)) =
      Some (overwrite buf 0 (c_preamble f @ ?h @ ?p), 16 + unat (cf_header_len f) + unat (cf_payload_len f))"
    using assms len overwrite_append [of 0 "c_preamble f @ ?h" ?p buf] by (simp add: c_append_eq c_frame_typed_def)
  moreover have "c_frame_ok f" using assms(1-3) by (simp add: c_frame_ok_def)
  ultimately show ?thesis by (simp add: c_preamble_go go_frame_def)
qed

lemma length_go_wire:
  assumes "c_frame_ok f"
  shows "length (wire (go_frame f)) = 16 + unat (cf_header_len f) + unat (cf_payload_len f) + (if has_mac f then 32 else 0)"
  using assms
  by (auto simp: wire_def mac_part_def go_frame_def c_frame_ok_def c_frame_typed_def has_mac_go MACSize_def EIPC_MAC_SIZE_def)

lemma eipc_frame_encode_ok:
  assumes "c_frame_ok f" and "length (wire (go_frame f)) \<le> buf_size" and "buf_size \<le> length buf"
  shows "eipc_frame_encode f buf buf_size out_len = Some (EIPC_OK, overwrite buf 0 (wire (go_frame f)), length (wire (go_frame f)))"
proof -
  let ?body = "preamble (go_frame f) @ f_Header (go_frame f) @ f_Payload (go_frame f)"
  let ?n = "16 + unat (cf_header_len f) + unat (cf_payload_len f)"
  have f: "c_frame_typed f" "unat (cf_header_len f) \<le> EIPC_MAX_HEADER" "unat (cf_payload_len f) \<le> EIPC_MAX_PAYLOAD"
    using assms(1) by (auto simp: c_frame_ok_def)
  have body: "length ?body = ?n" using f by (simp add: go_frame_def c_frame_typed_def)
  have fill: "do { st \<leftarrow> c_puts (c_preamble f) (buf, 0); st \<leftarrow> c_append (cf_header f) (unat (cf_header_len f)) st;
      c_append (cf_payload f) (unat (cf_payload_len f)) st } = Some (overwrite buf 0 ?body, ?n)"
    using c_fill [OF f] assms(2,3) length_go_wire [OF assms(1)] by simp
  have "(if has_mac f then c_append (cf_mac f) EIPC_MAC_SIZE (overwrite buf 0 ?body, ?n) else Some (overwrite buf 0 ?body, ?n)) =
      Some (overwrite buf 0 (wire (go_frame f)), length (wire (go_frame f)))"
    using assms(2,3) length_go_wire [OF assms(1)] f(1) body overwrite_append [of 0 ?body "cf_mac f" buf]
    by (auto simp: c_append_eq wire_def mac_part_def go_frame_def has_mac_go c_frame_typed_def EIPC_MAC_SIZE_def MACSize_def add.assoc)
  then show ?thesis
    using f assms(2) length_go_wire [OF assms(1)] fill
    by (auto simp: eipc_frame_encode_def Let_def c_sizes bind_eq_Some_conv)
qed

lemma c_field_eq:
  "buf_len \<le> length buf \<Longrightarrow> n \<le> length arr \<Longrightarrow>
   c_field buf buf_len pos n arr =
     Some (if pos + n \<le> buf_len \<or> n = 0 then Some (overwrite arr 0 (take n (drop pos (take buf_len buf)))) else None)"
  by (auto simp: c_field_def c_memcpy_eq drop_take)

lemma c_be16_eq: "i + 2 \<le> length b \<Longrightarrow> push_bit 8 (ucast (b ! i)) OR ucast (b ! Suc i) = Uint16 (take 2 (drop i b))"
  by (simp add: Uint16_def or.commute)

text \<open>The decoder in terms of the bytes it is given, as \<open>Decode_stream_unfold\<close> has it for the Go package.\<close>

lemma eipc_frame_decode_unfold:
  fixes buf :: bytes
  assumes "n \<le> length buf"
  defines "pre \<equiv> take 16 (take n buf)" and "r1 \<equiv> drop 16 (take n buf)"
  defines "hl \<equiv> unat (Uint32 (gslice 8 12 pre))" and "pl \<equiv> unat (Uint32 (gslice 12 16 pre))"
  defines "f0 \<equiv> zero_frame\<lparr>cf_version := Uint16 (gslice 4 6 pre)\<rparr>"
  defines "f1 \<equiv> f0\<lparr>cf_msg_type := pre ! 6, cf_flags := pre ! 7, cf_header_len := Uint32 (gslice 8 12 pre), cf_payload_len := Uint32 (gslice 12 16 pre)\<rparr>"
  defines "f2 \<equiv> f1\<lparr>cf_header := overwrite (replicate EIPC_MAX_HEADER 0) 0 (take hl r1)\<rparr>"
  defines "f3 \<equiv> f2\<lparr>cf_payload := overwrite (replicate EIPC_MAX_PAYLOAD 0) 0 (take pl (drop hl r1))\<rparr>"
  shows "eipc_frame_decode buf n frame =
    Some (if n < 16 then (EIPC_ERR_PROTOCOL, frame)
      else if Uint32 (gslice 0 4 pre) \<noteq> MagicBytes then (EIPC_ERR_BAD_MAGIC, zero_frame)
      else if Uint16 (gslice 4 6 pre) \<noteq> ProtocolVersion then (EIPC_ERR_BAD_VERSION, f0)
      else if hl > EIPC_MAX_HEADER \<or> pl > EIPC_MAX_PAYLOAD then (EIPC_ERR_FRAME_TOO_LARGE, f1)
      else if hl > length r1 then (EIPC_ERR_PROTOCOL, f1)
      else if hl + pl > length r1 then (EIPC_ERR_PROTOCOL, f2)
      else if \<not> has_flag (pre ! 7) FlagHMAC then (EIPC_OK, f3)
      else if hl + pl + 32 > length r1 then (EIPC_ERR_PROTOCOL, f3)
      else (EIPC_OK, f3\<lparr>cf_mac := overwrite (replicate EIPC_MAC_SIZE 0) 0 (take 32 (drop (hl + pl) r1))\<rparr>))"
proof (cases "n < 16")
  case True
  then show ?thesis by (simp add: eipc_frame_decode_def c_sizes)
next
  case False
  then have n: "16 \<le> n" "16 \<le> length buf" using assms(1) by auto
  have reads: "c_be32 buf 0 = Some (Uint32 (gslice 0 4 pre))" "c_be32 buf 8 = Some (Uint32 (gslice 8 12 pre))"
    "c_be32 buf 12 = Some (Uint32 (gslice 12 16 pre))"
    "c_get buf 6 = Some (pre ! 6)" "c_get buf 7 = Some (pre ! 7)" "c_get buf 4 = Some (buf ! 4)" "c_get buf 5 = Some (buf ! 5)"
    "push_bit 8 (ucast (buf ! 4)) OR ucast (buf ! 5) = Uint16 (gslice 4 6 pre)"
    using n c_be16_eq [of 4 buf] by (simp_all add: c_be32_eq c_get_def pre_def gslice_def drop_take min_def)
  have r1: "length r1 = n - 16" using assms(1) by (simp add: r1_def)
  have fields: "hl \<le> EIPC_MAX_HEADER \<Longrightarrow> c_field buf n 16 hl (replicate EIPC_MAX_HEADER 0) =
        Some (if hl \<le> length r1 then Some (overwrite (replicate EIPC_MAX_HEADER 0) 0 (take hl r1)) else None)"
    "pl \<le> EIPC_MAX_PAYLOAD \<Longrightarrow> hl \<le> length r1 \<Longrightarrow> c_field buf n (16 + hl) pl (replicate EIPC_MAX_PAYLOAD 0) =
        Some (if hl + pl \<le> length r1 then Some (overwrite (replicate EIPC_MAX_PAYLOAD 0) 0 (take pl (drop hl r1))) else None)"
    using assms(1) n r1 by (auto simp: c_field_eq r1_def add.commute)
  have mac: "hl + pl + 32 \<le> length r1 \<Longrightarrow> c_memcpy (replicate 32 0) 0 buf (16 + hl + pl) 32 =
      Some (overwrite (replicate 32 0) 0 (take 32 (drop (hl + pl) r1)))"
    using assms(1) n r1 by (simp add: c_memcpy_eq EIPC_MAC_SIZE_def r1_def drop_take ac_simps min_def)
  have vals: "EIPC_MAGIC = MagicBytes" "EIPC_PROTOCOL_VER = ProtocolVersion" "EIPC_FRAME_FIXED_SIZE = 16"
    by (simp_all add: EIPC_MAGIC_def MagicBytes_def EIPC_PROTOCOL_VER_def ProtocolVersion_def EIPC_FRAME_FIXED_SIZE_def)
  note frames = f3_def f2_def f1_def f0_def zero_frame_def has_mac_go
  show ?thesis
    unfolding eipc_frame_decode_def vals reads bind.bind_lunit Let_def
    using n(1) r1 by (auto simp: reads fields mac frames EIPC_MAC_SIZE_def simp flip: hl_def pl_def)
qed

lemma overwrite_start: "length vs \<le> length b \<Longrightarrow> overwrite b 0 vs = vs @ drop (length vs) b"
  by (simp add: overwrite_def)

lemma c_fits_lengths:
  assumes "c_fits g"
  shows "unat (of_nat (length (f_Header g)) :: 32 word) = length (f_Header g)" "unat (of_nat (length (f_Payload g)) :: 32 word) = length (f_Payload g)"
    "length (f_MAC g) \<le> 32" "has_flag (f_Flags g) FlagHMAC \<Longrightarrow> length (f_MAC g) = 32" "\<not> has_flag (f_Flags g) FlagHMAC \<Longrightarrow> f_MAC g = []"
  using assms by (auto simp: c_fits_def c_sizes frame_wf_def MACSize_def split: if_splits intro!: unat_of_nat_small)

lemma go_c_frame: "c_fits g \<Longrightarrow> go_frame (c_frame g) = g"
  using c_fits_lengths [of g]
  by (auto simp: go_frame_def c_frame_def c_fits_def c_sizes overwrite_start has_mac_go intro!: frame.equality)

lemma c_frame_ok_c_frame: "c_fits g \<Longrightarrow> c_frame_ok (c_frame g)"
  using c_fits_lengths [of g] by (auto simp: c_frame_ok_def c_frame_typed_def c_frame_def c_fits_def c_sizes)

text \<open>The C decoder accepts exactly the encodings the Go decoder accepts whose header and payload fit the arrays.\<close>

lemma eipc_frame_decode_ok_iff:
  assumes "n \<le> length buf"
  shows "eipc_frame_decode buf n frame = Some (EIPC_OK, f) \<longleftrightarrow>
    (\<exists>g rest. Decode stream_ReadFull (take n buf) = (Inr g, rest) \<and> c_fits g \<and> f = c_frame g)"
proof -
  let ?b = "take n buf"
  define pre where "pre = take 16 ?b"
  define r1 where "r1 = drop 16 ?b"
  define hl where "hl = unat (Uint32 (gslice 8 12 pre))"
  define pl where "pl = unat (Uint32 (gslice 12 16 pre))"
  define fl where "fl = has_flag (pre ! 7) FlagHMAC"
  define g where "g = \<lparr>f_Version = ProtocolVersion, f_MsgType = pre ! 6, f_Flags = pre ! 7, f_Header = take hl r1,
      f_Payload = take pl (drop hl r1), f_MAC = (if fl then take 32 (drop (hl + pl) r1) else [])\<rparr>"
  have C: "eipc_frame_decode buf n frame = Some (EIPC_OK, f) \<longleftrightarrow>
      16 \<le> n \<and> Uint32 (gslice 0 4 pre) = MagicBytes \<and> Uint16 (gslice 4 6 pre) = ProtocolVersion \<and> hl \<le> 1024 \<and> pl \<le> 4096
      \<and> hl + pl + (if fl then 32 else 0) \<le> length r1 \<and> f = c_frame g"
    unfolding eipc_frame_decode_unfold [OF assms] pre_def [symmetric] r1_def [symmetric]
    unfolding hl_def [symmetric] pl_def [symmetric] fl_def [symmetric]
    by (auto simp: c_frame_def g_def zero_frame_def c_sizes min_absorb2 hl_def pl_def fl_def [symmetric])
  have G: "(\<exists>rest. Decode stream_ReadFull ?b = (Inr g', rest)) \<longleftrightarrow>
      16 \<le> n \<and> Uint32 (gslice 0 4 pre) = MagicBytes \<and> Uint16 (gslice 4 6 pre) = ProtocolVersion \<and> hl + pl \<le> 1048576
      \<and> hl + pl + (if fl then 32 else 0) \<le> length r1 \<and> g' = g" for g'
    unfolding Decode_stream_unfold Let_def pre_def [symmetric] r1_def [symmetric]
    unfolding hl_def [symmetric] pl_def [symmetric] fl_def [symmetric]
    using assms by (auto simp: g_def MACSize_def add.commute)
  have wf: "frame_wf g" if "\<exists>rest. Decode stream_ReadFull ?b = (Inr g, rest)" using that Decode_canonical by blast
  have len: "length (f_Header g) = hl" "length (f_Payload g) = pl" if "hl + pl \<le> length r1" using that by (auto simp: g_def)
  show ?thesis
  proof
    assume "eipc_frame_decode buf n frame = Some (EIPC_OK, f)"
    then have c: "hl \<le> 1024" "pl \<le> 4096" "f = c_frame g" "\<exists>rest. Decode stream_ReadFull ?b = (Inr g, rest)" "hl + pl \<le> length r1"
      using C G by auto
    then have "c_fits g" using wf len by (simp add: c_fits_def c_sizes)
    then show "\<exists>g rest. Decode stream_ReadFull ?b = (Inr g, rest) \<and> c_fits g \<and> f = c_frame g" using c by blast
  next
    assume "\<exists>g rest. Decode stream_ReadFull ?b = (Inr g, rest) \<and> c_fits g \<and> f = c_frame g"
    then obtain g' where g': "\<exists>rest. Decode stream_ReadFull ?b = (Inr g', rest)" "c_fits g'" "f = c_frame g'" by blast
    then have "g' = g" "hl + pl \<le> length r1" using G by auto
    then show "eipc_frame_decode buf n frame = Some (EIPC_OK, f)" using g' G [of g'] C len by (auto simp: c_fits_def c_sizes)
  qed
qed

lemma eipc_frame_signable_ok:
  assumes "c_frame_ok f" and "length (SignableBytes (go_frame f)) \<le> buf_size" and "buf_size \<le> length buf"
  shows "eipc_frame_signable_bytes f buf buf_size =
    Some (length (SignableBytes (go_frame f)), overwrite buf 0 (SignableBytes (go_frame f)))"
proof -
  have f: "c_frame_typed f" "unat (cf_header_len f) \<le> EIPC_MAX_HEADER" "unat (cf_payload_len f) \<le> EIPC_MAX_PAYLOAD"
    using assms(1) by (auto simp: c_frame_ok_def)
  then have sb: "SignableBytes (go_frame f) = preamble (go_frame f) @ f_Header (go_frame f) @ f_Payload (go_frame f)"
    "length (SignableBytes (go_frame f)) = 16 + unat (cf_header_len f) + unat (cf_payload_len f)"
    by (auto simp: SignableBytes_def go_frame_def c_frame_typed_def c_sizes)
  then have "16 + unat (cf_header_len f) + unat (cf_payload_len f) \<le> length buf" using assms(2,3) by simp
  from c_fill [OF f this] sb show ?thesis
    using f assms(2) by (auto simp: eipc_frame_signable_bytes_def Let_def c_sizes bind_eq_Some_conv add.assoc)
qed

section \<open>Properties\<close>

text \<open>
  The C encoder is memory safe and writes the same bytes as the Go encoder: on any frame whose arrays have the declared sizes, and any
  buffer as large as it is said to be, it stays within all arrays; it succeeds exactly when the lengths lie within the arrays and the
  encoding fits, and then the buffer starts with the encoding of the frame by the Go package.
\<close>

theorem c_encode_agrees:
  assumes "c_frame_typed f" and "buf_size \<le> length buf"
  shows "\<exists>st buf' n. eipc_frame_encode f buf buf_size out_len = Some (st, buf', n)
    \<and> (st = EIPC_OK \<longleftrightarrow> c_frame_ok f \<and> length (wire (go_frame f)) \<le> buf_size)
    \<and> (st = EIPC_OK \<longrightarrow> Encode limitedBuffer_Write (go_frame f) \<lparr>lb_data = []\<rparr> = (None, \<lparr>lb_data = take n buf'\<rparr>))
    \<and> (st \<noteq> EIPC_OK \<longrightarrow> st = EIPC_ERR_FRAME_TOO_LARGE \<and> buf' = buf \<and> n = out_len)"
proof (cases "c_frame_ok f \<and> length (wire (go_frame f)) \<le> buf_size")
  case True
  then have "frame_fits (go_frame f)"
    by (auto simp: frame_fits_def go_frame_def c_frame_ok_def c_frame_typed_def c_sizes)
  then show ?thesis
    using True assms(2) eipc_frame_encode_ok [of f buf_size buf out_len] by (simp add: Encode_limitedBuffer)
next
  case False
  then have "eipc_frame_encode f buf buf_size out_len = Some (EIPC_ERR_FRAME_TOO_LARGE, buf, out_len)"
    using assms(1) length_go_wire [of f] by (auto simp: eipc_frame_encode_def Let_def c_frame_ok_def c_sizes split: if_splits)
  then show ?thesis using False by simp
qed

lemma example_c_fits: "c_fits example_frame"
  using example_frame_wf by (simp add: c_fits_def c_sizes example_frame_def)

theorem c_encode_agrees_witness:
  "\<exists>buf n. eipc_frame_encode (c_frame example_frame) (replicate EIPC_FRAME_BUF_SIZE 0) EIPC_FRAME_BUF_SIZE 0 = Some (EIPC_OK, buf, n)
    \<and> take n buf = wire example_frame"
proof -
  have ok: "c_frame_ok (c_frame example_frame)" by (rule c_frame_ok_c_frame [OF example_c_fits])
  then have "length (wire (go_frame (c_frame example_frame))) \<le> EIPC_FRAME_BUF_SIZE"
    by (auto simp: length_go_wire c_frame_ok_def c_sizes)
  with ok c_encode_agrees [of "c_frame example_frame" EIPC_FRAME_BUF_SIZE "replicate EIPC_FRAME_BUF_SIZE 0" 0]
  show ?thesis
    using example_frame_wf by (auto simp: c_frame_ok_def go_c_frame [OF example_c_fits] Encode_limitedBuffer frame_wf_def)
qed

text \<open>
  C20: The C decoder is memory safe on every buffer, and it accepts exactly what the Go decoder accepts with a header of at most 1024 and a
  payload of at most 4096 bytes; it then returns that very frame.
\<close>

theorem c_decode_agrees:
  assumes "n \<le> length buf"
  shows "(\<exists>st f. eipc_frame_decode buf n frame = Some (st, f))
    \<and> (eipc_frame_decode buf n frame = Some (EIPC_OK, f) \<longleftrightarrow>
        (\<exists>g rest. Decode stream_ReadFull (take n buf) = (Inr g, rest)
          \<and> length (f_Header g) \<le> EIPC_MAX_HEADER \<and> length (f_Payload g) \<le> EIPC_MAX_PAYLOAD \<and> f = c_frame g \<and> go_frame f = g))"
proof (intro conjI)
  show "\<exists>st f. eipc_frame_decode buf n frame = Some (st, f)"
    unfolding eipc_frame_decode_unfold [OF assms] by auto
  show "eipc_frame_decode buf n frame = Some (EIPC_OK, f) \<longleftrightarrow>
      (\<exists>g rest. Decode stream_ReadFull (take n buf) = (Inr g, rest)
        \<and> length (f_Header g) \<le> EIPC_MAX_HEADER \<and> length (f_Payload g) \<le> EIPC_MAX_PAYLOAD \<and> f = c_frame g \<and> go_frame f = g)"
    unfolding eipc_frame_decode_ok_iff [OF assms] using Decode_canonical go_c_frame by (fastforce simp: c_fits_def)
qed

theorem c_decode_agrees_witness:
  "eipc_frame_decode (wire example_frame) (length (wire example_frame)) zero_frame = Some (EIPC_OK, c_frame example_frame)"
  using c_decode_agrees [of "length (wire example_frame)" "wire example_frame" zero_frame "c_frame example_frame"]
    Decode_wire [OF example_frame_wf, of "[]"] example_c_fits go_c_frame [OF example_c_fits]
  by (auto simp: c_fits_def)

end
