(* ===== verification/CTransport.thy ===== *)
theory CTransport
  imports CString CFrame Conn
begin

text \<open>
  \<^verbatim>\<open>sdk/c/src/eipc_transport.c\<close>: frames over TCP sockets. A connected socket is the connection of theory ByteIO, whose input arrives in
  segments of any size; each call of \<open>send\<close> may take only a part of its bytes. The other calls of the operating system are
  the fields of \<open>c_os\<close>.
\<close>

section \<open>Sockets\<close>

text \<open>\<open>sk_takes\<close> is how many bytes the next calls of \<open>send\<close> take at most; 0 is a call that fails. Without an entry all bytes are taken.\<close>

record c_socket =
  sk_conn :: netconn
  sk_takes :: "nat list"

definition c_send :: "bytes \<Rightarrow> c_socket \<Rightarrow> int \<times> c_socket" where
  "c_send data s =
     (let k = min (length data) (case sk_takes s of [] \<Rightarrow> length data | k # _ \<Rightarrow> k); s1 = s\<lparr>sk_takes := tl (sk_takes s)\<rparr>
      in if k = 0 then (- 1, s1)
         else case netconn_Write (sk_conn s) (take k data) of
           (Some _, c) \<Rightarrow> (- 1, s1\<lparr>sk_conn := c\<rparr>)
         | (None, c) \<Rightarrow> (int k, s1\<lparr>sk_conn := c\<rparr>))"

text \<open>\<open>recv\<close> into a buffer of \<open>n\<close> bytes; no bytes is a result of 0 or less.\<close>

definition c_recv :: "nat \<Rightarrow> c_socket \<Rightarrow> bytes \<times> c_socket" where
  "c_recv n s = (case netconn_Read (sk_conn s) n of ((bs, _), c) \<Rightarrow> (bs, s\<lparr>sk_conn := c\<rparr>))"

function c_send_all :: "bytes \<Rightarrow> c_socket \<Rightarrow> int \<times> c_socket" where
  "c_send_all data s =
     (if data = [] then (0, s)
      else case c_send data s of (n, s) \<Rightarrow> if n \<le> 0 then (- 1, s) else c_send_all (drop (nat n) data) s)"
  by pat_completeness auto
termination by (relation "measure (length \<circ> fst)") auto

declare c_send_all.simps [simp del]

function c_recv_all :: "nat \<Rightarrow> bytes \<Rightarrow> c_socket \<Rightarrow> bytes option \<times> c_socket" where
  "c_recv_all len acc s =
     (if len \<le> length acc then (Some acc, s)
      else case c_recv (len - length acc) s of (bs, s) \<Rightarrow> if bs = [] then (None, s) else c_recv_all len (acc @ bs) s)"
  by pat_completeness auto
termination by (relation "measure (\<lambda>(len, acc, s). len - length acc)") (auto simp: neq_Nil_conv)

declare c_recv_all.simps [simp del]

section \<open>Frames\<close>

definition eipc_transport_send_frame :: "c_socket \<Rightarrow> eipc_frame_t \<Rightarrow> (eipc_status_t \<times> c_socket) option" where
  "eipc_transport_send_frame sock frame =
     do { (rc, encoded, encoded_len) \<leftarrow> eipc_frame_encode frame (replicate EIPC_FRAME_BUF_SIZE 0) EIPC_FRAME_BUF_SIZE 0;
          if rc \<noteq> EIPC_OK then Some (rc, sock)
          else (let total = of_nat encoded_len :: 32 word;
                    len_prefix = [ucast (drop_bit 24 total), ucast (drop_bit 16 total), ucast (drop_bit 8 total), ucast total]
                in case c_send_all len_prefix sock of (r1, sock) \<Rightarrow>
                     if r1 < 0 then Some (EIPC_ERR_IO, sock)
                     else case c_send_all (take encoded_len encoded) sock of (r2, sock) \<Rightarrow>
                       Some (if r2 < 0 then EIPC_ERR_IO else EIPC_OK, sock)) }"

text \<open>\<open>heap n\<close> is whether \<open>malloc(n)\<close> succeeds.\<close>

definition eipc_transport_recv_frame :: "(nat \<Rightarrow> bool) \<Rightarrow> c_socket \<Rightarrow> eipc_frame_t \<Rightarrow> (eipc_status_t \<times> eipc_frame_t \<times> c_socket) option" where
  "eipc_transport_recv_frame heap sock frame =
     (case c_recv_all 4 [] sock of
       (None, sock) \<Rightarrow> Some (EIPC_ERR_IO, frame, sock)
     | (Some len_prefix, sock) \<Rightarrow>
        do { frame_len \<leftarrow> c_be32 len_prefix 0;
             if unat frame_len > EIPC_MAX_FRAME then Some (EIPC_ERR_FRAME_TOO_LARGE, frame, sock)
             else if \<not> heap (unat frame_len) then Some (EIPC_ERR_NOMEM, frame, sock)
             else case c_recv_all (unat frame_len) [] sock of
                 (None, sock) \<Rightarrow> Some (EIPC_ERR_IO, frame, sock)
               | (Some buf, sock) \<Rightarrow>
                  do { (rc, frame) \<leftarrow> eipc_frame_decode buf (unat frame_len) frame; Some (rc, frame, sock) } })"

definition eipc_transport_close :: "c_socket option \<Rightarrow> c_socket option" where
  "eipc_transport_close sock = map_option (\<lambda>s. s\<lparr>sk_conn := snd (netconn_Close (sk_conn s))\<rparr>) sock"

section \<open>Addresses\<close>

text \<open>\<open>atoi\<close> has no defined result for a number beyond the range of \<open>int\<close>.\<close>

definition c_atoi :: "bytes \<Rightarrow> 32 word option" where
  "c_atoi s =
     (let s1 = dropWhile c_isspace s;
          neg = (case s1 of [] \<Rightarrow> False | c # _ \<Rightarrow> c = 0x2D);
          s2 = (case s1 of [] \<Rightarrow> [] | c # t \<Rightarrow> if c = 0x2B \<or> c = 0x2D then t else s1);
          n = (if neg then - 1 else 1) * int (digits_nat (takeWhile is_digit s2))
      in if - (2 ^ 31) \<le> n \<and> n < 2 ^ 31 then Some (of_int n) else None)"

definition parse_address :: "bytes \<Rightarrow> bytes \<Rightarrow> nat \<Rightarrow> 16 word \<Rightarrow> (int \<times> bytes \<times> 16 word) option" where
  "parse_address address host host_size port =
     do { s \<leftarrow> c_str address;
          if 0x3A \<notin> set s then Some (- 1, host, port)
          else do { let h = rev (tl (dropWhile (\<lambda>c. c \<noteq> 0x3A) (rev s)));
                    let p = rev (takeWhile (\<lambda>c. c \<noteq> 0x3A) (rev s));
                    let hlen = (if length h \<ge> host_size then host_size - 1 else length h);
                    host \<leftarrow> c_memcpy host 0 s 0 hlen;
                    host \<leftarrow> c_set host hlen 0;
                    n \<leftarrow> c_atoi p;
                    Some (0, host, ucast n) } }"

text \<open>
  The operating system: whether \<open>socket\<close>, \<open>bind\<close>, \<open>listen\<close> succeed, the address \<open>inet_pton\<close> makes of a text, the
  connection \<open>connect\<close> opens, and what \<open>accept\<close> returns with the address and port of the peer, the address already as
  \<open>inet_ntop\<close> prints it.
\<close>

record c_os =
  os_socket :: bool
  os_pton :: "bytes \<Rightarrow> 32 word option"
  os_connect :: "32 word \<Rightarrow> 16 word \<Rightarrow> c_socket option"
  os_bind :: "32 word \<Rightarrow> 16 word \<Rightarrow> bool"
  os_listen :: bool
  os_accept :: "(c_socket \<times> bytes \<times> 16 word) option"

text \<open>The address and the port a socket listens on.\<close>

type_synonym c_listener = "32 word \<times> 16 word"

definition INADDR_ANY :: "32 word" where "INADDR_ANY = 0"

definition eipc_transport_connect :: "c_os \<Rightarrow> c_socket option \<Rightarrow> bytes \<Rightarrow> (eipc_status_t \<times> c_socket option) option" where
  "eipc_transport_connect os sock address =
     do { (rc, host, port) \<leftarrow> parse_address address (replicate 256 0) 256 0;
          if rc < 0 then Some (EIPC_ERR_INVALID, sock)
          else if \<not> os_socket os then Some (EIPC_ERR_CONNECT, None)
          else do { h \<leftarrow> c_str host;
                    case os_pton os h of
                      None \<Rightarrow> Some (EIPC_ERR_CONNECT, None)
                    | Some addr \<Rightarrow>
                       (case os_connect os addr port of
                         None \<Rightarrow> Some (EIPC_ERR_CONNECT, None)
                       | Some s \<Rightarrow> Some (EIPC_OK, Some s)) } }"

definition eipc_transport_listen :: "c_os \<Rightarrow> c_listener option \<Rightarrow> bytes \<Rightarrow> (eipc_status_t \<times> c_listener option) option" where
  "eipc_transport_listen os sock address =
     do { (rc, host, port) \<leftarrow> parse_address address (replicate 256 0) 256 0;
          if rc < 0 then Some (EIPC_ERR_INVALID, sock)
          else if \<not> os_socket os then Some (EIPC_ERR_CONNECT, None)
          else do { h \<leftarrow> c_str host;
                    let addr = (if h = bytes_of_string ''0.0.0.0'' \<or> h = [] then INADDR_ANY
                                else (case os_pton os h of None \<Rightarrow> 0 | Some a \<Rightarrow> a));
                    Some (if \<not> os_bind os addr port then (EIPC_ERR_CONNECT, None)
                          else if \<not> os_listen os then (EIPC_ERR_CONNECT, None)
                          else (EIPC_OK, Some (addr, port))) } }"

definition eipc_transport_accept :: "c_os \<Rightarrow> bytes \<Rightarrow> nat \<Rightarrow> (eipc_status_t \<times> c_socket option \<times> bytes) option" where
  "eipc_transport_accept os remote_addr remote_addr_size =
     (case os_accept os of
       None \<Rightarrow> Some (EIPC_ERR_CONNECT, None, remote_addr)
     | Some (s, ip, port) \<Rightarrow>
        if remote_addr_size > 0
        then do { (_, remote_addr) \<leftarrow> c_snprintf remote_addr 0 remote_addr_size (ip @ [0x3A] @ itoa (unat port));
                  Some (EIPC_OK, Some s, remote_addr) }
        else Some (EIPC_OK, Some s, remote_addr))"

section \<open>Lemmas\<close>

text \<open>A socket that is open in both directions and whose calls of \<open>send\<close> make progress.\<close>

definition sock_open :: "c_socket \<Rightarrow> bool" where
  "sock_open s \<longleftrightarrow> conn_open (sk_conn s) \<and> list_all (\<lambda>k. 0 < k) (sk_takes s)"

lemma c_send_open:
  assumes "sock_open s" and "data \<noteq> []"
  shows "\<exists>k s'. c_send data s = (int k, s') \<and> 0 < k \<and> k \<le> length data \<and> sock_open s'
    \<and> sk_conn s' = (sk_conn s)\<lparr>nc_out := nc_out (sk_conn s) @ take k data\<rparr>"
proof -
  define k where "k = min (length data) (case sk_takes s of [] \<Rightarrow> length data | k # _ \<Rightarrow> k)"
  have k: "0 < k" "k \<le> length data" using assms by (auto simp: k_def sock_open_def split: list.split)
  have "conn_open ((sk_conn s)\<lparr>nc_out := o'\<rparr>)" for o' using assms(1) by (simp add: sock_open_def conn_open_def)
  moreover have "list_all (\<lambda>k. 0 < k) (tl (sk_takes s))" using assms(1) by (cases "sk_takes s") (auto simp: sock_open_def)
  ultimately show ?thesis
    using assms(1) k by (intro exI [of _ k]) (simp add: c_send_def k_def [symmetric] Let_def netconn_Write_def sock_open_def conn_open_def)
qed

lemma c_send_all_open:
  "sock_open s \<Longrightarrow> \<exists>s'. c_send_all data s = (0, s') \<and> sock_open s' \<and> sk_conn s' = (sk_conn s)\<lparr>nc_out := nc_out (sk_conn s) @ data\<rparr>"
proof (induction data arbitrary: s rule: length_induct)
  case (1 data)
  show ?case
  proof (cases "data = []")
    case True
    then show ?thesis using 1(2) by (simp add: c_send_all.simps)
  next
    case False
    obtain k s' where k: "c_send data s = (int k, s')" "0 < k" "k \<le> length data" "sock_open s'"
      "sk_conn s' = (sk_conn s)\<lparr>nc_out := nc_out (sk_conn s) @ take k data\<rparr>" using c_send_open [OF 1(2) False] by blast
    have "length (drop k data) < length data" using k(2,3) by simp
    then obtain s'' where "c_send_all (drop k data) s' = (0, s'')" "sock_open s''"
      "sk_conn s'' = (sk_conn s')\<lparr>nc_out := nc_out (sk_conn s') @ drop k data\<rparr>" using 1(1) k(4) by blast
    then show ?thesis using False k by (subst c_send_all.simps) simp
  qed
qed

text \<open>The bytes still to be read, and what reading leaves alone.\<close>

definition sk_stream :: "c_socket \<Rightarrow> bytes" where
  "sk_stream s = concat (nc_in (sk_conn s))"

definition same_sender :: "c_socket \<Rightarrow> c_socket \<Rightarrow> bool" where
  "same_sender s s' \<longleftrightarrow> nc_closed (sk_conn s') = nc_closed (sk_conn s) \<and> nc_out (sk_conn s') = nc_out (sk_conn s)
     \<and> nc_broken (sk_conn s') = nc_broken (sk_conn s) \<and> sk_takes s' = sk_takes s"

lemma same_sender_trans: "same_sender s s' \<Longrightarrow> same_sender s' s'' \<Longrightarrow> same_sender s s''"
  by (simp add: same_sender_def)

lemma same_sender_open: "same_sender s s' \<Longrightarrow> sock_open s \<Longrightarrow> sock_open s'"
  by (simp add: same_sender_def sock_open_def conn_open_def)

lemma c_recv_progress:
  assumes "\<not> nc_closed (sk_conn s)" and "0 < n"
  shows "\<exists>bs s'. c_recv n s = (bs, s') \<and> length bs \<le> n \<and> sk_stream s = bs @ sk_stream s' \<and> same_sender s s' \<and> (bs = [] \<longrightarrow> sk_stream s = [])"
proof (cases "sk_stream s = []")
  case True
  then show ?thesis using assms segs_Read_eof [of "nc_in (sk_conn s)" n] by (simp add: c_recv_def netconn_Read_def sk_stream_def same_sender_def)
next
  case False
  then show ?thesis
    using assms(1) segs_Read_concat [OF assms(2), of "nc_in (sk_conn s)"] by (auto simp: c_recv_def netconn_Read_def sk_stream_def same_sender_def)
qed

lemma c_recv_all_stream:
  assumes "\<not> nc_closed (sk_conn s)"
  shows "\<exists>s'. c_recv_all len acc s = (if len - length acc \<le> length (sk_stream s) then Some (acc @ take (len - length acc) (sk_stream s)) else None, s')
    \<and> sk_stream s' = drop (len - length acc) (sk_stream s) \<and> same_sender s s'"
  using assms
proof (induction len acc s rule: c_recv_all.induct)
  case (1 len acc s)
  show ?case
  proof (cases "len \<le> length acc")
    case True
    then show ?thesis using 1(2) by (subst c_recv_all.simps) (simp add: same_sender_def)
  next
    case False
    obtain bs s' where r: "c_recv (len - length acc) s = (bs, s')" "length bs \<le> len - length acc"
      "sk_stream s = bs @ sk_stream s'" "same_sender s s'" "bs = [] \<longrightarrow> sk_stream s = []"
      using c_recv_progress [OF 1(2), of "len - length acc"] False by auto
    show ?thesis
    proof (cases "bs = []")
      case True
      then show ?thesis using False r by (subst c_recv_all.simps) simp
    next
      case bs: False
      have "\<not> nc_closed (sk_conn s')" using r(4) 1(2) by (simp add: same_sender_def)
      from 1(1) [OF False r(1) [symmetric] bs this]
      obtain s'' where "c_recv_all len (acc @ bs) s' =
          (if len - length (acc @ bs) \<le> length (sk_stream s') then Some ((acc @ bs) @ take (len - length (acc @ bs)) (sk_stream s')) else None, s'')"
        "sk_stream s'' = drop (len - length (acc @ bs)) (sk_stream s')" "same_sender s' s''" by blast
      then show ?thesis
        using False r(2,3) bs same_sender_trans [OF r(4)] by (subst c_recv_all.simps) (auto simp: r(1))
    qed
  qed
qed

lemma c_recv_all_read:
  assumes "\<not> nc_closed (sk_conn s)"
  shows "\<exists>s'. c_recv_all len [] s = (if len \<le> length (sk_stream s) then Some (take len (sk_stream s)) else None, s')
    \<and> sk_stream s' = drop len (sk_stream s) \<and> same_sender s s'"
  using c_recv_all_stream [OF assms, of len "[]"] by (simp only: list.size append_Nil diff_zero)

text \<open>What arrives for a frame, on the bytes themselves.\<close>

lemma recv_frame_eq:
  assumes "\<not> nc_closed (sk_conn s)"
  shows "\<exists>s'. eipc_transport_recv_frame heap s frame =
      (let b = sk_stream s; n = unat (Uint32 (take 4 b))
       in if length b < 4 then Some (EIPC_ERR_IO, frame, s')
          else if n > EIPC_MAX_FRAME then Some (EIPC_ERR_FRAME_TOO_LARGE, frame, s')
          else if \<not> heap n then Some (EIPC_ERR_NOMEM, frame, s')
          else if length b < 4 + n then Some (EIPC_ERR_IO, frame, s')
          else eipc_frame_decode (take n (drop 4 b)) n frame \<bind> (\<lambda>(rc, frame). Some (rc, frame, s')))
    \<and> same_sender s s' \<and> (4 + unat (Uint32 (take 4 (sk_stream s))) \<le> length (sk_stream s) \<longrightarrow> unat (Uint32 (take 4 (sk_stream s))) \<le> EIPC_MAX_FRAME \<longrightarrow>
        heap (unat (Uint32 (take 4 (sk_stream s)))) \<longrightarrow> sk_stream s' = drop (4 + unat (Uint32 (take 4 (sk_stream s)))) (sk_stream s))"
proof -
  let ?b = "sk_stream s" and ?n = "unat (Uint32 (take 4 (sk_stream s)))"
  obtain s1 where s1: "c_recv_all 4 [] s = (if 4 \<le> length ?b then Some (take 4 ?b) else None, s1)" "sk_stream s1 = drop 4 ?b" "same_sender s s1"
    using c_recv_all_read [OF assms] by blast
  have "\<not> nc_closed (sk_conn s1)" using s1(3) assms by (simp add: same_sender_def)
  then obtain s2 where s2: "c_recv_all ?n [] s1 = (if ?n \<le> length (sk_stream s1) then Some (take ?n (sk_stream s1)) else None, s2)"
    "sk_stream s2 = drop ?n (sk_stream s1)" "same_sender s1 s2" using c_recv_all_read by blast
  have pre: "c_be32 (take 4 ?b) 0 = Some (Uint32 (take 4 ?b))" if "4 \<le> length ?b" using that by (simp add: c_be32_eq)
  show ?thesis
  proof (cases "4 \<le> length ?b \<and> ?n \<le> EIPC_MAX_FRAME \<and> heap ?n")
    case True
    then show ?thesis
      using s1 s2 pre same_sender_trans [OF s1(3) s2(3)] by (intro exI [of _ s2]) (auto simp: eipc_transport_recv_frame_def Let_def add.commute)
  next
    case False
    then show ?thesis using s1 pre by (intro exI [of _ s1]) (auto simp: eipc_transport_recv_frame_def Let_def)
  qed
qed

lemma length_go_wire_bound: "c_frame_ok f \<Longrightarrow> length (wire (go_frame f)) \<le> EIPC_FRAME_BUF_SIZE"
  by (auto simp: length_go_wire c_frame_ok_def c_sizes)

lemma send_frame_open:
  assumes "sock_open s" and "c_frame_ok f"
  shows "\<exists>s'. eipc_transport_send_frame s f = Some (EIPC_OK, s') \<and> sock_open s'
    \<and> sk_conn s' = (sk_conn s)\<lparr>nc_out := nc_out (sk_conn s) @ conn_wire (go_frame f)\<rparr>"
proof -
  let ?w = "wire (go_frame f)"
  have enc: "eipc_frame_encode f (replicate EIPC_FRAME_BUF_SIZE 0) EIPC_FRAME_BUF_SIZE 0 =
      Some (EIPC_OK, overwrite (replicate EIPC_FRAME_BUF_SIZE 0) 0 ?w, length ?w)"
    using eipc_frame_encode_ok [OF assms(2)] length_go_wire_bound [OF assms(2)] by simp
  obtain s1 where s1: "c_send_all (PutUint32 (of_nat (length ?w))) s = (0, s1)" "sock_open s1"
    "sk_conn s1 = (sk_conn s)\<lparr>nc_out := nc_out (sk_conn s) @ PutUint32 (of_nat (length ?w))\<rparr>" using c_send_all_open [OF assms(1)] by blast
  obtain s2 where s2: "c_send_all ?w s1 = (0, s2)" "sock_open s2" "sk_conn s2 = (sk_conn s1)\<lparr>nc_out := nc_out (sk_conn s1) @ ?w\<rparr>"
    using c_send_all_open [OF s1(2)] by blast
  show ?thesis
    using enc s1 s2 length_go_wire_bound [OF assms(2)]
    by (simp add: eipc_transport_send_frame_def Let_def PutUint32_def [symmetric] conn_wire_def)
qed

lemma recv_frame_total:
  "\<not> nc_closed (sk_conn s) \<Longrightarrow> \<exists>rc f s'. eipc_transport_recv_frame heap s frame = Some (rc, f, s') \<and> same_sender s s'"
proof -
  assume s: "\<not> nc_closed (sk_conn s)"
  let ?n = "unat (Uint32 (take 4 (sk_stream s)))"
  have "\<exists>rc f. eipc_frame_decode (take ?n (drop 4 (sk_stream s))) ?n frame = Some (rc, f)" if "4 + ?n \<le> length (sk_stream s)"
    using eipc_frame_decode_unfold [of ?n "take ?n (drop 4 (sk_stream s))" frame] that by (simp split: if_splits)
  with recv_frame_eq [OF s, of heap frame] show ?thesis by (auto simp: Let_def not_less split: if_splits)
qed

lemma recv_frame_wire:
  assumes "\<not> nc_closed (sk_conn s)" and "c_fits g" and "sk_stream s = conn_wire g @ rest" and "heap (length (wire g))"
  shows "\<exists>s'. eipc_transport_recv_frame heap s frame = Some (EIPC_OK, c_frame g, s') \<and> sk_stream s' = rest \<and> same_sender s s'"
proof -
  have fits: "frame_fits g" and wf: "frame_wf g" using assms(2) by (auto simp: c_fits_def frame_wf_def)
  have ok: "c_frame_ok (c_frame g)" by (rule c_frame_ok_c_frame [OF assms(2)])
  have len: "length (wire g) \<le> EIPC_FRAME_BUF_SIZE" using length_go_wire_bound [OF ok] by (simp add: go_c_frame [OF assms(2)])
  have n: "unat (Uint32 (take 4 (sk_stream s))) = length (wire g)"
    by (simp add: assms(3) conn_wire_def unat_length_wire [OF fits])
  have "Decode stream_ReadFull (take (length (wire g)) (wire g)) = (Inr g, [])" using Decode_wire [OF wf, of "[]"] by simp
  then have dec: "eipc_frame_decode (wire g) (length (wire g)) frame = Some (EIPC_OK, c_frame g)"
    using eipc_frame_decode_ok_iff [of "length (wire g)" "wire g" frame "c_frame g"] assms(2) by auto
  have "take (length (wire g)) (drop 4 (sk_stream s)) = wire g" "length (sk_stream s) = 4 + length (wire g) + length rest"
    "drop (4 + length (wire g)) (sk_stream s) = rest"
    by (simp_all add: assms(3) conn_wire_def)
  then show ?thesis
    using recv_frame_eq [OF assms(1), of heap frame] n dec len assms(4) by (auto simp: Let_def c_sizes)
qed

lemma parse_address_split:
  assumes "c_str address = Some (h @ 0x3A # p)" and "0x3A \<notin> set p" and "length h < 256" and "c_atoi p = Some n"
  shows "\<exists>host. parse_address address (replicate 256 0) 256 port = Some (0, host, ucast n) \<and> c_str host = Some h"
proof -
  let ?host = "overwrite (replicate 256 0) 0 (h @ [0])"
  have split: "dropWhile (\<lambda>c. c \<noteq> 0x3A) (rev p @ 0x3A # rev h) = 0x3A # rev h" "takeWhile (\<lambda>c. c \<noteq> 0x3A) (rev p @ 0x3A # rev h) = rev p"
    using assms(2) by (subst dropWhile_append2 takeWhile_append2; auto)+
  have copy: "c_memcpy (replicate 256 0) 0 (h @ 0x3A # p) 0 (length h) = Some (overwrite (replicate 256 0) 0 h)"
    "c_set (overwrite (replicate 256 0) 0 h) (length h) 0 = Some ?host"
    using assms(3) overwrite_append [of 0 h "[0]" "replicate 256 0"] by (simp_all add: c_memcpy_eq c_set_def overwrite_step)
  have parse: "parse_address address (replicate 256 0) 256 port = Some (0, ?host, ucast n)"
    unfolding parse_address_def assms(1) using assms(3,4) copy by (simp add: split Let_def)
  have "0 \<notin> set h" using c_str_length [OF assms(1)] by simp
  then have "c_str ?host = Some h" by (simp add: overwrite_def c_str_terminated)
  with parse show ?thesis by blast
qed

section \<open>Properties\<close>

text \<open>
  The C and the Go transport understand each other: a frame within the limits of the C SDK that the C transport sends is received
  unchanged by the Go transport, and one the Go transport sends by the C transport, however the network cuts the bytes into
  segments, however little a call of \<open>send\<close> takes, and whatever follows on the stream.
\<close>

theorem c_transport_interop:
  assumes "c_fits g" and "sock_open s" and "nc_out (sk_conn s) = []" and "conn_open c" and "nc_out c = []"
  shows "(\<exists>s'. eipc_transport_send_frame s (c_frame g) = Some (EIPC_OK, s')
      \<and> (\<forall>segs rest. concat segs = nc_out (sk_conn s') @ rest \<longrightarrow>
           (\<exists>c'. ConnWrapper_Receive (open_conn segs) = (Inr g, c') \<and> concat (nc_in c') = rest)))
    \<and> (\<exists>c'. ConnWrapper_Send g c = (None, c')
      \<and> (\<forall>r rest. \<not> nc_closed (sk_conn r) \<and> sk_stream r = nc_out c' @ rest \<longrightarrow>
           (\<exists>r'. eipc_transport_recv_frame (\<lambda>_. True) r frame = Some (EIPC_OK, c_frame g, r') \<and> sk_stream r' = rest)))"
proof -
  have ok: "c_frame_ok (c_frame g)" and g: "go_frame (c_frame g) = g" by (rule c_frame_ok_c_frame [OF assms(1)] go_c_frame [OF assms(1)])+
  have fits: "frame_fits g" and wf: "frame_wf g" using assms(1) by (auto simp: c_fits_def frame_wf_def)
  have conn: "conn_ok g" using length_go_wire_bound [OF ok] wf by (simp add: conn_ok_def g c_sizes MaxFrameSize_def)
  obtain s' where s': "eipc_transport_send_frame s (c_frame g) = Some (EIPC_OK, s')" "nc_out (sk_conn s') = conn_wire g"
    using send_frame_open [OF assms(2) ok] assms(3) by (auto simp: g)
  have go: "\<exists>c'. ConnWrapper_Receive (open_conn segs) = (Inr g, c') \<and> concat (nc_in c') = rest" if "concat segs = conn_wire g @ rest" for segs rest
    using ConnWrapper_Receive_stream [of "open_conn segs"] that stream_Receive_wire [OF wf, of rest] conn by auto
  have "ConnWrapper_Send g c = (None, c\<lparr>nc_out := conn_wire g\<rparr>)" using ConnWrapper_Send_open [OF assms(4)] fits assms(5) by simp
  moreover have "\<exists>r'. eipc_transport_recv_frame (\<lambda>_. True) r frame = Some (EIPC_OK, c_frame g, r') \<and> sk_stream r' = rest"
    if "\<not> nc_closed (sk_conn r)" "sk_stream r = conn_wire g @ rest" for r rest
    using recv_frame_wire [OF that(1) assms(1) that(2), of "\<lambda>_. True" frame] by blast
  ultimately show ?thesis using s' go by auto
qed

theorem c_transport_interop_witness:
  "\<exists>s' c'. eipc_transport_send_frame \<lparr>sk_conn = open_conn [], sk_takes = [1, 3]\<rparr> (c_frame example_frame) = Some (EIPC_OK, s')
     \<and> ConnWrapper_Receive (open_conn [nc_out (sk_conn s')]) = (Inr example_frame, c')"
proof -
  have "sock_open \<lparr>sk_conn = open_conn [], sk_takes = [1, 3]\<rparr>" by (simp add: sock_open_def)
  from c_transport_interop [OF example_c_fits this, of "open_conn []" zero_frame] obtain s'
    where "eipc_transport_send_frame \<lparr>sk_conn = open_conn [], sk_takes = [1, 3]\<rparr> (c_frame example_frame) = Some (EIPC_OK, s')"
      "\<And>segs rest. concat segs = nc_out (sk_conn s') @ rest \<Longrightarrow> \<exists>c'. ConnWrapper_Receive (open_conn segs) = (Inr example_frame, c')"
    by auto blast
  then show ?thesis by (metis append_Nil2 concat.simps)
qed

text \<open>
  C23: A server of the C SDK that is told to listen on a host name, or on any other text that is no IPv4 address, listens on all
  interfaces of the machine; the client refuses the same address.
\<close>

theorem c_listen_exposes:
  assumes "c_str address = Some (h @ 0x3A # p)" and "0x3A \<notin> set p" and "length h < 256" and "c_atoi p = Some n"
    and "os_pton os h = None" and "os_socket os" and "os_listen os" and "os_bind os INADDR_ANY (ucast n)"
  shows "eipc_transport_listen os l address = Some (EIPC_OK, Some (INADDR_ANY, ucast n))
    \<and> eipc_transport_connect os sock address = Some (EIPC_ERR_CONNECT, None)"
proof -
  obtain host where "parse_address address (replicate 256 0) 256 0 = Some (0, host, ucast n)" "c_str host = Some h"
    using parse_address_split [OF assms(1-4)] by blast
  then show ?thesis
    using assms(5-8) by (simp add: eipc_transport_listen_def eipc_transport_connect_def INADDR_ANY_def Let_def)
qed

theorem c_listen_exposes_witness:
  "eipc_transport_listen \<lparr>os_socket = True, os_pton = (\<lambda>_. None), os_connect = (\<lambda>_ _. None), os_bind = (\<lambda>_ _. True), os_listen = True, os_accept = None\<rparr>
     None (bytes_of_string ''localhost:9000'' @ [0]) = Some (EIPC_OK, Some (INADDR_ANY, 9000))"
proof -
  let ?os = "\<lparr>os_socket = True, os_pton = (\<lambda>_. None), os_connect = (\<lambda>_ _. None), os_bind = (\<lambda>_ _. True), os_listen = True, os_accept = None\<rparr>"
  have str: "c_str (bytes_of_string ''localhost:9000'' @ [0]) = Some (bytes_of_string ''localhost'' @ 0x3A # bytes_of_string ''9000'')"
    by (simp add: c_str_def bytes_of_string_def)
  have port: "c_atoi (bytes_of_string ''9000'') = Some 9000"
    by (simp add: c_atoi_def bytes_of_string_def c_isspace_def is_digit_def digits_nat_def)
  have "0x3A \<notin> set (bytes_of_string ''9000'')" by (simp add: bytes_of_string_def)
  from c_listen_exposes [OF str this _ port, of ?os None None] show ?thesis by simp
qed

end
