(* ===== verification/CHash.thy ===== *)
theory CHash
  imports CMemory Integrity
begin

text \<open>
  \<^verbatim>\<open>sdk/c/src/eipc_sha256.c\<close> and \<^verbatim>\<open>sdk/c/src/eipc_hmac.c\<close>: the hash of the C SDK, which works through a 64-byte block buffer, and its
  HMAC. Theory \<open>Integrity\<close> has the functions the Go side uses.
\<close>

section \<open>SHA-256\<close>

text \<open>The table \<open>K\<close> of the C file lists the same 64 constants in the same order as the one of the Go package.\<close>

definition c_K :: "w32 list" where
  "c_K = sha256_K"

definition ROTR :: "w32 \<Rightarrow> nat \<Rightarrow> w32" where "ROTR x n = drop_bit n x OR push_bit (32 - n) x"
definition CH :: "w32 \<Rightarrow> w32 \<Rightarrow> w32 \<Rightarrow> w32" where "CH x y z = (x AND y) XOR (NOT x AND z)"
definition MAJ :: "w32 \<Rightarrow> w32 \<Rightarrow> w32 \<Rightarrow> w32" where "MAJ x y z = (x AND y) XOR (x AND z) XOR (y AND z)"
definition EP0 :: "w32 \<Rightarrow> w32" where "EP0 x = ROTR x 2 XOR ROTR x 13 XOR ROTR x 22"
definition EP1 :: "w32 \<Rightarrow> w32" where "EP1 x = ROTR x 6 XOR ROTR x 11 XOR ROTR x 25"
definition SIG0 :: "w32 \<Rightarrow> w32" where "SIG0 x = ROTR x 7 XOR ROTR x 18 XOR drop_bit 3 x"
definition SIG1 :: "w32 \<Rightarrow> w32" where "SIG1 x = ROTR x 17 XOR ROTR x 19 XOR drop_bit 10 x"

record sha256_ctx =
  sx_state :: "w32 list"
  sx_block :: bytes
  sx_total_bits :: "64 word"
  sx_block_len :: nat

text \<open>The loops of \<open>sha256_transform\<close>: the first sixteen words, the others, and the rounds.\<close>

definition c_words :: "bytes \<Rightarrow> w32 list" where
  "c_words block = map (\<lambda>i. push_bit 24 (ucast (block ! (i * 4))) OR push_bit 16 (ucast (block ! (i * 4 + 1)))
     OR push_bit 8 (ucast (block ! (i * 4 + 2))) OR ucast (block ! (i * 4 + 3))) [0..<16]"

primrec c_extend :: "nat \<Rightarrow> w32 list \<Rightarrow> w32 list" where
  "c_extend 0 w = w"
| "c_extend (Suc n) w =
     (let i = length w in c_extend n (w @ [SIG1 (w ! (i - 2)) + w ! (i - 7) + SIG0 (w ! (i - 15)) + w ! (i - 16)]))"

fun c_round :: "w32 list \<Rightarrow> w32 list \<Rightarrow> nat \<Rightarrow> w32 list" where
  "c_round w [a, b, c, d, e, f, g, h] i =
     (let t1 = h + EP1 e + CH e f g + c_K ! i + w ! i; t2 = EP0 a + MAJ a b c
      in [t1 + t2, a, b, c, d + t1, e, f, g])"
| "c_round w st i = st"

definition sha256_transform :: "sha256_ctx \<Rightarrow> sha256_ctx" where
  "sha256_transform ctx =
     (let w = c_extend 48 (c_words (sx_block ctx))
      in ctx\<lparr>sx_state := map2 (+) (sx_state ctx) (foldl (c_round w) (sx_state ctx) [0..<64])\<rparr>)"

text \<open>The block is not initialised, so its contents are an argument.\<close>

definition sha256_init :: "bytes \<Rightarrow> sha256_ctx" where
  "sha256_init block =
     \<lparr>sx_state = [0x6a09e667, 0xbb67ae85, 0x3c6ef372, 0xa54ff53a, 0x510e527f, 0x9b05688c, 0x1f83d9ab, 0x5be0cd19],
      sx_block = block, sx_total_bits = 0, sx_block_len = 0\<rparr>"

primrec sha256_update :: "bytes \<Rightarrow> sha256_ctx \<Rightarrow> sha256_ctx option" where
  "sha256_update [] ctx = Some ctx"
| "sha256_update (v # data) ctx =
     do { block \<leftarrow> c_set (sx_block ctx) (sx_block_len ctx) v;
          let ctx = ctx\<lparr>sx_block := block, sx_block_len := sx_block_len ctx + 1\<rparr>;
          sha256_update data
            (if sx_block_len ctx = 64 then (sha256_transform ctx)\<lparr>sx_total_bits := sx_total_bits ctx + 512, sx_block_len := 0\<rparr> else ctx) }"

definition sha256_final :: "sha256_ctx \<Rightarrow> bytes option" where
  "sha256_final ctx =
     (let orig_len = sx_block_len ctx; total_bits = sx_total_bits ctx + of_nat orig_len * 8
      in do {
        st \<leftarrow> c_puts [0x80] (sx_block ctx, orig_len);
        ctx \<leftarrow> (if orig_len < 56 then map_option (\<lambda>st. ctx\<lparr>sx_block := fst st\<rparr>) (c_puts (replicate (56 - snd st) 0) st)
               else do { st \<leftarrow> c_puts (replicate (64 - snd st) 0) st;
                         let ctx = sha256_transform (ctx\<lparr>sx_block := fst st\<rparr>);
                         st \<leftarrow> c_puts (replicate 56 0) (sx_block ctx, 0);
                         Some (ctx\<lparr>sx_block := fst st\<rparr>) });
        st \<leftarrow> c_puts [ucast (drop_bit 56 total_bits), ucast (drop_bit 48 total_bits), ucast (drop_bit 40 total_bits), ucast (drop_bit 32 total_bits),
                  ucast (drop_bit 24 total_bits), ucast (drop_bit 16 total_bits), ucast (drop_bit 8 total_bits), ucast total_bits] (sx_block ctx, 56);
        let ctx = sha256_transform (ctx\<lparr>sx_block := fst st\<rparr>);
        Some (concat (map (\<lambda>x. [ucast (drop_bit 24 x), ucast (drop_bit 16 x), ucast (drop_bit 8 x), ucast x]) (sx_state ctx)))
      })"

definition eipc_sha256 :: "bytes \<Rightarrow> bytes \<Rightarrow> bytes option" where
  "eipc_sha256 block data = do { ctx \<leftarrow> sha256_update data (sha256_init block); sha256_final ctx }"

section \<open>HMAC\<close>

definition HMAC_BLOCK_SIZE :: nat where "HMAC_BLOCK_SIZE = 64"

text \<open>
  The working buffer holds 65536 bytes of data; more is copied to the heap. \<open>heap\<close> is whether \<open>malloc\<close> succeeds; when it fails
  the MAC is set to zeroes. The contents of the local arrays before they are written do not matter and are zero here.
\<close>

definition eipc_hmac_sign :: "bool \<Rightarrow> bytes \<Rightarrow> bytes \<Rightarrow> bytes option" where
  "eipc_hmac_sign heap key data =
     do {
       h \<leftarrow> (if length key > HMAC_BLOCK_SIZE then eipc_sha256 (replicate 64 0) key else Some key);
       k \<leftarrow> c_memcpy (replicate HMAC_BLOCK_SIZE 0) 0 h 0 (length h);
       let ipad = map (\<lambda>x. x XOR 0x36) k;
       let opad = map (\<lambda>x. x XOR 0x5c) k;
       if length data \<le> 65536 \<or> heap
       then do { inner_hash \<leftarrow> eipc_sha256 (replicate 64 0) (ipad @ data);
                 eipc_sha256 (replicate 64 0) (opad @ inner_hash) }
       else Some (replicate 32 0)
     }"

definition eipc_hmac_verify :: "bool \<Rightarrow> bytes \<Rightarrow> bytes \<Rightarrow> bytes \<Rightarrow> bool option" where
  "eipc_hmac_verify heap key data mac =
     do {
       computed \<leftarrow> eipc_hmac_sign heap key data;
       let diff = foldl (\<lambda>diff i. diff OR (computed ! i XOR mac ! i)) 0 [0..<32];
       Some (diff = 0)
     }"

section \<open>The hash is SHA-256\<close>

lemma c_functions: "ROTR x n = rotr n x" "CH = sha256_ch" "MAJ = sha256_maj" "EP0 = big_sigma0" "EP1 = big_sigma1" "SIG0 = small_sigma0" "SIG1 = small_sigma1"
  by (simp_all add: fun_eq_iff ROTR_def rotr_def CH_def sha256_ch_def MAJ_def sha256_maj_def EP0_def big_sigma0_def EP1_def big_sigma1_def
      SIG0_def small_sigma0_def SIG1_def small_sigma1_def)

lemma c_K_eq: "c_K = sha256_K"
  by (simp add: c_K_def)

lemma c_round_eq: "c_round w st i = sha256_round st (sha256_K ! i, w ! i)"
  by (cases "(w, st, i)" rule: c_round.cases) (simp_all add: c_functions c_K_eq)

lemma foldl_zip_index:
  "length xs = n \<Longrightarrow> length ys = n \<Longrightarrow> foldl (\<lambda>s i. g s (xs ! i, ys ! i)) s [0..<n] = foldl g s (zip xs ys)"
proof (induction n arbitrary: xs ys)
  case (Suc n)
  obtain x xs' y ys' where l: "xs = xs' @ [x]" "ys = ys' @ [y]" using Suc.prems by (metis append_butlast_last_id length_0_conv nat.distinct(1))
  then have "foldl (\<lambda>s i. g s (xs ! i, ys ! i)) s [0..<n] = foldl (\<lambda>s i. g s (xs' ! i, ys' ! i)) s [0..<n]"
    using Suc.prems by (intro foldl_cong) (auto simp: nth_append)
  then show ?case using Suc l by (simp add: nth_append)
qed simp

lemma length_c_extend [simp]: "length (c_extend n w) = length w + n"
  by (induction n arbitrary: w) (simp_all add: Let_def)

lemma take_c_extend: "take (length w) (c_extend n w) = w"
proof (induction n arbitrary: w)
  case (Suc n)
  let ?x = "SIG1 (w ! (length w - 2)) + w ! (length w - 7) + SIG0 (w ! (length w - 15)) + w ! (length w - 16)"
  have "take (length w) (take (length (w @ [?x])) (c_extend n (w @ [?x]))) = w" unfolding Suc.IH by simp
  then show ?case by (simp add: Let_def min_def)
qed simp

lemma c_extend_add: "c_extend (m + n) w = c_extend n (c_extend m w)"
  by (induction m arbitrary: w) (simp_all add: Let_def)

lemma schedule_step:
  "ws = h # t \<Longrightarrow> schedule (Suc n) ws = h # schedule n (t @ [small_sigma1 (ws ! 14) + ws ! 9 + small_sigma0 (ws ! 1) + h])"
  by simp

text \<open>Each word of the schedule depends on the sixteen before it: the sliding window of the Go side and the array agree.\<close>

lemma schedule_extend: "16 \<le> length w \<Longrightarrow> schedule n (drop (length w - 16) w) = take n (drop (length w - 16) (c_extend n w))"
proof (induction n arbitrary: w)
  case (Suc n)
  let ?i = "length w - 16"
  define x where "x = SIG1 (w ! (length w - 2)) + w ! (length w - 7) + SIG0 (w ! (length w - 15)) + w ! ?i"
  have idx: "?i + 14 = length w - 2" "?i + 9 = length w - 7" "?i + 1 = length w - 15" using Suc.prems by auto
  have suc: "Suc ?i = length w - 15" using Suc.prems by auto
  have nth: "drop ?i w ! 14 = w ! (length w - 2)" "drop ?i w ! 9 = w ! (length w - 7)" "drop ?i w ! 1 = w ! (length w - 15)"
    by (simp_all only: nth_drop [OF diff_le_self] idx)
  have head: "drop ?i w = w ! ?i # drop (Suc ?i) w" using Suc.prems by (intro Cons_nth_drop_Suc [symmetric]) simp
  have "schedule (Suc n) (drop ?i w) = w ! ?i # schedule n (drop (Suc ?i) w @ [x])"
    unfolding schedule_step [OF head] nth by (simp add: c_functions x_def)
  also have "drop (Suc ?i) w @ [x] = drop (length (w @ [x]) - 16) (w @ [x])" by (simp add: suc)
  also have "schedule n (drop (length (w @ [x]) - 16) (w @ [x])) = take n (drop (Suc ?i) (c_extend n (w @ [x])))"
    using Suc.IH [of "w @ [x]"] Suc.prems by (simp add: suc)
  also have "w ! ?i # take n (drop (Suc ?i) (c_extend n (w @ [x]))) = take (Suc n) (drop ?i (c_extend n (w @ [x])))"
  proof -
    have lt: "?i < length w" using Suc.prems by simp
    then have "c_extend n (w @ [x]) ! ?i = take (length (w @ [x])) (c_extend n (w @ [x])) ! ?i" by simp
    also have "\<dots> = w ! ?i" unfolding take_c_extend using lt by (simp add: nth_append)
    finally show ?thesis using Cons_nth_drop_Suc [of ?i "c_extend n (w @ [x])"] lt by (metis length_c_extend length_append_singleton less_Suc_eq take_Suc_Cons trans_less_add1)
  qed
  finally show ?case by (simp add: Let_def x_def)
qed simp

lemma words_of_bytes_map: "length b = 4 * n \<Longrightarrow> words_of_bytes b = map (\<lambda>i. Uint32 (take 4 (drop (4 * i) b))) [0..<n]"
proof (induction n arbitrary: b)
  case (Suc n)
  obtain p q r s rest where b: "b = p # q # r # s # rest" using Suc.prems by (auto simp: length_Suc_conv numeral_eq_Suc)
  then have "words_of_bytes rest = map (\<lambda>i. Uint32 (take 4 (drop (4 * i) rest))) [0..<n]" using Suc by simp
  moreover have "[0..<Suc n] = 0 # map Suc [0..<n]" by (simp add: map_Suc_upt upt_conv_Cons del: upt_Suc)
  moreover have "drop (4 + k) b = drop k rest" for k unfolding b by (simp add: numeral_eq_Suc)
  ultimately show ?case using b by (simp del: upt_Suc)
qed simp

lemma c_words_eq:
  assumes "length block = 64"
  shows "c_words block = words_of_bytes block"
proof -
  have "push_bit 24 (ucast (block ! (i * 4))) OR push_bit 16 (ucast (block ! (i * 4 + 1))) OR push_bit 8 (ucast (block ! (i * 4 + 2)))
      OR ucast (block ! (i * 4 + 3)) = Uint32 (take 4 (drop (4 * i) block))" if "i < 16" for i
    using assms that by (simp add: Uint32_def or.commute or.left_commute ac_simps)
  then show ?thesis using words_of_bytes_map [of block 16] assms by (simp add: c_words_def)
qed

lemma length_c_words [simp]: "length (c_words block) = 16"
  by (simp add: c_words_def)

lemma sha256_transform_eq:
  assumes "length (sx_block ctx) = 64"
  shows "sha256_transform ctx = ctx\<lparr>sx_state := sha256_block (sx_state ctx) (sx_block ctx)\<rparr>"
proof -
  let ?w = "c_words (sx_block ctx)"
  have "schedule 64 ?w = take 64 (c_extend 64 ?w)" using schedule_extend [of ?w 64] by simp
  also have "\<dots> = take (length (c_extend 48 ?w)) (c_extend 16 (c_extend 48 ?w))" using c_extend_add [of 48 16 ?w] by simp
  also have "\<dots> = c_extend 48 ?w" by (rule take_c_extend)
  finally have w: "c_extend 48 ?w = schedule 64 (words_of_bytes (sx_block ctx))" using c_words_eq [OF assms] by simp
  have "length sha256_K = 64" by (simp add: sha256_K_def)
  then have "foldl (c_round (c_extend 48 ?w)) st [0..<64] = foldl sha256_round st (zip sha256_K (c_extend 48 ?w))" for st
    using foldl_zip_index [of sha256_K 64 "c_extend 48 ?w" sha256_round st] by (simp add: c_round_eq fun_eq_iff cong: foldl_cong)
  then show ?thesis by (simp add: sha256_transform_def Let_def sha256_block_def w)
qed

section \<open>Blocks\<close>

lemma blocks_append: "64 * n \<le> length m \<Longrightarrow> blocks n (m @ x) = blocks n m"
  by (induction n m rule: blocks.induct) auto

lemma blocks_Suc: "blocks (Suc n) m = blocks n m @ [take 64 (drop (64 * n) m)]"
  by (induction n m rule: blocks.induct) (auto simp: add.commute)

text \<open>The context after the bytes \<open>m\<close>.\<close>

definition hashed :: "bytes \<Rightarrow> sha256_ctx \<Rightarrow> bool" where
  "hashed m ctx \<longleftrightarrow> sx_state ctx = foldl sha256_block sha256_H0 (blocks (length m div 64) m) \<and> length (sx_block ctx) = 64
     \<and> sx_block_len ctx = length m mod 64 \<and> take (length m mod 64) (sx_block ctx) = drop (64 * (length m div 64)) m
     \<and> sx_total_bits ctx = of_nat (512 * (length m div 64))"

lemma hashed_init: "length block = 64 \<Longrightarrow> hashed [] (sha256_init block)"
  by (simp add: hashed_def sha256_init_def sha256_H0_def)

lemma hashed_step:
  assumes "hashed m ctx"
  shows "\<exists>ctx'. sha256_update (v # data) ctx = sha256_update data ctx' \<and> hashed (m @ [v]) ctx'"
proof -
  define q where "q = length m div 64"
  define r where "r = length m mod 64"
  have m: "length m = 64 * q + r" "r < 64" by (simp_all add: q_def r_def)
  have ctx: "sx_state ctx = foldl sha256_block sha256_H0 (blocks q m)" "length (sx_block ctx) = 64" "sx_block_len ctx = r"
    "take r (sx_block ctx) = drop (64 * q) m" "sx_total_bits ctx = of_nat (512 * q)"
    using assms by (simp_all add: hashed_def q_def r_def)
  define blk where "blk = (sx_block ctx)[r := v]"
  have blk: "length blk = 64" "take (Suc r) blk = drop (64 * q) (m @ [v])"
    using ctx(2,4) m by (simp_all add: blk_def take_Suc_conv_app_nth)
  have set: "c_set (sx_block ctx) r v = Some blk" using m ctx(2) by (simp add: c_set_def blk_def)
  show ?thesis
  proof (cases "Suc r = 64")
    case True
    then have dm: "length (m @ [v]) div 64 = Suc q" "length (m @ [v]) mod 64 = 0" using m by auto
    have full: "blk = drop (64 * q) (m @ [v])" using blk True by simp
    have "foldl sha256_block sha256_H0 (blocks (Suc q) (m @ [v])) = sha256_block (sx_state ctx) blk"
      using full blk(1) m ctx(1) by (simp add: blocks_Suc blocks_append del: blocks.simps)
    then show ?thesis
      using dm ctx set True blk(1) m(1)
      by (intro exI [of _ "ctx\<lparr>sx_block := blk, sx_state := sha256_block (sx_state ctx) blk, sx_total_bits := sx_total_bits ctx + 512, sx_block_len := 0\<rparr>"])
        (simp add: hashed_def sha256_transform_eq del: blocks.simps)
  next
    case False
    then have "Suc r < 64" using m by simp
    then have dm: "length (m @ [v]) div 64 = q" "length (m @ [v]) mod 64 = Suc r" using m by auto
    then show ?thesis
      using ctx set False blk m
      by (intro exI [of _ "ctx\<lparr>sx_block := blk, sx_block_len := Suc r\<rparr>"]) (simp add: hashed_def blocks_append)
  qed
qed

lemma hashed_update: "hashed m ctx \<Longrightarrow> \<exists>ctx'. sha256_update data ctx = Some ctx' \<and> hashed (m @ data) ctx'"
proof (induction data arbitrary: m ctx)
  case (Cons v data)
  then obtain ctx' where "sha256_update (v # data) ctx = sha256_update data ctx'" "hashed (m @ [v]) ctx'" using hashed_step by blast
  then show ?case using Cons.IH [of "m @ [v]" ctx'] by simp
qed simp

section \<open>The last blocks\<close>

lemma puts_pad:
  "length b = 64 \<Longrightarrow> r < n \<Longrightarrow> n \<le> 64 \<Longrightarrow>
   (c_puts [0x80] (b, r) \<bind> (\<lambda>st. c_puts (replicate (n - snd st) 0) st)) =
     Some (take r b @ 0x80 # replicate (n - 1 - r) 0 @ drop n b, n)"
  using overwrite_append [of r "[0x80]" "replicate (n - Suc r) 0" b]
  by (simp add: c_puts_eq del: c_puts.simps) (simp add: overwrite_def)

lemma puts_bits: "length b = 64 \<Longrightarrow> c_puts (PutUint64 w) (b, 56) = Some (take 56 b @ PutUint64 w, 64)"
  by (simp add: c_puts_eq overwrite_def)

lemma puts_zero: "length b = 64 \<Longrightarrow> c_puts (replicate 56 0) (b, 0) = Some (replicate 56 0 @ drop 56 b, 56)"
  by (simp add: c_puts_eq overwrite_def)

lemma puts_first: "length b = 64 \<Longrightarrow> r < 64 \<Longrightarrow> c_puts [0x80] (b, r) = Some (overwrite b r [0x80], r + 1)"
  by (simp add: c_puts_eq del: c_puts.simps)

lemma sha256_final_eq:
  assumes "length (sx_block ctx) = 64" and "sx_block_len ctx < 64"
  shows "sha256_final ctx =
    (let r = sx_block_len ctx; bits = PutUint64 (sx_total_bits ctx + of_nat r * 8); p = take r (sx_block ctx) @ [0x80]
     in Some (concat (map PutUint32
       (if r < 56 then sha256_block (sx_state ctx) (p @ replicate (55 - r) 0 @ bits)
        else sha256_block (sha256_block (sx_state ctx) (p @ replicate (63 - r) 0)) (replicate 56 0 @ bits)))))"
proof (cases "sx_block_len ctx < 56")
  case True
  then show ?thesis
    using assms puts_pad [of "sx_block ctx" "sx_block_len ctx" 56] puts_first [of "sx_block ctx" "sx_block_len ctx"]
    unfolding sha256_final_def PutUint64_def [symmetric] PutUint32_def [symmetric]
    by (simp add: Let_def puts_bits sha256_transform_eq take_Cons' del: c_puts.simps)
next
  case False
  then show ?thesis
    using assms puts_pad [of "sx_block ctx" "sx_block_len ctx" 64] puts_first [of "sx_block ctx" "sx_block_len ctx"]
    unfolding sha256_final_def PutUint64_def [symmetric] PutUint32_def [symmetric]
    by (simp add: Let_def puts_bits puts_zero sha256_transform_eq del: c_puts.simps)
qed

lemma sha256_final_hashed:
  assumes "hashed m ctx"
  shows "sha256_final ctx = Some (sha256_Sum m)"
proof -
  define q where "q = length m div 64"
  define r where "r = length m mod 64"
  have m: "length m = 64 * q + r" and r: "r < 64" by (simp_all add: q_def r_def)
  have ctx: "sx_state ctx = foldl sha256_block sha256_H0 (blocks q m)" "length (sx_block ctx) = 64" "sx_block_len ctx = r"
    "take r (sx_block ctx) = drop (64 * q) m" "sx_total_bits ctx = of_nat (512 * q)"
    using assms by (simp_all add: hashed_def q_def r_def)
  define bits where "bits = PutUint64 (of_nat (length m) * 8)"
  have bits: "length bits = 8" by (simp add: bits_def)
  have "of_nat (512 * q) + of_nat r * 8 = (of_nat (length m) * 8 :: 64 word)" by (simp add: m algebra_simps)
  then have final: "sha256_final ctx =
    Some (concat (map PutUint32
       (if r < 56 then sha256_block (sx_state ctx) (drop (64 * q) m @ 0x80 # replicate (55 - r) 0 @ bits)
        else sha256_block (sha256_block (sx_state ctx) (drop (64 * q) m @ 0x80 # replicate (63 - r) 0)) (replicate 56 0 @ bits))))"
    using ctx r by (simp add: sha256_final_eq Let_def bits_def)
  show ?thesis
  proof (cases "r < 56")
    case True
    then have "(119 - r) mod 64 = 55 - r" by (simp add: le_mod_geq)
    then have pad: "sha256_pad m = m @ 0x80 # replicate (55 - r) 0 @ bits" by (simp add: sha256_pad_def bits_def flip: r_def)
    then have "length (sha256_pad m) div 64 = Suc q" using m bits True by simp
    then show ?thesis
      using m bits True unfolding final sha256_Sum_def Let_def
      by (simp add: pad ctx(1) blocks_Suc blocks_append del: blocks.simps)
  next
    case False
    then have pad: "sha256_pad m = m @ 0x80 # replicate (119 - r) 0 @ bits" using r by (simp add: sha256_pad_def bits_def flip: r_def)
    have zs: "replicate (119 - r) (0 :: byte) = replicate (63 - r) 0 @ replicate 56 0"
      using r by (simp flip: replicate_add)
    have "length (sha256_pad m) div 64 = Suc (Suc q)" using m bits r False by (simp add: pad)
    then show ?thesis
      using m bits r False unfolding final sha256_Sum_def Let_def
      by (simp add: pad zs ctx(1) blocks_Suc blocks_append take_Cons' drop_Cons' del: blocks.simps)
  qed
qed

theorem eipc_sha256_correct: "length block = 64 \<Longrightarrow> eipc_sha256 block data = Some (sha256_Sum data)"
  using hashed_update [OF hashed_init [of block], of data] sha256_final_hashed by (auto simp: eipc_sha256_def)

section \<open>The MAC is HMAC-SHA256\<close>

lemma eipc_hmac_sign_eq:
  assumes "length data \<le> 65536 \<or> heap"
  shows "eipc_hmac_sign heap key data = Some (Sign key data)"
proof -
  define h where "h = (if length key > 64 then sha256_Sum key else key)"
  have h: "length h \<le> 64" by (simp add: h_def)
  have k: "c_memcpy (replicate 64 0) 0 h 0 (length h) = Some (hmac_key key)"
    using h by (simp add: c_memcpy_def hmac_key_def sha256_BlockSize_def h_def [symmetric])
  have xor: "(XOR) 54 = (\<lambda>x :: byte. x XOR 54)" "(XOR) 92 = (\<lambda>x :: byte. x XOR 92)"
    by (simp_all add: fun_eq_iff xor.commute)
  have "(if length key > 64 then eipc_sha256 (replicate 64 0) key else Some key) = Some h"
    by (simp add: h_def eipc_sha256_correct)
  then show ?thesis
    using assms k by (simp add: eipc_hmac_sign_def HMAC_BLOCK_SIZE_def eipc_sha256_correct Sign_def hmac_Sum_def Let_def xor)
qed

lemma foldl_or_zero: "foldl (\<lambda>d i. d OR f i) (d0 :: byte) is = 0 \<longleftrightarrow> d0 = 0 \<and> (\<forall>i\<in>set is. f i = 0)"
  by (induction "is" arbitrary: d0) (auto simp: or_eq_0_iff)

lemma xor_zero_iff: "(x :: byte) XOR y = 0 \<longleftrightarrow> x = y"
  by (metis xor.assoc xor.right_neutral xor_self_eq xor.left_neutral)

lemma compare_bytes:
  "length a = 32 \<Longrightarrow> length b = 32 \<Longrightarrow> foldl (\<lambda>d i. d OR (a ! i XOR b ! i)) (0 :: byte) [0..<32] = 0 \<longleftrightarrow> a = b"
  by (auto simp: foldl_or_zero xor_zero_iff list_eq_iff_nth_eq)

lemma c_hmac_verify_eq:
  assumes "length data \<le> 65536 \<or> heap" and "length mac = 32"
  shows "eipc_hmac_verify heap key data mac = Some (Verify key data mac)"
  using eipc_hmac_sign_eq [OF assms(1)] compare_bytes [of "Sign key data" mac] assms(2)
  by (auto simp: eipc_hmac_verify_def Verify_def hmac_Equal_def Let_def)



text \<open>When the allocation fails, the zero MAC is accepted whatever the key.\<close>

lemma c_hmac_no_memory:
  assumes "65536 < length data"
  shows "eipc_hmac_verify False key data (replicate 32 0) = Some True"
proof -
  define h where "h = (if length key > 64 then sha256_Sum key else key)"
  have "length h \<le> 64" by (simp add: h_def)
  then have k: "c_memcpy (replicate 64 0) 0 h 0 (length h) \<noteq> None" by (simp add: c_memcpy_def)
  have "(if length key > 64 then eipc_sha256 (replicate 64 0) key else Some key) = Some h"
    by (simp add: h_def eipc_sha256_correct)
  then have "eipc_hmac_sign False key data = Some (replicate 32 0)"
    using assms k by (auto simp: eipc_hmac_sign_def HMAC_BLOCK_SIZE_def)
  then show ?thesis using compare_bytes [of "replicate 32 0" "replicate 32 0"] by (simp add: eipc_hmac_verify_def)
qed

end
