(* ===== verification/CJson.thy ===== *)
theory CJson
  imports CString CFrame Codec Events
begin

text \<open>
  \<^verbatim>\<open>sdk/c/src/eipc_json.c\<close> and the event types of \<^verbatim>\<open>sdk/c/include/eipc_types.h\<close>: the JSON reader and writer of the C SDK. A reader
  looks for the first occurrence of the quoted key anywhere in the text; a writer formats the members in a fixed order, and only
  some of them escape their strings. The two functions on a \<open>float\<close> read from a text (\<open>json_find_float\<close>,
  \<open>eipc_intent_from_json\<close>) are in theory CFloat.
\<close>

section \<open>Reading\<close>

definition json_pattern :: "bytes \<Rightarrow> bytes" where
  "json_pattern key = take 127 (quoted key)"

definition json_skip :: "byte \<Rightarrow> bool" where
  "json_skip c \<longleftrightarrow> c = 0x20 \<or> c = 0x3A \<or> c = 0x09 \<or> c = 0x0A"

text \<open>The characters up to the closing quote, still escaped.\<close>

fun json_body :: "bytes \<Rightarrow> bytes" where
  "json_body [] = []"
| "json_body (c # s) =
     (if c = 0x22 then []
      else if c = 0x5C then (case s of [] \<Rightarrow> [c] | d # s' \<Rightarrow> c # d # json_body s')
      else c # json_body s)"

text \<open>The rest of the text behind the key, the colon and blanks; None when the key does not occur.\<close>

definition json_value :: "bytes \<Rightarrow> bytes \<Rightarrow> bytes option option" where
  "json_value json key =
     do { s \<leftarrow> c_str json;
          Some (map_option (\<lambda>start. dropWhile json_skip (drop (length (json_pattern key)) start)) (c_strstr s (json_pattern key))) }"

definition json_find_string :: "bytes \<Rightarrow> string \<Rightarrow> bytes \<Rightarrow> nat \<Rightarrow> (int \<times> bytes) option" where
  "json_find_string json key out out_size =
     do { r \<leftarrow> json_value json (bytes_of_string key);
          case r of
            Some (c # start) \<Rightarrow>
              if c \<noteq> 0x22 then do { out \<leftarrow> c_set out 0 0; Some (- 1, out) }
              else do { let body = json_body start;
                        let len = (if length body \<ge> out_size then out_size - 1 else length body);
                        out \<leftarrow> c_memcpy out 0 body 0 len;
                        out \<leftarrow> c_set out len 0;
                        Some (0, out) }
          | _ \<Rightarrow> do { out \<leftarrow> c_set out 0 0; Some (- 1, out) } }"

definition json_find_uint64 :: "bytes \<Rightarrow> string \<Rightarrow> (int \<times> 64 word) option" where
  "json_find_uint64 json key =
     do { r \<leftarrow> json_value json (bytes_of_string key);
          case r of
            None \<Rightarrow> Some (- 1, 0)
          | Some start \<Rightarrow> Some (0, c_strtoull (case start of [] \<Rightarrow> [] | c # s \<Rightarrow> if c = 0x22 then s else start)) }"

text \<open>The conversion of a \<open>uint64_t\<close> to \<open>int\<close> keeps the low 32 bits.\<close>

definition json_find_int :: "bytes \<Rightarrow> string \<Rightarrow> (int \<times> 32 word) option" where
  "json_find_int json key =
     do { (rc, val) \<leftarrow> json_find_uint64 json key;
          if rc < 0 then Some (- 1, 0) else Some (0, ucast val) }"

section \<open>Escaping\<close>

text \<open>The escape of a character that has one.\<close>

definition c_escape :: "byte \<Rightarrow> bytes option" where
  "c_escape c =
     (if c = 0x22 \<or> c = 0x5C then Some [0x5C, c]
      else if c = 0x0A then Some [0x5C, 0x6E]
      else if c = 0x0D then Some [0x5C, 0x72]
      else if c = 0x09 then Some [0x5C, 0x74]
      else None)"

text \<open>The loop of \<open>json_escape\<close> over the characters of the source, with \<open>dst\<close> and \<open>di\<close>.\<close>

primrec escape_loop :: "bytes \<Rightarrow> nat \<Rightarrow> bytes \<times> nat \<Rightarrow> (bytes \<times> nat) option" where
  "escape_loop [] dst_size st = Some st"
| "escape_loop (c # s) dst_size st =
     (if snd st < dst_size - 1
      then (case c_escape c of
             Some e \<Rightarrow> if snd st + 2 \<ge> dst_size then Some st else do { st \<leftarrow> c_puts e st; escape_loop s dst_size st }
           | None \<Rightarrow> do { st \<leftarrow> c_puts [c] st; escape_loop s dst_size st })
      else Some st)"

definition json_escape :: "bytes \<Rightarrow> bytes \<Rightarrow> nat \<Rightarrow> (nat \<times> bytes) option" where
  "json_escape src dst dst_size =
     (if dst_size = 0 then Some (0, dst)
      else do { s \<leftarrow> c_str src;
                (dst, di) \<leftarrow> escape_loop s dst_size (dst, 0);
                dst \<leftarrow> c_set dst di 0;
                Some (di, dst) })"

section \<open>Types\<close>

definition EIPC_MAX_ARGS :: nat where "EIPC_MAX_ARGS = 16"
definition EIPC_SERVICE_ID_MAX :: nat where "EIPC_SERVICE_ID_MAX = 64"
definition EIPC_SESSION_ID_MAX :: nat where "EIPC_SESSION_ID_MAX = 64"
definition EIPC_REQUEST_ID_MAX :: nat where "EIPC_REQUEST_ID_MAX = 64"
definition EIPC_CAPABILITY_MAX :: nat where "EIPC_CAPABILITY_MAX = 64"
definition EIPC_TIMESTAMP_MAX :: nat where "EIPC_TIMESTAMP_MAX = 40"
definition EIPC_INTENT_MAX :: nat where "EIPC_INTENT_MAX = 64"
definition EIPC_TOOL_NAME_MAX :: nat where "EIPC_TOOL_NAME_MAX = 64"
definition EIPC_KV_KEY_MAX :: nat where "EIPC_KV_KEY_MAX = 64"
definition EIPC_KV_VALUE_MAX :: nat where "EIPC_KV_VALUE_MAX = 256"
definition EIPC_ROUTE_MAX :: nat where "EIPC_ROUTE_MAX = 64"

record eipc_header_t =
  ch_service_id :: bytes
  ch_session_id :: bytes
  ch_request_id :: bytes
  ch_sequence :: "64 word"
  ch_timestamp :: bytes
  ch_priority :: byte
  ch_capability :: bytes
  ch_route :: bytes
  ch_payload_format :: byte

definition zero_header :: eipc_header_t where
  "zero_header = \<lparr>ch_service_id = replicate EIPC_SERVICE_ID_MAX 0, ch_session_id = replicate EIPC_SESSION_ID_MAX 0,
     ch_request_id = replicate EIPC_REQUEST_ID_MAX 0, ch_sequence = 0, ch_timestamp = replicate EIPC_TIMESTAMP_MAX 0, ch_priority = 0,
     ch_capability = replicate EIPC_CAPABILITY_MAX 0, ch_route = replicate EIPC_ROUTE_MAX 0, ch_payload_format = 0\<rparr>"

record eipc_kv_t =
  kv_key :: bytes
  kv_value :: bytes

record eipc_ack_t =
  ca_request_id :: bytes
  ca_status :: bytes
  ca_error :: bytes

record eipc_tool_request_t =
  tr_tool :: bytes
  tr_args :: "eipc_kv_t list"
  tr_arg_count :: "32 word"
  tr_permission :: bytes
  tr_audit_id :: bytes

record eipc_heartbeat_t =
  chb_service :: bytes
  chb_status :: bytes

record eipc_chat_request_t =
  cq_session_id :: bytes
  cq_user_prompt :: bytes
  cq_model :: bytes
  cq_max_tokens :: "32 word"

record eipc_chat_response_t =
  cr_session_id :: bytes
  cr_response :: bytes
  cr_model :: bytes
  cr_tokens_used :: "32 word"

section \<open>Writing\<close>

text \<open>A format string \<open>"{\"k1\":...,\"k2\":...}"\<close> with what its conversions print.\<close>

definition fmt_member :: "string \<times> bytes \<Rightarrow> bytes" where
  "fmt_member m = quoted (bytes_of_string (fst m)) @ [0x3A] @ snd m"

definition fmt_object :: "(string \<times> bytes) list \<Rightarrow> bytes" where
  "fmt_object ms = [0x7B] @ (case ms of [] \<Rightarrow> [] | m # ms \<Rightarrow> fmt_member m @ concat (map (\<lambda>m. 0x2C # fmt_member m) ms)) @ [0x7D]"

text \<open>\<open>n = snprintf(buf, buf_size, ...); if (n < 0 || n >= buf_size) return err; *out_len = n;\<close>\<close>

definition print_to :: "eipc_status_t \<Rightarrow> bytes \<Rightarrow> bytes \<Rightarrow> nat \<Rightarrow> nat \<Rightarrow> (eipc_status_t \<times> bytes \<times> nat) option" where
  "print_to err text buf buf_size out_len =
     do { (n, buf) \<leftarrow> c_snprintf buf 0 buf_size text;
          if n \<ge> buf_size then Some (err, buf, out_len) else Some (EIPC_OK, buf, n) }"

definition eipc_header_to_json :: "eipc_header_t \<Rightarrow> bytes \<Rightarrow> nat \<Rightarrow> nat \<Rightarrow> (eipc_status_t \<times> bytes \<times> nat) option" where
  "eipc_header_to_json hdr buf buf_size out_len =
     do { service_id \<leftarrow> c_str (ch_service_id hdr);
          session_id \<leftarrow> c_str (ch_session_id hdr);
          request_id \<leftarrow> c_str (ch_request_id hdr);
          timestamp \<leftarrow> c_str (ch_timestamp hdr);
          capability \<leftarrow> c_str (ch_capability hdr);
          print_to EIPC_ERR_BUFFER
            (fmt_object [(''service_id'', quoted service_id), (''session_id'', quoted session_id), (''request_id'', quoted request_id),
               (''sequence'', itoa (unat (ch_sequence hdr))), (''timestamp'', quoted timestamp), (''priority'', itoa (unat (ch_priority hdr))),
               (''capability'', quoted capability), (''payload_format'', itoa (unat (ch_payload_format hdr)))])
            buf buf_size out_len }"

definition eipc_chat_request_to_json :: "eipc_chat_request_t \<Rightarrow> bytes \<Rightarrow> nat \<Rightarrow> nat \<Rightarrow> (eipc_status_t \<times> bytes \<times> nat) option" where
  "eipc_chat_request_to_json req buf buf_size written =
     do { session_id \<leftarrow> c_str (cq_session_id req);
          user_prompt \<leftarrow> c_str (cq_user_prompt req);
          model \<leftarrow> c_str (cq_model req);
          print_to EIPC_ERR_FRAME_TOO_LARGE
            (fmt_object [(''session_id'', quoted session_id), (''user_prompt'', quoted user_prompt), (''model'', quoted model),
               (''max_tokens'', fmt_int (cq_max_tokens req))]) buf buf_size written }"

definition eipc_chat_request_from_json :: "bytes \<Rightarrow> eipc_chat_request_t \<Rightarrow> (eipc_status_t \<times> eipc_chat_request_t) option" where
  "eipc_chat_request_from_json json req =
     do { (_, session_id) \<leftarrow> json_find_string json ''session_id'' (replicate EIPC_SESSION_ID_MAX 0) EIPC_SESSION_ID_MAX;
          (_, user_prompt) \<leftarrow> json_find_string json ''user_prompt'' (replicate EIPC_MAX_PAYLOAD 0) EIPC_MAX_PAYLOAD;
          (_, model) \<leftarrow> json_find_string json ''model'' (replicate 64 0) 64;
          (rc, ival) \<leftarrow> json_find_int json ''max_tokens'';
          Some (EIPC_OK, \<lparr>cq_session_id = session_id, cq_user_prompt = user_prompt, cq_model = model,
                  cq_max_tokens = (if rc = 0 then ival else 0)\<rparr>) }"

definition eipc_chat_response_to_json :: "eipc_chat_response_t \<Rightarrow> bytes \<Rightarrow> nat \<Rightarrow> nat \<Rightarrow> (eipc_status_t \<times> bytes \<times> nat) option" where
  "eipc_chat_response_to_json resp buf buf_size written =
     do { session_id \<leftarrow> c_str (cr_session_id resp);
          response \<leftarrow> c_str (cr_response resp);
          model \<leftarrow> c_str (cr_model resp);
          print_to EIPC_ERR_FRAME_TOO_LARGE
            (fmt_object [(''session_id'', quoted session_id), (''response'', quoted response), (''model'', quoted model),
               (''tokens_used'', fmt_int (cr_tokens_used resp))]) buf buf_size written }"

definition eipc_chat_response_from_json :: "bytes \<Rightarrow> eipc_chat_response_t \<Rightarrow> (eipc_status_t \<times> eipc_chat_response_t) option" where
  "eipc_chat_response_from_json json resp =
     do { (_, session_id) \<leftarrow> json_find_string json ''session_id'' (replicate EIPC_SESSION_ID_MAX 0) EIPC_SESSION_ID_MAX;
          (_, response) \<leftarrow> json_find_string json ''response'' (replicate EIPC_MAX_PAYLOAD 0) EIPC_MAX_PAYLOAD;
          (_, model) \<leftarrow> json_find_string json ''model'' (replicate 64 0) 64;
          (rc, ival) \<leftarrow> json_find_int json ''tokens_used'';
          Some (EIPC_OK, \<lparr>cr_session_id = session_id, cr_response = response, cr_model = model,
                  cr_tokens_used = (if rc = 0 then ival else 0)\<rparr>) }"

definition eipc_header_from_json :: "bytes \<Rightarrow> eipc_header_t \<Rightarrow> (eipc_status_t \<times> eipc_header_t) option" where
  "eipc_header_from_json json hdr =
     do { let hdr = zero_header;
          (_, service_id) \<leftarrow> json_find_string json ''service_id'' (ch_service_id hdr) EIPC_SERVICE_ID_MAX;
          (_, session_id) \<leftarrow> json_find_string json ''session_id'' (ch_session_id hdr) EIPC_SESSION_ID_MAX;
          (_, request_id) \<leftarrow> json_find_string json ''request_id'' (ch_request_id hdr) EIPC_REQUEST_ID_MAX;
          (rc1, val) \<leftarrow> json_find_uint64 json ''sequence'';
          (_, timestamp) \<leftarrow> json_find_string json ''timestamp'' (ch_timestamp hdr) EIPC_TIMESTAMP_MAX;
          (rc2, priority) \<leftarrow> json_find_int json ''priority'';
          (_, capability) \<leftarrow> json_find_string json ''capability'' (ch_capability hdr) EIPC_CAPABILITY_MAX;
          (rc3, payload_format) \<leftarrow> json_find_int json ''payload_format'';
          Some (EIPC_OK, hdr\<lparr>ch_service_id := service_id, ch_session_id := session_id, ch_request_id := request_id,
            ch_sequence := (if rc1 = 0 then val else 0), ch_timestamp := timestamp,
            ch_priority := (if rc2 = 0 then ucast priority else 0), ch_capability := capability,
            ch_payload_format := (if rc3 = 0 then ucast payload_format else 0)\<rparr>) }"

definition eipc_ack_to_json :: "eipc_ack_t \<Rightarrow> bytes \<Rightarrow> nat \<Rightarrow> nat \<Rightarrow> (eipc_status_t \<times> bytes \<times> nat) option" where
  "eipc_ack_to_json ack buf buf_size out_len =
     do { (_, escaped) \<leftarrow> json_escape (ca_error ack) (replicate 512 0) 512;
          request_id \<leftarrow> c_str (ca_request_id ack);
          status \<leftarrow> c_str (ca_status ack);
          error \<leftarrow> c_str escaped;
          print_to EIPC_ERR_BUFFER (fmt_object [(''request_id'', quoted request_id), (''status'', quoted status), (''error'', quoted error)])
            buf buf_size out_len }"

definition eipc_ack_from_json :: "bytes \<Rightarrow> eipc_ack_t \<Rightarrow> (eipc_status_t \<times> eipc_ack_t) option" where
  "eipc_ack_from_json json ack =
     do { (_, request_id) \<leftarrow> json_find_string json ''request_id'' (replicate EIPC_REQUEST_ID_MAX 0) EIPC_REQUEST_ID_MAX;
          (_, status) \<leftarrow> json_find_string json ''status'' (replicate 32 0) 32;
          (_, error) \<leftarrow> json_find_string json ''error'' (replicate 256 0) 256;
          Some (EIPC_OK, \<lparr>ca_request_id = request_id, ca_status = status, ca_error = error\<rparr>) }"

text \<open>
  The loop over the arguments. The state is \<open>args_json\<close> and \<open>ai\<close>; \<open>Some None\<close> is the early return with
  \<open>EIPC_ERR_BUFFER\<close>.
\<close>

fun args_loop :: "nat \<Rightarrow> eipc_kv_t list \<Rightarrow> bytes \<times> nat \<Rightarrow> (bytes \<times> nat) option option" where
  "args_loop i [] st = Some (Some st)"
| "args_loop i (a # args) st =
     do { (buf, ai) \<leftarrow> (if i > 0 then c_puts [0x2C] st else Some st);
          (_, ek) \<leftarrow> json_escape (kv_key a) (replicate 128 0) 128;
          (_, ev) \<leftarrow> json_escape (kv_value a) (replicate 256 0) 256;
          key \<leftarrow> c_str ek;
          val \<leftarrow> c_str ev;
          (written, buf) \<leftarrow> c_snprintf buf ai (2048 - ai) (quoted key @ [0x3A] @ quoted val);
          if written \<ge> 2048 - ai then Some None else args_loop (i + 1) args (buf, ai + written) }"

definition eipc_tool_request_to_json :: "eipc_tool_request_t \<Rightarrow> bytes \<Rightarrow> nat \<Rightarrow> nat \<Rightarrow> (eipc_status_t \<times> bytes \<times> nat) option" where
  "eipc_tool_request_to_json req buf buf_size out_len =
     do { st \<leftarrow> c_puts [0x7B] (replicate 2048 0, 0);
          r \<leftarrow> args_loop 0 (take (min (nat (sint (tr_arg_count req))) EIPC_MAX_ARGS) (tr_args req)) st;
          case r of
            None \<Rightarrow> Some (EIPC_ERR_BUFFER, buf, out_len)
          | Some st \<Rightarrow>
             do { (args_json, _) \<leftarrow> c_puts [0x7D, 0] st;
                  tool \<leftarrow> c_str (tr_tool req);
                  args \<leftarrow> c_str args_json;
                  permission \<leftarrow> c_str (tr_permission req);
                  print_to EIPC_ERR_BUFFER (fmt_object [(''tool'', quoted tool), (''args'', args), (''permission'', quoted permission)])
                    buf buf_size out_len } }"

definition eipc_heartbeat_to_json :: "eipc_heartbeat_t \<Rightarrow> bytes \<Rightarrow> nat \<Rightarrow> nat \<Rightarrow> (eipc_status_t \<times> bytes \<times> nat) option" where
  "eipc_heartbeat_to_json hb buf buf_size out_len =
     do { service \<leftarrow> c_str (chb_service hb);
          status \<leftarrow> c_str (chb_status hb);
          print_to EIPC_ERR_BUFFER (fmt_object [(''service'', quoted service), (''status'', quoted status)]) buf buf_size out_len }"

section \<open>Searching a text\<close>

text \<open>A text cut at its quotes: \<open>qjoin\<close> puts the pieces together again.\<close>

fun qjoin :: "bytes list \<Rightarrow> bytes" where
  "qjoin [] = []"
| "qjoin [s] = s"
| "qjoin (s # ss) = s @ 0x22 # qjoin ss"

fun qfind :: "bytes \<Rightarrow> bytes list \<Rightarrow> bytes list option" where
  "qfind k (s # s' # ss) = (if s = k then Some (s' # ss) else qfind k (s' # ss))"
| "qfind k _ = None"

lemma qjoin_Cons: "ss \<noteq> [] \<Longrightarrow> qjoin (s # ss) = s @ 0x22 # qjoin ss"
  by (cases ss) simp_all

lemma quote_free_prefix:
  assumes "0x22 \<notin> set k" and "0x22 \<notin> set s"
  shows "starts_with (k @ [0x22]) (s @ 0x22 # t) \<longleftrightarrow> s = k"
proof
  assume "starts_with (k @ [0x22]) (s @ 0x22 # t)"
  then obtain u where "s @ 0x22 # t = (k @ [0x22]) @ u" by (auto simp: starts_with_iff)
  with assms show "s = k" by (induction s arbitrary: k) (auto simp: append_eq_Cons_conv Cons_eq_append_conv)
qed (simp add: starts_with_iff)

lemma c_strstr_qjoin:
  assumes "0x22 \<notin> set k" and "\<forall>x \<in> set (s # ss). 0x22 \<notin> set x"
  shows "c_strstr (qjoin (s # ss)) (quoted k) = map_option (\<lambda>r. quoted k @ qjoin r) (qfind k ss)"
  using assms(2)
proof (induction ss arbitrary: s)
  case Nil
  then have "0x22 \<notin> set s" by simp
  then have "c_strstr (s @ []) (quoted k) = c_strstr [] (quoted k)" unfolding quoted_def by (rule c_strstr_skip)
  then show ?case by (simp add: quoted_def)
next
  case (Cons s' ss)
  have *: "c_strstr (qjoin (s # s' # ss)) (quoted k) = c_strstr (0x22 # qjoin (s' # ss)) (quoted k)"
    using Cons.prems unfolding qjoin.simps quoted_def by (intro c_strstr_skip) simp
  show ?case
  proof (cases ss)
    case Nil
    have "\<not> starts_with (k @ [0x22]) s'"
      using Cons.prems by (auto simp: starts_with_iff)
    then have "c_strstr (0x22 # qjoin (s' # ss)) (quoted k) = c_strstr (qjoin (s' # ss)) (quoted k)"
      by (simp add: quoted_def Nil)
    then show ?thesis using * Cons.IH [of s'] Cons.prems by (simp add: Nil)
  next
    case (Cons s'' ss')
    have s: "starts_with (quoted k) (0x22 # qjoin (s' # ss)) \<longleftrightarrow> s' = k"
      using Cons.prems assms(1) quote_free_prefix [of k s' "qjoin ss"] by (simp add: Cons quoted_def)
    show ?thesis
    proof (cases "s' = k")
      case True
      then show ?thesis using * s by (simp add: Cons quoted_def)
    next
      case False
      then have "c_strstr (0x22 # qjoin (s' # ss)) (quoted k) = c_strstr (qjoin (s' # ss)) (quoted k)" using s by simp
      then show ?thesis using * False Cons.IH [of s'] Cons.prems by (simp add: Cons)
    qed
  qed
qed

text \<open>The members of a formatted object: a string between quotes, or the text of a number.\<close>

datatype cval = CStr bytes | CRaw bytes

fun val_text :: "cval \<Rightarrow> bytes" where
  "val_text (CStr v) = quoted v"
| "val_text (CRaw t) = t"

definition obj_text :: "(string \<times> cval) list \<Rightarrow> bytes" where
  "obj_text ms = fmt_object (map (\<lambda>(k, v). (k, val_text v)) ms)"

text \<open>Its pieces, with \<open>pre\<close> in front of the comma before the first member.\<close>

fun csegs :: "bytes \<Rightarrow> (string \<times> cval) list \<Rightarrow> bytes list" where
  "csegs pre [] = [pre @ [0x7D]]"
| "csegs pre ((k, CStr v) # ms) = (pre @ [0x2C]) # bytes_of_string k # [0x3A] # v # csegs [] ms"
| "csegs pre ((k, CRaw t) # ms) = (pre @ [0x2C]) # bytes_of_string k # csegs (0x3A # t) ms"

lemma csegs_not_Nil [simp]: "csegs pre ms \<noteq> []"
  by (induction pre ms rule: csegs.induct) simp_all

lemma qjoin_csegs:
  "qjoin (csegs pre ms) = pre @ concat (map (\<lambda>(k, v). 0x2C # fmt_member (k, val_text v)) ms) @ [0x7D]"
  by (induction pre ms rule: csegs.induct) (simp_all add: qjoin_Cons fmt_member_def quoted_def)

definition plain :: "bytes \<Rightarrow> bool" where
  "plain v \<longleftrightarrow> 0 \<notin> set v \<and> 0x22 \<notin> set v \<and> 0x5C \<notin> set v"

fun plain_val :: "cval \<Rightarrow> bool" where
  "plain_val (CStr v) = plain v"
| "plain_val (CRaw t) = (plain t \<and> t \<noteq> [] \<and> list_all (\<lambda>c. \<not> json_skip c) t)"

definition key_ok :: "string \<Rightarrow> bool" where
  "key_ok k \<longleftrightarrow> k \<noteq> [] \<and> length k < 100 \<and> list_all (\<lambda>c. c = 0x5F \<or> 0x61 \<le> c \<and> c \<le> 0x7A) (bytes_of_string k)"

text \<open>The object as it is searched: no member named twice is needed, the first one is found.\<close>

definition searchable :: "string \<Rightarrow> (string \<times> cval) list \<Rightarrow> bool" where
  "searchable k ms \<longleftrightarrow> key_ok k \<and> ms \<noteq> [] \<and>
     list_all (\<lambda>(k', v). key_ok k' \<and> plain_val v \<and> v \<noteq> CStr (bytes_of_string k)) ms"

fun after :: "string \<Rightarrow> (string \<times> cval) list \<Rightarrow> (cval \<times> (string \<times> cval) list) option" where
  "after k [] = None"
| "after k ((k', v) # ms) = (if k' = k then Some (v, ms) else after k ms)"

lemma key_chars: "key_ok k \<Longrightarrow> c \<in> set (bytes_of_string k) \<Longrightarrow> c \<notin> {0, 0x22, 0x2C, 0x3A, 0x5C}"
  by (auto simp: key_ok_def list_all_iff)

lemma key_not: "key_ok k \<Longrightarrow> c \<in> {0x2C, 0x3A} \<Longrightarrow> c # s \<noteq> bytes_of_string k"
  using key_chars by (metis insert_iff list.set_intros(1))

lemma qfind_skip: "s \<noteq> k \<Longrightarrow> ss \<noteq> [] \<Longrightarrow> qfind k (s # ss) = qfind k ss"
  by (cases ss) simp_all

lemma qfind_found: "ss \<noteq> [] \<Longrightarrow> qfind k (k # ss) = Some ss"
  by (cases ss) simp_all

lemma qfind_csegs:
  assumes "key_ok k" and "list_all (\<lambda>(k', v). v \<noteq> CStr (bytes_of_string k)) ms" and "pre = [] \<or> hd pre = 0x3A"
  shows "qfind (bytes_of_string k) (csegs pre ms) =
    map_option (\<lambda>(v, ms'). case v of CStr s \<Rightarrow> [0x3A] # s # csegs [] ms' | CRaw t \<Rightarrow> csegs (0x3A # t) ms') (after k ms)"
  using assms(2,3)
proof (induction pre ms rule: csegs.induct)
  case (2 pre k' v ms)
  have "pre @ [0x2C] \<noteq> bytes_of_string k" "[0x3A] \<noteq> bytes_of_string k"
    using key_not [OF assms(1)] 2(3) by (cases pre; simp)+
  then show ?case using 2 by (cases "k' = k") (simp_all add: qfind_skip qfind_found)
next
  case (3 pre k' t ms)
  have "pre @ [0x2C] \<noteq> bytes_of_string k" using key_not [OF assms(1)] 3(3) by (cases pre; simp)
  then show ?case using 3 by (cases "k' = k") (simp_all add: qfind_skip qfind_found)
qed simp

lemma csegs_quote_free:
  "0x22 \<notin> set pre \<Longrightarrow> list_all (\<lambda>(k, v). key_ok k \<and> plain_val v) ms \<Longrightarrow> \<forall>x \<in> set (csegs pre ms). 0x22 \<notin> set x"
  by (induction pre ms rule: csegs.induct) (auto simp: plain_def dest: key_chars)

lemma obj_text_qjoin: "ms \<noteq> [] \<Longrightarrow> obj_text ms = qjoin ([0x7B] # tl (csegs [] ms))"
  using qjoin_csegs [of "[]" ms]
  by (cases ms; cases "snd (hd ms)") (auto simp: obj_text_def fmt_object_def qjoin_Cons comp_def split_def)

text \<open>What follows a member in the text.\<close>

definition obj_tail :: "(string \<times> cval) list \<Rightarrow> bytes" where
  "obj_tail ms = qjoin (csegs [] ms)"

lemma obj_tail_head: "\<exists>c s. obj_tail ms = c # s \<and> c \<in> {0x2C, 0x7D}"
  unfolding obj_tail_def qjoin_csegs by (cases ms) auto

lemma zero_free_csegs: "0 \<notin> set pre \<Longrightarrow> list_all (\<lambda>(k, v). key_ok k \<and> plain_val v) ms \<Longrightarrow> 0 \<notin> set (qjoin (csegs pre ms))"
  by (induction pre ms rule: csegs.induct) (auto simp: qjoin_Cons plain_def dest: key_chars)

lemma searchable_ok: "searchable k ms \<Longrightarrow> list_all (\<lambda>(k, v). key_ok k \<and> plain_val v) ms"
  by (auto simp: searchable_def list_all_iff)

lemma csegs_head: "ms \<noteq> [] \<Longrightarrow> csegs [] ms = [0x2C] # tl (csegs [] ms) \<and> tl (csegs [] ms) \<noteq> []"
  by (cases ms; cases "snd (hd ms)") auto

lemma c_str_obj:
  "ms \<noteq> [] \<Longrightarrow> list_all (\<lambda>(k, v). key_ok k \<and> plain_val v) ms \<Longrightarrow> c_str (obj_text ms @ 0 # rest) = Some (obj_text ms)"
proof (rule c_str_terminated)
  assume ms: "ms \<noteq> []" and s: "list_all (\<lambda>(k, v). key_ok k \<and> plain_val v) ms"
  from ms have seg: "csegs [] ms = [0x2C] # tl (csegs [] ms)" "tl (csegs [] ms) \<noteq> []" and obj: "obj_text ms = qjoin ([0x7B] # tl (csegs [] ms))"
    using csegs_head obj_text_qjoin by blast+
  have "qjoin (csegs [] ms) = 0x2C # 0x22 # qjoin (tl (csegs [] ms))" using seg qjoin_Cons [of "tl (csegs [] ms)" "[0x2C]"] by simp
  moreover have "obj_text ms = 0x7B # 0x22 # qjoin (tl (csegs [] ms))" using seg(2) obj by (simp add: qjoin_Cons)
  ultimately have "set (obj_text ms) \<subseteq> insert 0x7B (set (qjoin (csegs [] ms)))" by auto
  then show "0 \<notin> set (obj_text ms)" using zero_free_csegs [OF _ s, of "[]"] by auto
qed

lemma json_value_obj:
  assumes "searchable k ms"
  shows "json_value (obj_text ms @ 0 # rest) (bytes_of_string k) =
    Some (map_option (\<lambda>(v, ms'). val_text v @ obj_tail ms') (after k ms))"
proof -
  have ms: "ms \<noteq> []" and k: "key_ok k" and other: "list_all (\<lambda>(k', v). v \<noteq> CStr (bytes_of_string k)) ms"
    using assms by (auto simp: searchable_def list_all_iff)
  have pat: "json_pattern (bytes_of_string k) = quoted (bytes_of_string k)"
    using k by (intro take_all [of "quoted _" 127, folded json_pattern_def]) (auto simp: quoted_def key_ok_def)
  have q: "0x22 \<notin> set (bytes_of_string k)" using key_chars [OF k] by auto
  have "\<forall>x \<in> set (csegs [] ms). 0x22 \<notin> set x" using csegs_quote_free [OF _ searchable_ok [OF assms], of "[]"] by simp
  then have free: "\<forall>x \<in> set ([0x7B] # tl (csegs [] ms)). 0x22 \<notin> set x" by (cases "csegs [] ms") auto
  have "qfind (bytes_of_string k) (csegs [] ms) = qfind (bytes_of_string k) (tl (csegs [] ms))"
    using csegs_head [OF ms] key_not [OF k] by (metis insert_iff qfind_skip)
  then have find: "qfind (bytes_of_string k) (tl (csegs [] ms)) =
      map_option (\<lambda>(v, ms'). case v of CStr s \<Rightarrow> [0x3A] # s # csegs [] ms' | CRaw t \<Rightarrow> csegs (0x3A # t) ms') (after k ms)"
    using qfind_csegs [OF k other] by simp
  have raw: "qjoin (csegs (0x3A # t) ms') = 0x3A # t @ obj_tail ms'" for t ms' by (simp add: obj_tail_def qjoin_csegs)
  have skip: "dropWhile json_skip (0x3A # val_text v @ obj_tail ms') = val_text v @ obj_tail ms'" if "plain_val v" for v ms'
    using that by (cases v) (auto simp: json_skip_def quoted_def neq_Nil_conv)
  have after: "plain_val v" if "after k ms = Some (v, ms')" for v ms'
    using that searchable_ok [OF assms] by (induction k ms rule: after.induct) (auto split: if_splits)
  have "c_strstr (obj_text ms) (quoted (bytes_of_string k)) =
      map_option (\<lambda>(v, ms'). quoted (bytes_of_string k) @ 0x3A # val_text v @ obj_tail ms') (after k ms)"
    unfolding obj_text_qjoin [OF ms] c_strstr_qjoin [OF q free] find
    by (cases "after k ms") (auto simp: raw qjoin_Cons obj_tail_def quoted_def split: cval.split)
  then show ?thesis
    using skip after by (cases "after k ms") (auto simp: json_value_def c_str_obj [OF ms searchable_ok [OF assms]] pat)
qed

lemma json_body_plain: "plain v \<Longrightarrow> json_body (v @ 0x22 # r) = v"
  by (induction v) (auto simp: plain_def)

lemma json_find_string_found:
  assumes "searchable k ms" and "after k ms = Some (CStr v, ms')" and "plain v" and "length out = n" and "0 < n"
  shows "json_find_string (obj_text ms @ 0 # rest) k out n = Some (0, overwrite out 0 (take (n - 1) v @ [0]))"
proof -
  define w where "w = take (n - 1) v"
  have w: "length w < n" "length w \<le> length v" "take (length w) v = w" using assms(5) by (auto simp: w_def min_def)
  have "c_memcpy out 0 v 0 (length w) = Some (overwrite out 0 w)" using w assms(4) by (simp add: c_memcpy_eq)
  moreover have "c_set (overwrite out 0 w) (length w) 0 = Some (overwrite out 0 (w @ [0]))"
    using w(1) assms(4) overwrite_append [of 0 w "[0]" out] by (simp add: c_set_def overwrite_step)
  moreover have "(if n \<le> length v then n - 1 else length v) = length w" using assms(5) by (simp add: w_def)
  ultimately show ?thesis
    using json_value_obj [OF assms(1), of rest] assms(2,3)
    unfolding w_def [symmetric] by (simp add: json_find_string_def quoted_def json_body_plain)
qed

lemma json_find_string_array:
  assumes "searchable k ms" and "after k ms = Some (CStr v, ms')" and "plain v" and "length v < n"
  shows "json_find_string (obj_text ms @ 0 # rest) k (replicate n 0) n = Some (0, c_array n v)"
proof -
  have "replicate (n - length v) (0 :: byte) = 0 # replicate (n - Suc (length v)) 0"
    using assms(4) by (simp flip: replicate_Suc add: Suc_diff_Suc)
  then show ?thesis using json_find_string_found [OF assms(1-3), of "replicate n 0" n rest] assms(4) by (simp add: overwrite_def c_array_def)
qed

lemma json_find_string_absent:
  assumes "searchable k ms" and "after k ms = None" and "0 < n"
  shows "json_find_string (obj_text ms @ 0 # rest) k (replicate n 0) n = Some (- 1, c_array n [])"
  using json_value_obj [OF assms(1), of rest] assms(2,3)
  by (cases n) (simp_all add: json_find_string_def c_set_def c_array_def)

lemma digits_nat_itoa [simp]: "digits_nat (itoa n) = n"
proof -
  have "parse_digits acc ds = Some m \<Longrightarrow> foldl (\<lambda>acc b. 10 * acc + (unat b - 0x30)) acc ds = m" for acc ds m
    by (induction acc ds rule: parse_digits.induct) (auto split: if_splits)
  from this [of 0 "itoa n" n] show ?thesis by (simp add: digits_nat_def)
qed

lemma takeWhile_digits:
  assumes "c \<in> {0x2C, 0x7D}"
  shows "takeWhile is_digit (itoa n @ c # s) = itoa n"
proof -
  have "\<not> is_digit c" using assms by (auto simp: is_digit_def)
  then show ?thesis using itoa_digits [of n] by (simp add: takeWhile_append2 list_all_iff)
qed

lemma itoa_digit_head: "\<exists>c s. itoa n = c # s \<and> is_digit c"
  using itoa_digits [of n] by (cases "itoa n") auto

lemma digit_simps: "is_digit c \<Longrightarrow> \<not> c_isspace c \<and> c \<notin> {0x2B, 0x2D} \<and> c \<noteq> 0x22 \<and> \<not> json_skip c"
  by (auto simp: is_digit_def c_isspace_def json_skip_def)

lemma c_strtoull_itoa:
  assumes "n < 2 ^ 64" and "c \<in> {0x2C, 0x7D}"
  shows "c_strtoull (itoa n @ c # s) = of_nat n"
proof -
  obtain d t where t: "itoa n = d # t" "is_digit d" using itoa_digit_head by blast
  have "dropWhile c_isspace (itoa n @ c # s) = itoa n @ c # s" using t digit_simps by simp
  moreover have "(case itoa n @ c # s of [] \<Rightarrow> 0 | c # _ \<Rightarrow> if c \<in> {0x2B, 0x2D} then c else 0) = 0" using t digit_simps by simp
  ultimately show ?thesis using assms takeWhile_digits [OF assms(2)] by (simp add: c_strtoull_def Let_def)
qed

lemma json_find_uint64_found:
  assumes "searchable k ms" and "after k ms = Some (CRaw (itoa n), ms')" and "n < 2 ^ 64"
  shows "json_find_uint64 (obj_text ms @ 0 # rest) k = Some (0, of_nat n)"
proof -
  obtain d t where t: "itoa n = d # t" "is_digit d" using itoa_digit_head by blast
  obtain c s where c: "obj_tail ms' = c # s" "c \<in> {0x2C, 0x7D}" using obj_tail_head by blast
  show ?thesis
    using json_value_obj [OF assms(1), of rest] assms(2) t digit_simps [OF t(2)] c_strtoull_itoa [OF assms(3) c(2), of s]
    by (simp add: json_find_uint64_def c)
qed

lemma json_find_int_found:
  assumes "searchable k ms" and "after k ms = Some (CRaw (itoa n), ms')" and "n < 2 ^ 64"
  shows "json_find_int (obj_text ms @ 0 # rest) k = Some (0, of_nat n)"
  using json_find_uint64_found [OF assms] using assms(3) by (simp add: json_find_int_def unsigned_of_nat take_bit_nat_eq_self)

lemmas json_found = json_find_string_array json_find_uint64_found json_find_int_found

section \<open>Headers\<close>

text \<open>The C header that stands for a header of the Go package, without its route, which no C function reads or writes.\<close>

definition c_header :: "Header \<Rightarrow> eipc_header_t" where
  "c_header h = \<lparr>ch_service_id = c_array EIPC_SERVICE_ID_MAX (bytes_of_string (hd_ServiceID h)),
     ch_session_id = c_array EIPC_SESSION_ID_MAX (bytes_of_string (hd_SessionID h)),
     ch_request_id = c_array EIPC_REQUEST_ID_MAX (bytes_of_string (hd_RequestID h)), ch_sequence = hd_Sequence h,
     ch_timestamp = c_array EIPC_TIMESTAMP_MAX (bytes_of_string (hd_Timestamp h)), ch_priority = hd_Priority h,
     ch_capability = c_array EIPC_CAPABILITY_MAX (bytes_of_string (hd_Capability h)), ch_route = c_array EIPC_ROUTE_MAX [],
     ch_payload_format = hd_PayloadFormat h\<rparr>"

definition header_keys :: "string list" where
  "header_keys = [''service_id'', ''session_id'', ''request_id'', ''sequence'', ''timestamp'', ''priority'', ''capability'', ''payload_format'']"

definition c_text :: "nat \<Rightarrow> string \<Rightarrow> bool" where
  "c_text n s \<longleftrightarrow> plain (bytes_of_string s) \<and> length s < n \<and> s \<notin> set header_keys"

text \<open>Headers whose strings fit into the arrays, need no escape and are not themselves one of the keys.\<close>

definition c_header_ok :: "Header \<Rightarrow> bool" where
  "c_header_ok h \<longleftrightarrow> c_text EIPC_SERVICE_ID_MAX (hd_ServiceID h) \<and> c_text EIPC_SESSION_ID_MAX (hd_SessionID h)
     \<and> c_text EIPC_REQUEST_ID_MAX (hd_RequestID h) \<and> c_text EIPC_TIMESTAMP_MAX (hd_Timestamp h) \<and> c_text EIPC_CAPABILITY_MAX (hd_Capability h)"

text \<open>The members the C writer prints, and the members of a Go struct as the C reader sees them.\<close>

definition c_members :: "Header \<Rightarrow> (string \<times> fval) list" where
  "c_members h =
     [(''service_id'', FStr (hd_ServiceID h)), (''session_id'', FStr (hd_SessionID h)), (''request_id'', FStr (hd_RequestID h)),
      (''sequence'', FNum (unat (hd_Sequence h))), (''timestamp'', FStr (hd_Timestamp h)), (''priority'', FNum (unat (hd_Priority h))),
      (''capability'', FStr (hd_Capability h)), (''payload_format'', FNum (unat (hd_PayloadFormat h)))]"

fun cval_of :: "fval \<Rightarrow> cval" where
  "cval_of (FStr s) = CStr (bytes_of_string s)"
| "cval_of (FNum n) = CRaw (itoa n)"
| "cval_of (FLit l) = CRaw l"
| "cval_of (FStrs ss) = CRaw (json_array (map (\<lambda>s. json_string (bytes_of_string s)) ss))"

abbreviation cvals :: "(string \<times> fval) list \<Rightarrow> (string \<times> cval) list" where
  "cvals ms \<equiv> map (\<lambda>(k, v). (k, cval_of v)) ms"

lemmas c_limits = EIPC_SERVICE_ID_MAX_def EIPC_SESSION_ID_MAX_def EIPC_REQUEST_ID_MAX_def EIPC_CAPABILITY_MAX_def EIPC_TIMESTAMP_MAX_def
  EIPC_INTENT_MAX_def EIPC_TOOL_NAME_MAX_def EIPC_KV_KEY_MAX_def EIPC_KV_VALUE_MAX_def EIPC_ROUTE_MAX_def EIPC_MAX_ARGS_def

lemma plain_itoa: "plain_val (CRaw (itoa n))"
proof -
  have "\<forall>c \<in> set (itoa n). is_digit c" "itoa n \<noteq> []" using itoa_digits [of n] by (auto simp: list_all_iff)
  moreover have "is_digit c \<Longrightarrow> c \<notin> {0, 0x22, 0x5C} \<and> \<not> json_skip c" for c by (auto simp: is_digit_def json_skip_def)
  ultimately show ?thesis by (auto simp: plain_def list_all_iff)
qed

lemma header_keys_ok: "k \<in> set header_keys \<Longrightarrow> key_ok k"
  by (auto simp: header_keys_def key_ok_def bytes_of_string_def)

lemma c_header_text:
  "c_header_ok h \<Longrightarrow> eipc_header_to_json (c_header h) buf n len = print_to EIPC_ERR_BUFFER (obj_text (cvals (c_members h))) buf n len"
  by (simp add: eipc_header_to_json_def c_header_def c_header_ok_def c_text_def plain_def obj_text_def c_members_def)

lemma searchable_members:
  assumes "k \<in> set header_keys" and "ms \<noteq> []"
    and "list_all (\<lambda>(k', v). k' \<in> set header_keys \<and> (case v of FStr s \<Rightarrow> plain (bytes_of_string s) \<and> s \<notin> set header_keys | FNum n \<Rightarrow> True | _ \<Rightarrow> False)) ms"
  shows "searchable k (cvals ms)"
proof -
  have "key_ok k' \<and> plain_val (cval_of v) \<and> cval_of v \<noteq> CStr (bytes_of_string k)" if "(k', v) \<in> set ms" for k' v
  proof -
    have "k' \<in> set header_keys" and v: "case v of FStr s \<Rightarrow> plain (bytes_of_string s) \<and> s \<notin> set header_keys | FNum n \<Rightarrow> True | _ \<Rightarrow> False"
      using assms(3) that unfolding list_all_iff by blast+
    then show ?thesis using header_keys_ok [of k'] plain_itoa assms(1) by (cases v) auto
  qed
  then show ?thesis using assms(2) header_keys_ok [OF assms(1)] by (auto simp: searchable_def list_all_iff)
qed

lemma c_members_searchable: "c_header_ok h \<Longrightarrow> k \<in> set header_keys \<Longrightarrow> searchable k (cvals (c_members h))"
  by (rule searchable_members) (simp_all add: c_members_def c_header_ok_def c_text_def, simp add: header_keys_def)

lemma header_members_searchable:
  "c_header_ok h \<Longrightarrow> hd_Route h = [] \<Longrightarrow> k \<in> set header_keys \<Longrightarrow> searchable k (cvals (header_members h))"
  by (rule searchable_members) (simp_all add: header_members_def omitempty_def c_header_ok_def c_text_def, simp add: header_keys_def)

lemma byte_of_int [simp]: "ucast (ucast p :: 32 word) = (p :: byte)"
  by (rule bit_word_eqI) (simp add: bit_simps)

lemma header_from_obj:
  assumes ok: "c_header_ok h" and search: "\<And>k. k \<in> set header_keys \<Longrightarrow> searchable k ms"
    and after: "after ''service_id'' ms = Some (CStr (bytes_of_string (hd_ServiceID h)), m1)"
      "after ''session_id'' ms = Some (CStr (bytes_of_string (hd_SessionID h)), m2)"
      "after ''request_id'' ms = Some (CStr (bytes_of_string (hd_RequestID h)), m3)"
      "after ''sequence'' ms = Some (CRaw (itoa (unat (hd_Sequence h))), m4)"
      "after ''timestamp'' ms = Some (CStr (bytes_of_string (hd_Timestamp h)), m5)"
      "after ''priority'' ms = Some (CRaw (itoa (unat (hd_Priority h))), m6)"
      "after ''payload_format'' ms = Some (CRaw (itoa (unat (hd_PayloadFormat h))), m8)"
    and capability: "after ''capability'' ms = Some (CStr (bytes_of_string (hd_Capability h)), m7)
      \<or> after ''capability'' ms = None \<and> hd_Capability h = []"
  shows "eipc_header_from_json (obj_text ms @ 0 # rest) hdr = Some (EIPC_OK, c_header h)"
proof -
  have keys: "searchable ''service_id'' ms" "searchable ''session_id'' ms" "searchable ''request_id'' ms" "searchable ''sequence'' ms"
    "searchable ''timestamp'' ms" "searchable ''priority'' ms" "searchable ''payload_format'' ms" "searchable ''capability'' ms"
    using search by (simp_all add: header_keys_def)
  have n: "unat (hd_Sequence h) < 2 ^ 64" "unat (hd_Priority h) < 2 ^ 64" "unat (hd_PayloadFormat h) < 2 ^ 64"
    using unat_word_bounds(1) [of "hd_Sequence h"] unat_word_bounds(2) [of "hd_Priority h"] unat_word_bounds(2) [of "hd_PayloadFormat h"]
    by simp_all
  have cap: "\<exists>rc. json_find_string (obj_text ms @ 0 # rest) ''capability'' (replicate EIPC_CAPABILITY_MAX 0) EIPC_CAPABILITY_MAX =
      Some (rc, c_array EIPC_CAPABILITY_MAX (bytes_of_string (hd_Capability h)))"
    using capability ok keys(8) json_find_string_array [OF keys(8)] json_find_string_absent [OF keys(8)]
    by (auto simp: c_header_ok_def c_text_def c_limits bytes_of_string_def)
  note find = json_find_string_array [OF keys(1) after(1)] json_find_string_array [OF keys(2) after(2)] json_find_string_array [OF keys(3) after(3)]
    json_find_string_array [OF keys(5) after(5)] json_find_uint64_found [OF keys(4) after(4) n(1)] json_find_int_found [OF keys(6) after(6) n(2)]
    json_find_int_found [OF keys(7) after(7) n(3)]
  show ?thesis
    using ok cap by (auto simp: eipc_header_from_json_def zero_header_def find c_header_ok_def c_text_def c_header_def c_array_def [of _ "[]"])
qed

lemma header_from_c_text:
  "c_header_ok h \<Longrightarrow> eipc_header_from_json (obj_text (cvals (c_members h)) @ 0 # rest) hdr = Some (EIPC_OK, c_header h)"
  by (rule header_from_obj) (simp_all add: c_members_searchable, simp_all add: c_members_def)

lemma header_from_go_text:
  "c_header_ok h \<Longrightarrow> hd_Route h = [] \<Longrightarrow>
   eipc_header_from_json (obj_text (cvals (header_members h)) @ 0 # rest) hdr = Some (EIPC_OK, c_header h)"
  by (rule header_from_obj [where ?m7.0 = "[(''payload_format'', CRaw (itoa (unat (hd_PayloadFormat h))))]"])
    (simp_all add: header_members_searchable, simp_all add: header_members_def omitempty_def)

text \<open>Where no string needs an escape, the formatted text is the one of the Go package.\<close>

lemma quote_body_safe: "list_all html_safe s \<Longrightarrow> quote_body s = s"
  by (induction s) (auto simp: html_safe_def)

fun safe_val :: "fval \<Rightarrow> bool" where
  "safe_val (FStr s) = list_all html_safe (bytes_of_string s)"
| "safe_val _ = True"

lemma fmt_object_json:
  assumes "list_all (\<lambda>(k, v). list_all html_safe (bytes_of_string k) \<and> safe_val v) ms"
  shows "obj_text (cvals ms) = json_struct ms"
proof -
  have m: "fmt_member (k, val_text (cval_of v)) = json_string (bytes_of_string k) @ [0x3A] @ fval_text v"
    if "list_all html_safe (bytes_of_string k)" "safe_val v" for k v
    using that by (cases v) (simp_all add: fmt_member_def json_string_def quoted_def quote_body_safe)
  have "(case ms of [] \<Rightarrow> [] | m # ms \<Rightarrow> fmt_member m @ concat (map (\<lambda>m. 0x2C # fmt_member m) ms)) = json_members ms'"
    if "ms = map (\<lambda>(k, v). (k, val_text (cval_of v))) ns" "ms' = map (\<lambda>(k, v). (k, fval_text v)) ns"
      "list_all (\<lambda>(k, v). list_all html_safe (bytes_of_string k) \<and> safe_val v) ns" for ms ms' ns
    using that
  proof (induction ns arbitrary: ms ms')
    case (Cons n ns)
    then show ?case using m by (cases ns) (auto simp: fmt_member_def)
  qed simp
  from this [OF refl refl assms] show ?thesis
    by (simp add: obj_text_def fmt_object_def json_struct_def json_object_def comp_def split_def)
qed

lemma c_header_text_length:
  assumes "c_header_ok h"
  shows "length (obj_text (cvals (c_members h))) < EIPC_MAX_HEADER"
proof -
  have "unat (hd_Sequence h) < 10 ^ Suc 19" "unat (hd_Priority h) < 10 ^ Suc 2" "unat (hd_PayloadFormat h) < 10 ^ Suc 2"
    using unat_word_bounds(1) [of "hd_Sequence h"] unat_word_bounds(2) [of "hd_Priority h"] unat_word_bounds(2) [of "hd_PayloadFormat h"]
    by simp_all
  from this [THEN length_itoa] show ?thesis
    using assms by (simp add: c_members_def obj_text_def fmt_object_def fmt_member_def quoted_def c_header_ok_def c_text_def c_limits EIPC_MAX_HEADER_def)
qed

lemma print_to_fits:
  "length out_text < n \<Longrightarrow> n \<le> length buf \<Longrightarrow> print_to err out_text buf n len = Some (EIPC_OK, overwrite buf 0 (out_text @ [0]), length out_text)"
  by (simp add: print_to_def c_snprintf_eq)

lemma overwrite_front: "overwrite b 0 (s @ [0]) = s @ 0 # drop (length s + 1) b"
  by (simp add: overwrite_def)

lemma go_reads_c_text:
  assumes "list_all html_safe (bytes_of_string (hd_ServiceID h))" and "list_all html_safe (bytes_of_string (hd_SessionID h))"
    and "list_all html_safe (bytes_of_string (hd_RequestID h))" and "list_all html_safe (bytes_of_string (hd_Timestamp h))"
    and "list_all html_safe (bytes_of_string (hd_Capability h))" and "hd_Route h = []"
  shows "JSONCodec_Unmarshal (obj_text (cvals (c_members h))) = (None, h)"
proof -
  have clean: "clean s = s" if "list_all html_safe (bytes_of_string s)" for s
  proof -
    have "list_all (\<lambda>b. unat b < 0x80) (bytes_of_string s)" using that by (auto simp: list_all_iff html_safe_def)
    then show ?thesis by (simp add: clean_def sanitize_ascii)
  qed
  have "obj_text (cvals (c_members h)) = json_struct (c_members h)"
    using assms by (intro fmt_object_json) (simp add: c_members_def, simp add: bytes_of_string_def html_safe_def)
  moreover have "names_in (c_members h) header_fields" "list_all (fval_ok \<circ> snd) (c_members h)"
    by (simp_all add: struct_simps c_members_def header_fields_def)
  moreover have "put_fvals header_fields (c_members h) zeroHeader = (None, h)"
    using assms clean by (cases h) (simp add: c_members_def header_fields_def unat_word_bounds zeroHeader_def)
  ultimately show ?thesis by (simp add: JSONCodec_Unmarshal_def json_Unmarshal_struct)
qed

section \<open>Memory safety\<close>

text \<open>An array of a struct that holds a string.\<close>

definition c_field_ok :: "nat \<Rightarrow> bytes \<Rightarrow> bool" where
  "c_field_ok n b \<longleftrightarrow> length b = n \<and> 0 \<in> set b"

lemma c_field_str: "c_field_ok n b \<Longrightarrow> \<exists>s. c_str b = Some s \<and> length s < n"
  by (auto simp: c_field_ok_def c_str_def dest: c_str_length) (metis c_str_def c_str_length)

lemma json_find_string_total:
  assumes "0 \<in> set json" and "length out = n" and "0 < n"
  shows "\<exists>rc out'. json_find_string json k out n = Some (rc, out') \<and> c_field_ok n out'"
proof -
  obtain s where s: "c_str json = Some s" using assms(1) by (simp add: c_str_def)
  have fail: "\<exists>rc out'. (c_set out 0 0 \<bind> (\<lambda>out. Some (- 1, out))) = Some (rc :: int, out') \<and> c_field_ok n out'"
    using assms(2,3) by (auto simp: c_set_def c_field_ok_def set_update_memI)
  have found: "\<exists>rc out'. (let body = json_body x; len = (if length body \<ge> n then n - 1 else length body)
      in c_memcpy out 0 body 0 len \<bind> (\<lambda>out. c_set out len 0 \<bind> (\<lambda>out. Some (0, out)))) = Some (rc :: int, out') \<and> c_field_ok n out'" for x
    using assms(2,3) by (auto simp: Let_def c_memcpy_eq c_set_def c_field_ok_def set_update_memI)
  show ?thesis
    using fail found by (simp add: json_find_string_def json_value_def s split: option.split list.split)
qed

lemma json_find_uint64_total: "0 \<in> set json \<Longrightarrow> \<exists>rc v. json_find_uint64 json k = Some (rc, v)"
  by (auto simp: json_find_uint64_def json_value_def c_str_def split: option.split)

lemma json_find_int_total: "0 \<in> set json \<Longrightarrow> \<exists>rc v. json_find_int json k = Some (rc, v)"
  using json_find_uint64_total [of json k] by (auto simp: json_find_int_def)

text \<open>
  The type of a header: every array has its declared size and holds a string.
\<close>

definition c_header_typed :: "eipc_header_t \<Rightarrow> bool" where
  "c_header_typed h \<longleftrightarrow> c_field_ok EIPC_SERVICE_ID_MAX (ch_service_id h) \<and> c_field_ok EIPC_SESSION_ID_MAX (ch_session_id h)
     \<and> c_field_ok EIPC_REQUEST_ID_MAX (ch_request_id h) \<and> c_field_ok EIPC_TIMESTAMP_MAX (ch_timestamp h)
     \<and> c_field_ok EIPC_CAPABILITY_MAX (ch_capability h) \<and> c_field_ok EIPC_ROUTE_MAX (ch_route h)"

lemma eipc_header_from_json_total:
  assumes "0 \<in> set json"
  shows "\<exists>h. eipc_header_from_json json hdr = Some (EIPC_OK, h) \<and> c_header_typed h"
proof -
  have arr: "\<exists>rc out'. json_find_string json k (replicate n 0) n = Some (rc, out') \<and> c_field_ok n out'" if "0 < n" for k n
    using json_find_string_total [OF assms, of "replicate n 0"] that by simp
  note total = arr [of EIPC_SERVICE_ID_MAX "''service_id''"] arr [of EIPC_SESSION_ID_MAX "''session_id''"]
    arr [of EIPC_REQUEST_ID_MAX "''request_id''"] arr [of EIPC_TIMESTAMP_MAX "''timestamp''"] arr [of EIPC_CAPABILITY_MAX "''capability''"]
    json_find_uint64_total [OF assms, of "''sequence''"] json_find_int_total [OF assms, of "''priority''"]
    json_find_int_total [OF assms, of "''payload_format''"]
  have "c_field_ok EIPC_ROUTE_MAX (replicate EIPC_ROUTE_MAX 0)" by (simp add: c_field_ok_def c_limits)
  then show ?thesis
    using total by (auto simp: eipc_header_from_json_def zero_header_def c_header_typed_def c_limits)
qed

lemma eipc_header_from_json_None: "eipc_header_from_json json hdr = None \<longleftrightarrow> 0 \<notin> set json"
proof
  show "0 \<notin> set json \<Longrightarrow> eipc_header_from_json json hdr = None"
    by (simp add: eipc_header_from_json_def json_find_string_def json_value_def c_str_def)
qed (use eipc_header_from_json_total [of json hdr] in fastforce)

lemma print_to_total:
  "n \<le> length buf \<Longrightarrow> \<exists>st buf' len'. print_to err out_text buf n len = Some (st, buf', len') \<and> length buf' = length buf
     \<and> (st = EIPC_OK \<longrightarrow> len' < n \<and> buf' = overwrite buf 0 (out_text @ [0]) \<and> len' = length out_text \<or> err = EIPC_OK)"
proof -
  assume n: "n \<le> length buf"
  show ?thesis
  proof (cases "length out_text < n")
    case True
    then show ?thesis using n by (simp add: print_to_fits)
  next
    case False
    then show ?thesis using n c_snprintf_total [of 0 n buf out_text] by (auto simp: print_to_def)
  qed
qed

text \<open>\<open>json_escape\<close> writes the escapes of the longest prefix that fits, and never half of one.\<close>

definition escapes :: "bytes \<Rightarrow> bytes" where
  "escapes s = concat (map (\<lambda>c. case c_escape c of Some e \<Rightarrow> e | None \<Rightarrow> [c]) s)"

lemma escapes_simps [simp]: "escapes [] = []" "escapes (c # s) = (case c_escape c of Some e \<Rightarrow> e | None \<Rightarrow> [c]) @ escapes s"
  by (simp_all add: escapes_def)

lemma c_escape_length: "c_escape c = Some e \<Longrightarrow> length e = 2"
  by (auto simp: c_escape_def split: if_splits)

lemma escape_loop_eq:
  assumes "di < n" and "n \<le> length dst"
  shows "\<exists>p q. s = p @ q \<and> di + length (escapes p) < n
    \<and> escape_loop s n (dst, di) = Some (overwrite dst di (escapes p), di + length (escapes p))
    \<and> (di + length (escapes s) < n \<longrightarrow> q = [])"
  using assms
proof (induction s arbitrary: dst di)
  case (Cons c s)
  define e where "e = (case c_escape c of Some e \<Rightarrow> e | None \<Rightarrow> [c])"
  have loop: "escape_loop (c # s) n (dst, di) =
      (if di + length e < n then escape_loop s n (overwrite dst di e, di + length e) else Some (dst, di))"
  proof (cases "c_escape c")
    case None
    then show ?thesis using Cons.prems by (auto simp: e_def c_set_def overwrite_step)
  next
    case (Some e')
    then show ?thesis using Cons.prems c_escape_length [OF Some] by (auto simp: e_def c_puts_eq)
  qed
  show ?case
  proof (cases "di + length e < n")
    case True
    obtain p q where "s = p @ q" "di + length e + length (escapes p) < n"
      "escape_loop s n (overwrite dst di e, di + length e) =
         Some (overwrite (overwrite dst di e) (di + length e) (escapes p), di + length e + length (escapes p))"
      "di + length e + length (escapes s) < n \<longrightarrow> q = []"
      using Cons.IH [of "di + length e" "overwrite dst di e"] True Cons.prems by auto
    then show ?thesis
      using True loop Cons.prems overwrite_append [of di e "escapes p" dst]
      by (intro exI [of _ "c # p"] exI [of _ q]) (simp add: e_def [symmetric] add.assoc)
  next
    case False
    then show ?thesis using loop Cons.prems by (intro exI [of _ "[]"] exI [of _ "c # s"]) (simp add: e_def [symmetric])
  qed
qed simp

lemma escapes_zero_free: "0 \<notin> set s \<Longrightarrow> 0 \<notin> set (escapes s)"
  by (induction s) (auto simp: c_escape_def)

lemma json_escape_eq:
  assumes "c_str src = Some s" and "0 < n" and "n \<le> length dst"
  shows "\<exists>p q. s = p @ q \<and> length (escapes p) < n \<and> json_escape src dst n = Some (length (escapes p), overwrite dst 0 (escapes p @ [0]))
    \<and> c_str (overwrite dst 0 (escapes p @ [0])) = Some (escapes p) \<and> (length (escapes s) < n \<longrightarrow> q = [])"
proof -
  obtain p q where p: "s = p @ q" "length (escapes p) < n" "escape_loop s n (dst, 0) = Some (overwrite dst 0 (escapes p), length (escapes p))"
    "length (escapes s) < n \<longrightarrow> q = []"
    using escape_loop_eq [OF assms(2,3), of s] by auto
  have "0 \<notin> set (escapes p)" using c_str_length [OF assms(1)] p(1) escapes_zero_free by auto
  then have "c_str (overwrite dst 0 (escapes p @ [0])) = Some (escapes p)" by (simp add: overwrite_front c_str_terminated)
  moreover have "c_set (overwrite dst 0 (escapes p)) (length (escapes p)) 0 = Some (overwrite dst 0 (escapes p @ [0]))"
    using p(2) assms(3) overwrite_append [of 0 "escapes p" "[0]" dst] by (simp add: c_set_def overwrite_step)
  ultimately show ?thesis using p assms(1,2) by (auto simp: json_escape_def)
qed

section \<open>Tool requests\<close>

definition kv_typed :: "eipc_kv_t \<Rightarrow> bool" where
  "kv_typed a \<longleftrightarrow> c_field_ok EIPC_KV_KEY_MAX (kv_key a) \<and> c_field_ok EIPC_KV_VALUE_MAX (kv_value a)"

definition tool_request_typed :: "eipc_tool_request_t \<Rightarrow> bool" where
  "tool_request_typed r \<longleftrightarrow> c_field_ok EIPC_TOOL_NAME_MAX (tr_tool r) \<and> c_field_ok EIPC_CAPABILITY_MAX (tr_permission r)
     \<and> length (tr_args r) = EIPC_MAX_ARGS \<and> list_all kv_typed (tr_args r)"

text \<open>The string \<open>json_escape\<close> leaves in an array of \<open>n\<close> bytes, and the text of one argument.\<close>

definition escaped :: "nat \<Rightarrow> bytes \<Rightarrow> bytes" where
  "escaped n src = the (c_str (snd (the (json_escape src (replicate n 0) n))))"

definition kv_text :: "eipc_kv_t \<Rightarrow> bytes" where
  "kv_text a = quoted (escaped 128 (kv_key a)) @ [0x3A] @ quoted (escaped 256 (kv_value a))"

text \<open>The value of \<open>ai\<close> at the end of the loop; None is the early return.\<close>

fun args_end :: "nat \<Rightarrow> eipc_kv_t list \<Rightarrow> nat \<Rightarrow> nat option" where
  "args_end i [] ai = Some ai"
| "args_end i (a # args) ai =
     (let ai = (if i > 0 then ai + 1 else ai); written = length (kv_text a)
      in if written \<ge> 2048 - ai then None else args_end (i + 1) args (ai + written))"

lemma json_escape_total:
  assumes "0 \<in> set src" and "0 < n"
  shows "\<exists>di dst. json_escape src (replicate n 0) n = Some (di, dst) \<and> c_str dst = Some (escaped n src)"
proof -
  obtain s where "c_str src = Some s" using assms(1) by (simp add: c_str_def)
  from json_escape_eq [OF this assms(2), of "replicate n 0"] show ?thesis by (auto simp: escaped_def)
qed

lemma args_loop_eq:
  assumes "list_all kv_typed args" and "length buf = 2048" and "ai < 2048"
  shows "\<exists>buf'. length buf' = 2048 \<and> args_loop i args (buf, ai) = Some (map_option (\<lambda>e. (buf', e)) (args_end i args ai))
    \<and> (\<forall>e. args_end i args ai = Some e \<longrightarrow> e < 2048)"
  using assms
proof (induction args arbitrary: i buf ai)
  case (Cons a args)
  obtain buf1 where b1: "(if i > 0 then c_puts [0x2C] (buf, ai) else Some (buf, ai)) = Some (buf1, if i > 0 then ai + 1 else ai)" "length buf1 = 2048"
    using Cons.prems by (cases "i > 0") (auto simp: c_set_def)
  define ai1 where "ai1 = (if i > 0 then ai + 1 else ai)"
  have ai1: "ai1 \<le> 2048" using Cons.prems(3) by (simp add: ai1_def)
  have typed: "0 \<in> set (kv_key a)" "0 \<in> set (kv_value a)" "list_all kv_typed args"
    using Cons.prems(1) by (simp_all add: kv_typed_def [of a] c_field_ok_def)
  obtain d1 ek where ek: "json_escape (kv_key a) (replicate 128 0) 128 = Some (d1, ek)" "c_str ek = Some (escaped 128 (kv_key a))"
    using json_escape_total [OF typed(1), of 128] by auto
  obtain d2 ev where ev: "json_escape (kv_value a) (replicate 256 0) 256 = Some (d2, ev)" "c_str ev = Some (escaped 256 (kv_value a))"
    using json_escape_total [OF typed(2), of 256] by auto
  obtain buf2 where b2: "c_snprintf buf1 ai1 (2048 - ai1) (kv_text a) = Some (length (kv_text a), buf2)" "length buf2 = 2048"
    using c_snprintf_total [of ai1 "2048 - ai1" buf1 "kv_text a"] b1(2) ai1 by auto
  have step: "args_loop i (a # args) (buf, ai) =
      (if length (kv_text a) \<ge> 2048 - ai1 then Some None else args_loop (i + 1) args (buf2, ai1 + length (kv_text a)))"
    using b1 b2 ek ev by (simp add: kv_text_def ai1_def)
  show ?case
  proof (cases "length (kv_text a) \<ge> 2048 - ai1")
    case True
    then show ?thesis using step Cons.prems(2) by (auto simp: ai1_def [symmetric] Let_def)
  next
    case False
    then have "ai1 + length (kv_text a) < 2048" by simp
    from Cons.IH [OF typed(3) b2(2) this, of "i + 1"] show ?thesis using step False by (simp add: ai1_def [symmetric] Let_def)
  qed
qed auto

definition used_args :: "eipc_tool_request_t \<Rightarrow> eipc_kv_t list" where
  "used_args r = take (min (nat (sint (tr_arg_count r))) EIPC_MAX_ARGS) (tr_args r)"

lemma escaped_plain:
  assumes "list_all (\<lambda>c. c \<notin> {0, 0x22, 0x5C, 0x0A, 0x0D, 0x09}) s" and "length s < m" and "length s < n"
  shows "escaped n (c_array m s) = s"
proof -
  have z: "0 \<notin> set s" and e: "escapes s = s" using assms(1) by (induction s) (auto simp: c_escape_def)
  obtain p q where "s = p @ q" "json_escape (c_array m s) (replicate n 0) n = Some (length (escapes p), overwrite (replicate n 0) 0 (escapes p @ [0]))"
    "c_str (overwrite (replicate n 0) 0 (escapes p @ [0])) = Some (escapes p)" "length (escapes s) < n \<longrightarrow> q = []"
    using json_escape_eq [OF c_str_array [OF z assms(2)], of n "replicate n 0"] assms(3) by auto
  then show ?thesis using e assms(3) by (simp add: escaped_def)
qed

section \<open>Properties\<close>

definition example_header :: Header where
  "example_header = \<lparr>hd_ServiceID = ''nia.min'', hd_SessionID = ''s1'', hd_RequestID = ''req-1'', hd_Sequence = 7,
     hd_Timestamp = ''1700000000'', hd_Priority = 1, hd_Capability = ''ui:control'', hd_Route = [], hd_PayloadFormat = 0\<rparr>"

definition html_safe_header :: "Header \<Rightarrow> bool" where
  "html_safe_header h \<longleftrightarrow> list_all (\<lambda>s. list_all html_safe (bytes_of_string s))
     [hd_ServiceID h, hd_SessionID h, hd_RequestID h, hd_Timestamp h, hd_Capability h]"

text \<open>
  The two header codecs understand each other: a header without a route, whose strings fit into the arrays of the C struct, need no
  escape and are not the name of a member, is written by the C SDK into any buffer of the size of a header as a text that both
  the Go package and the C SDK read back as this header; and the text the Go package writes for it is read back by the C SDK.
\<close>

theorem c_header_interop:
  assumes "c_header_ok h" and "html_safe_header h" and "hd_Route h = []" and "length buf = EIPC_MAX_HEADER"
  shows "\<exists>t rest. eipc_header_to_json (c_header h) buf EIPC_MAX_HEADER len = Some (EIPC_OK, t @ 0 # rest, length t)
      \<and> JSONCodec_Unmarshal t = (None, h) \<and> eipc_header_from_json (t @ 0 # rest) hdr = Some (EIPC_OK, c_header h)
    \<and> (\<exists>data. JSONCodec_Marshal h = Inr data \<and> eipc_header_from_json (data @ 0 # data_rest) hdr = Some (EIPC_OK, c_header h))"
proof -
  let ?t = "obj_text (cvals (c_members h))"
  have "eipc_header_to_json (c_header h) buf EIPC_MAX_HEADER len = Some (EIPC_OK, ?t @ 0 # drop (length ?t + 1) buf, length ?t)"
    using c_header_text_length [OF assms(1)] assms(4) by (simp add: c_header_text [OF assms(1)] print_to_fits overwrite_front)
  moreover have "JSONCodec_Unmarshal ?t = (None, h)"
    using assms(2,3) go_reads_c_text by (simp add: html_safe_header_def)
  moreover have "JSONCodec_Marshal h = Inr (obj_text (cvals (header_members h)))"
  proof -
    have "list_all (\<lambda>(k, v). list_all html_safe (bytes_of_string k) \<and> safe_val v) (header_members h)"
      using assms(2,3) by (simp add: header_members_def omitempty_def html_safe_header_def, simp add: bytes_of_string_def html_safe_def)
    then show ?thesis by (simp add: JSONCodec_Marshal_def json_Marshal_def fmt_object_json)
  qed
  ultimately show ?thesis
    using header_from_c_text [OF assms(1)] header_from_go_text [OF assms(1,3)] by blast
qed

theorem c_header_interop_witness:
  "\<exists>t rest. eipc_header_to_json (c_header example_header) (replicate EIPC_MAX_HEADER 0) EIPC_MAX_HEADER 0 = Some (EIPC_OK, t @ 0 # rest, length t)
      \<and> JSONCodec_Unmarshal t = (None, example_header)"
proof -
  have "c_header_ok example_header" "html_safe_header example_header" "hd_Route example_header = []"
    by (simp_all add: example_header_def c_header_ok_def html_safe_header_def c_text_def c_limits header_keys_def plain_def html_safe_def bytes_of_string_def)
  from c_header_interop [OF this, of "replicate EIPC_MAX_HEADER 0" 0 zero_header "[]"] show ?thesis by auto
qed

text \<open>
  C21: Types are preserved when a header is read, and reading never goes astray: from any memory that holds a string, whatever it says, the
  result is a header whose arrays have their declared sizes and hold strings. Without a zero byte in the memory the readers run over
  its end.
\<close>

theorem c_header_read_typed:
  "(case eipc_header_from_json json hdr of None \<Rightarrow> 0 \<notin> set json | Some (st, h) \<Rightarrow> 0 \<in> set json \<and> st = EIPC_OK \<and> c_header_typed h)"
  using eipc_header_from_json_total [of json hdr] eipc_header_from_json_None [of json hdr]
  by (cases "eipc_header_from_json json hdr") auto

text \<open>The requests that end the argument list exactly at the last byte of the buffer.\<close>

definition full_request :: eipc_tool_request_t where
  "full_request = \<lparr>tr_tool = c_array EIPC_TOOL_NAME_MAX [], tr_args =
       replicate 6 \<lparr>kv_key = c_array EIPC_KV_KEY_MAX (replicate 32 0x61), kv_value = c_array EIPC_KV_VALUE_MAX (replicate 254 0x61)\<rparr>
       @ [\<lparr>kv_key = c_array EIPC_KV_KEY_MAX (replicate 35 0x61), kv_value = c_array EIPC_KV_VALUE_MAX (replicate 254 0x61)\<rparr>]
       @ replicate 9 \<lparr>kv_key = c_array EIPC_KV_KEY_MAX [], kv_value = c_array EIPC_KV_VALUE_MAX []\<rparr>,
     tr_arg_count = 7, tr_permission = c_array EIPC_CAPABILITY_MAX [], tr_audit_id = c_array EIPC_REQUEST_ID_MAX []\<rparr>"

text \<open>
  C22: Writing a tool request is memory safe except in one case: the writer of the C SDK leaves its buffers exactly when the arguments fill the
  buffer up to its last byte, for then the terminating zero is stored behind the end of the array on the stack.
\<close>

theorem c_tool_request_overflow:
  assumes "tool_request_typed r" and "n \<le> length buf"
  shows "eipc_tool_request_to_json r buf n len = None \<longleftrightarrow> args_end 0 (used_args r) 1 = Some 2047"
proof -
  have "list_all kv_typed (used_args r)" using assms(1) by (auto simp: tool_request_typed_def used_args_def list_all_iff dest: in_set_takeD)
  from args_loop_eq [OF this, of "overwrite (replicate 2048 0) 0 [0x7B]" 1 0]
  obtain b where b: "length b = 2048" "args_loop 0 (used_args r) (overwrite (replicate 2048 0) 0 [0x7B], 1) =
      Some (map_option (\<lambda>e. (b, e)) (args_end 0 (used_args r) 1))" "\<And>e. args_end 0 (used_args r) 1 = Some e \<Longrightarrow> e < 2048"
    by auto
  have start: "c_puts [0x7B] (replicate 2048 0, 0) = Some (overwrite (replicate 2048 0) 0 [0x7B], 1)" by (simp add: c_set_def overwrite_step)
  obtain tool perm where str: "c_str (tr_tool r) = Some tool" "c_str (tr_permission r) = Some perm"
    using assms(1) c_field_str unfolding tool_request_typed_def by blast
  have print: "print_to err t buf n len \<noteq> None" for err t using print_to_total [OF assms(2), of err t len] by auto
  show ?thesis
  proof (cases "args_end 0 (used_args r) 1")
    case None
    then show ?thesis using start b by (simp add: eipc_tool_request_to_json_def used_args_def)
  next
    case (Some e)
    show ?thesis
    proof (cases "e = 2047")
      case True
      then show ?thesis using start b Some by (simp add: eipc_tool_request_to_json_def used_args_def c_set_def)
    next
      case False
      then have "e < 2047" using b(3) Some by fastforce
      then have puts: "c_puts [0x7D, 0] (b, e) = Some (overwrite b e [0x7D, 0], e + 2)" using b(1) by (simp add: c_puts_eq del: c_puts.simps)
      have "0 \<in> set (overwrite b e [0x7D, 0])" by (simp add: overwrite_def)
      then obtain a where "c_str (overwrite b e [0x7D, 0]) = Some a" by (simp add: c_str_def)
      then show ?thesis using start b Some False puts str print by (simp add: eipc_tool_request_to_json_def used_args_def del: c_puts.simps)
    qed
  qed
qed

theorem c_tool_request_overflow_witness:
  "tool_request_typed full_request \<and> eipc_tool_request_to_json full_request (replicate 4096 0) 4096 0 = None"
proof -
  have zero: "c_field_ok m (c_array m s)" if "length s < m" for m s
    using that by (simp add: c_field_ok_def c_array_def)
  then have typed: "tool_request_typed full_request"
    by (auto simp: tool_request_typed_def full_request_def kv_typed_def list_all_iff c_limits)
  have len: "length (kv_text \<lparr>kv_key = c_array 64 (replicate k 0x61), kv_value = c_array 256 (replicate 254 0x61)\<rparr>) = k + 259" if "k < 64" for k
    using that escaped_plain [of "replicate k 0x61" 64 128] escaped_plain [of "replicate 254 0x61" 256 256]
    by (simp add: kv_text_def quoted_def list_all_iff)
  have six: "replicate 6 x = [x, x, x, x, x, x]" for x :: eipc_kv_t by (simp add: numeral_eq_Suc)
  have "args_end 0 (used_args full_request) 1 = Some 2047"
    by (simp add: used_args_def full_request_def c_limits six len)
  then show ?thesis using typed c_tool_request_overflow [OF typed, of 4096 "replicate 4096 0" 0] by simp
qed

text \<open>
  A string that is the name of a member is taken for the member: the session of a service called \<open>session_id\<close> is lost.
\<close>

lemma header_key_confusion:
  assumes "c_header_ok h"
  shows "json_find_string (obj_text (cvals (c_members (h\<lparr>hd_ServiceID := ''session_id''\<rparr>))) @ 0 # rest) ''session_id''
    (replicate EIPC_SESSION_ID_MAX 0) EIPC_SESSION_ID_MAX = Some (- 1, c_array EIPC_SESSION_ID_MAX [])"
proof -
  let ?ms = "cvals (c_members (h\<lparr>hd_ServiceID := ''session_id''\<rparr>))" and ?k = "bytes_of_string ''session_id''"
  have k: "key_ok ''session_id''" by (simp add: header_keys_ok header_keys_def)
  then have "plain ?k" "0x22 \<notin> set ?k" using key_chars unfolding plain_def by blast+
  moreover have "\<forall>k \<in> fst ` set ?ms. key_ok k" by (auto simp: c_members_def intro!: header_keys_ok) (simp_all add: header_keys_def)
  ultimately have ok: "list_all (\<lambda>(k, v). key_ok k \<and> plain_val v) ?ms"
    using assms plain_itoa by (auto simp: c_members_def c_header_ok_def c_text_def)
  have ms: "?ms \<noteq> []" by (simp add: c_members_def)
  have free: "\<forall>x \<in> set ([0x7B] # tl (csegs [] ?ms)). 0x22 \<notin> set x"
    using csegs_quote_free [OF _ ok, of "[]"] by (cases "csegs [] ?ms") auto
  obtain r where "qfind ?k (tl (csegs [] ?ms)) = Some ([0x2C] # r)"
    using key_not [OF k, of "0x3A" "[]"] by (simp add: c_members_def bytes_of_string_def)
  then have "c_strstr (obj_text ?ms) (quoted ?k) = Some (quoted ?k @ qjoin ([0x2C] # r))"
    unfolding obj_text_qjoin [OF ms] c_strstr_qjoin [OF \<open>0x22 \<notin> set ?k\<close> free] by simp
  moreover have "json_pattern ?k = quoted ?k" by (simp add: json_pattern_def quoted_def)
  moreover have "\<exists>s. qjoin ([0x2C] # r) = 0x2C # s" by (cases r) auto
  ultimately have "\<exists>s. json_value (obj_text ?ms @ 0 # rest) ?k = Some (Some (0x2C # s))"
    using c_str_obj [OF ms ok] by (auto simp: json_value_def json_skip_def)
  moreover have "(replicate n 0)[0 := 0] = replicate n (0 :: byte)" for n by (cases n) simp_all
  ultimately show ?thesis by (auto simp: json_find_string_def c_set_def c_array_def EIPC_SESSION_ID_MAX_def)
qed

end
