(* ===== verification/Floats.thy ===== *)
theory Floats
  imports Prelude
begin

text \<open>
  Binary floating point, as far as the programs convert to and from it: a finite number is \<open>\<plusminus> m * 2 ^ e\<close>, and a conversion rounds
  the exact value to the nearest number of the format, ties to even. A format is its precision in bits, the least exponent of its unit
  and the power of two its numbers stay below.
\<close>

datatype float = Fin bool nat int | Inf bool | NaN

record format =
  fm_prec :: nat
  fm_emin :: int
  fm_emax :: nat

definition binary64 :: format where "binary64 = \<lparr>fm_prec = 53, fm_emin = - 1074, fm_emax = 1024\<rparr>"
definition binary32 :: format where "binary32 = \<lparr>fm_prec = 24, fm_emin = - 149, fm_emax = 128\<rparr>"

section \<open>Rounding\<close>

text \<open>The quotient rounded to the nearest integer, ties to even.\<close>

definition div_even :: "nat \<Rightarrow> nat \<Rightarrow> nat" where
  "div_even a b = (let q = a div b; r = a mod b in if 2 * r < b \<or> 2 * r = b \<and> even q then q else q + 1)"

fun bit_length :: "nat \<Rightarrow> nat" where
  "bit_length n = (if n = 0 then 0 else bit_length (n div 2) + 1)"

declare bit_length.simps [simp del]

text \<open>The exponent of the largest power of two that is at most \<open>num / den\<close>.\<close>

definition floor_log2 :: "nat \<Rightarrow> nat \<Rightarrow> int" where
  "floor_log2 num den =
     (let k = int (bit_length num) - int (bit_length den)
      in if num * 2 ^ nat (- k) \<ge> den * 2 ^ nat k then k else k - 1)"

definition round_frac :: "format \<Rightarrow> bool \<Rightarrow> nat \<Rightarrow> nat \<Rightarrow> float" where
  "round_frac fm neg num den =
     (if num = 0 then Fin neg 0 0
      else let e = max (fm_emin fm) (floor_log2 num den - int (fm_prec fm) + 1);
               q = div_even (num * 2 ^ nat (- e)) (den * 2 ^ nat e)
           in if q * 2 ^ nat e \<ge> 2 ^ fm_emax fm * 2 ^ nat (- e) then Inf neg else Fin neg q e)"

definition round_exp :: "format \<Rightarrow> bool \<Rightarrow> nat \<Rightarrow> int \<Rightarrow> float" where
  "round_exp fm neg m e = round_frac fm neg (m * 2 ^ nat e) (2 ^ nat (- e))"

section \<open>Lemmas\<close>

lemma div_even_exact [simp]: "0 < b \<Longrightarrow> div_even (a * b) b = a"
  by (simp add: div_even_def)

lemma bit_length_bounds: "0 < n \<Longrightarrow> 2 ^ (bit_length n - 1) \<le> n \<and> n < 2 ^ bit_length n \<and> 0 < bit_length n"
proof (induction n rule: bit_length.induct)
  case (1 n)
  show ?case
  proof (cases "n div 2 = 0")
    case True
    then have "n = 1" using 1 by simp
    then show ?thesis by (simp add: bit_length.simps)
  next
    case False
    then have *: "2 ^ (bit_length (n div 2) - 1) \<le> n div 2 \<and> n div 2 < 2 ^ bit_length (n div 2) \<and> 0 < bit_length (n div 2)" using 1 by simp
    obtain k where k: "bit_length (n div 2) = Suc k" using * gr0_implies_Suc by blast
    have "bit_length n = Suc (Suc k)" using 1(2) k by (subst bit_length.simps) simp
    moreover have "2 ^ k \<le> n div 2" "n div 2 < 2 * 2 ^ k" using * k by simp_all
    then have "2 ^ Suc k \<le> n" "n < 2 ^ Suc (Suc k)" unfolding power_Suc by linarith+
    ultimately show ?thesis by simp
  qed
qed

lemma bit_length_unique: "2 ^ k \<le> n \<Longrightarrow> n < 2 ^ Suc k \<Longrightarrow> bit_length n = Suc k"
proof -
  assume n: "2 ^ k \<le> n" "n < 2 ^ Suc k"
  then have "0 < n" by (metis gr0I le_zero_eq power_not_zero zero_neq_numeral)
  note b = bit_length_bounds [OF this]
  have "(2 :: nat) ^ k < 2 ^ bit_length n" using n(1) b by linarith
  then have "k < bit_length n" by (rule power_less_imp_less_exp [rotated]) simp
  moreover have "(2 :: nat) ^ (bit_length n - 1) < 2 ^ Suc k" using n(2) b by linarith
  then have "bit_length n - 1 < Suc k" by (rule power_less_imp_less_exp [rotated]) simp
  ultimately show ?thesis by simp
qed

lemma bit_length_power [simp]: "bit_length (2 ^ k) = Suc k"
  by (rule bit_length_unique) simp_all

end
