(* ===== verification/CFloat.thy ===== *)
theory CFloat
  imports CJson Floats
begin

text \<open>
  The part of \<^verbatim>\<open>sdk/c/src/eipc_json.c\<close> that deals with the confidence of an intent, a \<open>float\<close>: it is printed with
  \<open>%.2f\<close> and read with \<open>strtod\<close>. Both are modelled exactly, over the rounding of theory Floats.
\<close>

section \<open>Printing and reading numbers\<close>

text \<open>The conversion \<open>%.2f\<close>: the exact value rounded to two decimals, ties to even.\<close>

definition hundredths :: "nat \<Rightarrow> int \<Rightarrow> nat" where
  "hundredths m e = div_even (m * 100 * 2 ^ nat e) (2 ^ nat (- e))"

definition fmt_cents :: "bool \<Rightarrow> nat \<Rightarrow> bytes" where
  "fmt_cents neg h = (if neg then [0x2D] else []) @ itoa (h div 100) @ [0x2E, of_nat (0x30 + h mod 100 div 10), of_nat (0x30 + h mod 10)]"

fun fmt_f2 :: "float \<Rightarrow> bytes" where
  "fmt_f2 (Fin neg m e) = fmt_cents neg (hundredths m e)"
| "fmt_f2 (Inf neg) = (if neg then [0x2D] else []) @ [0x69, 0x6E, 0x66]"
| "fmt_f2 NaN = [0x6E, 0x61, 0x6E]"

definition to_lower :: "byte \<Rightarrow> byte" where
  "to_lower c = (if 0x41 \<le> c \<and> c \<le> 0x5A then c + 0x20 else c)"

text \<open>A decimal exponent behind the letter, if digits follow.\<close>

definition read_exponent :: "byte \<Rightarrow> bytes \<Rightarrow> int" where
  "read_exponent letter s =
     (case s of
       [] \<Rightarrow> 0
     | c # t \<Rightarrow>
        if to_lower c = letter
        then (case t of
               [] \<Rightarrow> 0
             | d # u \<Rightarrow> let ds = takeWhile is_digit (if d = 0x2B \<or> d = 0x2D then u else t) in if d = 0x2D then - int (digits_nat ds) else int (digits_nat ds))
        else 0)"

definition hex_nat :: "bytes \<Rightarrow> nat" where
  "hex_nat ds = foldl (\<lambda>acc b. 16 * acc + the (hex_val (char_of (unat b)))) 0 ds"

text \<open>The digits before and behind the point, and the rest.\<close>

definition read_digits :: "(byte \<Rightarrow> bool) \<Rightarrow> bytes \<Rightarrow> bytes \<times> bytes \<times> bytes" where
  "read_digits isd s =
     (let i = takeWhile isd s; r = dropWhile isd s
      in case r of c # t \<Rightarrow> if c = 0x2E then (i, takeWhile isd t, dropWhile isd t) else (i, [], r) | [] \<Rightarrow> (i, [], []))"

text \<open>\<open>strtod(s, NULL)\<close>; without a number at the start of the text the result is zero.\<close>

definition c_strtod :: "bytes \<Rightarrow> float" where
  "c_strtod s =
     (let s1 = dropWhile c_isspace s;
          neg = (case s1 of [] \<Rightarrow> False | c # _ \<Rightarrow> c = 0x2D);
          s2 = (case s1 of [] \<Rightarrow> [] | c # t \<Rightarrow> if c = 0x2B \<or> c = 0x2D then t else s1);
          word = map to_lower (take 3 s2)
      in if word = [0x69, 0x6E, 0x66] then Inf neg
         else if word = [0x6E, 0x61, 0x6E] then NaN
         else case read_digits is_hex (drop 2 s2) of (i, f, x) \<Rightarrow>
           if take 2 word = [0x30, 0x78] \<and> i @ f \<noteq> []
           then round_exp binary64 neg (hex_nat (i @ f)) (read_exponent 0x70 x - 4 * int (length f))
           else case read_digits is_digit s2 of (i, f, x) \<Rightarrow>
             if i @ f = [] then Fin False 0 0
             else (let k = read_exponent 0x65 x - int (length f)
                   in round_frac binary64 neg (digits_nat (i @ f) * 10 ^ nat k) (10 ^ nat (- k))))"

text \<open>The conversion to \<open>float\<close>.\<close>

fun to_binary32 :: "float \<Rightarrow> float" where
  "to_binary32 (Fin neg m e) = round_exp binary32 neg m e"
| "to_binary32 x = x"

definition json_find_float :: "bytes \<Rightarrow> string \<Rightarrow> (int \<times> float) option" where
  "json_find_float json key =
     do { r \<leftarrow> json_value json (bytes_of_string key);
          case r of
            None \<Rightarrow> Some (- 1, Fin False 0 0)
          | Some start \<Rightarrow> Some (0, to_binary32 (c_strtod (case start of [] \<Rightarrow> [] | c # s \<Rightarrow> if c = 0x22 then s else start))) }"

section \<open>Intents\<close>

record eipc_intent_t =
  ci_intent :: bytes
  ci_confidence :: float
  ci_session_id :: bytes

definition eipc_intent_to_json :: "eipc_intent_t \<Rightarrow> bytes \<Rightarrow> nat \<Rightarrow> nat \<Rightarrow> (eipc_status_t \<times> bytes \<times> nat) option" where
  "eipc_intent_to_json intent buf buf_size out_len =
     do { (_, escaped_intent) \<leftarrow> json_escape (ci_intent intent) (replicate 256 0) 256;
          (_, escaped_session) \<leftarrow> json_escape (ci_session_id intent) (replicate 128 0) 128;
          i \<leftarrow> c_str escaped_intent;
          s \<leftarrow> c_str escaped_session;
          print_to EIPC_ERR_BUFFER
            (fmt_object [(''intent'', quoted i), (''confidence'', fmt_f2 (ci_confidence intent)), (''session_id'', quoted s)]) buf buf_size out_len }"

definition eipc_intent_from_json :: "bytes \<Rightarrow> eipc_intent_t \<Rightarrow> (eipc_status_t \<times> eipc_intent_t) option" where
  "eipc_intent_from_json json intent =
     do { (_, i) \<leftarrow> json_find_string json ''intent'' (replicate EIPC_INTENT_MAX 0) EIPC_INTENT_MAX;
          (_, confidence) \<leftarrow> json_find_float json ''confidence'';
          (_, session_id) \<leftarrow> json_find_string json ''session_id'' (replicate EIPC_SESSION_ID_MAX 0) EIPC_SESSION_ID_MAX;
          Some (EIPC_OK, \<lparr>ci_intent = i, ci_confidence = confidence, ci_session_id = session_id\<rparr>) }"

section \<open>Lemmas\<close>

lemma cents_lt: "h mod 100 div 10 < (10 :: nat)" "h mod 10 < (10 :: nat)"
  by (simp_all add: div_less_iff_less_mult)

lemma cents_digits: "is_digit (of_nat (0x30 + h mod 100 div 10))" "is_digit (of_nat (0x30 + h mod 10))"
  by (rule is_digit_of_nat, rule cents_lt)+

lemma digits_nat_snoc: "digits_nat (ds @ [c]) = 10 * digits_nat ds + (unat c - 0x30)"
  by (simp add: digits_nat_def)

lemma digits_nat_append: "digits_nat (a @ b) = digits_nat a * 10 ^ length b + digits_nat b"
proof (induction b rule: rev_induct)
  case (snoc c b)
  then show ?case using digits_nat_snoc [of "a @ b" c] digits_nat_snoc [of b c] by (simp add: algebra_simps)
qed (simp add: digits_nat_def)

lemma digits_nat_two: "digits_nat [x, y] = 10 * (unat x - 0x30) + (unat y - 0x30)"
  by (simp add: digits_nat_def)

lemma digits_nat_cents: "digits_nat (itoa (h div 100) @ [of_nat (0x30 + h mod 100 div 10), of_nat (0x30 + h mod 10)]) = h"
proof -
  have "10 * (h mod 100 div 10) + h mod 100 mod 10 = h mod 100" by (rule mult_div_mod_eq)
  moreover have "h mod 100 mod 10 = h mod 10" by (rule mod_mod_cancel) simp
  ultimately have two: "digits_nat [of_nat (0x30 + h mod 100 div 10), of_nat (0x30 + h mod 10)] = h mod 100"
    unfolding digits_nat_two unat_digit [OF cents_lt(1)] unat_digit [OF cents_lt(2)] by simp
  show ?thesis unfolding digits_nat_append two digits_nat_itoa by simp
qed

lemma not_digit_point [simp]: "\<not> is_digit 0x2E" "\<not> is_digit 0x2D" "\<not> is_digit 0x2C" "\<not> is_digit 0x7D"
  by (simp_all add: is_digit_def)

lemma itoa_split: "list_all is_digit t \<Longrightarrow> takeWhile is_digit (t @ 0x2E # s) = t \<and> dropWhile is_digit (t @ 0x2E # s) = 0x2E # s"
  by (induction t) simp_all

lemma is_number_fixed:
  assumes "is_digit d" and "list_all is_digit t" and "t = [] \<or> d \<noteq> 0x30" and "is_digit x" and "is_digit y"
  shows "is_number (d # t @ [0x2E, x, y])" and "is_number (0x2D # d # t @ [0x2E, x, y])"
proof -
  have d: "d \<noteq> 0x2D" using assms(1) by auto
  note split = itoa_split [OF assms(2), of "[x, y]"]
  show "is_number (d # t @ [0x2E, x, y])" using assms d split by (auto simp: is_number_def exp_ok_def)
  show "is_number (0x2D # d # t @ [0x2E, x, y])" using assms d split by (auto simp: is_number_def exp_ok_def)
qed

lemma itoa_shape: "\<exists>d t. itoa n = d # t \<and> is_digit d \<and> list_all is_digit t \<and> (t = [] \<or> d \<noteq> 0x30)"
proof -
  obtain d t where t: "itoa n = d # t" "is_digit d" "list_all is_digit t" using itoa_digits [of n] by (cases "itoa n") auto
  have "t = [] \<or> d \<noteq> 0x30"
  proof (cases "n = 0")
    case True
    then show ?thesis using t(1) by (simp add: itoa.simps)
  next
    case False
    then show ?thesis using itoa_leading [of n] t(1) by auto
  qed
  with t show ?thesis by blast
qed

lemma fmt_cents_shape:
  "\<exists>d t x y. fmt_cents neg h = (if neg then [0x2D] else []) @ d # t @ [0x2E, x, y] \<and> is_digit d \<and> list_all is_digit t
     \<and> (t = [] \<or> d \<noteq> 0x30) \<and> is_digit x \<and> is_digit y \<and> digits_nat (d # t @ [x, y]) = h"
proof -
  obtain d t where t: "itoa (h div 100) = d # t" "is_digit d" "list_all is_digit t" "t = [] \<or> d \<noteq> 0x30" using itoa_shape by blast
  have "digits_nat (d # t @ [of_nat (0x30 + h mod 100 div 10), of_nat (0x30 + h mod 10)]) = h"
    using digits_nat_cents [of h] unfolding t(1) by simp
  with t cents_digits [of h] show ?thesis
    by (intro exI [of _ d] exI [of _ t] exI [of _ "of_nat (0x30 + h mod 100 div 10)"] exI [of _ "of_nat (0x30 + h mod 10)"])
      (simp add: fmt_cents_def del: of_nat_add)
qed

lemma number_lit_cents: "number_lit (fmt_cents neg h)"
proof -
  obtain d t x y where s: "fmt_cents neg h = (if neg then [0x2D] else []) @ d # t @ [0x2E, x, y]" "is_digit d" "list_all is_digit t"
    "t = [] \<or> d \<noteq> 0x30" "is_digit x" "is_digit y" using fmt_cents_shape by blast
  have "list_all num_char (d # t @ [0x2E, x, y])"
    using s(2,3,5,6) by (auto simp: num_char_def list_all_iff)
  then show ?thesis using is_number_fixed [OF s(2-6)] s(1,2) by (cases neg) (simp_all add: number_lit_def)
qed

lemma digit_lower: "is_digit c \<Longrightarrow> to_lower c = c \<and> c \<noteq> 0x69 \<and> c \<noteq> 0x6E \<and> c \<noteq> 0x78 \<and> c \<noteq> 0x2B \<and> c \<noteq> 0x2D"
  by (auto simp: is_digit_def to_lower_def word_le_nat_alt)

lemma c_strtod_by_digits:
  assumes "dropWhile c_isspace s = s" and "(case s of [] \<Rightarrow> False | c # _ \<Rightarrow> c = 0x2D) = neg"
    and "(case s of [] \<Rightarrow> [] | c # t \<Rightarrow> if c = 0x2B \<or> c = 0x2D then t else s) = D"
    and "map to_lower (take 3 D) \<noteq> [0x69, 0x6E, 0x66]" and "map to_lower (take 3 D) \<noteq> [0x6E, 0x61, 0x6E]"
    and "take 2 (map to_lower (take 3 D)) \<noteq> [0x30, 0x78]" and "read_digits is_digit D = (i, f, x)" and "i @ f \<noteq> []"
  shows "c_strtod s = round_frac binary64 neg (digits_nat (i @ f) * 10 ^ nat (read_exponent 0x65 x - int (length f)))
    (10 ^ nat (- (read_exponent 0x65 x - int (length f))))"
  unfolding c_strtod_def Let_def assms(1,2,3,7) prod.case using assms(4,5,6,8) by (cases "read_digits is_hex (drop 2 D)") (simp only: prod.case if_False simp_thms)

lemma c_strtod_decimal:
  assumes "is_digit d" and "list_all is_digit t" and "is_digit x" and "is_digit y" and "c \<in> {0x2C, 0x7D}"
  shows "c_strtod ((if neg then [0x2D] else []) @ d # t @ 0x2E # x # y # c # r) = round_frac binary64 neg (digits_nat (d # t @ [x, y])) 100"
proof -
  let ?D = "d # t @ 0x2E # x # y # c # r"
  have c: "\<not> is_digit c" "to_lower c \<noteq> 0x65" using assms(5) by (auto simp: to_lower_def)
  note d = digit_lower [OF assms(1)]
  have "\<not> c_isspace d" "\<not> c_isspace 0x2D" using digit_simps [OF assms(1)] by (simp_all add: c_isspace_def)
  then have s1: "dropWhile c_isspace ((if neg then [0x2D] else []) @ ?D) = (if neg then [0x2D] else []) @ ?D" by simp
  have sign: "(case (if neg then [0x2D] else []) @ ?D of [] \<Rightarrow> False | c # _ \<Rightarrow> c = 0x2D) = neg"
    "(case (if neg then [0x2D] else []) @ ?D of [] \<Rightarrow> [] | c # t \<Rightarrow> if c = 0x2B \<or> c = 0x2D then t else (if neg then [0x2D] else []) @ ?D) = ?D"
    using d by auto
  obtain e u where e: "t @ 0x2E # x # y # c # r = e # u" "to_lower e \<noteq> 0x78"
    using assms(2) digit_lower by (cases t) (auto simp: to_lower_def)
  have word: "map to_lower (take 3 ?D) \<noteq> [0x69, 0x6E, 0x66]" "map to_lower (take 3 ?D) \<noteq> [0x6E, 0x61, 0x6E]"
    "take 2 (map to_lower (take 3 ?D)) \<noteq> [0x30, 0x78]"
    using d e by (auto simp: numeral_3_eq_3 numeral_2_eq_2)
  have read: "read_digits is_digit ?D = (d # t, [x, y], c # r)"
    using assms(1-4) c(1) itoa_split [OF assms(2), of "x # y # c # r"] by (simp add: read_digits_def)
  have "read_exponent 0x65 (c # r) = 0" using c(2) by (simp add: read_exponent_def)
  then show ?thesis
    using c_strtod_by_digits [OF s1 sign word read] by simp
qed

lemma c_strtod_cents:
  assumes "c \<in> {0x2C, 0x7D}"
  shows "c_strtod (fmt_cents neg h @ c # r) = round_frac binary64 neg h 100"
proof -
  obtain d t x y where s: "fmt_cents neg h = (if neg then [0x2D] else []) @ d # t @ [0x2E, x, y]" "is_digit d" "list_all is_digit t"
    "is_digit x" "is_digit y" "digits_nat (d # t @ [x, y]) = h" using fmt_cents_shape by blast
  show ?thesis using c_strtod_decimal [OF s(2-5) assms, of neg r] s(1,6) by simp
qed

lemma float_overflows_cents:
  assumes "h < 2 ^ 1000"
  shows "\<not> float_overflows (fmt_cents neg h)"
proof -
  obtain d t x y where s: "fmt_cents neg h = (if neg then [0x2D] else []) @ d # t @ [0x2E, x, y]" "is_digit d" "list_all is_digit t"
    "is_digit x" "is_digit y" "digits_nat (d # t @ [x, y]) = h" using fmt_cents_shape by blast
  note d = digit_lower [OF s(2)]
  have ds: "(case fmt_cents neg h of [] \<Rightarrow> [] | c # t \<Rightarrow> if c = 0x2D then t else fmt_cents neg h) = d # t @ [0x2E, x, y]"
    using s(1) d by auto
  have tw: "takeWhile is_digit (d # t @ [0x2E, x, y]) = d # t" "dropWhile is_digit (d # t @ [0x2E, x, y]) = [0x2E, x, y]"
    "takeWhile is_digit [x, y] = [x, y]" "dropWhile is_digit [x, y] = []"
    using s(2-5) itoa_split [OF s(3), of "[x, y]"] by simp_all
  have "h < (2 ^ 1024 - 2 ^ 970) * 10 ^ nat 2" using assms by (rule less_le_trans) simp
  then show ?thesis
    unfolding float_overflows_def Let_def ds tw list.case using s(6) tw(3,4) by simp
qed

text \<open>The finite numbers of the type \<open>float\<close>.\<close>

fun is_binary32 :: "float \<Rightarrow> bool" where
  "is_binary32 (Fin neg m e) \<longleftrightarrow> m < 2 ^ 24 \<and> - 149 \<le> e \<and> e \<le> 104"
| "is_binary32 _ \<longleftrightarrow> False"

lemma div_even_le: "div_even a b \<le> a div b + 1"
  by (simp add: div_even_def Let_def)

lemma hundredths_bound: "m < 2 ^ 24 \<Longrightarrow> e \<le> 104 \<Longrightarrow> hundredths m e < 10 ^ 41"
proof -
  assume m: "m < 2 ^ 24" and e: "e \<le> 104"
  have "(2 :: nat) ^ nat e \<le> 2 ^ 104" using e by (intro power_increasing) auto
  then have "m * 100 * 2 ^ nat e \<le> 2 ^ 24 * 100 * 2 ^ 104" using m by (intro mult_mono) auto
  moreover have "hundredths m e \<le> m * 100 * 2 ^ nat e + 1"
    unfolding hundredths_def by (rule order_trans [OF div_even_le]) (simp add: div_le_dividend)
  ultimately show ?thesis by simp
qed

definition intent_keys :: "string list" where
  "intent_keys = [''intent'', ''confidence'', ''session_id'']"

definition intent_text :: "string \<Rightarrow> bytes \<Rightarrow> string \<Rightarrow> (string \<times> fval) list" where
  "intent_text i l s = [(''intent'', FStr i), (''confidence'', FLit l), (''session_id'', FStr s)]"

lemma html_safe_not: "html_safe c \<Longrightarrow> c \<notin> {0, 0x22, 0x5C, 0x0A, 0x0D, 0x09} \<and> unat c < 0x80"
  by (auto simp: html_safe_def)

lemma html_safe_escapes: "list_all html_safe b \<Longrightarrow> list_all (\<lambda>c. c \<notin> {0, 0x22, 0x5C, 0x0A, 0x0D, 0x09}) b"
  by (rule list.pred_mono_strong) (use html_safe_not in blast)+

lemma html_safe_plain: "list_all html_safe b \<Longrightarrow> plain b"
  using html_safe_not unfolding plain_def list_all_iff by blast

lemma html_safe_clean: "list_all html_safe (bytes_of_string s) \<Longrightarrow> clean s = s"
proof -
  assume "list_all html_safe (bytes_of_string s)"
  then have "list_all (\<lambda>b. unat b < 0x80) (bytes_of_string s)" by (rule list.pred_mono_strong) (use html_safe_not in blast)
  then show ?thesis by (simp add: clean_def sanitize_ascii)
qed

lemma plain_char: "is_digit c \<or> c = 0x2D \<or> c = 0x2E \<Longrightarrow> c \<noteq> 0 \<and> c \<noteq> 0x22 \<and> c \<noteq> 0x5C \<and> \<not> json_skip c"
  by (auto simp: is_digit_def json_skip_def)

lemma plain_cents: "plain_val (CRaw (fmt_cents neg h))"
proof -
  obtain d t x y where s: "fmt_cents neg h = (if neg then [0x2D] else []) @ d # t @ [0x2E, x, y]" "is_digit d" "list_all is_digit t"
    "is_digit x" "is_digit y" using fmt_cents_shape by blast
  then have "\<forall>c \<in> set (fmt_cents neg h). is_digit c \<or> c = 0x2D \<or> c = 0x2E" and "fmt_cents neg h \<noteq> []" by (auto simp: list_all_iff)
  then show ?thesis using plain_char unfolding plain_val.simps plain_def list_all_iff by blast
qed

lemma intent_searchable:
  assumes "k \<in> set intent_keys" and "i \<notin> set intent_keys" and "s \<notin> set intent_keys"
    and "plain (bytes_of_string i)" and "plain (bytes_of_string s)"
  shows "searchable k (cvals (intent_text i (fmt_cents neg h) s))"
proof -
  have keys: "key_ok k" if "k \<in> set intent_keys" for k using that by (auto simp: intent_keys_def key_ok_def bytes_of_string_def)
  have "key_ok ''intent''" "key_ok ''confidence''" "key_ok ''session_id''" by (rule keys, simp add: intent_keys_def)+
  then show ?thesis using assms keys [OF assms(1)] plain_cents by (auto simp: searchable_def intent_text_def)
qed

lemma json_find_float_found:
  assumes "searchable k ms" and "after k ms = Some (CRaw (fmt_cents neg h), ms')"
  shows "json_find_float (obj_text ms @ 0 # rest) k = Some (0, to_binary32 (round_frac binary64 neg h 100))"
proof -
  obtain c s where c: "obj_tail ms' = c # s" "c \<in> {0x2C, 0x7D}" using obj_tail_head by blast
  obtain b r where b: "fmt_cents neg h = b # r" "b \<noteq> 0x22"
    using number_lit_cents [of neg h] by (cases "fmt_cents neg h") (auto simp: number_lit_def dest: digit_simps)
  show ?thesis
    using json_value_obj [OF assms(1), of rest] assms(2) b c_strtod_cents [OF c(2), of neg h s] by (simp add: json_find_float_def c)
qed

lemma length_fmt_cents: "h < 10 ^ 41 \<Longrightarrow> length (fmt_cents neg h) \<le> 50"
proof -
  assume "h < 10 ^ 41"
  then have "h div 100 < 10 ^ Suc 40" by simp
  from length_itoa [OF this] show ?thesis by (simp add: fmt_cents_def)
qed

lemma intent_written:
  assumes "list_all html_safe (bytes_of_string i)" and "list_all html_safe (bytes_of_string s)"
    and "length i < EIPC_INTENT_MAX" and "length s < EIPC_SESSION_ID_MAX" and "i \<notin> set intent_keys" and "s \<notin> set intent_keys"
    and "conf = Fin neg m e" and "is_binary32 conf"
  obtains t where "\<And>buf len. length buf = EIPC_MAX_PAYLOAD \<Longrightarrow> eipc_intent_to_json \<lparr>ci_intent = c_array EIPC_INTENT_MAX (bytes_of_string i),
        ci_confidence = conf, ci_session_id = c_array EIPC_SESSION_ID_MAX (bytes_of_string s)\<rparr> buf EIPC_MAX_PAYLOAD len =
        Some (EIPC_OK, t @ 0 # drop (length t + 1) buf, length t)"
    and "length t < EIPC_MAX_PAYLOAD" and "0 \<notin> set t"
    and "json_Unmarshal intent_fields t zeroIntentEvent = (None, \<lparr>ie_Intent = i, ie_Confidence = fmt_f2 conf, ie_SessionID = s\<rparr>)"
    and "\<And>rest ev. eipc_intent_from_json (t @ 0 # rest) ev = Some (EIPC_OK, \<lparr>ci_intent = c_array EIPC_INTENT_MAX (bytes_of_string i),
          ci_confidence = to_binary32 (round_frac binary64 neg (hundredths m e) 100), ci_session_id = c_array EIPC_SESSION_ID_MAX (bytes_of_string s)\<rparr>)"
proof -
  define h where "h = hundredths m e"
  define ms where "ms = intent_text i (fmt_cents neg h) s"
  let ?t = "obj_text (cvals ms)"
  have h: "h < 10 ^ 41" using assms(7,8) hundredths_bound by (simp add: h_def)
  have f2: "fmt_f2 conf = fmt_cents neg h" by (simp add: assms(7) h_def)
  have len: "length ?t < EIPC_MAX_PAYLOAD"
    using length_fmt_cents [OF h, of neg] assms(3,4)
    by (simp add: ms_def intent_text_def obj_text_def fmt_object_def fmt_member_def quoted_def c_limits EIPC_MAX_PAYLOAD_def)
  have strs: "0 \<in> set (c_array EIPC_INTENT_MAX (bytes_of_string i))" "0 \<in> set (c_array EIPC_SESSION_ID_MAX (bytes_of_string s))"
    using assms(3,4) by (simp_all add: c_array_def)
  have esc: "escaped 256 (c_array EIPC_INTENT_MAX (bytes_of_string i)) = bytes_of_string i"
    "escaped 128 (c_array EIPC_SESSION_ID_MAX (bytes_of_string s)) = bytes_of_string s"
    using escaped_plain [OF html_safe_escapes [OF assms(1)]] escaped_plain [OF html_safe_escapes [OF assms(2)]] assms(3,4) by (simp_all add: c_limits)
  have print: "eipc_intent_to_json \<lparr>ci_intent = c_array EIPC_INTENT_MAX (bytes_of_string i), ci_confidence = conf,
      ci_session_id = c_array EIPC_SESSION_ID_MAX (bytes_of_string s)\<rparr> buf EIPC_MAX_PAYLOAD len = Some (EIPC_OK, ?t @ 0 # drop (length ?t + 1) buf, length ?t)"
    if "length buf = EIPC_MAX_PAYLOAD" for buf len
    using json_escape_total [OF strs(1), of 256] json_escape_total [OF strs(2), of 128] esc len that
    by (auto simp: eipc_intent_to_json_def f2 ms_def intent_text_def obj_text_def print_to_fits overwrite_front)
  have "?t = json_struct (intent_members \<lparr>ie_Intent = i, ie_Confidence = fmt_f2 conf, ie_SessionID = s\<rparr>)"
    using assms(1,2) by (subst fmt_object_json) (simp_all add: ms_def intent_text_def intent_members_def f2, simp add: bytes_of_string_def html_safe_def)
  moreover have "\<not> float_overflows (fmt_f2 conf)" unfolding f2 by (rule float_overflows_cents, rule less_trans [OF h], simp)
  ultimately have go: "json_Unmarshal intent_fields ?t zeroIntentEvent = (None, \<lparr>ie_Intent = i, ie_Confidence = fmt_f2 conf, ie_SessionID = s\<rparr>)"
    using number_lit_cents [of neg h] assms(1,2) by (simp add: intent_round_trip f2 html_safe_clean)
  have search: "searchable k (cvals ms)" if "k \<in> set intent_keys" for k
    using intent_searchable [OF that assms(5,6)] assms(1,2) html_safe_plain by (simp add: ms_def)
  have read: "eipc_intent_from_json (?t @ 0 # rest) ev = Some (EIPC_OK, \<lparr>ci_intent = c_array EIPC_INTENT_MAX (bytes_of_string i),
      ci_confidence = to_binary32 (round_frac binary64 neg h 100), ci_session_id = c_array EIPC_SESSION_ID_MAX (bytes_of_string s)\<rparr>)" for rest ev
    using json_find_string_array [OF search, of "''intent''"] json_find_string_array [OF search, of "''session_id''"]
      json_find_float_found [OF search, of "''confidence''" neg h] assms(1-4) html_safe_plain
    by (simp add: eipc_intent_from_json_def intent_keys_def ms_def intent_text_def)
  have "list_all (\<lambda>(k, v). key_ok k \<and> plain_val v) (cvals ms)"
    using searchable_ok [OF search [of "''intent''"]] by (simp add: intent_keys_def)
  then have "0 \<notin> set ?t" using c_str_obj [of "cvals ms" "[]"] c_str_length by (fastforce simp: ms_def intent_text_def)
  from that [OF print len this go read [unfolded h_def]] show ?thesis .
qed

section \<open>Properties\<close>

text \<open>
  An intent survives the way into JSON and back: with strings that fit, need no escape and are not the name of a member, and any finite
  confidence, the C SDK writes a text the Go package reads as the intent with the confidence in two decimals, and the C SDK reads
  as the intent with the \<open>float\<close> nearest to the confidence rounded to hundredths.
\<close>

theorem c_intent_interop:
  assumes "list_all html_safe (bytes_of_string i)" and "list_all html_safe (bytes_of_string s)"
    and "length i < EIPC_INTENT_MAX" and "length s < EIPC_SESSION_ID_MAX" and "i \<notin> set intent_keys" and "s \<notin> set intent_keys"
    and "conf = Fin neg m e" and "is_binary32 conf" and "length buf = EIPC_MAX_PAYLOAD"
  shows "\<exists>t rest. eipc_intent_to_json \<lparr>ci_intent = c_array EIPC_INTENT_MAX (bytes_of_string i), ci_confidence = conf,
        ci_session_id = c_array EIPC_SESSION_ID_MAX (bytes_of_string s)\<rparr> buf EIPC_MAX_PAYLOAD len = Some (EIPC_OK, t @ 0 # rest, length t)
      \<and> json_Unmarshal intent_fields t zeroIntentEvent = (None, \<lparr>ie_Intent = i, ie_Confidence = fmt_f2 conf, ie_SessionID = s\<rparr>)
      \<and> eipc_intent_from_json (t @ 0 # rest) ev = Some (EIPC_OK, \<lparr>ci_intent = c_array EIPC_INTENT_MAX (bytes_of_string i),
          ci_confidence = to_binary32 (round_frac binary64 neg (hundredths m e) 100), ci_session_id = c_array EIPC_SESSION_ID_MAX (bytes_of_string s)\<rparr>)"
proof -
  from intent_written [OF assms(1-8)] obtain t where "eipc_intent_to_json \<lparr>ci_intent = c_array EIPC_INTENT_MAX (bytes_of_string i), ci_confidence = conf,
      ci_session_id = c_array EIPC_SESSION_ID_MAX (bytes_of_string s)\<rparr> buf EIPC_MAX_PAYLOAD len = Some (EIPC_OK, t @ 0 # drop (length t + 1) buf, length t)"
    "json_Unmarshal intent_fields t zeroIntentEvent = (None, \<lparr>ie_Intent = i, ie_Confidence = fmt_f2 conf, ie_SessionID = s\<rparr>)"
    "\<And>rest ev. eipc_intent_from_json (t @ 0 # rest) ev = Some (EIPC_OK, \<lparr>ci_intent = c_array EIPC_INTENT_MAX (bytes_of_string i),
      ci_confidence = to_binary32 (round_frac binary64 neg (hundredths m e) 100), ci_session_id = c_array EIPC_SESSION_ID_MAX (bytes_of_string s)\<rparr>)"
    using assms(9) by metis
  then show ?thesis by blast
qed

theorem c_intent_interop_witness:
  "\<exists>t rest. eipc_intent_to_json \<lparr>ci_intent = c_array EIPC_INTENT_MAX (bytes_of_string ''ui.click''), ci_confidence = Fin False 1 (- 1),
      ci_session_id = c_array EIPC_SESSION_ID_MAX (bytes_of_string ''s1'')\<rparr> (replicate EIPC_MAX_PAYLOAD 0) EIPC_MAX_PAYLOAD 0 =
        Some (EIPC_OK, t @ 0 # rest, length t)
    \<and> json_Unmarshal intent_fields t zeroIntentEvent =
        (None, \<lparr>ie_Intent = ''ui.click'', ie_Confidence = bytes_of_string ''0.50'', ie_SessionID = ''s1''\<rparr>)"
proof -
  have f: "fmt_f2 (Fin False 1 (- 1)) = bytes_of_string ''0.50''"
    by (simp add: hundredths_def div_even_def fmt_cents_def itoa.simps bytes_of_string_def)
  have strs: "list_all html_safe (bytes_of_string ''ui.click'')" "list_all html_safe (bytes_of_string ''s1'')"
    "length ''ui.click'' < EIPC_INTENT_MAX" "length ''s1'' < EIPC_SESSION_ID_MAX" "''ui.click'' \<notin> set intent_keys" "''s1'' \<notin> set intent_keys"
    by (simp_all add: bytes_of_string_def html_safe_def c_limits intent_keys_def)
  have "is_binary32 (Fin False 1 (- 1))" "length (replicate EIPC_MAX_PAYLOAD (0 :: byte)) = EIPC_MAX_PAYLOAD" by simp_all
  from c_intent_interop [OF strs refl this, of 0] show ?thesis unfolding f by blast
qed

end
