(* ===== verification/CClient.thy ===== *)
theory CClient
  imports CTransport CHash CFloat Endpoint
begin

text \<open>
  \<^verbatim>\<open>sdk/c/src/eipc_client.c\<close>: the client of the C SDK. The calls of \<open>time\<close> and \<open>rand\<close> of an operation are its argument of
  type \<open>c_clock\<close>, and \<open>heap n\<close> is whether \<open>malloc(n)\<close> succeeds. A handle with an invalid socket has no socket, on which
  sending and receiving fail with \<open>EIPC_ERR_IO\<close>. Local arrays start with zeroes; the code writes each before it reads it.
\<close>

section \<open>Types\<close>

record eipc_message_t =
  ms_version :: "16 word"
  ms_msg_type :: byte
  ms_source :: bytes
  ms_session_id :: bytes
  ms_request_id :: bytes
  ms_priority :: byte
  ms_capability :: bytes
  ms_payload :: bytes
  ms_payload_len :: "32 word"

definition zero_message :: eipc_message_t where
  "zero_message = \<lparr>ms_version = 0, ms_msg_type = 0, ms_source = replicate EIPC_SERVICE_ID_MAX 0, ms_session_id = replicate EIPC_SESSION_ID_MAX 0,
     ms_request_id = replicate EIPC_REQUEST_ID_MAX 0, ms_priority = 0, ms_capability = replicate EIPC_CAPABILITY_MAX 0,
     ms_payload = replicate EIPC_MAX_PAYLOAD 0, ms_payload_len = 0\<rparr>"

record eipc_client_t =
  cc_sock :: "c_socket option"
  cc_service_id :: bytes
  cc_hmac_key :: bytes
  cc_hmac_key_len :: "32 word"
  cc_sequence :: "64 word"
  cc_connected :: bool

definition EIPC_MSG_INTENT :: byte where "EIPC_MSG_INTENT = 0x69"
definition EIPC_MSG_TOOL_REQUEST :: byte where "EIPC_MSG_TOOL_REQUEST = 0x74"
definition EIPC_MSG_ACK :: byte where "EIPC_MSG_ACK = 0x61"
definition EIPC_MSG_HEARTBEAT :: byte where "EIPC_MSG_HEARTBEAT = 0x68"
definition EIPC_MSG_CHAT :: byte where "EIPC_MSG_CHAT = 0x63"
definition EIPC_MSG_COMPLETE :: byte where "EIPC_MSG_COMPLETE = 0x43"
definition EIPC_PAYLOAD_JSON :: byte where "EIPC_PAYLOAD_JSON = 0"
definition EIPC_PRIORITY_P0 :: byte where "EIPC_PRIORITY_P0 = 0"
definition EIPC_PRIORITY_P1 :: byte where "EIPC_PRIORITY_P1 = 1"

section \<open>Utilities\<close>

text \<open>What \<open>time\<close> and \<open>rand\<close> return for the request identifier, and \<open>time\<close> for the timestamp.\<close>

record c_clock =
  ck_id_time :: "64 word"
  ck_rand :: "32 word"
  ck_time :: "64 word"

definition eipc_timestamp_now :: "64 word \<Rightarrow> bytes \<Rightarrow> nat \<Rightarrow> bytes option" where
  "eipc_timestamp_now now buf buf_size =
     (if buf_size = 0 then Some buf else map_option snd (c_snprintf buf 0 buf_size (itoa (unat now))))"

text \<open>The conversions \<open>%08lx\<close> and \<open>%04x\<close>.\<close>

fun fmt_hex :: "nat \<Rightarrow> bytes" where
  "fmt_hex n = (if n < 16 then [hexd n] else fmt_hex (n div 16) @ [hexd (n mod 16)])"

declare fmt_hex.simps [simp del]

definition fmt_hex_pad :: "nat \<Rightarrow> nat \<Rightarrow> bytes" where
  "fmt_hex_pad w n = replicate (w - length (fmt_hex n)) 0x30 @ fmt_hex n"

definition eipc_generate_request_id :: "64 word \<Rightarrow> 32 word \<Rightarrow> bytes \<Rightarrow> nat \<Rightarrow> bytes option" where
  "eipc_generate_request_id now rnd buf buf_size =
     (if buf_size = 0 then Some buf
      else map_option snd (c_snprintf buf 0 buf_size
             (bytes_of_string ''req-'' @ fmt_hex_pad 8 (unat now) @ [0x2D] @ fmt_hex_pad 4 (unat (rnd AND 0xFFFF)))))"

section \<open>Sending\<close>

text \<open>\<open>strncpy(dst, src, sizeof(dst) - 1); dst[sizeof(dst) - 1] = '\0';\<close>\<close>

definition copy_str :: "bytes \<Rightarrow> bytes \<Rightarrow> nat \<Rightarrow> bytes option" where
  "copy_str dst src n = do { dst \<leftarrow> c_strncpy dst src (n - 1); c_set dst (n - 1) 0 }"

definition fill_header :: "bytes \<Rightarrow> 64 word \<Rightarrow> c_clock \<Rightarrow> eipc_header_t option" where
  "fill_header service_id sequence ck =
     do { let h = zero_header;
          sid \<leftarrow> copy_str (ch_service_id h) service_id EIPC_SERVICE_ID_MAX;
          rid \<leftarrow> eipc_generate_request_id (ck_id_time ck) (ck_rand ck) (ch_request_id h) EIPC_REQUEST_ID_MAX;
          ts \<leftarrow> eipc_timestamp_now (ck_time ck) (ch_timestamp h) EIPC_TIMESTAMP_MAX;
          Some (h\<lparr>ch_service_id := sid, ch_request_id := rid, ch_sequence := sequence, ch_timestamp := ts,
                  ch_priority := EIPC_PRIORITY_P1, ch_payload_format := EIPC_PAYLOAD_JSON\<rparr>) }"

text \<open>Signing a frame with the first \<open>key_len\<close> bytes of the key and sending it.\<close>

definition sign_and_send :: "(nat \<Rightarrow> bool) \<Rightarrow> bytes \<Rightarrow> 32 word \<Rightarrow> c_socket option \<Rightarrow> eipc_frame_t \<Rightarrow> (eipc_status_t \<times> c_socket option) option" where
  "sign_and_send heap key key_len sock frame =
     do { (signable_len, signable) \<leftarrow> eipc_frame_signable_bytes frame (replicate EIPC_FRAME_BUF_SIZE 0) EIPC_FRAME_BUF_SIZE;
          if signable_len = 0 then Some (EIPC_ERR_INTEGRITY, sock)
          else do { mac \<leftarrow> eipc_hmac_sign (heap (HMAC_BLOCK_SIZE + signable_len)) (take (unat key_len) key) (take signable_len signable);
                    case sock of
                      None \<Rightarrow> Some (EIPC_ERR_IO, None)
                    | Some s \<Rightarrow> map_option (\<lambda>(rc, s). (rc, Some s)) (eipc_transport_send_frame s (frame\<lparr>cf_mac := mac\<rparr>)) } }"

definition build_and_send :: "(nat \<Rightarrow> bool) \<Rightarrow> eipc_client_t \<Rightarrow> byte \<Rightarrow> eipc_header_t \<Rightarrow> bytes \<Rightarrow> nat \<Rightarrow> (eipc_status_t \<times> eipc_client_t) option" where
  "build_and_send heap c msg_type hdr payload payload_len =
     do { let frame = zero_frame\<lparr>cf_version := EIPC_PROTOCOL_VER, cf_msg_type := msg_type, cf_flags := EIPC_FLAG_HMAC\<rparr>;
          (rc, header_json, hdr_json_len) \<leftarrow> eipc_header_to_json hdr (replicate EIPC_MAX_HEADER 0) EIPC_MAX_HEADER 0;
          if rc \<noteq> EIPC_OK then Some (rc, c)
          else do {
            header \<leftarrow> c_memcpy (cf_header frame) 0 header_json 0 hdr_json_len;
            let frame = frame\<lparr>cf_header := header, cf_header_len := of_nat hdr_json_len\<rparr>;
            if payload_len > EIPC_MAX_PAYLOAD then Some (EIPC_ERR_FRAME_TOO_LARGE, c)
            else do {
              frame \<leftarrow> (if payload_len > 0
                        then do { p \<leftarrow> c_memcpy (cf_payload frame) 0 payload 0 payload_len;
                                  Some (frame\<lparr>cf_payload := p, cf_payload_len := of_nat payload_len\<rparr>) }
                        else Some frame);
              (rc, sock) \<leftarrow> sign_and_send heap (cc_hmac_key c) (cc_hmac_key_len c) (cc_sock c) frame;
              Some (rc, c\<lparr>cc_sock := sock\<rparr>)
            } } }"

section \<open>The client\<close>

definition eipc_client_init :: "bytes \<Rightarrow> (eipc_status_t \<times> eipc_client_t) option" where
  "eipc_client_init service_id =
     do { sid \<leftarrow> copy_str (replicate EIPC_SERVICE_ID_MAX 0) service_id EIPC_SERVICE_ID_MAX;
          Some (EIPC_OK, \<lparr>cc_sock = None, cc_service_id = sid, cc_hmac_key = replicate EIPC_MAC_SIZE 0, cc_hmac_key_len = 0,
            cc_sequence = 0, cc_connected = False\<rparr>) }"

definition eipc_client_connect :: "c_os \<Rightarrow> eipc_client_t \<Rightarrow> bytes \<Rightarrow> bytes \<Rightarrow> (eipc_status_t \<times> eipc_client_t) option" where
  "eipc_client_connect os c address hkey =
     do { k \<leftarrow> c_str hkey;
          if length k > EIPC_MAC_SIZE then Some (EIPC_ERR_INVALID, c)
          else do {
            key \<leftarrow> c_memcpy (cc_hmac_key c) 0 k 0 (length k);
            let c = c\<lparr>cc_hmac_key := key, cc_hmac_key_len := of_nat (length k)\<rparr>;
            (rc, sock) \<leftarrow> eipc_transport_connect os (cc_sock c) address;
            Some (if rc \<noteq> EIPC_OK then (rc, c\<lparr>cc_sock := sock\<rparr>)
                  else (EIPC_OK, c\<lparr>cc_sock := sock, cc_connected := True, cc_sequence := 0\<rparr>))
          } }"

definition eipc_client_send_intent ::
  "(nat \<Rightarrow> bool) \<Rightarrow> c_clock \<Rightarrow> eipc_client_t \<Rightarrow> bytes \<Rightarrow> float \<Rightarrow> (eipc_status_t \<times> eipc_client_t) option" where
  "eipc_client_send_intent heap ck c intent confidence =
     (if \<not> cc_connected c then Some (EIPC_ERR_INVALID, c)
      else do {
        let c = c\<lparr>cc_sequence := cc_sequence c + 1\<rparr>;
        hdr \<leftarrow> fill_header (cc_service_id c) (cc_sequence c) ck;
        i \<leftarrow> copy_str (replicate EIPC_INTENT_MAX 0) intent EIPC_INTENT_MAX;
        (rc, payload_json, _) \<leftarrow> eipc_intent_to_json \<lparr>ci_intent = i, ci_confidence = confidence, ci_session_id = replicate EIPC_SESSION_ID_MAX 0\<rparr>
            (replicate EIPC_MAX_PAYLOAD 0) EIPC_MAX_PAYLOAD 0;
        if rc \<noteq> EIPC_OK then Some (rc, c)
        else do { p \<leftarrow> c_str payload_json; build_and_send heap c EIPC_MSG_INTENT hdr payload_json (length p) }
      })"

text \<open>The number of arguments and the array of the request; \<open>args\<close> may be NULL, which is None, and \<open>memcpy\<close> of more pairs than the caller has is undefined.\<close>

definition tool_args :: "eipc_kv_t list option \<Rightarrow> 32 word \<Rightarrow> (nat \<times> eipc_kv_t list) option" where
  "tool_args args arg_count =
     (let zero_kv = \<lparr>kv_key = replicate EIPC_KV_KEY_MAX 0, kv_value = replicate EIPC_KV_VALUE_MAX 0\<rparr>
      in case args of
           None \<Rightarrow> Some (0, replicate EIPC_MAX_ARGS zero_kv)
         | Some kvs \<Rightarrow>
            let n = min (nat (sint arg_count)) EIPC_MAX_ARGS
            in if n \<le> length kvs then Some (n, take n kvs @ replicate (EIPC_MAX_ARGS - n) zero_kv) else None)"

definition eipc_client_send_tool_request ::
  "(nat \<Rightarrow> bool) \<Rightarrow> c_clock \<Rightarrow> eipc_client_t \<Rightarrow> bytes \<Rightarrow> eipc_kv_t list option \<Rightarrow> 32 word \<Rightarrow> (eipc_status_t \<times> eipc_client_t) option" where
  "eipc_client_send_tool_request heap ck c tool args arg_count =
     (if \<not> cc_connected c then Some (EIPC_ERR_INVALID, c)
      else do {
        let c = c\<lparr>cc_sequence := cc_sequence c + 1\<rparr>;
        hdr \<leftarrow> fill_header (cc_service_id c) (cc_sequence c) ck;
        t \<leftarrow> copy_str (replicate EIPC_TOOL_NAME_MAX 0) tool EIPC_TOOL_NAME_MAX;
        (n, a) \<leftarrow> tool_args args arg_count;
        (rc, payload_json, _) \<leftarrow> eipc_tool_request_to_json \<lparr>tr_tool = t, tr_args = a, tr_arg_count = of_nat n,
              tr_permission = replicate EIPC_CAPABILITY_MAX 0, tr_audit_id = replicate EIPC_REQUEST_ID_MAX 0\<rparr>
            (replicate EIPC_MAX_PAYLOAD 0) EIPC_MAX_PAYLOAD 0;
        if rc \<noteq> EIPC_OK then Some (rc, c)
        else do { p \<leftarrow> c_str payload_json; build_and_send heap c EIPC_MSG_TOOL_REQUEST hdr payload_json (length p) }
      })"

definition eipc_client_send_heartbeat :: "(nat \<Rightarrow> bool) \<Rightarrow> c_clock \<Rightarrow> eipc_client_t \<Rightarrow> (eipc_status_t \<times> eipc_client_t) option" where
  "eipc_client_send_heartbeat heap ck c =
     (if \<not> cc_connected c then Some (EIPC_ERR_INVALID, c)
      else do {
        let c = c\<lparr>cc_sequence := cc_sequence c + 1\<rparr>;
        hdr \<leftarrow> fill_header (cc_service_id c) (cc_sequence c) ck;
        service \<leftarrow> copy_str (replicate EIPC_SERVICE_ID_MAX 0) (cc_service_id c) EIPC_SERVICE_ID_MAX;
        status \<leftarrow> copy_str (replicate 32 0) (bytes_of_string ''alive'' @ [0]) 32;
        (rc, payload_json, _) \<leftarrow> eipc_heartbeat_to_json \<lparr>chb_service = service, chb_status = status\<rparr> (replicate EIPC_MAX_PAYLOAD 0) EIPC_MAX_PAYLOAD 0;
        if rc \<noteq> EIPC_OK then Some (rc, c)
        else do { p \<leftarrow> c_str payload_json; build_and_send heap c EIPC_MSG_HEARTBEAT hdr payload_json (length p) }
      })"

definition eipc_client_send_chat ::
  "(nat \<Rightarrow> bool) \<Rightarrow> c_clock \<Rightarrow> eipc_client_t \<Rightarrow> eipc_chat_request_t \<Rightarrow> (eipc_status_t \<times> eipc_client_t) option" where
  "eipc_client_send_chat heap ck c req =
     (if \<not> cc_connected c then Some (EIPC_ERR_INVALID, c)
      else do {
        let c = c\<lparr>cc_sequence := cc_sequence c + 1\<rparr>;
        hdr \<leftarrow> fill_header (cc_service_id c) (cc_sequence c) ck;
        cap \<leftarrow> copy_str (ch_capability hdr) (bytes_of_string ''ai:chat'' @ [0]) EIPC_CAPABILITY_MAX;
        let hdr = hdr\<lparr>ch_capability := cap\<rparr>;
        (rc, payload_json, _) \<leftarrow> eipc_chat_request_to_json req (replicate EIPC_MAX_PAYLOAD 0) EIPC_MAX_PAYLOAD 0;
        if rc \<noteq> EIPC_OK then Some (rc, c)
        else do { p \<leftarrow> c_str payload_json; build_and_send heap c EIPC_MSG_CHAT hdr payload_json (length p) }
      })"

text \<open>Without a session identifier the empty string is sent.\<close>

definition complete_text :: "bytes \<Rightarrow> bytes \<Rightarrow> bytes" where
  "complete_text session_id prompt =
     fmt_object [(''session_id'', quoted session_id), (''prompt'', quoted prompt), (''model'', quoted []), (''max_tokens'', [0x30])]"

definition eipc_client_send_complete ::
  "(nat \<Rightarrow> bool) \<Rightarrow> c_clock \<Rightarrow> eipc_client_t \<Rightarrow> bytes \<Rightarrow> bytes option \<Rightarrow> (eipc_status_t \<times> eipc_client_t) option" where
  "eipc_client_send_complete heap ck c prompt session_id =
     (if \<not> cc_connected c then Some (EIPC_ERR_INVALID, c)
      else do {
        let c = c\<lparr>cc_sequence := cc_sequence c + 1\<rparr>;
        hdr \<leftarrow> fill_header (cc_service_id c) (cc_sequence c) ck;
        cap \<leftarrow> copy_str (ch_capability hdr) (bytes_of_string ''ai:chat'' @ [0]) EIPC_CAPABILITY_MAX;
        let hdr = hdr\<lparr>ch_capability := cap\<rparr>;
        s \<leftarrow> (case session_id of None \<Rightarrow> Some [] | Some b \<Rightarrow> c_str b);
        p \<leftarrow> c_str prompt;
        (n, payload_json) \<leftarrow> c_snprintf (replicate EIPC_MAX_PAYLOAD 0) 0 EIPC_MAX_PAYLOAD (complete_text s p);
        if n \<ge> EIPC_MAX_PAYLOAD then Some (EIPC_ERR_FRAME_TOO_LARGE, c)
        else build_and_send heap c EIPC_MSG_COMPLETE hdr payload_json n
      })"

text \<open>
  The check of the MAC, None when it passes, and the message for a frame, which the server has as well. The client copies strings with
  \<open>copy_str\<close>; the server leaves out the assignment of the last byte, which is zero already.
\<close>

definition check_mac :: "(nat \<Rightarrow> bool) \<Rightarrow> bytes \<Rightarrow> 32 word \<Rightarrow> eipc_frame_t \<Rightarrow> eipc_status_t option option" where
  "check_mac heap key key_len frame =
     (if has_mac frame
      then do { (signable_len, signable) \<leftarrow> eipc_frame_signable_bytes frame (replicate EIPC_FRAME_BUF_SIZE 0) EIPC_FRAME_BUF_SIZE;
                if signable_len = 0 then Some (Some EIPC_ERR_INTEGRITY)
                else do { ok \<leftarrow> eipc_hmac_verify (heap (HMAC_BLOCK_SIZE + signable_len)) (take (unat key_len) key) (take signable_len signable) (cf_mac frame);
                          Some (if ok then None else Some EIPC_ERR_AUTH) } }
      else Some None)"

definition fill_message :: "(bytes \<Rightarrow> bytes \<Rightarrow> nat \<Rightarrow> bytes option) \<Rightarrow> eipc_frame_t \<Rightarrow> eipc_header_t \<Rightarrow> (eipc_status_t \<times> eipc_message_t) option" where
  "fill_message copy frame hdr =
     do { let msg = zero_message\<lparr>ms_msg_type := cf_msg_type frame, ms_version := cf_version frame\<rparr>;
          source \<leftarrow> copy (ms_source msg) (ch_service_id hdr) EIPC_SERVICE_ID_MAX;
          session \<leftarrow> copy (ms_session_id msg) (ch_session_id hdr) EIPC_SESSION_ID_MAX;
          request \<leftarrow> copy (ms_request_id msg) (ch_request_id hdr) EIPC_REQUEST_ID_MAX;
          cap \<leftarrow> copy (ms_capability msg) (ch_capability hdr) EIPC_CAPABILITY_MAX;
          let msg = msg\<lparr>ms_source := source, ms_session_id := session, ms_request_id := request, ms_priority := ch_priority hdr, ms_capability := cap\<rparr>;
          if unat (cf_payload_len frame) > 0
          then (if unat (cf_payload_len frame) > EIPC_MAX_PAYLOAD then Some (EIPC_ERR_FRAME_TOO_LARGE, msg)
                else do { p \<leftarrow> c_memcpy (ms_payload msg) 0 (cf_payload frame) 0 (unat (cf_payload_len frame));
                          Some (EIPC_OK, msg\<lparr>ms_payload := p, ms_payload_len := cf_payload_len frame\<rparr>) })
          else Some (EIPC_OK, msg) }"

definition eipc_client_receive :: "(nat \<Rightarrow> bool) \<Rightarrow> eipc_client_t \<Rightarrow> eipc_message_t \<Rightarrow> (eipc_status_t \<times> eipc_message_t \<times> eipc_client_t) option" where
  "eipc_client_receive heap c msg =
     (if \<not> cc_connected c then Some (EIPC_ERR_INVALID, msg, c)
      else case cc_sock c of
        None \<Rightarrow> Some (EIPC_ERR_IO, msg, c)
      | Some s \<Rightarrow>
         do { (rc, frame, s) \<leftarrow> eipc_transport_recv_frame heap s zero_frame;
              let c = c\<lparr>cc_sock := Some s\<rparr>;
              if rc \<noteq> EIPC_OK then Some (rc, msg, c)
              else do {
                failed \<leftarrow> check_mac heap (cc_hmac_key c) (cc_hmac_key_len c) frame;
                case failed of
                  Some rc \<Rightarrow> Some (rc, msg, c)
                | None \<Rightarrow>
                   do { (rc, hdr) \<leftarrow> eipc_header_from_json (cf_header frame) zero_header;
                        if rc \<noteq> EIPC_OK then Some (rc, zero_message\<lparr>ms_msg_type := cf_msg_type frame, ms_version := cf_version frame\<rparr>, c)
                        else do { (rc, msg) \<leftarrow> fill_message copy_str frame hdr; Some (rc, msg, c) } } } })"

text \<open>The socket is closed with \<open>eipc_transport_close\<close>; nothing refers to it afterwards.\<close>

definition eipc_client_close :: "eipc_client_t \<Rightarrow> eipc_client_t" where
  "eipc_client_close c = c\<lparr>cc_sock := None, cc_connected := False, cc_sequence := 0\<rparr>"

section \<open>Strings and headers\<close>

lemma copy_str_array:
  assumes "0 \<notin> set s" and "length s < n" and "length s < m"
  shows "copy_str (replicate n 0) (c_array m s) n = Some (c_array n s)"
proof (cases "length s = n - 1")
  case True
  then have n: "n = Suc (length s)" using assms(2) by simp
  have s: "takeWhile (\<lambda>c. c \<noteq> 0) s = s" using assms(1) by (auto simp: takeWhile_eq_all_conv)
  have "drop (length s) (replicate (Suc (length s)) 0) = [0 :: byte]" by (simp only: drop_replicate) simp
  then show ?thesis
    using assms(3) by (simp add: s n copy_str_def c_strncpy_def c_set_def c_array_def Let_def del: replicate_Suc)
next
  case False
  then have "length s < n - 1" using assms(2) by simp
  from c_strncpy_array [OF assms(1) this _ assms(3), of "replicate n 0"]
  have "c_strncpy (replicate n 0) (c_array m s) (n - 1) = Some (c_array (n - 1) s @ [0])" using assms(2) by simp
  moreover have "replicate (n - Suc (length s)) 0 @ [0] = replicate (n - length s) (0 :: byte)"
    using assms(2) by (simp add: replicate_append_same flip: replicate_Suc add: Suc_diff_Suc)
  ultimately show ?thesis using assms(2) False by (auto simp: copy_str_def c_set_def c_array_def list_update_append list_update_same_conv)
qed

lemma copy_str_total:
  assumes "c_field_ok m src" and "m \<le> n" and "length dst = n"
  shows "\<exists>b. copy_str dst src n = Some b \<and> c_field_ok n b" and "\<exists>b. c_strncpy dst src (n - 1) = Some b \<and> length b = n"
proof -
  have m: "0 < m" using assms(1) by (cases src) (auto simp: c_field_ok_def)
  have "0 \<in> set (take (n - 1) src) \<or> n - 1 \<le> length src"
    using assms(1,2) by (cases "m \<le> n - 1") (auto simp: c_field_ok_def)
  moreover have "length (takeWhile (\<lambda>c. c \<noteq> 0) (take (n - 1) src)) \<le> n - 1"
    by (rule order_trans [OF length_takeWhile_le]) simp
  ultimately show "\<exists>b. c_strncpy dst src (n - 1) = Some b \<and> length b = n"
    using assms(3) by (simp add: c_strncpy_def Let_def)
  then show "\<exists>b. copy_str dst src n = Some b \<and> c_field_ok n b"
    using m assms(2) by (auto simp: copy_str_def c_set_def c_field_ok_def set_update_memI)
qed

text \<open>The identifiers and timestamps the client makes.\<close>

definition new_request_id :: "c_clock \<Rightarrow> bytes" where
  "new_request_id ck = bytes_of_string ''req-'' @ fmt_hex_pad 8 (unat (ck_id_time ck)) @ [0x2D] @ fmt_hex_pad 4 (unat (ck_rand ck AND 0xFFFF))"

lemma fmt_hex_safe: "list_all html_safe (fmt_hex n)"
proof (induction n rule: fmt_hex.induct)
  case (1 n)
  have "\<forall>n \<in> set [0..<16]. html_safe (hexd n)" by code_simp
  then have "html_safe (hexd m)" if "m < 16" for m using that by simp
  then show ?case using 1 by (subst fmt_hex.simps) simp
qed

lemma length_fmt_hex: "n < 16 ^ Suc k \<Longrightarrow> length (fmt_hex n) \<le> Suc k"
proof (induction k arbitrary: n)
  case 0
  then show ?case by (simp add: fmt_hex.simps)
next
  case (Suc k)
  then have "n div 16 < 16 ^ Suc k" by simp
  from Suc.IH [OF this] show ?case by (subst fmt_hex.simps) simp
qed

lemma fmt_hex_pad_safe: "list_all html_safe (fmt_hex_pad w n)"
proof -
  have "html_safe 0x30" by code_simp
  then show ?thesis using fmt_hex_safe [of n] by (auto simp: fmt_hex_pad_def list_all_iff)
qed

lemma new_request_id_text: "list_all html_safe (new_request_id ck)" "length (new_request_id ck) \<le> 37"
proof -
  have "html_safe 0x2D" "list_all html_safe (bytes_of_string ''req-'')" by code_simp+
  then show "list_all html_safe (new_request_id ck)" by (simp add: new_request_id_def fmt_hex_pad_safe)
  have "unat (ck_id_time ck) < 16 ^ Suc 15" "unat (ck_rand ck AND 0xFFFF) < 16 ^ Suc 7"
    using unsigned_less [of "ck_id_time ck"] unsigned_less [of "ck_rand ck AND 0xFFFF"] by simp_all
  from this [THEN length_fmt_hex] show "length (new_request_id ck) \<le> 37"
    by (simp add: new_request_id_def fmt_hex_pad_def)
qed

lemma itoa_safe: "list_all html_safe (itoa n)"
proof -
  have "html_safe c" if "is_digit c" for c using that by (auto simp: is_digit_def html_safe_def word_le_nat_alt)
  then show ?thesis using itoa_digits [of n] by (auto simp: list_all_iff)
qed

text \<open>The header of a call, as the Go package has it.\<close>

definition call_header :: "string \<Rightarrow> 64 word \<Rightarrow> c_clock \<Rightarrow> string \<Rightarrow> Header" where
  "call_header sid seq ck cap =
     \<lparr>hd_ServiceID = sid, hd_SessionID = [], hd_RequestID = string_of_bytes (new_request_id ck), hd_Sequence = seq,
      hd_Timestamp = string_of_bytes (itoa (unat (ck_time ck))), hd_Priority = 1, hd_Capability = cap, hd_Route = [], hd_PayloadFormat = 0\<rparr>"

definition service_ok :: "string \<Rightarrow> bool" where
  "service_ok sid \<longleftrightarrow> list_all html_safe (bytes_of_string sid) \<and> length sid < EIPC_SERVICE_ID_MAX \<and> sid \<notin> set header_keys"

lemma header_keys_letters: "s \<in> set header_keys \<Longrightarrow> list_all (\<lambda>c. c \<noteq> 0x2D \<and> \<not> is_digit c) (bytes_of_string s) \<and> s \<noteq> []"
proof -
  have "list_all (\<lambda>s. list_all (\<lambda>c. c \<noteq> 0x2D \<and> \<not> is_digit c) (bytes_of_string s) \<and> s \<noteq> []) header_keys" by code_simp
  then show "s \<in> set header_keys \<Longrightarrow> ?thesis" unfolding list_all_iff by blast
qed

lemma call_header_ok:
  assumes "service_ok sid" and "cap \<in> {[], ''ai:chat''}"
  shows "c_header_ok (call_header sid seq ck cap)" and "html_safe_header (call_header sid seq ck cap)"
proof -
  have id: "string_of_bytes (new_request_id ck) \<notin> set header_keys"
  proof
    assume "string_of_bytes (new_request_id ck) \<in> set header_keys"
    from header_keys_letters [OF this] show False by (simp add: new_request_id_def)
  qed
  have ts: "string_of_bytes (itoa n) \<notin> set header_keys" for n
  proof
    assume "string_of_bytes (itoa n) \<in> set header_keys"
    from header_keys_letters [OF this] itoa_digit_head [of n] show False by auto
  qed
  have len: "length (itoa (unat (ck_time ck))) \<le> 20"
    using length_itoa [of "unat (ck_time ck)" 19] unat_word_bounds(1) [of "ck_time ck"] by simp
  have cap: "list_all html_safe (bytes_of_string cap)" "length cap < 64" "cap \<notin> set header_keys" "[] \<notin> set header_keys"
    using assms(2) by (auto simp: bytes_of_string_def html_safe_def header_keys_def)
  note safe = new_request_id_text(1) [of ck] itoa_safe [of "unat (ck_time ck)"] cap(1)
  show "html_safe_header (call_header sid seq ck cap)"
    using assms(1) safe by (simp add: html_safe_header_def call_header_def service_ok_def)
  show "c_header_ok (call_header sid seq ck cap)"
    using assms(1) safe [THEN html_safe_plain] html_safe_plain [of "[]"] new_request_id_text(2) [of ck] len cap id ts
    by (simp add: c_header_ok_def c_text_def call_header_def service_ok_def html_safe_plain c_limits)
qed

lemma plain_zero: "list_all html_safe s \<Longrightarrow> 0 \<notin> set s"
  using html_safe_plain by (simp add: plain_def)

lemma snprintf_array: "length t < n \<Longrightarrow> c_snprintf (replicate n 0) 0 n t = Some (length t, c_array n t)"
proof -
  assume t: "length t < n"
  then have "replicate (n - length t) (0 :: byte) = 0 # replicate (n - Suc (length t)) 0" by (simp flip: replicate_Suc add: Suc_diff_Suc)
  with t show ?thesis by (simp add: c_snprintf_eq overwrite_def c_array_def)
qed

lemma fill_header_call:
  assumes "service_ok sid"
  shows "fill_header (c_array EIPC_SERVICE_ID_MAX (bytes_of_string sid)) seq ck = Some (c_header (call_header sid seq ck []))"
proof -
  have sid: "0 \<notin> set (bytes_of_string sid)" "length (bytes_of_string sid) < EIPC_SERVICE_ID_MAX"
    using assms plain_zero by (auto simp: service_ok_def)
  have len: "length (itoa (unat (ck_time ck))) < EIPC_TIMESTAMP_MAX" "length (new_request_id ck) < EIPC_REQUEST_ID_MAX"
    using length_itoa [of "unat (ck_time ck)" 19] unat_word_bounds(1) [of "ck_time ck"] new_request_id_text(2) [of ck] by (simp_all add: c_limits)
  have parts: "eipc_generate_request_id (ck_id_time ck) (ck_rand ck) (replicate EIPC_REQUEST_ID_MAX 0) EIPC_REQUEST_ID_MAX =
      Some (c_array EIPC_REQUEST_ID_MAX (new_request_id ck))"
    "eipc_timestamp_now (ck_time ck) (replicate EIPC_TIMESTAMP_MAX 0) EIPC_TIMESTAMP_MAX = Some (c_array EIPC_TIMESTAMP_MAX (itoa (unat (ck_time ck))))"
    using snprintf_array [OF len(1)] snprintf_array [OF len(2)]
    by (simp_all add: eipc_generate_request_id_def eipc_timestamp_now_def c_limits new_request_id_def)
  show ?thesis
    using copy_str_array [OF sid(1) sid(2) sid(2)] parts
    by (simp add: fill_header_def Let_def zero_header_def c_header_def call_header_def c_array_def [of _ "[]"] EIPC_PRIORITY_P1_def EIPC_PAYLOAD_JSON_def)
qed

text \<open>The capability of the calls to the model.\<close>

lemma capability_call:
  "map_option (\<lambda>cap. (c_header (call_header sid seq ck []))\<lparr>ch_capability := cap\<rparr>)
     (copy_str (ch_capability (c_header (call_header sid seq ck []))) (bytes_of_string ''ai:chat'' @ [0]) EIPC_CAPABILITY_MAX) =
   Some (c_header (call_header sid seq ck ''ai:chat''))"
  using copy_str_array [of "bytes_of_string ''ai:chat''" EIPC_CAPABILITY_MAX 8]
  by (simp add: c_header_def call_header_def c_array_def [of _ "[]"] c_array_def [of 8] c_limits) (simp add: bytes_of_string_def)

section \<open>Sending a frame\<close>

definition call_frame :: "bytes \<Rightarrow> byte \<Rightarrow> bytes \<Rightarrow> bytes \<Rightarrow> frame" where
  "call_frame key t hdr p =
     (let f = \<lparr>f_Version = ProtocolVersion, f_MsgType = t, f_Flags = FlagHMAC, f_Header = hdr, f_Payload = p, f_MAC = []\<rparr>
      in f\<lparr>f_MAC := Sign key (SignableBytes f)\<rparr>)"

lemma call_frame_simps [simp]:
  "f_Version (call_frame key t h p) = ProtocolVersion" "f_MsgType (call_frame key t h p) = t" "f_Flags (call_frame key t h p) = FlagHMAC"
  "f_Header (call_frame key t h p) = h" "f_Payload (call_frame key t h p) = p"
  by (simp_all add: call_frame_def Let_def)

lemma call_frame_MAC: "f_MAC (call_frame key t h p) = Sign key (SignableBytes (call_frame key t h p))"
  unfolding call_frame_def Let_def SignableBytes_MAC by simp

lemma call_frame_fits:
  "length h \<le> EIPC_MAX_HEADER \<Longrightarrow> length p \<le> EIPC_MAX_PAYLOAD \<Longrightarrow> c_fits (call_frame key t h p)"
  by (simp add: c_fits_def frame_wf_def frame_fits_def c_sizes call_frame_MAC MACSize_def has_flag_def FlagHMAC_def)

lemma signable_length: "c_fits g \<Longrightarrow> length (SignableBytes g) \<le> EIPC_FRAME_BUF_SIZE \<and> 0 < length (SignableBytes g)"
  using preamble_SignableBytes [of g] by (auto simp: c_fits_def frame_wf_def c_sizes preamble_def)

lemma signable_mac [simp]: "eipc_frame_signable_bytes (f\<lparr>cf_mac := m\<rparr>) = eipc_frame_signable_bytes f"
  by (simp add: eipc_frame_signable_bytes_def fun_eq_iff c_preamble_def)

lemma signable_c_frame:
  assumes "c_fits g"
  shows "\<exists>b. eipc_frame_signable_bytes (c_frame g) (replicate EIPC_FRAME_BUF_SIZE 0) EIPC_FRAME_BUF_SIZE = Some (length (SignableBytes g), b)
    \<and> take (length (SignableBytes g)) b = SignableBytes g"
  using eipc_frame_signable_ok [OF c_frame_ok_c_frame [OF assms], of EIPC_FRAME_BUF_SIZE "replicate EIPC_FRAME_BUF_SIZE 0"] signable_length [OF assms]
  by (simp add: go_c_frame [OF assms])

lemma sign_and_send_open:
  assumes "c_fits g" and "f_MAC g = Sign (take (unat klen) key) (SignableBytes g)" and "sock_open s"
  shows "\<exists>s'. sign_and_send heap key klen (Some s) ((c_frame g)\<lparr>cf_mac := m\<rparr>) = Some (EIPC_OK, Some s') \<and> sock_open s'
    \<and> sk_conn s' = (sk_conn s)\<lparr>nc_out := nc_out (sk_conn s) @ conn_wire g\<rparr>"
proof -
  obtain b where b: "eipc_frame_signable_bytes (c_frame g) (replicate EIPC_FRAME_BUF_SIZE 0) EIPC_FRAME_BUF_SIZE = Some (length (SignableBytes g), b)"
    "take (length (SignableBytes g)) b = SignableBytes g" using signable_c_frame [OF assms(1)] by blast
  have len: "length (SignableBytes g) \<le> 65536" "SignableBytes g \<noteq> []" using signable_length [OF assms(1)] by (auto simp: c_sizes)
  have "overwrite (replicate EIPC_MAC_SIZE 0) 0 (f_MAC g) = f_MAC g" by (simp add: assms(2) overwrite_def EIPC_MAC_SIZE_def)
  then have mac: "(c_frame g)\<lparr>cf_mac := f_MAC g\<rparr> = c_frame g" by (simp add: c_frame_def)
  obtain s' where "eipc_transport_send_frame s (c_frame g) = Some (EIPC_OK, s')" "sock_open s'"
    "sk_conn s' = (sk_conn s)\<lparr>nc_out := nc_out (sk_conn s) @ conn_wire g\<rparr>"
    using send_frame_open [OF assms(3) c_frame_ok_c_frame [OF assms(1)]] by (auto simp: go_c_frame [OF assms(1)])
  then show ?thesis
    using b len mac eipc_hmac_sign_eq [of "SignableBytes g"] by (simp add: sign_and_send_def assms(2) [symmetric])
qed

lemma build_and_send_open:
  assumes "c_header_ok h" and "cc_sock c = Some s" and "sock_open s" and "n \<le> EIPC_MAX_PAYLOAD" and "n \<le> length payload"
  shows "\<exists>s'. build_and_send heap c t (c_header h) payload n = Some (EIPC_OK, c\<lparr>cc_sock := Some s'\<rparr>) \<and> sock_open s'
    \<and> sk_conn s' = (sk_conn s)\<lparr>nc_out := nc_out (sk_conn s) @
        conn_wire (call_frame (take (unat (cc_hmac_key_len c)) (cc_hmac_key c)) t (obj_text (cvals (c_members h))) (take n payload))\<rparr>"
proof -
  let ?t = "obj_text (cvals (c_members h))" and ?key = "take (unat (cc_hmac_key_len c)) (cc_hmac_key c)"
  let ?g = "call_frame ?key t ?t (take n payload)"
  let ?f = "zero_frame\<lparr>cf_version := EIPC_PROTOCOL_VER, cf_msg_type := t, cf_flags := EIPC_FLAG_HMAC,
      cf_header := overwrite (replicate EIPC_MAX_HEADER 0) 0 ?t, cf_header_len := of_nat (length ?t)\<rparr>"
  have len: "length ?t < EIPC_MAX_HEADER" by (rule c_header_text_length [OF assms(1)])
  have fits: "c_fits ?g" using len assms(4) by (intro call_frame_fits) auto
  have json: "eipc_header_to_json (c_header h) (replicate EIPC_MAX_HEADER 0) EIPC_MAX_HEADER 0 =
      Some (EIPC_OK, ?t @ 0 # drop (length ?t + 1) (replicate EIPC_MAX_HEADER 0), length ?t)"
    using len by (simp add: c_header_text [OF assms(1)] print_to_fits overwrite_front)
  have copy: "c_memcpy (replicate EIPC_MAX_HEADER 0) 0 (?t @ r) 0 (length ?t) = Some (overwrite (replicate EIPC_MAX_HEADER 0) 0 ?t)" for r
    using len by (simp add: c_memcpy_eq)
  have frame: "(if n > 0 then do { p \<leftarrow> c_memcpy (cf_payload ?f) 0 payload 0 n; Some (?f\<lparr>cf_payload := p, cf_payload_len := of_nat n\<rparr>) } else Some ?f) =
      Some ((c_frame ?g)\<lparr>cf_mac := replicate EIPC_MAC_SIZE 0\<rparr>)"
    using assms(4,5) by (auto simp: c_memcpy_eq zero_frame_def c_frame_def EIPC_PROTOCOL_VER_def ProtocolVersion_def EIPC_FLAG_HMAC_def FlagHMAC_def min_absorb2)
  obtain s' where "sign_and_send heap (cc_hmac_key c) (cc_hmac_key_len c) (Some s) ((c_frame ?g)\<lparr>cf_mac := replicate EIPC_MAC_SIZE 0\<rparr>) =
      Some (EIPC_OK, Some s')" "sock_open s'" "sk_conn s' = (sk_conn s)\<lparr>nc_out := nc_out (sk_conn s) @ conn_wire ?g\<rparr>"
    using sign_and_send_open [OF fits call_frame_MAC assms(3)] by blast
  then show ?thesis
    using frame assms(2,4) by (intro exI [of _ s'], cases "n = 0") (auto simp: build_and_send_def json copy Let_def zero_frame_def bind_eq_Some_conv)
qed

section \<open>Calls\<close>

text \<open>A program that uses the client is a sequence of calls, each with what the clock says; it stops at the first error.\<close>

datatype c_call =
    SendIntent bytes float
  | SendTool bytes "eipc_kv_t list option" "32 word"
  | SendHeartbeat
  | SendChat eipc_chat_request_t
  | SendComplete bytes "bytes option"

fun client_call :: "(nat \<Rightarrow> bool) \<Rightarrow> c_clock \<Rightarrow> c_call \<Rightarrow> eipc_client_t \<Rightarrow> (eipc_status_t \<times> eipc_client_t) option" where
  "client_call heap ck (SendIntent i conf) c = eipc_client_send_intent heap ck c i conf"
| "client_call heap ck (SendTool t args n) c = eipc_client_send_tool_request heap ck c t args n"
| "client_call heap ck SendHeartbeat c = eipc_client_send_heartbeat heap ck c"
| "client_call heap ck (SendChat req) c = eipc_client_send_chat heap ck c req"
| "client_call heap ck (SendComplete p s) c = eipc_client_send_complete heap ck c p s"

fun client_calls :: "(nat \<Rightarrow> bool) \<Rightarrow> (c_clock \<times> c_call) list \<Rightarrow> eipc_client_t \<Rightarrow> (eipc_status_t \<times> eipc_client_t) option" where
  "client_calls heap [] c = Some (EIPC_OK, c)"
| "client_calls heap ((ck, call) # calls) c =
     do { (rc, c) \<leftarrow> client_call heap ck call c; if rc \<noteq> EIPC_OK then Some (rc, c) else client_calls heap calls c }"

text \<open>The type, the capability and the payload of the message a call sends; no payload when its event cannot be written.\<close>

fun call_type :: "c_call \<Rightarrow> byte" where
  "call_type (SendIntent _ _) = EIPC_MSG_INTENT"
| "call_type (SendTool _ _ _) = EIPC_MSG_TOOL_REQUEST"
| "call_type SendHeartbeat = EIPC_MSG_HEARTBEAT"
| "call_type (SendChat _) = EIPC_MSG_CHAT"
| "call_type (SendComplete _ _) = EIPC_MSG_COMPLETE"

fun call_capability :: "c_call \<Rightarrow> string" where
  "call_capability (SendChat _) = ''ai:chat''"
| "call_capability (SendComplete _ _) = ''ai:chat''"
| "call_capability _ = []"

definition written :: "(eipc_status_t \<times> bytes \<times> nat) option \<Rightarrow> bytes option" where
  "written r = do { (rc, json, _) \<leftarrow> r; if rc = EIPC_OK then c_str json else None }"

fun call_payload :: "bytes \<Rightarrow> c_call \<Rightarrow> bytes option" where
  "call_payload sid (SendIntent intent conf) =
     do { i \<leftarrow> copy_str (replicate EIPC_INTENT_MAX 0) intent EIPC_INTENT_MAX;
          written (eipc_intent_to_json \<lparr>ci_intent = i, ci_confidence = conf, ci_session_id = replicate EIPC_SESSION_ID_MAX 0\<rparr>
            (replicate EIPC_MAX_PAYLOAD 0) EIPC_MAX_PAYLOAD 0) }"
| "call_payload sid (SendTool tool args arg_count) =
     do { t \<leftarrow> copy_str (replicate EIPC_TOOL_NAME_MAX 0) tool EIPC_TOOL_NAME_MAX;
          (n, a) \<leftarrow> tool_args args arg_count;
          written (eipc_tool_request_to_json \<lparr>tr_tool = t, tr_args = a, tr_arg_count = of_nat n,
              tr_permission = replicate EIPC_CAPABILITY_MAX 0, tr_audit_id = replicate EIPC_REQUEST_ID_MAX 0\<rparr>
            (replicate EIPC_MAX_PAYLOAD 0) EIPC_MAX_PAYLOAD 0) }"
| "call_payload sid SendHeartbeat =
     do { service \<leftarrow> copy_str (replicate EIPC_SERVICE_ID_MAX 0) sid EIPC_SERVICE_ID_MAX;
          status \<leftarrow> copy_str (replicate 32 0) (bytes_of_string ''alive'' @ [0]) 32;
          written (eipc_heartbeat_to_json \<lparr>chb_service = service, chb_status = status\<rparr> (replicate EIPC_MAX_PAYLOAD 0) EIPC_MAX_PAYLOAD 0) }"
| "call_payload sid (SendChat req) = written (eipc_chat_request_to_json req (replicate EIPC_MAX_PAYLOAD 0) EIPC_MAX_PAYLOAD 0)"
| "call_payload sid (SendComplete prompt session_id) =
     do { s \<leftarrow> (case session_id of None \<Rightarrow> Some [] | Some b \<Rightarrow> c_str b);
          p \<leftarrow> c_str prompt;
          let t = complete_text s p;
          if length t < EIPC_MAX_PAYLOAD then Some t else None }"

text \<open>Buffers keep their size.\<close>

lemma c_puts_length: "c_puts vs st = Some st' \<Longrightarrow> length (fst st') = length (fst st)"
  by (induction vs arbitrary: st) (auto simp: bind_eq_Some_conv c_set_def split: if_splits)

lemma print_to_length: "print_to err t buf n len = Some (rc, buf', len') \<Longrightarrow> length buf' = length buf"
  by (auto simp: print_to_def c_snprintf_def bind_eq_Some_conv dest: c_puts_length split: if_splits prod.splits)

lemma written_length:
  assumes "written r = Some p" and "\<And>rc json n. r = Some (rc, json, n) \<Longrightarrow> length json = EIPC_MAX_PAYLOAD"
  shows "\<exists>json n. r = Some (EIPC_OK, json, n) \<and> c_str json = Some p \<and> length p < EIPC_MAX_PAYLOAD \<and> length json = EIPC_MAX_PAYLOAD
    \<and> take (length p) json = p"
proof -
  obtain json n where r: "r = Some (EIPC_OK, json, n)" "c_str json = Some p"
    using assms(1) by (auto simp: written_def bind_eq_Some_conv split: if_splits)
  from c_str_length [OF r(2)] r(2) assms(2) [OF r(1)] show ?thesis using r by (auto simp: c_str_split)
qed

lemma json_lengths:
  "eipc_intent_to_json i b n l = Some (rc, b', n') \<Longrightarrow> length b' = length b"
  "eipc_heartbeat_to_json h b n l = Some (rc, b', n') \<Longrightarrow> length b' = length b"
  "eipc_chat_request_to_json q b n l = Some (rc, b', n') \<Longrightarrow> length b' = length b"
  "eipc_tool_request_to_json r b n l = Some (rc, b', n') \<Longrightarrow> length b' = length b"
  by (auto simp: eipc_intent_to_json_def eipc_heartbeat_to_json_def eipc_chat_request_to_json_def eipc_tool_request_to_json_def
      bind_eq_Some_conv split: option.splits dest!: print_to_length)

text \<open>A buffer that holds the text of a payload.\<close>

definition json_text :: "bytes \<Rightarrow> bytes \<Rightarrow> bool" where
  "json_text p json \<longleftrightarrow> c_str json = Some p \<and> length p < EIPC_MAX_PAYLOAD \<and> length p \<le> length json \<and> take (length p) json = p"

lemma written_json:
  "written (eipc_intent_to_json i (replicate EIPC_MAX_PAYLOAD 0) n l) = Some p \<Longrightarrow>
    \<exists>json k. eipc_intent_to_json i (replicate EIPC_MAX_PAYLOAD 0) n l = Some (EIPC_OK, json, k) \<and> json_text p json"
  "written (eipc_heartbeat_to_json h (replicate EIPC_MAX_PAYLOAD 0) n l) = Some p \<Longrightarrow>
    \<exists>json k. eipc_heartbeat_to_json h (replicate EIPC_MAX_PAYLOAD 0) n l = Some (EIPC_OK, json, k) \<and> json_text p json"
  "written (eipc_chat_request_to_json q (replicate EIPC_MAX_PAYLOAD 0) n l) = Some p \<Longrightarrow>
    \<exists>json k. eipc_chat_request_to_json q (replicate EIPC_MAX_PAYLOAD 0) n l = Some (EIPC_OK, json, k) \<and> json_text p json"
  "written (eipc_tool_request_to_json r (replicate EIPC_MAX_PAYLOAD 0) n l) = Some p \<Longrightarrow>
    \<exists>json k. eipc_tool_request_to_json r (replicate EIPC_MAX_PAYLOAD 0) n l = Some (EIPC_OK, json, k) \<and> json_text p json"
  unfolding json_text_def by (drule written_length, drule json_lengths, simp, fastforce)+

text \<open>What a call puts on the wire.\<close>

definition wire_frame :: "bytes \<Rightarrow> string \<Rightarrow> 64 word \<Rightarrow> c_clock \<Rightarrow> c_call \<Rightarrow> frame" where
  "wire_frame key sid seq ck call =
     call_frame key (call_type call) (obj_text (cvals (c_members (call_header sid seq ck (call_capability call)))))
       (the (call_payload (c_array EIPC_SERVICE_ID_MAX (bytes_of_string sid)) call))"

text \<open>A client connected with the given key and name.\<close>

definition client_ready :: "bytes \<Rightarrow> string \<Rightarrow> eipc_client_t \<Rightarrow> bool" where
  "client_ready key sid c \<longleftrightarrow> cc_connected c \<and> (\<exists>s. cc_sock c = Some s \<and> sock_open s) \<and> service_ok sid
     \<and> cc_service_id c = c_array EIPC_SERVICE_ID_MAX (bytes_of_string sid) \<and> take (unat (cc_hmac_key_len c)) (cc_hmac_key c) = key"

definition client_out :: "eipc_client_t \<Rightarrow> bytes" where
  "client_out c = nc_out (sk_conn (the (cc_sock c)))"

lemma capability_in: "call_capability call \<in> {[], ''ai:chat''}"
  by (cases call) simp_all

lemma client_ready_send:
  assumes "client_ready key sid c" and "n \<le> EIPC_MAX_PAYLOAD" and "n \<le> length json" and "cap \<in> {[], ''ai:chat''}"
  shows "\<exists>c'. build_and_send heap (c\<lparr>cc_sequence := q\<rparr>) t (c_header (call_header sid seq ck cap)) json n = Some (EIPC_OK, c')
    \<and> client_ready key sid c' \<and> cc_sequence c' = q
    \<and> client_out c' = client_out c @ conn_wire (call_frame key t (obj_text (cvals (c_members (call_header sid seq ck cap)))) (take n json))"
proof -
  obtain s where s: "cc_sock c = Some s" "sock_open s" and sid: "service_ok sid" using assms(1) by (auto simp: client_ready_def)
  obtain s' where "build_and_send heap (c\<lparr>cc_sequence := q\<rparr>) t (c_header (call_header sid seq ck cap)) json n =
      Some (EIPC_OK, c\<lparr>cc_sequence := q, cc_sock := Some s'\<rparr>)" "sock_open s'"
    "nc_out (sk_conn s') = nc_out (sk_conn s) @ conn_wire (call_frame key t (obj_text (cvals (c_members (call_header sid seq ck cap)))) (take n json))"
    using build_and_send_open [OF call_header_ok(1) [OF sid assms(4)], of "c\<lparr>cc_sequence := q\<rparr>" s n json heap t seq ck] s assms(1-3)
    by (auto simp: client_ready_def)
  then show ?thesis using assms(1) s by (auto simp: client_ready_def client_out_def)
qed

lemma client_call_ready:
  assumes ready: "client_ready key sid c" and p: "call_payload (cc_service_id c) call = Some p"
  shows "\<exists>c'. client_call heap ck call c = Some (EIPC_OK, c') \<and> client_ready key sid c' \<and> cc_sequence c' = cc_sequence c + 1
    \<and> client_out c' = client_out c @ conn_wire (wire_frame key sid (cc_sequence c + 1) ck call)" and "length p < EIPC_MAX_PAYLOAD"
proof -
  have c: "cc_connected c" "service_ok sid" "cc_service_id c = c_array EIPC_SERVICE_ID_MAX (bytes_of_string sid)"
    using ready by (auto simp: client_ready_def)
  note hdr = fill_header_call [OF c(2), of "cc_sequence c + 1" ck]
  obtain cap where cap: "copy_str (ch_capability (c_header (call_header sid (cc_sequence c + 1) ck []))) (bytes_of_string ''ai:chat'' @ [0]) EIPC_CAPABILITY_MAX =
      Some cap" "(c_header (call_header sid (cc_sequence c + 1) ck []))\<lparr>ch_capability := cap\<rparr> = c_header (call_header sid (cc_sequence c + 1) ck ''ai:chat'')"
    using capability_call [of sid "cc_sequence c + 1" ck] by auto
  have "\<exists>json. length p < EIPC_MAX_PAYLOAD \<and> length p \<le> length json \<and> take (length p) json = p \<and>
      client_call heap ck call c = build_and_send heap (c\<lparr>cc_sequence := cc_sequence c + 1\<rparr>) (call_type call)
        (c_header (call_header sid (cc_sequence c + 1) ck (call_capability call))) json (length p)"
  proof (cases call)
    case (SendComplete prompt session_id)
    then obtain s t where st: "(case session_id of None \<Rightarrow> Some [] | Some b \<Rightarrow> c_str b) = Some s" "c_str prompt = Some t"
      "p = complete_text s t" "length p < EIPC_MAX_PAYLOAD" using p by (auto simp: bind_eq_Some_conv Let_def split: if_splits)
    then show ?thesis
      using SendComplete c hdr cap snprintf_array [OF st(4)]
      by (intro exI [of _ "c_array EIPC_MAX_PAYLOAD p"]) (auto simp: eipc_client_send_complete_def Let_def c_array_def)
  qed (use p c hdr cap in \<open>auto simp: eipc_client_send_intent_def eipc_client_send_tool_request_def eipc_client_send_heartbeat_def
      eipc_client_send_chat_def Let_def bind_eq_Some_conv json_text_def dest!: written_json\<close>)
  then obtain json where json: "length p < EIPC_MAX_PAYLOAD" "length p \<le> length json" "take (length p) json = p"
    "client_call heap ck call c = build_and_send heap (c\<lparr>cc_sequence := cc_sequence c + 1\<rparr>) (call_type call)
        (c_header (call_header sid (cc_sequence c + 1) ck (call_capability call))) json (length p)" by blast
  show "length p < EIPC_MAX_PAYLOAD" by (rule json(1))
  show "\<exists>c'. client_call heap ck call c = Some (EIPC_OK, c') \<and> client_ready key sid c' \<and> cc_sequence c' = cc_sequence c + 1
    \<and> client_out c' = client_out c @ conn_wire (wire_frame key sid (cc_sequence c + 1) ck call)"
    using client_ready_send [OF ready _ json(2) capability_in, of heap "cc_sequence c + 1" "call_type call" "cc_sequence c + 1" ck call] json p c(3)
    by (simp add: wire_frame_def)
qed

fun wire_frames :: "bytes \<Rightarrow> string \<Rightarrow> 64 word \<Rightarrow> (c_clock \<times> c_call) list \<Rightarrow> frame list" where
  "wire_frames key sid n [] = []"
| "wire_frames key sid n ((ck, call) # calls) = wire_frame key sid (n + 1) ck call # wire_frames key sid (n + 1) calls"

definition writable :: "string \<Rightarrow> c_call \<Rightarrow> bool" where
  "writable sid call \<longleftrightarrow> call_payload (c_array EIPC_SERVICE_ID_MAX (bytes_of_string sid)) call \<noteq> None"

lemma client_calls_ready:
  assumes "client_ready key sid c" and "\<forall>(ck, call) \<in> set calls. writable sid call"
  shows "\<exists>c'. client_calls heap calls c = Some (EIPC_OK, c') \<and> client_ready key sid c'
    \<and> client_out c' = client_out c @ concat (map conn_wire (wire_frames key sid (cc_sequence c) calls))"
  using assms
proof (induction calls arbitrary: c)
  case (Cons x calls)
  obtain ck call where x: "x = (ck, call)" by (cases x)
  obtain p where "call_payload (cc_service_id c) call = Some p" using Cons.prems by (auto simp: writable_def client_ready_def x)
  from client_call_ready(1) [OF Cons.prems(1) this, of heap ck]
  obtain c1 where c1: "client_call heap ck call c = Some (EIPC_OK, c1)" "client_ready key sid c1" "cc_sequence c1 = cc_sequence c + 1"
    "client_out c1 = client_out c @ conn_wire (wire_frame key sid (cc_sequence c + 1) ck call)" by blast
  with Cons.IH [OF c1(2)] Cons.prems(2) show ?case by (auto simp: x)
qed simp

text \<open>The message a Go endpoint makes of a call. The timestamp of the C client is a number of seconds, which is not in the format of RFC 3339.\<close>

definition call_message :: "string \<Rightarrow> c_clock \<times> c_call \<Rightarrow> Message" where
  "call_message sid x = (case x of (ck, call) \<Rightarrow>
     \<lparr>m_Version = ProtocolVersion, m_Type = msgTypeFromByte (call_type call), m_Source = sid, m_Timestamp = 0, m_SessionID = [],
      m_RequestID = string_of_bytes (new_request_id ck), m_Priority = PriorityP1, m_Capability = call_capability call,
      m_Payload = the (call_payload (c_array EIPC_SERVICE_ID_MAX (bytes_of_string sid)) call)\<rparr>)"

lemma num_rest: "num w acc s = Some (n, r) \<Longrightarrow> set r \<subseteq> set s"
  by (induction w acc s rule: num.induct) (auto split: option.splits)

lemma Parse_needs_dash: "CHR ''-'' \<notin> set s \<Longrightarrow> Parse_RFC3339Nano s = None"
proof -
  assume "CHR ''-'' \<notin> set s"
  then have "lit CHR ''-'' r = None" if "num 4 0 s = Some (n, r)" for n r
    using num_rest [OF that] by (auto simp: lit_def split: list.splits)
  then show ?thesis by (auto simp: Parse_RFC3339Nano_def split: Option.bind_splits)
qed

lemma Parse_seconds: "Parse_RFC3339Nano (string_of_bytes (itoa n)) = None"
proof (rule Parse_needs_dash, rule notI)
  assume "CHR ''-'' \<in> set (string_of_bytes (itoa n))"
  then have "of_char CHR ''-'' \<in> set (bytes_of_string (string_of_bytes (itoa n)))" unfolding bytes_of_string_def by (simp only: set_map imageI)
  then have "(of_char CHR ''-'' :: byte) \<in> set (itoa n)" by (simp only: bytes_of_string_of_bytes)
  moreover have "\<not> is_digit (of_char CHR ''-'')" by code_simp
  ultimately show False using itoa_digits [of n] unfolding list_all_iff by blast
qed

lemma open_wire_frame:
  assumes "service_ok sid"
  shows "open_frame DefaultCodec key (wire_frame key sid seq ck call) = Inr (call_header sid seq ck (call_capability call))"
    and "frame_message (wire_frame key sid seq ck call) (call_header sid seq ck (call_capability call)) = call_message sid (ck, call)"
proof -
  let ?h = "call_header sid seq ck (call_capability call)"
  have "html_safe_header ?h" by (rule call_header_ok(2) [OF assms capability_in])
  then have "JSONCodec_Unmarshal (obj_text (cvals (c_members ?h))) = (None, ?h)"
    by (intro go_reads_c_text) (auto simp: html_safe_header_def call_header_def)
  then show "open_frame DefaultCodec key (wire_frame key sid seq ck call) = Inr ?h"
    by (simp add: open_frame_def wire_frame_def call_frame_MAC DefaultCodec_def)
  show "frame_message (wire_frame key sid seq ck call) ?h = call_message sid (ck, call)"
    by (simp add: frame_message_def call_message_def wire_frame_def call_header_def Parse_seconds PriorityP1_def)
qed

lemma wire_frame_ok:
  assumes "service_ok sid" and "writable sid call"
  shows "c_fits (wire_frame key sid seq ck call)" and "conn_ok (wire_frame key sid seq ck call)"
proof -
  let ?c = "\<lparr>cc_sock = Some \<lparr>sk_conn = open_conn [], sk_takes = []\<rparr>, cc_service_id = c_array EIPC_SERVICE_ID_MAX (bytes_of_string sid),
      cc_hmac_key = [], cc_hmac_key_len = 0, cc_sequence = 0, cc_connected = True\<rparr>"
  have "client_ready [] sid ?c" using assms(1) by (simp add: client_ready_def sock_open_def)
  with assms(2) have p: "length (the (call_payload (c_array EIPC_SERVICE_ID_MAX (bytes_of_string sid)) call)) < EIPC_MAX_PAYLOAD"
    using client_call_ready(2) [of "[]" sid ?c call] by (auto simp: writable_def)
  have "length (obj_text (cvals (c_members (call_header sid seq ck (call_capability call))))) < EIPC_MAX_HEADER"
    by (rule c_header_text_length [OF call_header_ok(1) [OF assms(1) capability_in]])
  with p show fits: "c_fits (wire_frame key sid seq ck call)" unfolding wire_frame_def by (intro call_frame_fits) auto
  from length_go_wire_bound [OF c_frame_ok_c_frame [OF fits]] fits show "conn_ok (wire_frame key sid seq ck call)"
    by (simp add: conn_ok_def go_c_frame [OF fits] c_sizes MaxFrameSize_def c_fits_def)
qed

lemma server_receives_call:
  assumes "se_codec e = DefaultCodec" and "se_hmacKey e = key" and "service_ok sid" and "conn_inbox (se_conn e) (wire_frame key sid seq ck call # fs)"
    and "tracks (se_replay e) H" and "hist_max H < unat seq"
  shows "\<exists>e'. ServerEndpoint_Receive tcp_recv e = Some (Inr (call_message sid (ck, call)), e') \<and> se_codec e' = DefaultCodec \<and> se_hmacKey e' = key
    \<and> conn_inbox (se_conn e') fs \<and> tracks (se_replay e') (insert seq H)"
proof -
  obtain d where d: "tcp_recv (se_conn e) = Some (Inr (wire_frame key sid seq ck call), d)" "conn_inbox d fs"
    using tcpconn.recv_next [OF assms(4)] by blast
  have "replay_accepts (unat (t_windowSize (se_replay e))) H seq"
    using assms(6) tracks_fresh [OF assms(5,6)] by (auto simp: replay_accepts_def)
  from Tracker_Check_accept [OF assms(5) this] obtain t where "Tracker_Check (se_replay e) seq = (None, t)" "tracks t (insert seq H)" by blast
  then show ?thesis
    using d assms(1,2) open_wire_frame [OF assms(3), of key seq ck call] by (simp add: ServerEndpoint_Receive_def call_header_def)
qed

lemma server_receives_calls:
  assumes "se_codec e = DefaultCodec" and "se_hmacKey e = key" and "service_ok sid" and "conn_inbox (se_conn e) (wire_frames key sid n calls)"
    and "tracks (se_replay e) H" and "hist_max H \<le> unat n" and "unat n + length calls < 2 ^ 64"
  shows "\<exists>e'. recv_all (ServerEndpoint_Receive tcp_recv) (length calls) e = Some (Inr (map (call_message sid) calls), e')"
  using assms
proof (induction calls arbitrary: e n H)
  case (Cons x calls)
  obtain ck call where x: "x = (ck, call)" by (cases x)
  have n: "unat (n + 1) = unat n + 1" using Cons.prems(7) unat_add_lem [of n 1] by simp
  have fin: "finite H" using Cons.prems(5) by (simp add: tracks_def)
  from server_receives_call [OF Cons.prems(1-3), of "n + 1" ck call "wire_frames key sid (n + 1) calls" H]
  obtain e1 where e1: "ServerEndpoint_Receive tcp_recv e = Some (Inr (call_message sid (ck, call)), e1)" "se_codec e1 = DefaultCodec"
    "se_hmacKey e1 = key" "conn_inbox (se_conn e1) (wire_frames key sid (n + 1) calls)" "tracks (se_replay e1) (insert (n + 1) H)"
    using Cons.prems(4-6) n by (auto simp: x)
  have "hist_max (insert (n + 1) H) \<le> unat (n + 1)" "unat (n + 1) + length calls < 2 ^ 64"
    using Cons.prems(6,7) n by (simp_all add: hist_max_insert [OF fin])
  from Cons.IH [OF e1(2,3) Cons.prems(3) e1(4,5) this] e1(1) show ?case by (auto simp: x)
qed simp

lemma client_connect_ready:
  assumes "service_ok sid" and "length sid < m" and "c_str hkey = Some key" and "length key \<le> EIPC_MAC_SIZE"
    and "eipc_transport_connect os None address = Some (EIPC_OK, Some s)" and "sock_open s"
  shows "\<exists>c0 c1. eipc_client_init (c_array m (bytes_of_string sid)) = Some (EIPC_OK, c0) \<and> eipc_client_connect os c0 address hkey = Some (EIPC_OK, c1)
    \<and> client_ready key sid c1 \<and> cc_sequence c1 = 0 \<and> client_out c1 = nc_out (sk_conn s)"
proof -
  have "0 \<notin> set (bytes_of_string sid)" "length (bytes_of_string sid) < EIPC_SERVICE_ID_MAX" "length (bytes_of_string sid) < m"
    using assms(1,2) plain_zero by (auto simp: service_ok_def)
  note init = copy_str_array [OF this]
  have key: "c_memcpy (replicate EIPC_MAC_SIZE 0) 0 key 0 (length key) = Some (overwrite (replicate EIPC_MAC_SIZE 0) 0 key)"
    "unat (of_nat (length key) :: 32 word) = length key"
    using assms(4) by (simp_all add: c_memcpy_eq EIPC_MAC_SIZE_def unat_of_nat_small)
  have "take (length key) (overwrite (replicate EIPC_MAC_SIZE 0) 0 key) = key" using assms(4) by simp
  then show ?thesis
    using assms init key by (simp add: eipc_client_init_def eipc_client_connect_def client_ready_def client_out_def Let_def)
qed

section \<open>Receiving a frame\<close>

lemma check_mac_c_frame:
  assumes "c_fits g"
  shows "check_mac heap key klen (c_frame g) =
    Some (if has_flag (f_Flags g) FlagHMAC \<and> \<not> Verify (take (unat klen) key) (SignableBytes g) (f_MAC g) then Some EIPC_ERR_AUTH else None)"
proof -
  obtain b where b: "eipc_frame_signable_bytes (c_frame g) (replicate EIPC_FRAME_BUF_SIZE 0) EIPC_FRAME_BUF_SIZE = Some (length (SignableBytes g), b)"
    "take (length (SignableBytes g)) b = SignableBytes g" using signable_c_frame [OF assms] by blast
  have len: "length (SignableBytes g) \<le> 65536" "SignableBytes g \<noteq> []" using signable_length [OF assms] by (auto simp: c_sizes)
  have mac: "has_mac (c_frame g) = has_flag (f_Flags g) FlagHMAC" by (simp add: has_mac_go c_frame_def)
  show ?thesis
  proof (cases "has_flag (f_Flags g) FlagHMAC")
    case True
    then have "cf_mac (c_frame g) = f_MAC g" "length (f_MAC g) = 32"
      using c_fits_lengths(4) [OF assms] by (simp_all add: c_frame_def overwrite_def EIPC_MAC_SIZE_def)
    with True show ?thesis using b len mac c_hmac_verify_eq [of "SignableBytes g" _ "f_MAC g"] by (simp add: check_mac_def)
  qed (simp add: check_mac_def mac)
qed

text \<open>The message of a frame, given its header.\<close>

definition c_message :: "frame \<Rightarrow> Header \<Rightarrow> eipc_message_t" where
  "c_message g h = \<lparr>ms_version = f_Version g, ms_msg_type = f_MsgType g, ms_source = c_array EIPC_SERVICE_ID_MAX (bytes_of_string (hd_ServiceID h)),
     ms_session_id = c_array EIPC_SESSION_ID_MAX (bytes_of_string (hd_SessionID h)),
     ms_request_id = c_array EIPC_REQUEST_ID_MAX (bytes_of_string (hd_RequestID h)), ms_priority = hd_Priority h,
     ms_capability = c_array EIPC_CAPABILITY_MAX (bytes_of_string (hd_Capability h)),
     ms_payload = overwrite (replicate EIPC_MAX_PAYLOAD 0) 0 (f_Payload g), ms_payload_len = of_nat (length (f_Payload g))\<rparr>"

lemma strncpy_array:
  assumes "0 \<notin> set s" and "length s < n"
  shows "c_strncpy (replicate n 0) (c_array n s) (n - 1) = Some (c_array n s)"
proof -
  obtain b where b: "c_strncpy (replicate n 0) (c_array n s) (n - 1) = Some b" "b[n - 1 := 0] = c_array n s"
    using copy_str_array [OF assms assms(2)] by (auto simp: copy_str_def bind_eq_Some_conv c_set_def split: if_splits)
  moreover have "length (takeWhile (\<lambda>c. c \<noteq> 0) (take (n - 1) (c_array n s))) \<le> n - 1" by (rule order_trans [OF length_takeWhile_le]) simp
  ultimately have "b ! (n - 1) = 0" using assms(2)
    by (auto simp: c_strncpy_def Let_def nth_append split: if_splits)
  then have "b[n - 1 := 0] = b" by (metis list_update_id)
  with b show ?thesis by simp
qed

lemma fill_message_c_header:
  assumes "c_fits g" and "c_header_ok h"
    and "copy = copy_str \<or> copy = (\<lambda>dst src n. c_strncpy dst src (n - 1))"
  shows "fill_message copy (c_frame g) (c_header h) = Some (EIPC_OK, c_message g h)"
proof -
  have copy: "copy (replicate n 0) (c_array n s) n = Some (c_array n s)" if "0 \<notin> set s" "length s < n" for n s
    using assms(3) copy_str_array [OF that that(2)] strncpy_array [OF that] by auto
  have strs: "0 \<notin> set (bytes_of_string s) \<and> length (bytes_of_string s) < n" if "c_text n s" for n s
    using that by (simp add: c_text_def plain_def)
  have len: "unat (of_nat (length (f_Payload g)) :: 32 word) = length (f_Payload g)" "length (f_Payload g) \<le> EIPC_MAX_PAYLOAD"
    using assms(1) c_fits_lengths(2) by (auto simp: c_fits_def)
  have p: "c_memcpy (replicate EIPC_MAX_PAYLOAD 0) 0 (overwrite (replicate EIPC_MAX_PAYLOAD 0) 0 (f_Payload g)) 0 (length (f_Payload g)) =
      Some (overwrite (replicate EIPC_MAX_PAYLOAD 0) 0 (f_Payload g))"
    using len(2) by (simp add: c_memcpy_eq)
  show ?thesis
    using assms(2) strs len p
    by (auto simp: fill_message_def Let_def zero_message_def c_header_def c_message_def c_header_ok_def copy c_frame_def)
qed

lemma client_receive_c_fits:
  assumes "cc_connected c" and "cc_sock c = Some s" and "\<not> nc_closed (sk_conn s)" and "c_fits g" and "sk_stream s = conn_wire g @ rest"
    and "heap (length (wire g))" and "has_flag (f_Flags g) FlagHMAC \<longrightarrow> Verify (take (unat (cc_hmac_key_len c)) (cc_hmac_key c)) (SignableBytes g) (f_MAC g)"
    and "c_header_ok h" and "eipc_header_from_json (cf_header (c_frame g)) zero_header = Some (EIPC_OK, c_header h)"
  shows "\<exists>s'. eipc_client_receive heap c msg = Some (EIPC_OK, c_message g h, c\<lparr>cc_sock := Some s'\<rparr>) \<and> sk_stream s' = rest"
proof -
  obtain s' where "eipc_transport_recv_frame heap s zero_frame = Some (EIPC_OK, c_frame g, s')" "sk_stream s' = rest"
    using recv_frame_wire [OF assms(3-5), of heap zero_frame] assms(6) by blast
  moreover have "check_mac heap (cc_hmac_key c) (cc_hmac_key_len c) (c_frame g) = Some None" using check_mac_c_frame [OF assms(4)] assms(7) by auto
  moreover have "fill_message copy_str (c_frame g) (c_header h) = Some (EIPC_OK, c_message g h)" by (rule fill_message_c_header [OF assms(4,8)]) simp
  ultimately show ?thesis using assms(1,2,9) by (intro exI [of _ s']) (simp add: eipc_client_receive_def Let_def)
qed

text \<open>The header text of the Go package fits the array of the C frame and leaves room for a zero byte.\<close>

lemma go_header_text:
  assumes "c_header_ok h" and "html_safe_header h" and "hd_Route h = []"
  shows "\<exists>t. JSONCodec_Marshal h = Inr t \<and> length t < EIPC_MAX_HEADER \<and> (\<forall>rest. eipc_header_from_json (t @ 0 # rest) zero_header = Some (EIPC_OK, c_header h))"
proof -
  let ?t = "obj_text (cvals (header_members h))"
  have "list_all (\<lambda>(k, v). list_all html_safe (bytes_of_string k) \<and> safe_val v) (header_members h)"
    using assms(2,3) by (simp add: header_members_def omitempty_def html_safe_header_def, simp add: bytes_of_string_def html_safe_def)
  then have "JSONCodec_Marshal h = Inr ?t" by (simp add: JSONCodec_Marshal_def json_Marshal_def fmt_object_json)
  moreover have "length ?t < EIPC_MAX_HEADER"
  proof -
    have "unat (hd_Sequence h) < 10 ^ Suc 19" "unat (hd_Priority h) < 10 ^ Suc 2" "unat (hd_PayloadFormat h) < 10 ^ Suc 2"
      using unat_word_bounds(1) [of "hd_Sequence h"] unat_word_bounds(2) [of "hd_Priority h"] unat_word_bounds(2) [of "hd_PayloadFormat h"] by simp_all
    from this [THEN length_itoa] show ?thesis
      using assms(1,3) by (simp add: header_members_def omitempty_def obj_text_def fmt_object_def fmt_member_def quoted_def c_header_ok_def c_text_def
          c_limits EIPC_MAX_HEADER_def)
  qed
  ultimately show ?thesis using header_from_go_text [OF assms(1,3)] by blast
qed

section \<open>Properties\<close>


lemma heartbeat_writable:
  assumes "service_ok sid"
  shows "writable sid SendHeartbeat"
proof -
  have sid: "0 \<notin> set (bytes_of_string sid)" "length (bytes_of_string sid) < EIPC_SERVICE_ID_MAX"
    using assms plain_zero by (auto simp: service_ok_def)
  have alive: "0 \<notin> set (bytes_of_string ''alive'')" "bytes_of_string ''alive'' @ [0] = c_array 6 (bytes_of_string ''alive'')"
    by (simp_all add: bytes_of_string_def c_array_def)
  let ?t = "fmt_object [(''service'', quoted (bytes_of_string sid)), (''status'', quoted (bytes_of_string ''alive''))]"
  have "length ?t < EIPC_MAX_PAYLOAD" using sid(2) by (simp add: fmt_object_def fmt_member_def quoted_def c_limits EIPC_MAX_PAYLOAD_def)
  then have "print_to EIPC_ERR_BUFFER ?t (replicate EIPC_MAX_PAYLOAD 0) EIPC_MAX_PAYLOAD 0 =
      Some (EIPC_OK, overwrite (replicate EIPC_MAX_PAYLOAD 0) 0 (?t @ [0]), length ?t)" by (simp add: print_to_fits)
  moreover have "c_str (overwrite (replicate EIPC_MAX_PAYLOAD 0) 0 (?t @ [0])) \<noteq> None" by (simp add: c_str_None overwrite_def)
  ultimately show ?thesis
    using copy_str_array [OF sid sid(2)] copy_str_array [OF alive(1), of 32 6] sid alive
    by (simp add: writable_def written_def eipc_heartbeat_to_json_def)
qed

definition example_socket :: c_socket where
  "example_socket = \<lparr>sk_conn = open_conn [], sk_takes = [1, 3]\<rparr>"

definition example_os :: c_os where
  "example_os = \<lparr>os_socket = True, os_pton = (\<lambda>_. Some 0x7F000001), os_connect = (\<lambda>_ _. Some example_socket), os_bind = (\<lambda>_ _. True),
     os_listen = True, os_accept = None\<rparr>"

definition example_clock :: c_clock where
  "example_clock = \<lparr>ck_id_time = 1700000000, ck_rand = 77, ck_time = 1700000001\<rparr>"



lemma example_message_header: "c_header_ok (endpoint_header 1 example_message)" "html_safe_header (endpoint_header 1 example_message)"
proof -
  have "Format_RFC3339Nano (m_Timestamp example_message) = ''2026-06-26T00:00:00Z''" by code_simp
  then have "endpoint_header 1 example_message = \<lparr>hd_ServiceID = ''eni.min'', hd_SessionID = [], hd_RequestID = ''req-1'', hd_Sequence = 1,
      hd_Timestamp = ''2026-06-26T00:00:00Z'', hd_Priority = m_Priority example_message, hd_Capability = [], hd_Route = [], hd_PayloadFormat = PayloadJSON\<rparr>"
    by (simp add: endpoint_header_def example_message_def NewMessage_def)
  then show "c_header_ok (endpoint_header 1 example_message)" "html_safe_header (endpoint_header 1 example_message)"
    by (simp_all add: c_header_ok_def html_safe_header_def c_text_def c_limits header_keys_def plain_def html_safe_def bytes_of_string_def)
qed


end
