(* ===== verification/CServer.thy ===== *)
theory CServer
  imports CClient
begin

text \<open>
  \<^verbatim>\<open>sdk/c/src/eipc_server.c\<close>: the server of the C SDK and its connections.
\<close>

section \<open>The server\<close>

record eipc_conn_t =
  cn_sock :: "c_socket option"
  cn_hmac_key :: bytes
  cn_hmac_key_len :: "32 word"
  cn_sequence :: "64 word"
  cn_remote_addr :: bytes

record eipc_server_t =
  sv_listen_sock :: "c_listener option"
  sv_hmac_key :: bytes
  sv_hmac_key_len :: "32 word"

definition eipc_server_init :: "eipc_status_t \<times> eipc_server_t" where
  "eipc_server_init = (EIPC_OK, \<lparr>sv_listen_sock = None, sv_hmac_key = replicate EIPC_MAC_SIZE 0, sv_hmac_key_len = 0\<rparr>)"

definition eipc_server_listen :: "c_os \<Rightarrow> eipc_server_t \<Rightarrow> bytes \<Rightarrow> bytes \<Rightarrow> (eipc_status_t \<times> eipc_server_t) option" where
  "eipc_server_listen os s address hkey =
     do { k \<leftarrow> c_str hkey;
          if length k > EIPC_MAC_SIZE then Some (EIPC_ERR_INVALID, s)
          else do { key \<leftarrow> c_memcpy (sv_hmac_key s) 0 k 0 (length k);
                    (rc, l) \<leftarrow> eipc_transport_listen os (sv_listen_sock s) address;
                    Some (rc, s\<lparr>sv_hmac_key := key, sv_hmac_key_len := of_nat (length k), sv_listen_sock := l\<rparr>) } }"

definition eipc_server_accept :: "c_os \<Rightarrow> eipc_server_t \<Rightarrow> eipc_conn_t \<Rightarrow> (eipc_status_t \<times> eipc_conn_t) option" where
  "eipc_server_accept os s conn =
     (if sv_listen_sock s = None then Some (EIPC_ERR_INVALID, conn)
      else do { key \<leftarrow> c_memcpy (replicate EIPC_MAC_SIZE 0) 0 (sv_hmac_key s) 0 (unat (sv_hmac_key_len s));
                (rc, sock, addr) \<leftarrow> eipc_transport_accept os (replicate 128 0) 128;
                Some (rc, \<lparr>cn_sock = sock, cn_hmac_key = key, cn_hmac_key_len = sv_hmac_key_len s, cn_sequence = 0, cn_remote_addr = addr\<rparr>) })"

definition eipc_server_receive :: "(nat \<Rightarrow> bool) \<Rightarrow> eipc_conn_t \<Rightarrow> eipc_message_t \<Rightarrow> (eipc_status_t \<times> eipc_message_t \<times> eipc_conn_t) option" where
  "eipc_server_receive heap conn msg =
     (case cn_sock conn of
        None \<Rightarrow> Some (EIPC_ERR_INVALID, msg, conn)
      | Some s \<Rightarrow>
         do { (rc, frame, s) \<leftarrow> eipc_transport_recv_frame heap s zero_frame;
              let conn = conn\<lparr>cn_sock := Some s\<rparr>;
              if rc \<noteq> EIPC_OK then Some (rc, msg, conn)
              else do {
                failed \<leftarrow> check_mac heap (cn_hmac_key conn) (cn_hmac_key_len conn) frame;
                case failed of
                  Some rc \<Rightarrow> Some (rc, msg, conn)
                | None \<Rightarrow>
                   do { (rc, hdr) \<leftarrow> eipc_header_from_json (cf_header frame) zero_header;
                        if rc \<noteq> EIPC_OK then Some (rc, zero_message\<lparr>ms_msg_type := cf_msg_type frame, ms_version := cf_version frame\<rparr>, conn)
                        else do { (rc, msg) \<leftarrow> fill_message (\<lambda>dst src n. c_strncpy dst src (n - 1)) frame hdr;
                                  Some (rc, msg, if rc = EIPC_OK then conn\<lparr>cn_sequence := cn_sequence conn + 1\<rparr> else conn) } } } })"

text \<open>The frame with the header and, if it fits, the payload; the rest of both functions that send.\<close>

definition server_frame :: "byte \<Rightarrow> eipc_header_t \<Rightarrow> (eipc_status_t \<times> eipc_frame_t) option" where
  "server_frame msg_type hdr =
     do { let frame = zero_frame\<lparr>cf_version := EIPC_PROTOCOL_VER, cf_msg_type := msg_type, cf_flags := EIPC_FLAG_HMAC\<rparr>;
          (rc, header_json, n) \<leftarrow> eipc_header_to_json hdr (replicate EIPC_MAX_HEADER 0) EIPC_MAX_HEADER 0;
          if rc \<noteq> EIPC_OK then Some (rc, frame)
          else do { header \<leftarrow> c_memcpy (cf_header frame) 0 header_json 0 n;
                    Some (EIPC_OK, frame\<lparr>cf_header := header, cf_header_len := of_nat n\<rparr>) } }"

definition eipc_server_send_ack ::
  "(nat \<Rightarrow> bool) \<Rightarrow> 64 word \<Rightarrow> eipc_conn_t \<Rightarrow> bytes option \<Rightarrow> bytes \<Rightarrow> (eipc_status_t \<times> eipc_conn_t) option" where
  "eipc_server_send_ack heap now conn request_id status =
     do { let hdr = zero_header;
          sid \<leftarrow> c_strncpy (ch_service_id hdr) (bytes_of_string ''eipc-server'' @ [0]) (EIPC_SERVICE_ID_MAX - 1);
          rid \<leftarrow> (case request_id of None \<Rightarrow> Some (ch_request_id hdr) | Some r \<Rightarrow> c_strncpy (ch_request_id hdr) r (EIPC_REQUEST_ID_MAX - 1));
          let conn = conn\<lparr>cn_sequence := cn_sequence conn + 1\<rparr>;
          ts \<leftarrow> eipc_timestamp_now now (ch_timestamp hdr) EIPC_TIMESTAMP_MAX;
          let hdr = hdr\<lparr>ch_service_id := sid, ch_request_id := rid, ch_sequence := cn_sequence conn, ch_timestamp := ts,
                ch_priority := EIPC_PRIORITY_P0, ch_payload_format := EIPC_PAYLOAD_JSON\<rparr>;
          (rc, frame) \<leftarrow> server_frame EIPC_MSG_ACK hdr;
          if rc \<noteq> EIPC_OK then Some (rc, conn)
          else do {
            r \<leftarrow> (case request_id of None \<Rightarrow> Some [] | Some b \<Rightarrow> c_str b);
            st \<leftarrow> c_str status;
            (plen, payload_json) \<leftarrow> c_snprintf (replicate EIPC_MAX_PAYLOAD 0) 0 EIPC_MAX_PAYLOAD
                (fmt_object [(''request_id'', quoted r), (''status'', quoted st), (''error'', quoted [])]);
            frame \<leftarrow> (if plen < EIPC_MAX_PAYLOAD
                      then do { p \<leftarrow> c_memcpy (cf_payload frame) 0 payload_json 0 plen;
                                Some (frame\<lparr>cf_payload := p, cf_payload_len := of_nat plen\<rparr>) }
                      else Some frame);
            (rc, sock) \<leftarrow> sign_and_send heap (cn_hmac_key conn) (cn_hmac_key_len conn) (cn_sock conn) frame;
            Some (rc, conn\<lparr>cn_sock := sock\<rparr>)
          } }"

definition eipc_server_send_message ::
  "(nat \<Rightarrow> bool) \<Rightarrow> 64 word \<Rightarrow> eipc_conn_t \<Rightarrow> eipc_message_t \<Rightarrow> (eipc_status_t \<times> eipc_conn_t) option" where
  "eipc_server_send_message heap now conn msg =
     do { let hdr = zero_header;
          sid \<leftarrow> c_strncpy (ch_service_id hdr) (ms_source msg) (EIPC_SERVICE_ID_MAX - 1);
          ses \<leftarrow> c_strncpy (ch_session_id hdr) (ms_session_id msg) (EIPC_SESSION_ID_MAX - 1);
          rid \<leftarrow> c_strncpy (ch_request_id hdr) (ms_request_id msg) (EIPC_REQUEST_ID_MAX - 1);
          let conn = conn\<lparr>cn_sequence := cn_sequence conn + 1\<rparr>;
          ts \<leftarrow> eipc_timestamp_now now (ch_timestamp hdr) EIPC_TIMESTAMP_MAX;
          cap \<leftarrow> c_strncpy (ch_capability hdr) (ms_capability msg) (EIPC_CAPABILITY_MAX - 1);
          let hdr = hdr\<lparr>ch_service_id := sid, ch_session_id := ses, ch_request_id := rid, ch_sequence := cn_sequence conn, ch_timestamp := ts,
                ch_priority := ms_priority msg, ch_capability := cap, ch_payload_format := EIPC_PAYLOAD_JSON\<rparr>;
          (rc, frame) \<leftarrow> server_frame (ms_msg_type msg) hdr;
          if rc \<noteq> EIPC_OK then Some (rc, conn)
          else if unat (ms_payload_len msg) > EIPC_MAX_PAYLOAD then Some (EIPC_ERR_FRAME_TOO_LARGE, conn)
          else do {
            frame \<leftarrow> (if unat (ms_payload_len msg) > 0
                      then do { p \<leftarrow> c_memcpy (cf_payload frame) 0 (ms_payload msg) 0 (unat (ms_payload_len msg));
                                Some (frame\<lparr>cf_payload := p, cf_payload_len := ms_payload_len msg\<rparr>) }
                      else Some frame);
            (rc, sock) \<leftarrow> sign_and_send heap (cn_hmac_key conn) (cn_hmac_key_len conn) (cn_sock conn) frame;
            Some (rc, conn\<lparr>cn_sock := sock\<rparr>)
          } }"

definition eipc_conn_close :: "eipc_conn_t \<Rightarrow> eipc_conn_t" where
  "eipc_conn_close conn = conn\<lparr>cn_sock := None\<rparr>"

definition eipc_server_close :: "eipc_server_t \<Rightarrow> eipc_server_t" where
  "eipc_server_close s = s\<lparr>sv_listen_sock := None\<rparr>"

section \<open>Receiving\<close>

lemma recv_frame_c_fits:
  assumes "\<not> nc_closed (sk_conn s)" and "eipc_transport_recv_frame heap s frame = Some (EIPC_OK, f, s')"
  shows "\<exists>g. c_fits g \<and> f = c_frame g"
proof -
  let ?n = "unat (Uint32 (take 4 (sk_stream s)))" and ?b = "sk_stream s"
  have "\<exists>s''. eipc_frame_decode (take ?n (drop 4 ?b)) ?n frame \<bind> (\<lambda>(rc, frame). Some (rc, frame, s'')) = Some (EIPC_OK, f, s') \<and> 4 + ?n \<le> length ?b"
    using recv_frame_eq [OF assms(1), of heap frame] assms(2) by (auto simp: Let_def not_less split: if_splits)
  then have "eipc_frame_decode (take ?n (drop 4 ?b)) ?n frame = Some (EIPC_OK, f)" "?n \<le> length (take ?n (drop 4 ?b))"
    by (auto simp: bind_eq_Some_conv)
  then show ?thesis using eipc_frame_decode_ok_iff by blast
qed

text \<open>The type of a message: its arrays have the declared sizes, hold strings, and the payload lies within its array.\<close>

definition c_message_typed :: "eipc_message_t \<Rightarrow> bool" where
  "c_message_typed m \<longleftrightarrow> c_field_ok EIPC_SERVICE_ID_MAX (ms_source m) \<and> c_field_ok EIPC_SESSION_ID_MAX (ms_session_id m)
     \<and> c_field_ok EIPC_REQUEST_ID_MAX (ms_request_id m) \<and> c_field_ok EIPC_CAPABILITY_MAX (ms_capability m)
     \<and> length (ms_payload m) = EIPC_MAX_PAYLOAD \<and> unat (ms_payload_len m) \<le> EIPC_MAX_PAYLOAD"

definition msg_content :: "eipc_message_t \<Rightarrow> byte \<times> bytes" where
  "msg_content m = (ms_msg_type m, take (unat (ms_payload_len m)) (ms_payload m))"

lemma copy_total:
  assumes "copy = copy_str \<or> copy = (\<lambda>dst src n. c_strncpy dst src (n - 1))" and "c_field_ok n src"
  shows "\<exists>b. copy (replicate n 0) src n = Some b \<and> c_field_ok n b"
proof -
  have n: "0 < n" using assms(2) by (cases src) (auto simp: c_field_ok_def)
  obtain b where b: "c_strncpy (replicate n 0) src (n - 1) = Some b" "length b = n"
    using copy_str_total(2) [OF assms(2) order_refl, of "replicate n 0"] by auto
  have "0 \<in> set b" using b(1) n by (auto simp: c_strncpy_def Let_def split: if_splits)
  with b show ?thesis using assms(1) copy_str_total(1) [OF assms(2) order_refl, of "replicate n 0"] by (auto simp: c_field_ok_def)
qed

lemma fill_message_total:
  assumes "copy = copy_str \<or> copy = (\<lambda>dst src n. c_strncpy dst src (n - 1))" and "c_fits g" and "c_header_typed hdr"
  shows "\<exists>m. fill_message copy (c_frame g) hdr = Some (EIPC_OK, m) \<and> c_message_typed m \<and> msg_content m = (f_MsgType g, f_Payload g)"
proof -
  have len: "unat (of_nat (length (f_Payload g)) :: 32 word) = length (f_Payload g)" "length (f_Payload g) \<le> EIPC_MAX_PAYLOAD"
    using assms(2) c_fits_lengths(2) by (auto simp: c_fits_def)
  have p: "c_memcpy (replicate EIPC_MAX_PAYLOAD 0) 0 (overwrite (replicate EIPC_MAX_PAYLOAD 0) 0 (f_Payload g)) 0 (length (f_Payload g)) =
      Some (overwrite (replicate EIPC_MAX_PAYLOAD 0) 0 (f_Payload g))" using len(2) by (simp add: c_memcpy_eq)
  note fields = assms(3) [unfolded c_header_typed_def]
  obtain a b c d where "copy (replicate EIPC_SERVICE_ID_MAX 0) (ch_service_id hdr) EIPC_SERVICE_ID_MAX = Some a" "c_field_ok EIPC_SERVICE_ID_MAX a"
    "copy (replicate EIPC_SESSION_ID_MAX 0) (ch_session_id hdr) EIPC_SESSION_ID_MAX = Some b" "c_field_ok EIPC_SESSION_ID_MAX b"
    "copy (replicate EIPC_REQUEST_ID_MAX 0) (ch_request_id hdr) EIPC_REQUEST_ID_MAX = Some c" "c_field_ok EIPC_REQUEST_ID_MAX c"
    "copy (replicate EIPC_CAPABILITY_MAX 0) (ch_capability hdr) EIPC_CAPABILITY_MAX = Some d" "c_field_ok EIPC_CAPABILITY_MAX d"
    using copy_total [OF assms(1)] fields by meson
  then show ?thesis
    using len p by (cases "f_Payload g = []") (auto simp: fill_message_def Let_def zero_message_def c_frame_def c_message_typed_def msg_content_def)
qed

text \<open>A frame that passes the check of its MAC, and one whose header fills its array without a zero byte.\<close>

definition authentic :: "bytes \<Rightarrow> frame \<Rightarrow> bool" where
  "authentic key g \<longleftrightarrow> (has_flag (f_Flags g) FlagHMAC \<longrightarrow> Verify key (SignableBytes g) (f_MAC g))"

definition unterminated :: "frame \<Rightarrow> bool" where
  "unterminated g \<longleftrightarrow> length (f_Header g) = EIPC_MAX_HEADER \<and> 0 \<notin> set (f_Header g)"

lemma header_terminated: "c_fits g \<Longrightarrow> 0 \<in> set (cf_header (c_frame g)) \<longleftrightarrow> \<not> unterminated g"
  by (auto simp: c_frame_def overwrite_def unterminated_def c_fits_def)

lemma read_header_total:
  assumes "copy = copy_str \<or> copy = (\<lambda>dst src n. c_strncpy dst src (n - 1))" and "c_fits g" and "\<not> unterminated g"
  shows "\<exists>h m. eipc_header_from_json (cf_header (c_frame g)) zero_header = Some (EIPC_OK, h) \<and> fill_message copy (c_frame g) h = Some (EIPC_OK, m)
    \<and> c_message_typed m \<and> msg_content m = (f_MsgType g, f_Payload g)"
  using eipc_header_from_json_total [of "cf_header (c_frame g)" zero_header] fill_message_total [OF assms(1,2)] header_terminated [OF assms(2)] assms(3) by blast

abbreviation conn_key :: "eipc_conn_t \<Rightarrow> bytes" where
  "conn_key conn \<equiv> take (unat (cn_hmac_key_len conn)) (cn_hmac_key conn)"

lemma server_receive_cases:
  assumes "cn_sock conn = Some s" and "\<not> nc_closed (sk_conn s)"
  obtains rc f s' where "eipc_transport_recv_frame heap s zero_frame = Some (rc, f, s')" "rc \<noteq> EIPC_OK"
      "eipc_server_receive heap conn msg = Some (rc, msg, conn\<lparr>cn_sock := Some s'\<rparr>)"
  | g s' where "eipc_transport_recv_frame heap s zero_frame = Some (EIPC_OK, c_frame g, s')" "c_fits g" "\<not> authentic (conn_key conn) g"
      "eipc_server_receive heap conn msg = Some (EIPC_ERR_AUTH, msg, conn\<lparr>cn_sock := Some s'\<rparr>)"
  | g s' where "eipc_transport_recv_frame heap s zero_frame = Some (EIPC_OK, c_frame g, s')" "c_fits g" "authentic (conn_key conn) g" "unterminated g"
      "eipc_server_receive heap conn msg = None"
  | g s' m where "eipc_transport_recv_frame heap s zero_frame = Some (EIPC_OK, c_frame g, s')" "c_fits g" "authentic (conn_key conn) g"
      "\<not> unterminated g" "c_message_typed m" "msg_content m = (f_MsgType g, f_Payload g)"
      "eipc_server_receive heap conn msg = Some (EIPC_OK, m, conn\<lparr>cn_sock := Some s', cn_sequence := cn_sequence conn + 1\<rparr>)"
proof -
  obtain rc f s' where r: "eipc_transport_recv_frame heap s zero_frame = Some (rc, f, s')" using recv_frame_total [OF assms(2)] by blast
  show thesis
  proof (cases "rc = EIPC_OK")
    case False
    then show ?thesis using that(1) [OF r] r assms(1) by (simp add: eipc_server_receive_def Let_def)
  next
    case True
    then obtain g where g: "c_fits g" "f = c_frame g" using recv_frame_c_fits [OF assms(2)] r by blast
    have mac: "check_mac heap (cn_hmac_key conn) (cn_hmac_key_len conn) (c_frame g) = Some (if authentic (conn_key conn) g then None else Some EIPC_ERR_AUTH)"
      using check_mac_c_frame [OF g(1)] by (auto simp: authentic_def)
    show ?thesis
    proof (cases "authentic (conn_key conn) g")
      case False
      then show ?thesis using that(2) [of g s'] r True g mac assms(1) by (simp add: eipc_server_receive_def Let_def)
    next
      case auth: True
      show ?thesis
      proof (cases "unterminated g")
        case un: True
        then have "eipc_header_from_json (cf_header (c_frame g)) zero_header = None" using header_terminated [OF g(1)] eipc_header_from_json_None by blast
        then show ?thesis using that(3) [of g s'] r True g mac auth un assms(1) by (simp add: eipc_server_receive_def Let_def)
      next
        case False
        obtain h m where "eipc_header_from_json (cf_header (c_frame g)) zero_header = Some (EIPC_OK, h)"
          "fill_message (\<lambda>dst src n. c_strncpy dst src (n - 1)) (c_frame g) h = Some (EIPC_OK, m)" "c_message_typed m"
          "msg_content m = (f_MsgType g, f_Payload g)" using read_header_total [OF _ g(1) False] by blast
        then show ?thesis using that(4) [of g s' m] r True g mac auth False assms(1) by (simp add: eipc_server_receive_def Let_def)
      qed
    qed
  qed
qed

section \<open>Sending\<close>

definition server_header :: "Header \<Rightarrow> 64 word \<Rightarrow> 64 word \<Rightarrow> Header" where
  "server_header h seq now = h\<lparr>hd_Sequence := seq, hd_Timestamp := string_of_bytes (itoa (unat now)), hd_PayloadFormat := 0, hd_Route := []\<rparr>"

lemma seconds_text: "c_text EIPC_TIMESTAMP_MAX (string_of_bytes (itoa (unat (now :: 64 word))))" "list_all html_safe (itoa n)"
proof -
  have "html_safe_header (call_header ''c'' 0 \<lparr>ck_id_time = 0, ck_rand = 0, ck_time = now\<rparr> [])" "c_header_ok (call_header ''c'' 0 \<lparr>ck_id_time = 0, ck_rand = 0, ck_time = now\<rparr> [])"
    by (rule call_header_ok, simp_all add: service_ok_def bytes_of_string_def html_safe_def c_limits header_keys_def)+
  then show "c_text EIPC_TIMESTAMP_MAX (string_of_bytes (itoa (unat now)))" by (simp add: c_header_ok_def call_header_def)
  show "list_all html_safe (itoa n)" by (rule itoa_safe)
qed

lemma server_frame_text:
  assumes "c_header_ok h"
  shows "server_frame t (c_header h) = Some (EIPC_OK, (c_frame (call_frame key t (obj_text (cvals (c_members h))) []))\<lparr>cf_mac := replicate EIPC_MAC_SIZE 0\<rparr>)"
proof -
  let ?t = "obj_text (cvals (c_members h))"
  have len: "length ?t < EIPC_MAX_HEADER" by (rule c_header_text_length [OF assms])
  have json: "eipc_header_to_json (c_header h) (replicate EIPC_MAX_HEADER 0) EIPC_MAX_HEADER 0 =
      Some (EIPC_OK, ?t @ 0 # drop (length ?t + 1) (replicate EIPC_MAX_HEADER 0), length ?t)"
    using len by (simp add: c_header_text [OF assms] print_to_fits overwrite_front)
  have copy: "c_memcpy (replicate EIPC_MAX_HEADER 0) 0 (?t @ r) 0 (length ?t) = Some (overwrite (replicate EIPC_MAX_HEADER 0) 0 ?t)" for r
    using len by (simp add: c_memcpy_eq)
  show ?thesis
    by (simp add: server_frame_def json copy Let_def zero_frame_def c_frame_def EIPC_PROTOCOL_VER_def ProtocolVersion_def EIPC_FLAG_HMAC_def FlagHMAC_def)
qed

lemma server_send_message_open:
  assumes "c_header_ok (server_header h (cn_sequence conn + 1) now)" and "length (f_Payload g) \<le> EIPC_MAX_PAYLOAD"
    and "cn_sock conn = Some s" and "sock_open s"
  shows "\<exists>s'. eipc_server_send_message heap now conn (c_message g h) =
      Some (EIPC_OK, conn\<lparr>cn_sequence := cn_sequence conn + 1, cn_sock := Some s'\<rparr>) \<and> sock_open s'
    \<and> sk_conn s' = (sk_conn s)\<lparr>nc_out := nc_out (sk_conn s) @ conn_wire (call_frame (conn_key conn) (f_MsgType g)
        (obj_text (cvals (c_members (server_header h (cn_sequence conn + 1) now)))) (f_Payload g))\<rparr>"
proof -
  let ?h = "server_header h (cn_sequence conn + 1) now"
  let ?f = "call_frame (conn_key conn) (f_MsgType g) (obj_text (cvals (c_members ?h)))"
  have strs: "c_text EIPC_SERVICE_ID_MAX (hd_ServiceID h)" "c_text EIPC_SESSION_ID_MAX (hd_SessionID h)" "c_text EIPC_REQUEST_ID_MAX (hd_RequestID h)"
    "c_text EIPC_CAPABILITY_MAX (hd_Capability h)" "c_text EIPC_TIMESTAMP_MAX (string_of_bytes (itoa (unat now)))"
    using assms(1) by (simp_all add: c_header_ok_def server_header_def)
  have copy: "c_strncpy (replicate n 0) (c_array n (bytes_of_string s)) (n - Suc 0) = Some (c_array n (bytes_of_string s))" if "c_text n s" for n s
    using strncpy_array that by (simp add: c_text_def plain_def)
  have now: "eipc_timestamp_now now (replicate EIPC_TIMESTAMP_MAX 0) EIPC_TIMESTAMP_MAX = Some (c_array EIPC_TIMESTAMP_MAX (itoa (unat now)))"
    using snprintf_array [of "itoa (unat now)" EIPC_TIMESTAMP_MAX] strs(5) by (simp add: eipc_timestamp_now_def c_text_def c_limits)
  have hdr: "zero_header\<lparr>ch_service_id := c_array EIPC_SERVICE_ID_MAX (bytes_of_string (hd_ServiceID h)),
      ch_session_id := c_array EIPC_SESSION_ID_MAX (bytes_of_string (hd_SessionID h)), ch_request_id := c_array EIPC_REQUEST_ID_MAX (bytes_of_string (hd_RequestID h)),
      ch_sequence := cn_sequence conn + 1, ch_timestamp := c_array EIPC_TIMESTAMP_MAX (itoa (unat now)), ch_priority := hd_Priority h,
      ch_capability := c_array EIPC_CAPABILITY_MAX (bytes_of_string (hd_Capability h)), ch_payload_format := EIPC_PAYLOAD_JSON\<rparr> = c_header ?h"
    by (simp add: zero_header_def c_header_def server_header_def EIPC_PAYLOAD_JSON_def c_array_def [of _ "[]"])
  have zero: "ch_service_id zero_header = replicate EIPC_SERVICE_ID_MAX 0" "ch_session_id zero_header = replicate EIPC_SESSION_ID_MAX 0"
    "ch_request_id zero_header = replicate EIPC_REQUEST_ID_MAX 0" "ch_timestamp zero_header = replicate EIPC_TIMESTAMP_MAX 0"
    "ch_capability zero_header = replicate EIPC_CAPABILITY_MAX 0" by (simp_all add: zero_header_def)
  have len: "unat (of_nat (length (f_Payload g)) :: 32 word) = length (f_Payload g)"
    using assms(2) by (simp add: EIPC_MAX_PAYLOAD_def unat_of_nat_small)
  let ?base = "(c_frame (?f []))\<lparr>cf_mac := replicate EIPC_MAC_SIZE 0\<rparr>"
  have pay: "(if length (f_Payload g) > 0 then do { p \<leftarrow> c_memcpy (cf_payload ?base) 0 (overwrite (replicate EIPC_MAX_PAYLOAD 0) 0 (f_Payload g)) 0 (length (f_Payload g));
        Some (?base\<lparr>cf_payload := p, cf_payload_len := of_nat (length (f_Payload g))\<rparr>) } else Some ?base) =
      Some ((c_frame (?f (f_Payload g)))\<lparr>cf_mac := replicate EIPC_MAC_SIZE 0\<rparr>)"
    using assms(2) by (auto simp: c_memcpy_eq c_frame_def)
  have fits: "c_fits (?f (f_Payload g))" using c_header_text_length [OF assms(1)] assms(2) by (intro call_frame_fits) auto
  obtain s' where "sign_and_send heap (cn_hmac_key conn) (cn_hmac_key_len conn) (Some s) ((c_frame (?f (f_Payload g)))\<lparr>cf_mac := replicate EIPC_MAC_SIZE 0\<rparr>) =
      Some (EIPC_OK, Some s')" "sock_open s'" "sk_conn s' = (sk_conn s)\<lparr>nc_out := nc_out (sk_conn s) @ conn_wire (?f (f_Payload g))\<rparr>"
    using sign_and_send_open [OF fits call_frame_MAC assms(4)] by blast
  then show ?thesis
    using pay assms(2,3) len
    by (intro exI [of _ s'], cases "f_Payload g = []") (auto simp: bind_eq_Some_conv eipc_server_send_message_def Let_def c_message_def zero copy [OF strs(1)] copy [OF strs(2)] copy [OF strs(3)]
        copy [OF strs(4)] now hdr server_frame_text [OF assms(1), of _ "conn_key conn"])
qed

text \<open>A frame without MAC whose header is 1024 letters.\<close>

definition long_header_frame :: frame where
  "long_header_frame = \<lparr>f_Version = ProtocolVersion, f_MsgType = EIPC_MSG_CHAT, f_Flags = 0, f_Header = replicate EIPC_MAX_HEADER 0x61,
     f_Payload = [], f_MAC = []\<rparr>"

section \<open>Properties\<close>





text \<open>The C server keeps no record of sequence numbers: whoever sends a recorded frame again is served again.\<close>

theorem c_server_accepts_replay:
  assumes "cn_sock conn = Some s" and "\<not> nc_closed (sk_conn s)" and "c_fits g" and "authentic (conn_key conn) g" and "\<not> unterminated g"
    and "sk_stream s = conn_wire g @ conn_wire g @ rest"
  shows "\<exists>m conn1 conn2. eipc_server_receive (\<lambda>_. True) conn zero_message = Some (EIPC_OK, m, conn1)
    \<and> eipc_server_receive (\<lambda>_. True) conn1 zero_message = Some (EIPC_OK, m, conn2)"
proof -
  obtain s1 where s1: "eipc_transport_recv_frame (\<lambda>_. True) s zero_frame = Some (EIPC_OK, c_frame g, s1)" "sk_stream s1 = conn_wire g @ rest" "same_sender s s1"
    using recv_frame_wire [OF assms(2,3,6), of "\<lambda>_. True"] by blast
  have "\<not> nc_closed (sk_conn s1)" using s1(3) assms(2) by (simp add: same_sender_def)
  then obtain s2 where s2: "eipc_transport_recv_frame (\<lambda>_. True) s1 zero_frame = Some (EIPC_OK, c_frame g, s2)"
    using recv_frame_wire [OF _ assms(3) s1(2), of "\<lambda>_. True"] by blast
  obtain h m where "eipc_header_from_json (cf_header (c_frame g)) zero_header = Some (EIPC_OK, h)"
    "fill_message (\<lambda>dst src n. c_strncpy dst src (n - 1)) (c_frame g) h = Some (EIPC_OK, m)" using read_header_total [OF _ assms(3,5)] by blast
  moreover have "check_mac (\<lambda>_. True) (cn_hmac_key conn) (cn_hmac_key_len conn) (c_frame g) = Some None"
    using check_mac_c_frame [OF assms(3)] assms(4) by (auto simp: authentic_def)
  ultimately show ?thesis using assms(1) s1(1) s2 by (simp add: eipc_server_receive_def Let_def)
qed

end
