(* ===== verification/CEasy.thy ===== *)
theory CEasy
  imports CServer
begin

text \<open>
  \<^verbatim>\<open>sdk/c/src/eipc_easy.c\<close>: the convenience layer of the C SDK, with a handle that owns a client, or a server with one connection, and
  counts what it does. \<open>mem\<close> is whether the handle can be allocated; a handle that is closed is freed, and what is given here is its last state.
  The statistics printed by the functions that close are left out.
\<close>

section \<open>Handles\<close>

record eipc_easy_stats_t =
  st_sent_count :: "64 word"
  st_received_count :: "64 word"
  st_ack_count :: "64 word"
  st_error_count :: "64 word"

definition zero_stats :: eipc_easy_stats_t where
  "zero_stats = \<lparr>st_sent_count = 0, st_received_count = 0, st_ack_count = 0, st_error_count = 0\<rparr>"

record eipc_easy_client =
  ec_client :: eipc_client_t
  ec_connected :: bool
  ec_stats :: eipc_easy_stats_t

record eipc_easy_server =
  es_server :: eipc_server_t
  es_conn :: eipc_conn_t
  es_listening :: bool
  es_has_client :: bool
  es_stats :: eipc_easy_stats_t

definition count_sent :: "eipc_easy_stats_t \<Rightarrow> eipc_easy_stats_t" where
  "count_sent st = st\<lparr>st_sent_count := st_sent_count st + 1\<rparr>"

definition count_received :: "eipc_easy_stats_t \<Rightarrow> eipc_easy_stats_t" where
  "count_received st = st\<lparr>st_received_count := st_received_count st + 1\<rparr>"

definition count_ack :: "eipc_easy_stats_t \<Rightarrow> eipc_easy_stats_t" where
  "count_ack st = st\<lparr>st_ack_count := st_ack_count st + 1\<rparr>"

definition count_error :: "eipc_easy_stats_t \<Rightarrow> eipc_easy_stats_t" where
  "count_error st = st\<lparr>st_error_count := st_error_count st + 1\<rparr>"

section \<open>The client\<close>

definition eipc_easy_connect :: "bool \<Rightarrow> c_os \<Rightarrow> bytes \<Rightarrow> bytes \<Rightarrow> bytes \<Rightarrow> (eipc_status_t \<times> eipc_easy_client option) option" where
  "eipc_easy_connect mem os addr hkey service_id =
     (if \<not> mem then Some (EIPC_ERR_NOMEM, None)
      else do {
        (rc, c) \<leftarrow> eipc_client_init service_id;
        if rc \<noteq> EIPC_OK then Some (rc, None)
        else do {
          (rc, c) \<leftarrow> eipc_client_connect os c addr hkey;
          Some (if rc \<noteq> EIPC_OK then (rc, None)
                else (EIPC_OK, Some \<lparr>ec_client = c, ec_connected = True, ec_stats = zero_stats\<rparr>))
        } })"

text \<open>What the functions that send have in common: the test of the handle and the count of the result.\<close>

definition easy_send :: "(eipc_client_t \<Rightarrow> (eipc_status_t \<times> eipc_client_t) option) \<Rightarrow> eipc_easy_client \<Rightarrow> (eipc_status_t \<times> eipc_easy_client) option" where
  "easy_send snd' h =
     (if \<not> ec_connected h then Some (EIPC_ERR_INVALID, h)
      else do {
        (rc, c) \<leftarrow> snd' (ec_client h);
        Some (rc, h\<lparr>ec_client := c, ec_stats := (if rc = EIPC_OK then count_sent else count_error) (ec_stats h)\<rparr>)
      })"

definition eipc_easy_send_intent :: "(nat \<Rightarrow> bool) \<Rightarrow> c_clock \<Rightarrow> eipc_easy_client \<Rightarrow> bytes \<Rightarrow> float \<Rightarrow> (eipc_status_t \<times> eipc_easy_client) option" where
  "eipc_easy_send_intent heap ck h intent confidence = easy_send (\<lambda>c. eipc_client_send_intent heap ck c intent confidence) h"

definition eipc_easy_send_tool_request ::
  "(nat \<Rightarrow> bool) \<Rightarrow> c_clock \<Rightarrow> eipc_easy_client \<Rightarrow> bytes \<Rightarrow> eipc_kv_t list option \<Rightarrow> 32 word \<Rightarrow> (eipc_status_t \<times> eipc_easy_client) option" where
  "eipc_easy_send_tool_request heap ck h tool args arg_count = easy_send (\<lambda>c. eipc_client_send_tool_request heap ck c tool args arg_count) h"

definition eipc_easy_send_chat :: "(nat \<Rightarrow> bool) \<Rightarrow> c_clock \<Rightarrow> eipc_easy_client \<Rightarrow> eipc_chat_request_t \<Rightarrow> (eipc_status_t \<times> eipc_easy_client) option" where
  "eipc_easy_send_chat heap ck h req = easy_send (\<lambda>c. eipc_client_send_chat heap ck c req) h"

definition eipc_easy_send_complete :: "(nat \<Rightarrow> bool) \<Rightarrow> c_clock \<Rightarrow> eipc_easy_client \<Rightarrow> bytes \<Rightarrow> bytes option \<Rightarrow> (eipc_status_t \<times> eipc_easy_client) option" where
  "eipc_easy_send_complete heap ck h prompt session_id = easy_send (\<lambda>c. eipc_client_send_complete heap ck c prompt session_id) h"

definition eipc_easy_receive :: "(nat \<Rightarrow> bool) \<Rightarrow> eipc_easy_client \<Rightarrow> eipc_message_t \<Rightarrow> (eipc_status_t \<times> eipc_message_t \<times> eipc_easy_client) option" where
  "eipc_easy_receive heap h msg =
     (if \<not> ec_connected h then Some (EIPC_ERR_INVALID, msg, h)
      else do {
        (rc, msg, c) \<leftarrow> eipc_client_receive heap (ec_client h) msg;
        Some (rc, msg, h\<lparr>ec_client := c, ec_stats := (if rc = EIPC_OK then count_received else count_error) (ec_stats h)\<rparr>)
      })"

definition eipc_easy_recv_ack :: "(nat \<Rightarrow> bool) \<Rightarrow> eipc_easy_client \<Rightarrow> eipc_ack_t \<Rightarrow> (eipc_status_t \<times> eipc_ack_t \<times> eipc_easy_client) option" where
  "eipc_easy_recv_ack heap h ack =
     (if \<not> ec_connected h then Some (EIPC_ERR_INVALID, ack, h)
      else do {
        (rc, msg, c) \<leftarrow> eipc_client_receive heap (ec_client h) zero_message;
        let h = h\<lparr>ec_client := c\<rparr>;
        if rc \<noteq> EIPC_OK then Some (rc, ack, h\<lparr>ec_stats := count_error (ec_stats h)\<rparr>)
        else if ms_msg_type msg \<noteq> EIPC_MSG_ACK then Some (EIPC_ERR_PROTOCOL, ack, h\<lparr>ec_stats := count_error (ec_stats h)\<rparr>)
        else do {
          (rc, ack) \<leftarrow> eipc_ack_from_json (ms_payload msg) ack;
          Some (if rc \<noteq> EIPC_OK then (rc, ack, h\<lparr>ec_stats := count_error (ec_stats h)\<rparr>)
                else (EIPC_OK, ack, h\<lparr>ec_stats := count_ack (ec_stats h)\<rparr>))
        } })"

definition eipc_easy_close :: "eipc_easy_client \<Rightarrow> eipc_easy_client" where
  "eipc_easy_close h = (if ec_connected h then h\<lparr>ec_client := eipc_client_close (ec_client h), ec_connected := False\<rparr> else h)"

definition eipc_easy_client_stats :: "eipc_easy_client option \<Rightarrow> eipc_easy_stats_t" where
  "eipc_easy_client_stats h = (case h of None \<Rightarrow> zero_stats | Some h \<Rightarrow> ec_stats h)"

section \<open>The server\<close>

definition zero_conn :: eipc_conn_t where
  "zero_conn = \<lparr>cn_sock = None, cn_hmac_key = replicate EIPC_MAC_SIZE 0, cn_hmac_key_len = 0, cn_sequence = 0, cn_remote_addr = replicate 128 0\<rparr>"

definition eipc_easy_listen :: "bool \<Rightarrow> c_os \<Rightarrow> bytes \<Rightarrow> bytes \<Rightarrow> (eipc_status_t \<times> eipc_easy_server option) option" where
  "eipc_easy_listen mem os addr hkey =
     (if \<not> mem then Some (EIPC_ERR_NOMEM, None)
      else case eipc_server_init of (rc, s) \<Rightarrow>
        if rc \<noteq> EIPC_OK then Some (rc, None)
        else do {
          (rc, s) \<leftarrow> eipc_server_listen os s addr hkey;
          Some (if rc \<noteq> EIPC_OK then (rc, None)
                else (EIPC_OK, Some \<lparr>es_server = s, es_conn = zero_conn, es_listening = True, es_has_client = False, es_stats = zero_stats\<rparr>))
        })"

definition eipc_easy_accept :: "c_os \<Rightarrow> eipc_easy_server \<Rightarrow> (eipc_status_t \<times> eipc_easy_server) option" where
  "eipc_easy_accept os h =
     (if \<not> es_listening h then Some (EIPC_ERR_INVALID, h)
      else do {
        (rc, conn) \<leftarrow> eipc_server_accept os (es_server h) (es_conn h);
        let h = h\<lparr>es_conn := conn\<rparr>;
        Some (if rc \<noteq> EIPC_OK then (rc, h\<lparr>es_stats := count_error (es_stats h)\<rparr>) else (EIPC_OK, h\<lparr>es_has_client := True\<rparr>))
      })"

text \<open>Receiving an event of the given type with its reader, as both functions that receive do.\<close>

definition easy_recv ::
  "byte \<Rightarrow> (bytes \<Rightarrow> 'e \<Rightarrow> (eipc_status_t \<times> 'e) option) \<Rightarrow> (nat \<Rightarrow> bool) \<Rightarrow> eipc_easy_server \<Rightarrow> 'e \<Rightarrow> (eipc_status_t \<times> 'e \<times> eipc_easy_server) option" where
  "easy_recv msg_type from_json heap h ev =
     (if \<not> es_has_client h then Some (EIPC_ERR_INVALID, ev, h)
      else do {
        (rc, msg, conn) \<leftarrow> eipc_server_receive heap (es_conn h) zero_message;
        let h = h\<lparr>es_conn := conn\<rparr>;
        if rc \<noteq> EIPC_OK then Some (rc, ev, h\<lparr>es_stats := count_error (es_stats h)\<rparr>)
        else if ms_msg_type msg \<noteq> msg_type then Some (EIPC_ERR_PROTOCOL, ev, h\<lparr>es_stats := count_error (es_stats h)\<rparr>)
        else do {
          (rc, ev) \<leftarrow> from_json (ms_payload msg) ev;
          Some (if rc \<noteq> EIPC_OK then (rc, ev, h\<lparr>es_stats := count_error (es_stats h)\<rparr>)
                else (EIPC_OK, ev, h\<lparr>es_stats := count_received (es_stats h)\<rparr>))
        } })"

definition eipc_easy_recv_intent :: "(nat \<Rightarrow> bool) \<Rightarrow> eipc_easy_server \<Rightarrow> eipc_intent_t \<Rightarrow> (eipc_status_t \<times> eipc_intent_t \<times> eipc_easy_server) option" where
  "eipc_easy_recv_intent = easy_recv EIPC_MSG_INTENT eipc_intent_from_json"

definition eipc_easy_recv_chat ::
  "(nat \<Rightarrow> bool) \<Rightarrow> eipc_easy_server \<Rightarrow> eipc_chat_request_t \<Rightarrow> (eipc_status_t \<times> eipc_chat_request_t \<times> eipc_easy_server) option" where
  "eipc_easy_recv_chat = easy_recv EIPC_MSG_CHAT eipc_chat_request_from_json"

text \<open>The functions that send: the test of the handle and the count of the result.\<close>

definition count_reply :: "(eipc_easy_stats_t \<Rightarrow> eipc_easy_stats_t) \<Rightarrow> eipc_easy_server \<Rightarrow> eipc_status_t \<times> eipc_conn_t \<Rightarrow> eipc_status_t \<times> eipc_easy_server" where
  "count_reply ok h r = (case r of (rc, conn) \<Rightarrow> (rc, h\<lparr>es_conn := conn, es_stats := (if rc = EIPC_OK then ok else count_error) (es_stats h)\<rparr>))"

definition eipc_easy_send_ack :: "(nat \<Rightarrow> bool) \<Rightarrow> c_clock \<Rightarrow> eipc_easy_server \<Rightarrow> bytes option \<Rightarrow> bytes \<Rightarrow> (eipc_status_t \<times> eipc_easy_server) option" where
  "eipc_easy_send_ack heap ck h request_id status =
     (if \<not> es_has_client h then Some (EIPC_ERR_INVALID, h)
      else do {
        missing \<leftarrow> (case request_id of None \<Rightarrow> Some True | Some r \<Rightarrow> map_option (\<lambda>c. c = 0) (c_get r 0));
        rid \<leftarrow> (if missing then map_option Some (eipc_generate_request_id (ck_id_time ck) (ck_rand ck) (replicate EIPC_REQUEST_ID_MAX 0) EIPC_REQUEST_ID_MAX)
               else Some request_id);
        r \<leftarrow> eipc_server_send_ack heap (ck_time ck) (es_conn h) rid status;
        Some (count_reply count_ack h r)
      })"

text \<open>\<open>if (src) strncpy(dst, src, sizeof(dst) - 1);\<close> on an array of zeroes.\<close>

definition copy_opt :: "nat \<Rightarrow> bytes option \<Rightarrow> bytes option" where
  "copy_opt n src = (case src of None \<Rightarrow> Some (replicate n 0) | Some b \<Rightarrow> c_strncpy (replicate n 0) b (n - 1))"

definition eipc_easy_send_chat_response ::
  "(nat \<Rightarrow> bool) \<Rightarrow> 64 word \<Rightarrow> eipc_easy_server \<Rightarrow> bytes option \<Rightarrow> bytes \<Rightarrow> bytes option \<Rightarrow> 32 word \<Rightarrow> (eipc_status_t \<times> eipc_easy_server) option" where
  "eipc_easy_send_chat_response heap now h session_id response model tokens_used =
     (if \<not> es_has_client h then Some (EIPC_ERR_INVALID, h)
      else do {
        sid \<leftarrow> copy_opt EIPC_SESSION_ID_MAX session_id;
        resp \<leftarrow> copy_opt EIPC_MAX_PAYLOAD (Some response);
        mdl \<leftarrow> copy_opt 64 model;
        (rc, payload_json, _) \<leftarrow> eipc_chat_response_to_json \<lparr>cr_session_id = sid, cr_response = resp, cr_model = mdl, cr_tokens_used = tokens_used\<rparr>
            (replicate EIPC_MAX_PAYLOAD 0) EIPC_MAX_PAYLOAD 0;
        if rc \<noteq> EIPC_OK then Some (rc, h\<lparr>es_stats := count_error (es_stats h)\<rparr>)
        else do {
          source \<leftarrow> copy_opt EIPC_SERVICE_ID_MAX (Some (bytes_of_string ''eipc-easy'' @ [0]));
          session \<leftarrow> copy_opt EIPC_SESSION_ID_MAX session_id;
          p \<leftarrow> c_str payload_json;
          payload \<leftarrow> c_memcpy (replicate EIPC_MAX_PAYLOAD 0) 0 payload_json 0 (length p);
          r \<leftarrow> eipc_server_send_message heap now (es_conn h) (zero_message\<lparr>ms_msg_type := EIPC_MSG_CHAT, ms_version := EIPC_PROTOCOL_VER,
              ms_source := source, ms_session_id := session, ms_payload_len := of_nat (length p), ms_payload := payload\<rparr>);
          Some (count_reply count_sent h r)
        } })"

definition eipc_easy_close_server :: "eipc_easy_server \<Rightarrow> eipc_easy_server" where
  "eipc_easy_close_server h =
     (let h = (if es_has_client h then h\<lparr>es_conn := eipc_conn_close (es_conn h), es_has_client := False\<rparr> else h)
      in if es_listening h then h\<lparr>es_server := eipc_server_close (es_server h), es_listening := False\<rparr> else h)"

definition eipc_easy_server_stats :: "eipc_easy_server option \<Rightarrow> eipc_easy_stats_t" where
  "eipc_easy_server_stats h = (case h of None \<Rightarrow> zero_stats | Some h \<Rightarrow> es_stats h)"

section \<open>An intent on its way\<close>

lemma server_receive_c_fits:
  assumes "cn_sock conn = Some s" and "\<not> nc_closed (sk_conn s)" and "c_fits g" and "sk_stream s = conn_wire g @ rest" and "heap (length (wire g))"
    and "authentic (conn_key conn) g" and "c_header_ok h" and "eipc_header_from_json (cf_header (c_frame g)) zero_header = Some (EIPC_OK, c_header h)"
  shows "\<exists>conn'. eipc_server_receive heap conn msg = Some (EIPC_OK, c_message g h, conn')"
proof -
  obtain s' where "eipc_transport_recv_frame heap s zero_frame = Some (EIPC_OK, c_frame g, s')"
    using recv_frame_wire [OF assms(2-4), of heap zero_frame] assms(5) by blast
  moreover have "check_mac heap (cn_hmac_key conn) (cn_hmac_key_len conn) (c_frame g) = Some None"
    using check_mac_c_frame [OF assms(3)] assms(6) by (auto simp: authentic_def)
  moreover have "fill_message (\<lambda>dst src n. c_strncpy dst src (n - 1)) (c_frame g) (c_header h) = Some (EIPC_OK, c_message g h)"
    by (rule fill_message_c_header [OF assms(3,7)]) simp
  ultimately show ?thesis using assms(1,8) by (simp add: eipc_server_receive_def Let_def)
qed

lemma wire_frame_received:
  assumes "service_ok sid" and "writable sid call" and "cn_sock conn = Some s" and "\<not> nc_closed (sk_conn s)" and "conn_key conn = key"
    and "sk_stream s = conn_wire (wire_frame key sid seq ck call) @ rest"
  shows "\<exists>m conn'. eipc_server_receive (\<lambda>_. True) conn msg = Some (EIPC_OK, m, conn') \<and> ms_msg_type m = call_type call
    \<and> (\<exists>r. ms_payload m = the (call_payload (c_array EIPC_SERVICE_ID_MAX (bytes_of_string sid)) call) @ r \<and> set r \<subseteq> {0} \<and> length (ms_payload m) = EIPC_MAX_PAYLOAD)"
proof -
  let ?g = "wire_frame key sid seq ck call" and ?h = "call_header sid seq ck (call_capability call)"
  have fits: "c_fits ?g" by (rule wire_frame_ok(1) [OF assms(1,2)])
  have ok: "c_header_ok ?h" by (rule call_header_ok(1) [OF assms(1) capability_in])
  have "\<exists>r. cf_header (c_frame ?g) = obj_text (cvals (c_members ?h)) @ 0 # r"
    using c_header_text_length [OF ok] by (cases "EIPC_MAX_HEADER - length (obj_text (cvals (c_members ?h)))") (simp_all add: c_frame_def wire_frame_def overwrite_def)
  then have hdr: "eipc_header_from_json (cf_header (c_frame ?g)) zero_header = Some (EIPC_OK, c_header ?h)" using header_from_c_text [OF ok] by auto
  have "authentic (conn_key conn) ?g" unfolding assms(5) authentic_def by (simp add: wire_frame_def call_frame_MAC)
  from server_receive_c_fits [OF assms(3,4) fits assms(6) _ this ok hdr, of "\<lambda>_. True" msg] show ?thesis
    using fits by (auto simp: c_message_def wire_frame_def overwrite_def c_fits_def)
qed


definition example_client :: eipc_easy_client where
  "example_client = \<lparr>ec_client = \<lparr>cc_sock = Some example_socket, cc_service_id = c_array EIPC_SERVICE_ID_MAX (bytes_of_string ''nia.min''),
     cc_hmac_key = c_array EIPC_MAC_SIZE [1, 2], cc_hmac_key_len = 2, cc_sequence = 0, cc_connected = True\<rparr>, ec_connected = True, ec_stats = zero_stats\<rparr>"

definition example_server :: "bytes \<Rightarrow> eipc_easy_server" where
  "example_server b = \<lparr>es_server = snd eipc_server_init, es_conn = \<lparr>cn_sock = Some \<lparr>sk_conn = open_conn [b], sk_takes = []\<rparr>,
     cn_hmac_key = c_array EIPC_MAC_SIZE [1, 2], cn_hmac_key_len = 2, cn_sequence = 0, cn_remote_addr = []\<rparr>,
     es_listening = True, es_has_client = True, es_stats = zero_stats\<rparr>"


section \<open>The statistics\<close>

text \<open>Every operation on a live handle is counted once, as a success of its kind or as an error.\<close>

definition total :: "eipc_easy_stats_t \<Rightarrow> 64 word" where
  "total st = st_sent_count st + st_received_count st + st_ack_count st + st_error_count st"

lemmas counts = count_sent_def count_received_def count_ack_def count_error_def total_def

definition counted :: "eipc_status_t \<Rightarrow> eipc_easy_stats_t \<Rightarrow> eipc_easy_stats_t \<Rightarrow> bool" where
  "counted rc st st' \<longleftrightarrow> total st' = total st + 1 \<and> st_error_count st' = st_error_count st + (if rc = EIPC_OK then 0 else 1)"

lemma counted_simps [simp]:
  "counted EIPC_OK st (count_sent st)" "counted EIPC_OK st (count_received st)" "counted EIPC_OK st (count_ack st)"
  "rc \<noteq> EIPC_OK \<Longrightarrow> counted rc st (count_error st)"
  by (simp_all add: counted_def counts)

lemma count_distinct [simp]: "count_sent st \<noteq> count_error st" "count_received st \<noteq> count_error st" "count_ack st \<noteq> count_error st"
  by (cases st; simp add: counts)+

lemma easy_send_counted:
  "easy_send f h = Some (rc, h') \<Longrightarrow> ec_connected h \<Longrightarrow> counted rc (ec_stats h) (ec_stats h')"
  by (auto simp: easy_send_def bind_eq_Some_conv)

lemma easy_receive_counted:
  "eipc_easy_receive heap h msg = Some (rc, m, h') \<Longrightarrow> ec_connected h \<Longrightarrow> counted rc (ec_stats h) (ec_stats h')"
  "eipc_easy_recv_ack heap h ack = Some (rc, a, h') \<Longrightarrow> ec_connected h \<Longrightarrow> counted rc (ec_stats h) (ec_stats h')"
  "easy_recv t reader heap sv ev = Some (rc, ev', sv') \<Longrightarrow> es_has_client sv \<Longrightarrow> counted rc (es_stats sv) (es_stats sv')"
  by (cases h; cases sv; auto simp: eipc_easy_receive_def eipc_easy_recv_ack_def easy_recv_def Let_def bind_eq_Some_conv split: if_split_asm)+

lemma easy_reply_counted:
  "eipc_easy_send_ack heap ck sv rid status = Some (rc, sv') \<Longrightarrow> es_has_client sv \<Longrightarrow> counted rc (es_stats sv) (es_stats sv')"
  "eipc_easy_send_chat_response heap now sv sid resp model n = Some (rc, sv') \<Longrightarrow> es_has_client sv \<Longrightarrow> counted rc (es_stats sv) (es_stats sv')"
  by (cases sv; auto simp: eipc_easy_send_ack_def eipc_easy_send_chat_response_def count_reply_def bind_eq_Some_conv split: if_split_asm prod.splits)+

end
